(* ===== verification/Prelude.thy ===== *)
theory Prelude
  imports Main "HOL-Library.Word" "HOL-Library.Char_ord" "HOL-Library.List_Lexorder"
    "HOL-Library.Product_Lexorder" "HOL-Library.Multiset" "HOL-Library.Code_Target_Nat"
begin

text \<open>
  The shared ground of the development: machine integers and identifiers, the error and outcome
  enumerations of \<^verbatim>\<open>include/fabric_federation/errors.hpp\<close>, the size bounds and the checked
  arithmetic of \<^verbatim>\<open>bounds.hpp\<close>, decimal rendering (\<^verbatim>\<open>std::to_string\<close>), and the
  \<^verbatim>\<open>sort_unique\<close> helper that every canonical collection of the code goes through, with the lemmas
  that make a canonical collection a function of the set of its elements.

  A C++ 128-bit identifier and a 32-byte digest are kept as the words their byte arrays spell in
  big-endian order, so that the lexicographic order of the arrays is the numeric order of the words
  (\<^verbatim>\<open>Codec.thy\<close> gives their bytes). A \<^verbatim>\<open>std::string\<close> is a \<^typ>\<open>string\<close> whose characters are bytes.
\<close>

named_theorems ff_bounds \<open>the numeric bounds of bounds.hpp\<close>
named_theorems codec_ok \<open>when an encoder succeeds\<close>
named_theorems codec_rt \<open>what a decoder returns on the bytes its encoder wrote\<close>
named_theorems wire_simps \<open>wire values of the enumerations\<close>

section \<open>Machine integers, identifiers, digests\<close>

type_synonym u8 = "8 word"
type_synonym u16 = "16 word"
type_synonym u32 = "32 word"
type_synonym u64 = "64 word"
type_synonym bytes = "u8 list"

type_synonym id128 = "128 word"
type_synonym FederationId = id128
type_synonym MemberId = id128
type_synonym FabricDomainId = id128
type_synonym NodeId = id128
type_synonym LeaseId = id128
type_synonym EvidenceId = id128
type_synonym RequestId = id128
type_synonym LineageId = id128

type_synonym Digest = "256 word"

type_synonym Generation = u64
type_synonym Incarnation = u64
type_synonym Epoch = u64
type_synonym Tick = u64
type_synonym Lineage = u64

type_synonym ScopeId = string
type_synonym CapabilityId = string
type_synonym PolicyId = string
type_synonym RuleId = string
type_synonym ConstraintToken = string

definition is_nil :: "id128 \<Rightarrow> bool" where
  "is_nil i \<longleftrightarrow> i = 0"

definition is_zero_digest :: "Digest \<Rightarrow> bool" where
  "is_zero_digest d \<longleftrightarrow> d = 0"

text \<open>
  Kernel evaluation of word literals truncates an integer to the word's length; a literal that is
  short enough is left alone instead of being masked bit by bit.
\<close>

fun num_len :: "num \<Rightarrow> nat" where
  "num_len num.One = 1"
| "num_len (num.Bit0 m) = Suc (num_len m)"
| "num_len (num.Bit1 m) = Suc (num_len m)"

lemma num_len_bound: "(numeral m :: int) < 2 ^ num_len m"
proof (induction m)
  case One
  then show ?case by simp
next
  case (Bit0 m)
  then show ?case unfolding numeral_Bit0_eq_double [of m] num_len.simps power_Suc by linarith
next
  case (Bit1 m)
  then show ?case unfolding numeral_Bit1_eq_inc_double [of m] num_len.simps power_Suc by linarith
qed

lemma take_bit_int_code [code]:
  "take_bit n (0 :: int) = 0"
  "take_bit n (Int.Pos m) = (if num_len m \<le> n then Int.Pos m else Int.Pos m mod 2 ^ n)"
  "take_bit n (Int.Neg m) = Int.Neg m mod 2 ^ n"
proof -
  have "take_bit n (numeral m :: int) = numeral m" if "num_len m \<le> n"
  proof -
    have "(2 :: int) ^ num_len m \<le> 2 ^ n" using that by (intro power_increasing) simp_all
    with num_len_bound [of m] have "(numeral m :: int) < 2 ^ n" by (rule less_le_trans)
    then show ?thesis by (simp add: take_bit_int_eq_self)
  qed
  then show "take_bit n (Int.Pos m) = (if num_len m \<le> n then Int.Pos m else Int.Pos m mod 2 ^ n)"
    by (simp add: take_bit_eq_mod)
qed (simp_all add: take_bit_eq_mod)
section \<open>Outcomes, evidence quality, error codes\<close>

datatype Outcome =
    Outcome_Granted | Outcome_Degraded | Outcome_Refused | Outcome_Fenced | Outcome_Stale
  | Outcome_Conflicting | Outcome_Incomplete | Outcome_Indeterminate | Outcome_Invalid
  | Outcome_Unsupported | Outcome_Cancelled | Outcome_Replayed | Outcome_Unknown

datatype EvidenceState =
    Evidence_Known | Evidence_Unknown | Evidence_Stale | Evidence_Conflicting
  | Evidence_Incomplete | Evidence_Indeterminate | Evidence_Invalid

datatype ErrorCode =
    Error_Ok | Error_InvalidArgument | Error_OutOfRange | Error_BoundsExceeded | Error_Truncated
  | Error_Corrupt | Error_UnsupportedVersion | Error_NotFound | Error_AlreadyExists
  | Error_Conflict | Error_Stale | Error_Refused | Error_Incomplete | Error_Indeterminate
  | Error_Cancelled | Error_IoError | Error_NetworkError | Error_ProtocolViolation
  | Error_Overflow | Error_Replay | Error_ChecksumMismatch | Error_CapacityExceeded
  | Error_NotInitialized | Error_Busy | Error_Internal

text \<open>
  A failing \<^verbatim>\<open>Status\<close> is the left summand of a result. A \<^verbatim>\<open>Result<T>\<close> is a value of type
  \<open>Status + 'a\<close>, and a \<^verbatim>\<open>Status\<close>-returning check is a value of type \<open>Status + unit\<close>: the success
  status is \<open>Inr ()\<close>.
\<close>

record Status =
  st_code :: ErrorCode
  st_message :: string

type_synonym 'a result = "Status + 'a"
type_synonym check = "unit result"

definition make_status :: "ErrorCode \<Rightarrow> string \<Rightarrow> Status" where
  "make_status code message = \<lparr>st_code = code, st_message = message\<rparr>"

abbreviation Fail :: "ErrorCode \<Rightarrow> string \<Rightarrow> 'a result" where
  "Fail code message \<equiv> Inl (make_status code message)"

abbreviation success :: check where
  "success \<equiv> Inr ()"

primrec is_ok :: "'a result \<Rightarrow> bool" where
  "is_ok (Inl s) \<longleftrightarrow> False"
| "is_ok (Inr v) \<longleftrightarrow> True"

definition status_code :: "'a result \<Rightarrow> ErrorCode" where
  "status_code r = (case r of Inl s \<Rightarrow> st_code s | Inr _ \<Rightarrow> Error_Ok)"

text \<open>The early-return idiom \<^verbatim>\<open>if (!status.ok()) return status;\<close> over two results.\<close>

definition and_then :: "'a result \<Rightarrow> ('a \<Rightarrow> 'b result) \<Rightarrow> 'b result" where
  "and_then r k = (case r of Inl s \<Rightarrow> Inl s | Inr v \<Rightarrow> k v)"

text \<open>A loop that stops at the first failing element.\<close>

primrec check_all :: "('a \<Rightarrow> check) \<Rightarrow> 'a list \<Rightarrow> check" where
  "check_all f [] = success"
| "check_all f (x # xs) = (case f x of Inl s \<Rightarrow> Inl s | Inr _ \<Rightarrow> check_all f xs)"

definition outcome_to_string :: "Outcome \<Rightarrow> string" where
  "outcome_to_string x = (case x of
     Outcome_Granted \<Rightarrow> ''GRANTED'' | Outcome_Degraded \<Rightarrow> ''DEGRADED''
   | Outcome_Refused \<Rightarrow> ''REFUSED'' | Outcome_Fenced \<Rightarrow> ''FENCED'' | Outcome_Stale \<Rightarrow> ''STALE''
   | Outcome_Conflicting \<Rightarrow> ''CONFLICTING'' | Outcome_Incomplete \<Rightarrow> ''INCOMPLETE''
   | Outcome_Indeterminate \<Rightarrow> ''INDETERMINATE'' | Outcome_Invalid \<Rightarrow> ''INVALID''
   | Outcome_Unsupported \<Rightarrow> ''UNSUPPORTED'' | Outcome_Cancelled \<Rightarrow> ''CANCELLED''
   | Outcome_Replayed \<Rightarrow> ''REPLAYED'' | Outcome_Unknown \<Rightarrow> ''UNKNOWN'')"

definition evidence_state_to_string :: "EvidenceState \<Rightarrow> string" where
  "evidence_state_to_string x = (case x of
     Evidence_Known \<Rightarrow> ''KNOWN'' | Evidence_Unknown \<Rightarrow> ''UNKNOWN'' | Evidence_Stale \<Rightarrow> ''STALE''
   | Evidence_Conflicting \<Rightarrow> ''CONFLICTING'' | Evidence_Incomplete \<Rightarrow> ''INCOMPLETE''
   | Evidence_Indeterminate \<Rightarrow> ''INDETERMINATE'' | Evidence_Invalid \<Rightarrow> ''INVALID'')"

definition error_code_to_string :: "ErrorCode \<Rightarrow> string" where
  "error_code_to_string c = (case c of
     Error_Ok \<Rightarrow> ''OK'' | Error_InvalidArgument \<Rightarrow> ''INVALID_ARGUMENT''
   | Error_OutOfRange \<Rightarrow> ''OUT_OF_RANGE'' | Error_BoundsExceeded \<Rightarrow> ''BOUNDS_EXCEEDED''
   | Error_Truncated \<Rightarrow> ''TRUNCATED'' | Error_Corrupt \<Rightarrow> ''CORRUPT''
   | Error_UnsupportedVersion \<Rightarrow> ''UNSUPPORTED_VERSION'' | Error_NotFound \<Rightarrow> ''NOT_FOUND''
   | Error_AlreadyExists \<Rightarrow> ''ALREADY_EXISTS'' | Error_Conflict \<Rightarrow> ''CONFLICT''
   | Error_Stale \<Rightarrow> ''STALE'' | Error_Refused \<Rightarrow> ''REFUSED'' | Error_Incomplete \<Rightarrow> ''INCOMPLETE''
   | Error_Indeterminate \<Rightarrow> ''INDETERMINATE'' | Error_Cancelled \<Rightarrow> ''CANCELLED''
   | Error_IoError \<Rightarrow> ''IO_ERROR'' | Error_NetworkError \<Rightarrow> ''NETWORK_ERROR''
   | Error_ProtocolViolation \<Rightarrow> ''PROTOCOL_VIOLATION'' | Error_Overflow \<Rightarrow> ''OVERFLOW''
   | Error_Replay \<Rightarrow> ''REPLAY'' | Error_ChecksumMismatch \<Rightarrow> ''CHECKSUM_MISMATCH''
   | Error_CapacityExceeded \<Rightarrow> ''CAPACITY_EXCEEDED''
   | Error_NotInitialized \<Rightarrow> ''NOT_INITIALIZED'' | Error_Busy \<Rightarrow> ''BUSY''
   | Error_Internal \<Rightarrow> ''INTERNAL'')"

definition status_to_string :: "Status \<Rightarrow> string" where
  "status_to_string s =
     error_code_to_string (st_code s) @
     (if st_message s \<noteq> [] then '': '' @ st_message s else [])"

section \<open>Bounds and checked arithmetic\<close>

definition kMaxIdentifierLength :: nat where [ff_bounds]: "kMaxIdentifierLength = 96"
definition kMaxShortTextLength :: nat where [ff_bounds]: "kMaxShortTextLength = 256"
definition kMaxTextLength :: nat where [ff_bounds]: "kMaxTextLength = 4096"
definition kMaxExplanationTextLength :: nat where [ff_bounds]: "kMaxExplanationTextLength = 8192"
definition kMaxMembers :: nat where [ff_bounds]: "kMaxMembers = 1024"
definition kMaxScopesPerMember :: nat where [ff_bounds]: "kMaxScopesPerMember = 512"
definition kMaxCapabilitiesPerMember :: nat where [ff_bounds]: "kMaxCapabilitiesPerMember = 512"
definition kMaxDelegationTermsPerMember :: nat where
  [ff_bounds]: "kMaxDelegationTermsPerMember = 512"
definition kMaxRequiredEndorsements :: nat where [ff_bounds]: "kMaxRequiredEndorsements = 32"
definition kMaxArtifactsPerMember :: nat where [ff_bounds]: "kMaxArtifactsPerMember = 4096"
definition kMaxLeases :: nat where [ff_bounds]: "kMaxLeases = 8192"
definition kMaxLeasesPerMember :: nat where [ff_bounds]: "kMaxLeasesPerMember = 256"
definition kMaxReplayEntries :: nat where [ff_bounds]: "kMaxReplayEntries = 65536"
definition kMaxScopesPerLease :: nat where [ff_bounds]: "kMaxScopesPerLease = 256"
definition kMaxConflicts :: nat where [ff_bounds]: "kMaxConflicts = 4096"
definition kMaxPolicyRules :: nat where [ff_bounds]: "kMaxPolicyRules = 1024"
definition kMaxPrecedenceEntries :: nat where [ff_bounds]: "kMaxPrecedenceEntries = 256"
definition kMaxReasonsPerDecision :: nat where [ff_bounds]: "kMaxReasonsPerDecision = 64"
definition kMaxContributionsPerDecision :: nat where
  [ff_bounds]: "kMaxContributionsPerDecision = 1024"
definition kMaxEffectiveGrantsPerDecision :: nat where
  [ff_bounds]: "kMaxEffectiveGrantsPerDecision = 512"
definition kMaxMembersPerObservation :: nat where [ff_bounds]: "kMaxMembersPerObservation = 1024"

text \<open>
  The out-parameter of the checked operations is the value of the option; a returned \<^verbatim>\<open>false\<close> is
  \<open>None\<close>.
\<close>

definition u64_max :: u64 where "u64_max = 18446744073709551615"

definition checked_add_u64 :: "u64 \<Rightarrow> u64 \<Rightarrow> u64 option" where
  "checked_add_u64 a b = (if b > u64_max - a then None else Some (a + b))"

definition checked_mul_u64 :: "u64 \<Rightarrow> u64 \<Rightarrow> u64 option" where
  "checked_mul_u64 a b = (if a \<noteq> 0 \<and> b > u64_max div a then None else Some (a * b))"

definition checked_inc_u64 :: "u64 \<Rightarrow> u64 option" where
  "checked_inc_u64 v = (if v = u64_max then None else Some (v + 1))"

definition narrow_u32 :: "nat \<Rightarrow> u32 option" where
  "narrow_u32 n = (if n > 4294967295 then None else Some (word_of_nat n))"

definition try_next :: "u64 \<Rightarrow> u64 option" where
  "try_next v = (if v = u64_max then None else Some (v + 1))"

definition try_add :: "u64 \<Rightarrow> u64 \<Rightarrow> u64 option" where
  "try_add v delta = (if delta > u64_max - v then None else Some (v + delta))"

section \<open>Decimal rendering\<close>

definition digit_char :: "nat \<Rightarrow> char" where
  "digit_char d = char_of (48 + d)"

fun nat_to_string :: "nat \<Rightarrow> string" where
  "nat_to_string n =
     (if n < 10 then [digit_char n] else nat_to_string (n div 10) @ [digit_char (n mod 10)])"

declare nat_to_string.simps [simp del]

abbreviation word_to_string :: "'a::len word \<Rightarrow> string" where
  "word_to_string w \<equiv> nat_to_string (unat w)"

section \<open>Canonical collections\<close>

text \<open>\<^verbatim>\<open>std::sort\<close> followed by \<^verbatim>\<open>erase(unique(...))\<close>.\<close>

definition sort_unique :: "'a::linorder list \<Rightarrow> 'a list" where
  "sort_unique items = remdups_adj (sort items)"

lemma sorted_remdups_adj_distinct:
  "sorted xs \<Longrightarrow> distinct (remdups_adj xs) \<and> sorted (remdups_adj xs)"
  by (induction xs rule: remdups_adj.induct) (auto simp: order_antisym)

lemma set_sort_unique [simp]: "set (sort_unique xs) = set xs"
  by (simp add: sort_unique_def)

lemma sorted_sort_unique [simp]: "sorted (sort_unique xs)"
  by (simp add: sort_unique_def sorted_remdups_adj_distinct)

lemma distinct_sort_unique [simp]: "distinct (sort_unique xs)"
  by (simp add: sort_unique_def sorted_remdups_adj_distinct)

lemma sort_unique_eq_set: "sort_unique xs = sorted_list_of_set (set xs)"
  by (rule sorted_distinct_set_unique) simp_all

lemma sort_unique_cong: "set xs = set ys \<Longrightarrow> sort_unique xs = sort_unique ys"
  by (simp add: sort_unique_eq_set)

lemma sort_unique_idem [simp]: "sort_unique (sort_unique xs) = sort_unique xs"
  by (rule sort_unique_cong) simp

lemma sort_unique_Nil [simp]: "sort_unique [] = []"
  by (simp add: sort_unique_def)

lemma sort_unique_canonical: "sorted xs \<Longrightarrow> distinct xs \<Longrightarrow> sort_unique xs = xs"
  by (simp add: sort_unique_eq_set sorted_list_of_set.idem_if_sorted_distinct)

lemma length_sort_unique: "length (sort_unique xs) = card (set xs)"
  by (metis distinct_card distinct_sort_unique set_sort_unique)

lemma length_sort_unique_le: "length (sort_unique xs) \<le> length xs"
  by (simp add: length_sort_unique card_length)

lemma sort_unique_eq_Nil [simp]: "sort_unique xs = [] \<longleftrightarrow> xs = []"
  by (metis set_empty set_sort_unique)

section \<open>Helper lemmas on results\<close>

lemma check_all_ok_iff [simp]: "check_all f xs = Inr u \<longleftrightarrow> (\<forall>x \<in> set xs. f x = success)"
  by (induction xs) (auto split: sum.splits)

lemma is_ok_iff: "is_ok r \<longleftrightarrow> (\<exists>v. r = Inr v)"
  by (cases r) simp_all

lemma and_then_Inr [simp]: "and_then (Inr v) k = k v"
  by (simp add: and_then_def)

lemma and_then_Inl [simp]: "and_then (Inl s) k = Inl s"
  by (simp add: and_then_def)

lemma and_then_ok_iff: "and_then r k = Inr w \<longleftrightarrow> (\<exists>v. r = Inr v \<and> k v = Inr w)"
  by (cases r) simp_all

lemma and_then_success_iff [simp]:
  "and_then (r :: check) (\<lambda>_. q) = Inr w \<longleftrightarrow> r = success \<and> q = Inr w"
  by (cases r) auto

section \<open>Checked arithmetic never wraps\<close>

lemma unat_u64_less: "unat (a :: u64) < 18446744073709551616"
  using unsigned_less [of a] by simp

lemma unat_u64_max_minus: "unat (u64_max - a) = 18446744073709551615 - unat a"
proof -
  have "a \<le> u64_max"
    using unat_u64_less [of a] by (simp add: u64_max_def word_le_nat_alt)
  then show ?thesis
    by (simp add: unat_sub) (simp add: u64_max_def)
qed

lemma checked_add_u64_iff:
  "checked_add_u64 a b = Some c \<longleftrightarrow>
     unat a + unat b < 18446744073709551616 \<and> unat c = unat a + unat b"
proof -
  have guard: "(b > u64_max - a) \<longleftrightarrow> \<not> unat a + unat b < 18446744073709551616"
    using unat_u64_less [of a] by (auto simp: word_less_nat_alt unat_u64_max_minus)
  show ?thesis
    by (auto simp: checked_add_u64_def guard word_unat_eq_iff unat_word_ariths)
qed

lemma try_add_eq_checked: "try_add v d = checked_add_u64 v d"
  by (simp add: try_add_def checked_add_u64_def)

lemma try_next_eq_try_add: "try_next v = try_add v 1"
proof (cases "v = u64_max")
  case True
  then show ?thesis by (simp add: try_next_def try_add_def)
next
  case False
  then have "unat v \<noteq> 18446744073709551615"
    by (auto simp: u64_max_def word_unat_eq_iff)
  then have "\<not> (1 > u64_max - v)"
    using unat_u64_less [of v] by (simp add: word_less_nat_alt unat_u64_max_minus)
  with False show ?thesis by (simp add: try_next_def try_add_def)
qed

lemma narrow_u32_iff: "narrow_u32 n = Some w \<longleftrightarrow> n < 4294967296 \<and> unat w = n"
proof -
  have "n < 4294967296 \<Longrightarrow> unat (word_of_nat n :: u32) = n"
    by (simp add: unat_of_nat)
  then show ?thesis
    by (auto simp: narrow_u32_def word_unat_eq_iff)
qed

end
