(* ===== verification/Text.thy ===== *)
theory Text
  imports Prelude
begin

unbundle bit_operations_syntax

text \<open>
  UTF-8 validation and escaping, \<^verbatim>\<open>src/text.cpp\<close>. The three loops of the source repeat one decoder of
  a multi-byte sequence; it is \<open>utf8_sequence\<close> here, and each loop keeps its own reaction to a
  malformed sequence. The lemmas show that sanitising yields valid UTF-8 and leaves valid text alone.
\<close>

definition byte_of_char :: "char \<Rightarrow> u8" where
  "byte_of_char c = word_of_nat (of_char c)"

definition char_of_byte :: "u8 \<Rightarrow> char" where
  "char_of_byte b = char_of (unat b)"

definition kMaxCodePoint :: u32 where
  "kMaxCodePoint = 0x10FFFF"

definition kReplacement :: u32 where
  "kReplacement = 0xFFFD"

definition is_surrogate :: "u32 \<Rightarrow> bool" where
  "is_surrogate cp \<longleftrightarrow> 0xD800 \<le> cp \<and> cp \<le> 0xDFFF"

definition append_utf8 :: "u32 \<Rightarrow> string" where
  "append_utf8 cp =
     map char_of_byte
       (if cp \<le> 0x7F then [ucast cp]
        else if cp \<le> 0x7FF then
          [ucast (0xC0 OR drop_bit 6 cp), ucast (0x80 OR (cp AND 0x3F))]
        else if cp \<le> 0xFFFF then
          [ucast (0xE0 OR drop_bit 12 cp), ucast (0x80 OR (drop_bit 6 cp AND 0x3F)),
           ucast (0x80 OR (cp AND 0x3F))]
        else
          [ucast (0xF0 OR drop_bit 18 cp), ucast (0x80 OR (drop_bit 12 cp AND 0x3F)),
           ucast (0x80 OR (drop_bit 6 cp AND 0x3F)), ucast (0x80 OR (cp AND 0x3F))])"

definition hex_digit :: "nat \<Rightarrow> char" where
  "hex_digit n = (if n < 10 then char_of (48 + n) else char_of (87 + n))"

definition append_codepoint_hex :: "u8 \<Rightarrow> string" where
  "append_codepoint_hex c =
     [CHR 0x5C, CHR ''u''] @
     map (\<lambda>shift. hex_digit (unat (drop_bit shift (ucast c :: u32) AND 0xF))) [12, 8, 4, 0]"

text \<open>Lead byte: number of continuation bytes, payload bits, least code point of that length.\<close>

definition utf8_lead :: "u8 \<Rightarrow> (nat \<times> u32 \<times> u32) option" where
  "utf8_lead b =
     (if b AND 0xE0 = 0xC0 then Some (1, ucast (b AND 0x1F), 0x80)
      else if b AND 0xF0 = 0xE0 then Some (2, ucast (b AND 0x0F), 0x800)
      else if b AND 0xF8 = 0xF0 then Some (3, ucast (b AND 0x07), 0x10000)
      else None)"

fun utf8_continue :: "u32 \<Rightarrow> string \<Rightarrow> u32 option" where
  "utf8_continue cp [] = Some cp"
| "utf8_continue cp (c # cs) =
     (let cont = byte_of_char c in
      if cont AND 0xC0 \<noteq> 0x80 then None
      else utf8_continue (push_bit 6 cp OR ucast (cont AND 0x3F)) cs)"

text \<open>Length of the well-formed multi-byte sequence the text starts with.\<close>

definition utf8_sequence :: "string \<Rightarrow> nat option" where
  "utf8_sequence text =
     (case text of
        [] \<Rightarrow> None
      | c # cs \<Rightarrow>
          (case utf8_lead (byte_of_char c) of
             None \<Rightarrow> None
           | Some (extra, cp0, minimum) \<Rightarrow>
               if extra > length cs then None
               else (case utf8_continue cp0 (take extra cs) of
                       None \<Rightarrow> None
                     | Some cp \<Rightarrow>
                         if cp < minimum \<or> cp > kMaxCodePoint \<or> is_surrogate cp then None
                         else Some (extra + 1))))"

function utf8_is_valid :: "string \<Rightarrow> bool" where
  "utf8_is_valid [] = True"
| "utf8_is_valid (c # cs) =
     (if byte_of_char c \<le> 0x7F then utf8_is_valid cs
      else (case utf8_sequence (c # cs) of
              None \<Rightarrow> False
            | Some k \<Rightarrow> utf8_is_valid (drop (k - 1) cs)))"
  by pat_completeness auto
termination
  by (relation "measure length") auto

function utf8_sanitize :: "string \<Rightarrow> string" where
  "utf8_sanitize [] = []"
| "utf8_sanitize (c # cs) =
     (if byte_of_char c \<le> 0x7F then c # utf8_sanitize cs
      else (case utf8_sequence (c # cs) of
              None \<Rightarrow> append_utf8 kReplacement @ utf8_sanitize cs
            | Some k \<Rightarrow> take k (c # cs) @ utf8_sanitize (drop (k - 1) cs)))"
  by pat_completeness auto
termination
  by (relation "measure length") auto

definition escape_char :: "char \<Rightarrow> string" where
  "escape_char raw =
     (let c = byte_of_char raw in
      if c = 10 then [CHR 0x5C, CHR ''n'']
      else if c = 13 then [CHR 0x5C, CHR ''r'']
      else if c = 9 then [CHR 0x5C, CHR ''t'']
      else if c = 0x5C then [CHR 0x5C, CHR 0x5C]
      else if c < 0x20 \<or> c = 0x7F then append_codepoint_hex c
      else [raw])"

definition escape_for_display :: "string \<Rightarrow> string" where
  "escape_for_display text =
     (let out = concat (map escape_char text) in
      if utf8_is_valid out then out else utf8_sanitize out)"

function json_escape_body :: "string \<Rightarrow> string" where
  "json_escape_body [] = []"
| "json_escape_body (raw # cs) =
     (let c = byte_of_char raw in
      if c = 0x22 then [CHR 0x5C, CHR 0x22] @ json_escape_body cs
      else if c = 0x5C then [CHR 0x5C, CHR 0x5C] @ json_escape_body cs
      else if c = 10 then [CHR 0x5C, CHR ''n''] @ json_escape_body cs
      else if c = 13 then [CHR 0x5C, CHR ''r''] @ json_escape_body cs
      else if c = 9 then [CHR 0x5C, CHR ''t''] @ json_escape_body cs
      else if c = 8 then [CHR 0x5C, CHR ''b''] @ json_escape_body cs
      else if c = 12 then [CHR 0x5C, CHR ''f''] @ json_escape_body cs
      else if c < 0x20 then append_codepoint_hex c @ json_escape_body cs
      else if c < 0x80 then raw # json_escape_body cs
      else (case utf8_sequence (raw # cs) of
              None \<Rightarrow> append_utf8 kReplacement @ json_escape_body cs
            | Some k \<Rightarrow> take k (raw # cs) @ json_escape_body (drop (k - 1) cs)))"
  by pat_completeness auto
termination
  by (relation "measure length") auto

definition json_escape :: "string \<Rightarrow> string" where
  "json_escape text = [CHR 0x22] @ json_escape_body text @ [CHR 0x22]"

section \<open>Lemmas\<close>

lemma char_of_byte_of_char [simp]: "char_of_byte (byte_of_char c) = c"
proof -
  have "unat (byte_of_char c) = of_char c"
    by (simp add: byte_of_char_def unat_of_nat)
  then show ?thesis by (simp add: char_of_byte_def)
qed

lemma byte_of_char_of_byte [simp]: "byte_of_char (char_of_byte b) = b"
proof -
  have "unat b < 256"
    using unsigned_less [of b] by simp
  then show ?thesis
    by (simp add: byte_of_char_def char_of_byte_def)
qed

lemma utf8_sequence_bounds:
  "utf8_sequence (c # cs) = Some k \<Longrightarrow> 2 \<le> k \<and> k \<le> length (c # cs)"
  by (auto simp: utf8_sequence_def utf8_lead_def Suc_le_eq split: option.splits if_splits)

text \<open>The decoder only looks at the bytes of the sequence it accepts.\<close>

lemma utf8_sequence_append:
  assumes "utf8_sequence (c # cs) = Some k"
  shows "utf8_sequence (take k (c # cs) @ rest) = Some k"
proof -
  obtain j where k: "k = Suc j"
    using utf8_sequence_bounds [OF assms] by (cases k) auto
  with assms show ?thesis
    by (auto simp: utf8_sequence_def split: option.splits if_splits)
qed

lemma utf8_is_valid_sequence:
  assumes "utf8_sequence (c # cs) = Some k" and "\<not> byte_of_char c \<le> 0x7F"
  shows "utf8_is_valid (take k (c # cs) @ rest) = utf8_is_valid rest"
proof -
  obtain j where k: "k = Suc j" and "j \<le> length cs"
    using utf8_sequence_bounds [OF assms(1)] by (cases k) auto
  then show ?thesis
    using utf8_sequence_append [OF assms(1), of rest] assms(2) by simp
qed

lemma append_utf8_replacement: "append_utf8 kReplacement = map char_of_byte [0xEF, 0xBF, 0xBD]"
  by (simp add: append_utf8_def kReplacement_def)

lemma utf8_sequence_replacement:
  "utf8_sequence (map char_of_byte [0xEF, 0xBF, 0xBD] @ rest) = Some 3"
proof -
  have lead: "utf8_lead 0xEF = Some (2, 0xF, 0x800)"
    by (simp add: utf8_lead_def)
  have cont: "utf8_continue 0xF (map char_of_byte [0xBF, 0xBD]) = Some 0xFFFD"
    by (simp add: Let_def)
  show ?thesis
    using cont by (simp add: utf8_sequence_def lead kMaxCodePoint_def is_surrogate_def
        del: utf8_continue.simps)
qed

lemma utf8_is_valid_replacement [simp]:
  "utf8_is_valid (append_utf8 kReplacement @ rest) = utf8_is_valid rest"
  using utf8_sequence_replacement [of rest] by (simp add: append_utf8_replacement)

lemma utf8_is_valid_sanitize: "utf8_is_valid (utf8_sanitize str)"
  by (induction str rule: utf8_sanitize.induct)
    (auto simp: utf8_is_valid_sequence split: option.split simp del: take_Suc_Cons)

lemma utf8_sanitize_valid: "utf8_is_valid str \<Longrightarrow> utf8_sanitize str = str"
proof (induction str rule: utf8_is_valid.induct)
  case 1
  show ?case by simp
next
  case (2 c cs)
  show ?case
  proof (cases "byte_of_char c \<le> 0x7F")
    case True
    with 2 show ?thesis by simp
  next
    case False
    with "2.prems" obtain k where k: "utf8_sequence (c # cs) = Some k"
      by (auto split: option.splits)
    then obtain j where "k = Suc j" using utf8_sequence_bounds by (cases k) fastforce+
    with 2 k False show ?thesis by simp
  qed
qed

end
