(* ===== verification/Names.thy ===== *)
theory Names
  imports Text
begin

unbundle bit_operations_syntax

text \<open>
  Textual identifiers (\<^verbatim>\<open>ids.cpp\<close>, \<^verbatim>\<open>ids.hpp\<close>) and qualified names (\<^verbatim>\<open>names.cpp\<close>, \<^verbatim>\<open>names.hpp\<close>):
  formatting and parsing of 128-bit identifiers, validation of dotted names, and the pattern cover
  relation between scopes. The lemmas give the round trip of identifiers, a position-wise
  characterisation of the validation loop, and the order-like laws of the cover relation.
\<close>

section \<open>Bytes of a 128-bit identifier and of a digest\<close>

text \<open>\<open>le_bytes n w\<close> are the \<open>n\<close> low bytes of \<open>w\<close>, least significant first; \<open>be_bytes\<close> reverses them.\<close>

definition le_bytes :: "nat \<Rightarrow> 'a::len word \<Rightarrow> bytes" where
  "le_bytes n w = map (\<lambda>i. ucast (drop_bit (8 * i) w)) [0..<n]"

definition be_bytes :: "nat \<Rightarrow> 'a::len word \<Rightarrow> bytes" where
  "be_bytes n w = rev (le_bytes n w)"

primrec from_le :: "bytes \<Rightarrow> 'a::len word" where
  "from_le [] = 0"
| "from_le (b # bs) = ucast b OR push_bit 8 (from_le bs)"

definition from_be :: "bytes \<Rightarrow> 'a::len word" where
  "from_be bs = from_le (rev bs)"

abbreviation id_bytes :: "id128 \<Rightarrow> bytes" where
  "id_bytes i \<equiv> be_bytes 16 i"

abbreviation digest_bytes :: "Digest \<Rightarrow> bytes" where
  "digest_bytes d \<equiv> be_bytes 32 d"

lemma length_le_bytes [simp]: "length (le_bytes n w) = n"
  by (simp add: le_bytes_def)

lemma length_be_bytes [simp]: "length (be_bytes n w) = n"
  by (simp add: be_bytes_def)

lemma le_bytes_Suc: "le_bytes (Suc n) w = ucast w # le_bytes n (drop_bit 8 w)"
  by (simp add: le_bytes_def upt_conv_Cons map_Suc_upt [symmetric] drop_bit_drop_bit
      add.commute del: upt_Suc)

text \<open>
  Evaluation goes through one integer conversion per word instead of one word shift per byte.
\<close>

primrec int_bytes :: "nat \<Rightarrow> int \<Rightarrow> bytes" where
  "int_bytes 0 k = []"
| "int_bytes (Suc n) k = word_of_int k # int_bytes n (drop_bit 8 k)"

primrec bytes_int :: "bytes \<Rightarrow> int" where
  "bytes_int [] = 0"
| "bytes_int (b # bs) = uint b OR push_bit 8 (bytes_int bs)"

lemma uint_drop_bit: "uint (drop_bit n w) = drop_bit n (uint (w :: 'a::len word))"
  by (rule bit_eqI) (auto simp: bit_uint_iff bit_drop_bit_eq dest: bit_imp_le_length)

lemma byte_of_uint: "(word_of_int (uint w) :: u8) = ucast w"
  by (rule bit_word_eqI)
    (auto simp: bit_word_of_int_iff bit_uint_iff bit_ucast_iff dest: bit_imp_le_length)

lemma le_bytes_code [code]: "le_bytes n w = int_bytes n (uint w)"
proof (induction n arbitrary: w)
  case 0
  then show ?case by (simp add: le_bytes_def)
next
  case (Suc n)
  then show ?case by (simp only: le_bytes_Suc uint_drop_bit int_bytes.simps byte_of_uint)
qed

lemma from_le_code [code]: "from_le bs = (word_of_int (bytes_int bs) :: 'a::len word)"
proof (induction bs)
  case Nil
  then show ?case by simp
next
  case (Cons b bs)
  then show ?case
    by (intro bit_word_eqI) (auto simp: bit_word_of_int_iff bit_or_iff bit_push_bit_iff
        bit_ucast_iff bit_uint_iff dest: bit_imp_le_length)
qed

lemma bit_from_le_bytes:
  fixes w :: "'a::len word"
  shows "k < LENGTH('a) \<Longrightarrow>
    bit (from_le (le_bytes n w) :: 'a word) k \<longleftrightarrow> k < 8 * n \<and> bit w k"
proof (induction n arbitrary: w k)
  case 0
  then show ?case by (simp add: le_bytes_def)
next
  case (Suc n)
  show ?case
  proof (cases "k < 8")
    case True
    with Suc.prems show ?thesis
      by (simp add: le_bytes_Suc bit_or_iff bit_ucast_iff bit_push_bit_iff)
  next
    case False
    with Suc.prems Suc.IH [of "k - 8" "drop_bit 8 w"] show ?thesis
      by (auto simp: le_bytes_Suc bit_or_iff bit_ucast_iff bit_push_bit_iff bit_drop_bit_eq)
  qed
qed

lemma from_le_le_bytes:
  fixes w :: "'a::len word"
  assumes "LENGTH('a) = 8 * n"
  shows "from_le (le_bytes n w) = w"
  by (rule bit_word_eqI) (simp add: bit_from_le_bytes assms [symmetric])

lemma from_be_be_bytes:
  fixes w :: "'a::len word"
  assumes "LENGTH('a) = 8 * n"
  shows "from_be (be_bytes n w) = w"
  by (simp add: from_be_def be_bytes_def from_le_le_bytes assms)

lemma bit_from_le_bound: "bit (from_le bs :: 'a::len word) k \<Longrightarrow> k < 8 * length bs"
proof (induction bs arbitrary: k)
  case Nil
  then show ?case by simp
next
  case (Cons b bs)
  then consider "bit b k" | "8 \<le> k" and "bit (from_le bs :: 'a word) (k - 8)"
    by (auto simp: bit_or_iff bit_ucast_iff bit_push_bit_iff)
  then show ?case
  proof cases
    case 1
    then have "k < 8" using bit_imp_le_length [of b k] by simp
    then show ?thesis by simp
  next
    case 2
    then show ?thesis using Cons.IH [of "k - 8"] by simp
  qed
qed

lemma take_bit_from_le:
  "8 * length bs \<le> m \<Longrightarrow> take_bit m (from_le bs :: 'a::len word) = from_le bs"
  by (intro bit_word_eqI) (auto simp: bit_take_bit_iff dest: bit_from_le_bound)

lemma le_bytes_from_le:
  assumes "LENGTH('a) = 8 * length bs"
  shows "le_bytes (length bs) (from_le bs :: 'a::len word) = bs"
proof -
  have gen: "8 * length bs \<le> LENGTH('a) \<Longrightarrow>
      le_bytes (length bs) (from_le bs :: 'a::len word) = bs" for bs
  proof (induction bs)
    case Nil
    then show ?case by (simp add: le_bytes_def)
  next
    case (Cons b bs)
    have low: "ucast (ucast b OR push_bit 8 (from_le bs) :: 'a word) = b"
      using Cons.prems
      by (intro bit_word_eqI) (auto simp: bit_ucast_iff bit_or_iff bit_push_bit_iff)
    have high: "drop_bit 8 (ucast b OR push_bit 8 (from_le bs) :: 'a word)
        = take_bit (LENGTH('a) - 8) (from_le bs)"
      using bit_imp_le_length [of b]
      by (intro bit_word_eqI)
        (fastforce simp: bit_ucast_iff bit_or_iff bit_push_bit_iff bit_drop_bit_eq bit_take_bit_iff)
    have "take_bit (LENGTH('a) - 8) (from_le bs :: 'a word) = from_le bs"
      using Cons.prems by (intro take_bit_from_le) simp
    with low high Cons show ?case by (simp add: le_bytes_Suc)
  qed
  show ?thesis by (rule gen) (simp add: assms)
qed

lemma be_bytes_from_be:
  assumes "LENGTH('a) = 8 * length bs"
  shows "be_bytes (length bs) (from_be bs :: 'a::len word) = bs"
  using le_bytes_from_le [where ?'a = 'a, of "rev bs"] assms by (simp add: be_bytes_def from_be_def)

lemma be_bytes_inject:
  fixes w :: "'a::len word"
  assumes "LENGTH('a) = 8 * n"
  shows "be_bytes n w = be_bytes n v \<longleftrightarrow> w = v"
  by (metis assms from_be_be_bytes)

section \<open>Textual identifiers\<close>

definition hex_nibble :: "char \<Rightarrow> u8 option" where
  "hex_nibble c =
     (if CHR ''0'' \<le> c \<and> c \<le> CHR ''9'' then Some (byte_of_char c - byte_of_char (CHR ''0''))
      else if CHR ''a'' \<le> c \<and> c \<le> CHR ''f'' then
        Some (byte_of_char c - byte_of_char (CHR ''a'') + 10)
      else None)"

definition hex_of_byte :: "u8 \<Rightarrow> string" where
  "hex_of_byte b = [hex_digit (unat (drop_bit 4 b AND 0xF)), hex_digit (unat (b AND 0xF))]"

definition format_id :: "string \<Rightarrow> id128 \<Rightarrow> string" where
  "format_id prefix i = prefix @ [CHR ''-''] @ concat (map hex_of_byte (id_bytes i))"

fun parse_hex_pairs :: "string \<Rightarrow> bytes option" where
  "parse_hex_pairs (h # l # rest) =
     (case (hex_nibble h, hex_nibble l) of
        (Some hi, Some lo) \<Rightarrow> map_option ((#) (push_bit 4 hi OR lo)) (parse_hex_pairs rest)
      | _ \<Rightarrow> None)"
| "parse_hex_pairs _ = Some []"

definition parse_id :: "string \<Rightarrow> string \<Rightarrow> id128 option" where
  "parse_id str expected_prefix =
     (if length str \<noteq> length expected_prefix + 1 + 32 then None
      else if take (length expected_prefix) str \<noteq> expected_prefix then None
      else if str ! length expected_prefix \<noteq> CHR ''-'' then None
      else map_option from_be (parse_hex_pairs (drop (length expected_prefix + 1) str)))"

definition digest_to_hex :: "Digest \<Rightarrow> string" where
  "digest_to_hex d = concat (map hex_of_byte (digest_bytes d))"

definition digest_from_hex :: "string \<Rightarrow> Digest option" where
  "digest_from_hex hex =
     (if length hex \<noteq> 64 then None else map_option from_be (parse_hex_pairs hex))"

abbreviation member_to_string :: "MemberId \<Rightarrow> string" where
  "member_to_string \<equiv> format_id ''mbr''"

abbreviation federation_to_string :: "FederationId \<Rightarrow> string" where
  "federation_to_string \<equiv> format_id ''fed''"

abbreviation node_to_string :: "NodeId \<Rightarrow> string" where
  "node_to_string \<equiv> format_id ''nod''"

abbreviation lease_to_string :: "LeaseId \<Rightarrow> string" where
  "lease_to_string \<equiv> format_id ''lea''"

abbreviation evidence_to_string :: "EvidenceId \<Rightarrow> string" where
  "evidence_to_string \<equiv> format_id ''evd''"

abbreviation request_to_string :: "RequestId \<Rightarrow> string" where
  "request_to_string \<equiv> format_id ''req''"

section \<open>Qualified names\<close>

definition is_lower :: "char \<Rightarrow> bool" where
  "is_lower c \<longleftrightarrow> CHR ''a'' \<le> c \<and> c \<le> CHR ''z''"

definition is_digit :: "char \<Rightarrow> bool" where
  "is_digit c \<longleftrightarrow> CHR ''0'' \<le> c \<and> c \<le> CHR ''9''"

text \<open>
  The character loop of \<open>validate_qualified_name\<close>: \<open>i\<close> is the index, \<open>previous_dot\<close> the flag, the
  last argument the characters from index \<open>i\<close> on.
\<close>

fun qualified_name_loop :: "string \<Rightarrow> bool \<Rightarrow> string \<Rightarrow> nat \<Rightarrow> bool \<Rightarrow> string \<Rightarrow> string result" where
  "qualified_name_loop str allow_wildcard what i previous_dot [] =
     (if previous_dot then Fail Error_InvalidArgument (what @ '' ends with a separator'')
      else Inr str)"
| "qualified_name_loop str allow_wildcard what i previous_dot (c # cs) =
     (if c = CHR ''*'' then
        (if \<not> allow_wildcard then
           Fail Error_InvalidArgument (what @ '' does not accept a wildcard'')
         else
           let whole = (length str = 1);
               final_segment = (i = length str - 1 \<and> i \<ge> 1 \<and> str ! (i - 1) = CHR ''.'')
           in if \<not> whole \<and> \<not> final_segment then
                Fail Error_InvalidArgument (what @ '' may only use a wildcard as the last segment'')
              else qualified_name_loop str allow_wildcard what (Suc i) False cs)
      else if c = CHR ''.'' then
        (if previous_dot \<or> i = 0 \<or> i + 1 = length str then
           Fail Error_InvalidArgument (what @ '' has an empty segment'')
         else qualified_name_loop str allow_wildcard what (Suc i) True cs)
      else if \<not> is_lower c \<and> \<not> is_digit c \<and> c \<noteq> CHR ''_'' \<and> c \<noteq> CHR ''-'' then
        Fail Error_InvalidArgument (what @ '' contains a character outside [a-z0-9._-]'')
      else qualified_name_loop str allow_wildcard what (Suc i) False cs)"

definition validate_qualified_name :: "string \<Rightarrow> nat \<Rightarrow> bool \<Rightarrow> string \<Rightarrow> string result" where
  "validate_qualified_name str max_length allow_wildcard what =
     (if str = [] then Fail Error_InvalidArgument (what @ '' must not be empty'')
      else if length str > max_length then
        Fail Error_BoundsExceeded (what @ '' exceeds the maximum length'')
      else if \<not> is_lower (hd str) \<and> \<not> (allow_wildcard \<and> hd str = CHR ''*'') then
        Fail Error_InvalidArgument (what @ '' must start with a lowercase letter'')
      else qualified_name_loop str allow_wildcard what 0 False str)"

definition qualified_name_covers :: "string \<Rightarrow> string \<Rightarrow> bool" where
  "qualified_name_covers pattern concrete =
     (if pattern = concrete then True
      else if pattern = [] \<or> concrete = [] then False
      else if pattern = ''*'' then True
      else if length pattern \<ge> 2 \<and> last pattern = CHR ''*'' then
        length concrete \<ge> length (butlast pattern) \<and>
        take (length (butlast pattern)) concrete = butlast pattern
      else False)"

abbreviation covers :: "string \<Rightarrow> string \<Rightarrow> bool" where
  "covers \<equiv> qualified_name_covers"

definition is_wildcard :: "string \<Rightarrow> bool" where
  "is_wildcard name \<longleftrightarrow> name \<noteq> [] \<and> CHR ''*'' \<in> set name"

definition parse_scope :: "string \<Rightarrow> ScopeId result" where
  "parse_scope str = validate_qualified_name str 96 True ''scope''"

definition parse_capability :: "string \<Rightarrow> CapabilityId result" where
  "parse_capability str = validate_qualified_name str 64 False ''capability''"

definition parse_policy_id :: "string \<Rightarrow> PolicyId result" where
  "parse_policy_id str = validate_qualified_name str 64 False ''policy''"

definition parse_rule_id :: "string \<Rightarrow> RuleId result" where
  "parse_rule_id str = validate_qualified_name str 64 False ''rule''"

definition parse_constraint :: "string \<Rightarrow> ConstraintToken result" where
  "parse_constraint str = validate_qualified_name str 96 False ''constraint''"

text \<open>
  A \<^verbatim>\<open>BasicName\<close> is either default-constructed (empty) or the result of \<^verbatim>\<open>parse\<close>: this is the
  type invariant of the names, stated per kind.
\<close>

definition name_invariant :: "(string \<Rightarrow> string result) \<Rightarrow> string \<Rightarrow> bool" where
  "name_invariant parse name \<longleftrightarrow> name = [] \<or> parse name = Inr name"

section \<open>Lemmas on identifiers\<close>

lemma hex_nibble_digit: "n < 16 \<Longrightarrow> hex_nibble (hex_digit n) = Some (word_of_nat n)"
proof -
  have "\<forall>n < 16. hex_nibble (hex_digit n) = Some (word_of_nat n)"
    by code_simp
  then show "n < 16 \<Longrightarrow> hex_nibble (hex_digit n) = Some (word_of_nat n)" by blast
qed

lemma unat_nibble_less: "unat (b AND 0xF :: u8) < 16"
proof -
  have "b AND 0xF \<le> 0xF" by (rule word_and_le1)
  then show ?thesis by (simp add: word_le_nat_alt)
qed

lemma nibbles_join: "push_bit 4 (drop_bit 4 b AND 0xF) OR (b AND 0xF) = (b :: u8)"
proof -
  have mask: "(0xF :: u8) = mask 4" by (simp add: mask_eq_exp_minus_1)
  show ?thesis
    unfolding mask by (rule bit_word_eqI)
      (auto simp: bit_or_iff bit_push_bit_iff bit_and_iff bit_mask_iff bit_drop_bit_eq)
qed

lemma hex_nibble_of_nibble: "hex_nibble (hex_digit (unat (b AND 0xF :: u8))) = Some (b AND 0xF)"
  using hex_nibble_digit [OF unat_nibble_less, of b] by simp

lemma parse_hex_pairs_step:
  "parse_hex_pairs (hex_of_byte b @ rest) = map_option ((#) b) (parse_hex_pairs rest)"
  by (simp only: hex_of_byte_def append_Cons append_Nil parse_hex_pairs.simps
      hex_nibble_of_nibble nibbles_join prod.case option.case)

lemma parse_hex_pairs_hex [simp]:
  "parse_hex_pairs (concat (map hex_of_byte bs)) = Some bs"
  by (induction bs) (simp_all add: parse_hex_pairs_step)

lemma length_concat_hex: "length (concat (map hex_of_byte bs)) = 2 * length bs"
  by (induction bs) (simp_all add: hex_of_byte_def)

text \<open>
  The textual form of an identifier parses back to the identifier under the same prefix.
\<close>

theorem format_parse_id: "parse_id (format_id prefix i) prefix = Some i"
  by (simp add: parse_id_def format_id_def length_concat_hex nth_append from_be_be_bytes)

lemma digest_hex_roundtrip: "digest_from_hex (digest_to_hex d) = Some d"
  by (simp add: digest_from_hex_def digest_to_hex_def length_concat_hex from_be_be_bytes)

section \<open>Lemmas on qualified names\<close>

definition name_char :: "char \<Rightarrow> bool" where
  "name_char c \<longleftrightarrow> is_lower c \<or> is_digit c \<or> c = CHR ''_'' \<or> c = CHR ''-''"

text \<open>
  What the loop accepts, position by position: a wildcard only as the whole name or as the last
  segment, a separator never first, last or doubled, and otherwise the characters of the alphabet.
\<close>

definition name_position_ok :: "string \<Rightarrow> bool \<Rightarrow> nat \<Rightarrow> bool" where
  "name_position_ok str allow_wildcard i \<longleftrightarrow>
     (if str ! i = CHR ''*'' then
        allow_wildcard \<and>
        (length str = 1 \<or> i = length str - 1 \<and> 1 \<le> i \<and> str ! (i - 1) = CHR ''.'')
      else if str ! i = CHR ''.'' then
        0 < i \<and> i + 1 < length str \<and> str ! (i - 1) \<noteq> CHR ''.''
      else name_char (str ! i))"

lemma qualified_name_loop_ok_iff:
  assumes "str = pre @ cs" and "i = length pre"
    and "previous_dot \<longleftrightarrow> pre \<noteq> [] \<and> last pre = CHR ''.''"
    and "cs = [] \<Longrightarrow> \<not> previous_dot"
  shows "qualified_name_loop str aw what i previous_dot cs = Inr r \<longleftrightarrow>
    r = str \<and> (\<forall>j. i \<le> j \<and> j < length str \<longrightarrow> name_position_ok str aw j)"
  using assms
proof (induction cs arbitrary: pre i previous_dot)
  case Nil
  then show ?case by auto
next
  case (Cons c cs)
  have at: "str ! i = c" using Cons.prems(1,2) by simp
  have before: "0 < i \<Longrightarrow> str ! (i - 1) = last pre"
    using Cons.prems(1,2) by (cases pre rule: rev_cases) (auto simp: nth_append)
  define rest_ok where
    "rest_ok \<longleftrightarrow> (\<forall>j. Suc i \<le> j \<and> j < length str \<longrightarrow> name_position_ok str aw j)"
  have lt: "i < length str" and len: "i + 1 = length str \<longleftrightarrow> cs = []"
    using Cons.prems(1,2) by auto
  have split_first: "(\<forall>j. i \<le> j \<and> j < length str \<longrightarrow> name_position_ok str aw j) \<longleftrightarrow>
      name_position_ok str aw i \<and> rest_ok"
  proof -
    have "i \<le> j \<longleftrightarrow> j = i \<or> Suc i \<le> j" for j by auto
    with lt show ?thesis unfolding rest_ok_def by metis
  qed
  note pos = name_position_ok_def [of str aw i, unfolded at]
  have IH: "(cs = [] \<Longrightarrow> c \<noteq> CHR ''.'') \<Longrightarrow>
      qualified_name_loop str aw what (Suc i) (c = CHR ''.'') cs = Inr r \<longleftrightarrow> r = str \<and> rest_ok"
    unfolding rest_ok_def using Cons.prems(1,2) by (intro Cons.IH [of "pre @ [c]"]) auto
  have flag: "previous_dot \<longleftrightarrow> 0 < i \<and> str ! (i - 1) = CHR ''.''"
    using Cons.prems(2,3) before by auto
  consider (star) "c = CHR ''*''" | (dot) "c = CHR ''.''"
    | (other) "c \<noteq> CHR ''*''" "c \<noteq> CHR ''.''" by blast
  then show ?case
  proof cases
    case star
    with IH have "qualified_name_loop str aw what (Suc i) False cs = Inr r \<longleftrightarrow> r = str \<and> rest_ok"
      by simp
    with star show ?thesis
      unfolding split_first pos by (cases aw) auto
  next
    case dot
    show ?thesis
    proof (cases "cs = []")
      case True
      with dot len show ?thesis unfolding split_first pos by simp
    next
      case False
      with IH dot have "qualified_name_loop str aw what (Suc i) True cs = Inr r \<longleftrightarrow>
          r = str \<and> rest_ok" by simp
      with dot lt len False flag show ?thesis
        unfolding split_first pos by auto
    qed
  next
    case other
    with IH have "qualified_name_loop str aw what (Suc i) False cs = Inr r \<longleftrightarrow> r = str \<and> rest_ok"
      by simp
    with other show ?thesis
      unfolding split_first pos name_char_def by simp
  qed
qed

lemma validate_qualified_name_ok_iff:
  "validate_qualified_name str n aw what = Inr r \<longleftrightarrow>
     r = str \<and> str \<noteq> [] \<and> length str \<le> n \<and>
     (is_lower (hd str) \<or> aw \<and> hd str = CHR ''*'') \<and>
     (\<forall>j < length str. name_position_ok str aw j)"
  unfolding validate_qualified_name_def
  by (auto simp: qualified_name_loop_ok_iff [where pre = "[]"])

lemma qualified_name_covers_refl [simp]: "qualified_name_covers s s"
  by (simp add: qualified_name_covers_def)

lemma qualified_name_covers_star [simp]: "qualified_name_covers ''*'' s \<longleftrightarrow> s \<noteq> []"
  by (auto simp: qualified_name_covers_def)

lemma qualified_name_covers_concrete:
  "CHR ''*'' \<notin> set p \<Longrightarrow> qualified_name_covers p s \<longleftrightarrow> p = s"
  by (auto simp: qualified_name_covers_def dest: last_in_set)

lemma qualified_name_covers_prefix:
  assumes "pre \<noteq> []"
  shows "qualified_name_covers (pre @ ''*'') s \<longleftrightarrow> (\<exists>t. s = pre @ t)"
  using assms by (auto simp: qualified_name_covers_def append_eq_conv_conj Suc_le_eq)
    (metis append_take_drop_id)+

text \<open>A pattern is concrete or a prefix followed by one star: the shape the validation leaves.\<close>

lemma valid_name_shape:
  assumes "validate_qualified_name str n aw what = Inr r"
  shows "CHR ''*'' \<notin> set (butlast str)"
proof
  assume "CHR ''*'' \<in> set (butlast str)"
  then obtain i where i: "i < length str - 1" "str ! i = CHR ''*''"
    by (metis in_set_conv_nth length_butlast nth_butlast)
  then have "name_position_ok str aw i"
    using assms by (auto simp: validate_qualified_name_ok_iff)
  with i show False by (auto simp: name_position_ok_def)
qed

lemma qualified_name_covers_trans:
  assumes "qualified_name_covers p q" "qualified_name_covers q r"
    and "CHR ''*'' \<notin> set (butlast p)" "CHR ''*'' \<notin> set (butlast q)"
  shows "qualified_name_covers p r"
proof (cases "p = q \<or> q = r")
  case True
  with assms show ?thesis by auto
next
  case False
  then obtain ps where p: "p = ps @ ''*''" and q0: "q \<noteq> []"
    using assms(1)
    by (cases p rule: rev_cases) (auto simp: qualified_name_covers_def split: if_splits)
  obtain qs where q: "q = qs @ ''*''" and r0: "r \<noteq> []"
    using assms(2) False
    by (cases q rule: rev_cases) (auto simp: qualified_name_covers_def split: if_splits)
  show ?thesis
  proof (cases "ps = []")
    case True
    with r0 p show ?thesis by simp
  next
    case ps: False
    then obtain t where t: "q = ps @ t"
      using assms(1) p by (auto simp: qualified_name_covers_prefix)
    have "t \<noteq> []"
    proof
      assume "t = []"
      with t q have "last ps = CHR ''*''" by (metis append_Nil2 last_snoc)
      then have "CHR ''*'' \<in> set ps" using ps last_in_set by metis
      with assms(3) p show False by simp
    qed
    then obtain t' where "qs = ps @ t'"
      using t q by (cases t rule: rev_cases) auto
    moreover from this ps obtain u where "r = qs @ u"
      using assms(2) qualified_name_covers_prefix [of qs r] q by auto
    ultimately show ?thesis using p ps by (auto simp: qualified_name_covers_prefix)
  qed
qed

end
