(* ===== verification/Codec.thy ===== *)
theory Codec
  imports Names
begin

text \<open>
  The canonical binary codec (\<^verbatim>\<open>codec.cpp\<close>, \<^verbatim>\<open>codec.hpp\<close>). A writer operation is modelled by the bytes
  it appends to the buffer, or the status it fails with (no caller reads the buffer of a writer one
  of whose operations failed); a reader operation is a function of the unread bytes that returns
  its value with the bytes it leaves, or a status.

  The locale \<open>codec\<close> is the contract between an encoder and its decoder; every wire type of the
  later theories interprets it. Inside it the consequences are proved once: encodings are uniquely
  decodable, injective and prefix-free, and the contract extends to length-prefixed collections.
\<close>

section \<open>Writer\<close>

definition kMaxJournalRecordBytes :: nat where [ff_bounds]: "kMaxJournalRecordBytes = 1048576"

definition store_u32_le :: "u32 \<Rightarrow> bytes" where
  "store_u32_le value = le_bytes 4 value"

definition store_u64_le :: "u64 \<Rightarrow> bytes" where
  "store_u64_le value = le_bytes 8 value"

definition w_u8 :: "u8 \<Rightarrow> bytes result" where
  "w_u8 value = Inr [value]"

definition w_u16 :: "u16 \<Rightarrow> bytes result" where
  "w_u16 value = Inr (le_bytes 2 value)"

definition w_u32 :: "u32 \<Rightarrow> bytes result" where
  "w_u32 value = Inr (store_u32_le value)"

definition w_u64 :: "u64 \<Rightarrow> bytes result" where
  "w_u64 value = Inr (store_u64_le value)"

definition w_bool :: "bool \<Rightarrow> bytes result" where
  "w_bool value = w_u8 (if value then 1 else 0)"

definition w_raw :: "bytes \<Rightarrow> bytes result" where
  "w_raw data =
     (if length data > kMaxJournalRecordBytes then
        Fail Error_BoundsExceeded ''raw payload exceeds the record bound''
      else Inr data)"

definition w_digest :: "Digest \<Rightarrow> bytes result" where
  "w_digest value = Inr (digest_bytes value)"

definition w_id16 :: "id128 \<Rightarrow> bytes result" where
  "w_id16 value = Inr (id_bytes value)"

definition w_bytes :: "bytes \<Rightarrow> nat \<Rightarrow> bytes result" where
  "w_bytes data max_bytes =
     (if length data > max_bytes then
        Fail Error_BoundsExceeded ''byte string exceeds the encoding bound''
      else case narrow_u32 (length data) of
        None \<Rightarrow> Fail Error_Overflow ''byte string length does not fit a 32-bit prefix''
      | Some len \<Rightarrow> Inr (store_u32_le len @ data))"

definition w_text :: "string \<Rightarrow> nat \<Rightarrow> bytes result" where
  "w_text value max_bytes =
     (if length value > max_bytes then
        Fail Error_BoundsExceeded ''text exceeds the encoding bound''
      else if \<not> utf8_is_valid value then
        Fail Error_InvalidArgument ''text is not valid UTF-8''
      else case narrow_u32 (length value) of
        None \<Rightarrow> Fail Error_Overflow ''text length does not fit a 32-bit prefix''
      | Some len \<Rightarrow> Inr (store_u32_le len @ map byte_of_char value))"

definition w_identifier :: "string \<Rightarrow> bytes result" where
  "w_identifier value = w_text value kMaxIdentifierLength"

definition w_count :: "nat \<Rightarrow> nat \<Rightarrow> bytes result" where
  "w_count value max_count =
     (if value > max_count then
        Fail Error_BoundsExceeded ''collection count exceeds the encoding bound''
      else case narrow_u32 value of
        None \<Rightarrow> Fail Error_Overflow ''collection count does not fit a 32-bit prefix''
      | Some n \<Rightarrow> w_u32 n)"

text \<open>A chain of writer calls, each followed by \<^verbatim>\<open>if (!status.ok()) return status;\<close>.\<close>

primrec w_seq :: "bytes result list \<Rightarrow> bytes result" where
  "w_seq [] = Inr []"
| "w_seq (w # ws) =
     (case w of Inl s \<Rightarrow> Inl s
      | Inr b \<Rightarrow> (case w_seq ws of Inl s \<Rightarrow> Inl s | Inr bs \<Rightarrow> Inr (b @ bs)))"

definition w_list :: "('a \<Rightarrow> bytes result) \<Rightarrow> nat \<Rightarrow> 'a list \<Rightarrow> bytes result" where
  "w_list enc max_count xs = w_seq (w_count (length xs) max_count # map enc xs)"

definition w_option :: "('a \<Rightarrow> bytes result) \<Rightarrow> 'a option \<Rightarrow> bytes result" where
  "w_option enc v = w_seq (w_bool (v \<noteq> None) # (case v of None \<Rightarrow> [] | Some x \<Rightarrow> [enc x]))"

section \<open>Reader\<close>

type_synonym 'a reader = "bytes \<Rightarrow> ('a \<times> bytes) result"

definition load_u32_le :: "bytes \<Rightarrow> u32" where
  "load_u32_le data = from_le (take 4 data)"

definition load_u64_le :: "bytes \<Rightarrow> u64" where
  "load_u64_le data = from_le (take 8 data)"

definition r_return :: "'a \<Rightarrow> 'a reader" where
  "r_return x bs = Inr (x, bs)"

definition r_fail :: "ErrorCode \<Rightarrow> string \<Rightarrow> 'a reader" where
  "r_fail code message bs = Fail code message"

definition rbind :: "'a reader \<Rightarrow> ('a \<Rightarrow> 'b reader) \<Rightarrow> 'b reader" where
  "rbind m k bs = (case m bs of Inl s \<Rightarrow> Inl s | Inr (x, rest) \<Rightarrow> k x rest)"

text \<open>Lifts a check on a decoded value into the reader.\<close>

definition r_lift :: "'a result \<Rightarrow> 'a reader" where
  "r_lift r bs = (case r of Inl s \<Rightarrow> Inl s | Inr x \<Rightarrow> Inr (x, bs))"

definition r_take :: "nat \<Rightarrow> bytes reader" where
  "r_take n bs =
     (if n > length bs then Fail Error_Truncated ''payload ended before the declared length''
      else Inr (take n bs, drop n bs))"

definition r_u8 :: "u8 reader" where
  "r_u8 = rbind (r_take 1) (\<lambda>b. r_return (hd b))"

definition r_u16 :: "u16 reader" where
  "r_u16 = rbind (r_take 2) (\<lambda>b. r_return (from_le b))"

definition r_u32 :: "u32 reader" where
  "r_u32 = rbind (r_take 4) (\<lambda>b. r_return (load_u32_le b))"

definition r_u64 :: "u64 reader" where
  "r_u64 = rbind (r_take 8) (\<lambda>b. r_return (load_u64_le b))"

definition r_bool :: "bool reader" where
  "r_bool = rbind r_u8 (\<lambda>v.
     if v > 1 then r_fail Error_Corrupt ''boolean field is neither 0 nor 1''
     else r_return (v = 1))"

definition r_digest :: "Digest reader" where
  "r_digest = rbind (r_take 32) (\<lambda>b. r_return (from_be b))"

definition r_id16 :: "id128 reader" where
  "r_id16 = rbind (r_take 16) (\<lambda>b. r_return (from_be b))"

definition r_bytes :: "nat \<Rightarrow> bytes reader" where
  "r_bytes max_bytes = rbind r_u32 (\<lambda>len.
     if unat len > max_bytes then
       r_fail Error_BoundsExceeded ''declared byte-string length exceeds the bound''
     else r_take (unat len))"

definition r_text :: "nat \<Rightarrow> string reader" where
  "r_text max_bytes = rbind (r_bytes max_bytes) (\<lambda>raw.
     let out = map char_of_byte raw in
     if \<not> utf8_is_valid out then
       r_fail Error_InvalidArgument ''decoded text is not valid UTF-8''
     else r_return out)"

definition r_identifier :: "string reader" where
  "r_identifier = r_text kMaxIdentifierLength"

definition r_count :: "nat \<Rightarrow> nat reader" where
  "r_count max_count = rbind r_u32 (\<lambda>v.
     if unat v > max_count then
       r_fail Error_BoundsExceeded ''declared collection count exceeds the bound''
     else r_return (unat v))"

definition expect_end :: "bytes \<Rightarrow> check" where
  "expect_end bs =
     (if bs \<noteq> [] then Fail Error_Corrupt ''trailing bytes after the canonical payload''
      else success)"

text \<open>The counted loops of the decoders.\<close>

primrec r_times :: "nat \<Rightarrow> 'a reader \<Rightarrow> 'a list reader" where
  "r_times 0 dec = r_return []"
| "r_times (Suc n) dec = rbind dec (\<lambda>x. rbind (r_times n dec) (\<lambda>xs. r_return (x # xs)))"

definition r_list :: "'a reader \<Rightarrow> nat \<Rightarrow> 'a list reader" where
  "r_list dec max_count = rbind (r_count max_count) (\<lambda>n. r_times n dec)"

definition r_option :: "'a reader \<Rightarrow> 'a option reader" where
  "r_option dec = rbind r_bool (\<lambda>present.
     if present then rbind dec (\<lambda>x. r_return (Some x)) else r_return None)"

text \<open>The decoder of a whole payload: read one value, then \<^verbatim>\<open>expect_end\<close>.\<close>

definition r_whole :: "'a reader \<Rightarrow> bytes \<Rightarrow> 'a result" where
  "r_whole dec bs =
     and_then (dec bs) (\<lambda>(x, rest). and_then (expect_end rest) (\<lambda>_. Inr x))"

section \<open>When writers succeed\<close>

lemma is_ok_w_prims [codec_ok, simp]:
  "is_ok (w_u8 a)" "is_ok (w_u16 b)" "is_ok (w_u32 c)" "is_ok (w_u64 d)" "is_ok (w_bool e)"
  "is_ok (w_digest f)" "is_ok (w_id16 g)"
  by (simp_all add: w_u8_def w_u16_def w_u32_def w_u64_def w_bool_def w_digest_def w_id16_def)

lemma is_ok_w_seq [codec_ok]: "is_ok (w_seq ws) \<longleftrightarrow> (\<forall>w \<in> set ws. is_ok w)"
  by (induction ws) (auto split: sum.splits)

lemma projr_w_seq: "\<forall>w \<in> set ws. is_ok w \<Longrightarrow> projr (w_seq ws) = concat (map projr ws)"
proof (induction ws)
  case Nil
  then show ?case by simp
next
  case (Cons w ws)
  then have "is_ok (w_seq ws)" "is_ok w" by (simp_all add: is_ok_w_seq)
  with Cons show ?case by (cases w; cases "w_seq ws") auto
qed

declare w_seq.simps [simp del]

lemma narrow_u32_small [simp]: "n < 4294967296 \<Longrightarrow> narrow_u32 n = Some (word_of_nat n)"
  by (simp add: narrow_u32_def)

lemma is_ok_w_text_iff:
  "is_ok (w_text s n) \<longleftrightarrow> length s \<le> n \<and> utf8_is_valid s \<and> length s < 4294967296"
  by (auto simp: w_text_def narrow_u32_def)

lemma is_ok_w_bytes_iff: "is_ok (w_bytes s n) \<longleftrightarrow> length s \<le> n \<and> length s < 4294967296"
  by (auto simp: w_bytes_def narrow_u32_def)

lemma is_ok_w_count_iff: "is_ok (w_count k n) \<longleftrightarrow> k \<le> n \<and> k < 4294967296"
  by (auto simp: w_count_def narrow_u32_def)

lemma is_ok_w_list:
  "is_ok (w_list enc n xs) \<longleftrightarrow> is_ok (w_count (length xs) n) \<and> (\<forall>x \<in> set xs. is_ok (enc x))"
  by (auto simp: w_list_def is_ok_w_seq)

lemma is_ok_w_option: "is_ok (w_option enc v) \<longleftrightarrow> (\<forall>x. v = Some x \<longrightarrow> is_ok (enc x))"
  by (cases v) (auto simp: w_option_def is_ok_w_seq)

lemma utf8_is_valid_ascii: "\<forall>c \<in> set s. byte_of_char c \<le> 0x7F \<Longrightarrow> utf8_is_valid s"
  by (induction s) simp_all

lemma name_char_ascii: "name_char c \<or> c = CHR ''.'' \<or> c = CHR ''*'' \<Longrightarrow> byte_of_char c \<le> 0x7F"
proof -
  assume "name_char c \<or> c = CHR ''.'' \<or> c = CHR ''*''"
  then have "of_char c \<le> (127 :: nat)"
    by (auto simp: name_char_def is_lower_def is_digit_def less_eq_char_def)
  then show ?thesis
    by (simp add: byte_of_char_def word_le_nat_alt unat_of_nat)
qed

text \<open>A validated name of at most 96 characters is always encodable as an identifier.\<close>

lemma is_ok_w_identifier_name:
  assumes "validate_qualified_name str n aw what = Inr r" "n \<le> 96"
  shows "is_ok (w_identifier str)"
proof -
  have "byte_of_char c \<le> 0x7F" if "c \<in> set str" for c
  proof -
    from that obtain i where "i < length str" "str ! i = c" by (auto simp: in_set_conv_nth)
    then show ?thesis
      using assms(1) by (intro name_char_ascii)
        (auto simp: validate_qualified_name_ok_iff name_position_ok_def split: if_splits)
  qed
  then show ?thesis
    using assms by (auto simp: w_identifier_def is_ok_w_text_iff ff_bounds
        validate_qualified_name_ok_iff utf8_is_valid_ascii)
qed

lemma is_ok_w_identifier_Nil [simp]: "is_ok (w_identifier [])"
  by (simp add: w_identifier_def is_ok_w_text_iff)

section \<open>Primitive round trips\<close>

lemma r_take_append [simp]: "n = length a \<Longrightarrow> r_take n (a @ rest) = Inr (a, rest)"
  by (simp add: rbind_def r_take_def)

declare rbind_def [codec_rt]

lemma rbind_ok_iff:
  "rbind m k bs = Inr (y, out) \<longleftrightarrow> (\<exists>x rest. m bs = Inr (x, rest) \<and> k x rest = Inr (y, out))"
  by (auto simp: rbind_def split: sum.splits prod.splits)

lemma r_return_apply [simp]: "r_return x bs = Inr (x, bs)"
  by (simp add: r_return_def)

lemma r_fail_apply [simp]: "r_fail c m bs = Fail c m"
  by (simp add: rbind_def r_fail_def)

lemma r_lift_apply [simp]: "r_lift (Inr x) bs = Inr (x, bs)" "r_lift (Inl s) bs = Inl s"
  by (simp_all add: r_lift_def)

lemma length_store [simp]: "length (store_u32_le v) = 4" "length (store_u64_le w) = 8"
  by (simp_all add: store_u32_le_def store_u64_le_def)

lemma load_store_u32 [simp]: "load_u32_le (store_u32_le v @ rest) = v"
  by (simp add: load_u32_le_def store_u32_le_def from_le_le_bytes)

lemma load_store_u64 [simp]: "load_u64_le (store_u64_le v @ rest) = v"
  by (simp add: load_u64_le_def store_u64_le_def from_le_le_bytes)

lemma load_store_u32_whole [simp]: "load_u32_le (store_u32_le v) = v"
  using load_store_u32 [of v "[]"] by simp

lemma drop_front_u32: "drop 4 (store_u32_le v @ rest) = rest"
  by simp

lemma le_bytes_from_le_n:
  "length bs = n \<Longrightarrow> LENGTH('a) = 8 * n \<Longrightarrow> le_bytes n (from_le bs :: 'a::len word) = bs"
  using le_bytes_from_le [where ?'a = 'a, of bs] by simp

lemma store_load_u32: "4 \<le> length bs \<Longrightarrow> store_u32_le (load_u32_le bs) = take 4 bs"
  unfolding store_u32_le_def load_u32_le_def by (intro le_bytes_from_le_n) simp_all

lemma store_load_u64: "8 \<le> length bs \<Longrightarrow> store_u64_le (load_u64_le bs) = take 8 bs"
  unfolding store_u64_le_def load_u64_le_def by (intro le_bytes_from_le_n) simp_all

lemma drop_split: "drop a xs = take b (drop a xs) @ drop (a + b) xs"
  by (metis append_take_drop_id drop_drop add.commute)

lemma r_u8_w [codec_rt]: "r_u8 (projr (w_u8 v) @ rest) = Inr (v, rest)"
  by (simp add: rbind_def r_u8_def w_u8_def r_take_def)

lemma r_u16_w [codec_rt]: "r_u16 (projr (w_u16 v) @ rest) = Inr (v, rest)"
  by (simp add: rbind_def r_u16_def w_u16_def from_le_le_bytes)

lemma r_u32_store: "r_u32 (store_u32_le v @ rest) = Inr (v, rest)"
  by (simp add: rbind_def r_u32_def store_u32_le_def load_u32_le_def from_le_le_bytes)

lemma r_u32_w [codec_rt]: "r_u32 (projr (w_u32 v) @ rest) = Inr (v, rest)"
  by (simp add: rbind_def w_u32_def r_u32_store)

lemma r_u64_w [codec_rt]: "r_u64 (projr (w_u64 v) @ rest) = Inr (v, rest)"
  by (simp add: rbind_def r_u64_def w_u64_def store_u64_le_def load_u64_le_def from_le_le_bytes)

lemma r_bool_w [codec_rt]: "r_bool (projr (w_bool v) @ rest) = Inr (v, rest)"
  by (simp add: rbind_def r_bool_def w_bool_def codec_rt)

lemma r_digest_w [codec_rt]: "r_digest (projr (w_digest v) @ rest) = Inr (v, rest)"
  by (simp add: rbind_def r_digest_def w_digest_def from_be_be_bytes)

lemma r_id16_w [codec_rt]: "r_id16 (projr (w_id16 v) @ rest) = Inr (v, rest)"
  by (simp add: rbind_def r_id16_def w_id16_def from_be_be_bytes)

lemma unat_word_of_nat_u32: "n < 4294967296 \<Longrightarrow> unat (word_of_nat n :: u32) = n"
  by (simp add: rbind_def unat_of_nat)

lemma r_bytes_w [codec_rt]:
  "is_ok (w_bytes s n) \<Longrightarrow> r_bytes n (projr (w_bytes s n) @ rest) = Inr (s, rest)"
  unfolding is_ok_w_bytes_iff by (auto simp: rbind_def w_bytes_def r_bytes_def r_u32_store unat_word_of_nat_u32)

lemma r_text_w [codec_rt]:
  "is_ok (w_text s n) \<Longrightarrow> r_text n (projr (w_text s n) @ rest) = Inr (s, rest)"
  unfolding is_ok_w_text_iff by (auto simp: rbind_def w_text_def r_text_def r_bytes_def r_u32_store
      unat_word_of_nat_u32 comp_def)

lemma r_identifier_w [codec_rt]:
  "is_ok (w_identifier s) \<Longrightarrow> r_identifier (projr (w_identifier s) @ rest) = Inr (s, rest)"
  by (simp add: rbind_def w_identifier_def r_identifier_def r_text_w)

lemma r_count_w [codec_rt]:
  "is_ok (w_count k n) \<Longrightarrow> r_count n (projr (w_count k n) @ rest) = Inr (k, rest)"
  unfolding is_ok_w_count_iff by (auto simp: rbind_def w_count_def r_count_def r_u32_w unat_word_of_nat_u32)

section \<open>The codec contract\<close>

text \<open>
  \<open>wf\<close> is the invariant of the encoded type that the decoder re-establishes (valid names, sorted
  collections, constrained fields): an encoded value that satisfies it is read back exactly, and
  the decoder leaves the bytes that follow.
\<close>

locale codec =
  fixes enc :: "'a \<Rightarrow> bytes result"
    and dec :: "'a reader"
    and wf :: "'a \<Rightarrow> bool"
  assumes roundtrip: "is_ok (enc x) \<Longrightarrow> wf x \<Longrightarrow> dec (projr (enc x) @ rest) = Inr (x, rest)"
begin

lemma enc_inject:
  assumes "is_ok (enc x)" "enc x = enc y" "wf x" "wf y"
  shows "x = y"
  using roundtrip [of x "[]"] roundtrip [of y "[]"] assms by simp

lemma enc_prefix_free:
  assumes "is_ok (enc x)" "is_ok (enc y)" "wf x" "wf y"
    and "projr (enc x) @ s = projr (enc y) @ t"
  shows "x = y \<and> s = t"
proof -
  have "Inr (x, s) = dec (projr (enc x) @ s)" using assms(1,3) by (simp only: roundtrip)
  also have "\<dots> = Inr (y, t)" unfolding assms(5) using assms(2,4) by (simp only: roundtrip)
  finally show ?thesis by simp
qed

lemma whole: "is_ok (enc x) \<Longrightarrow> wf x \<Longrightarrow> r_whole dec (projr (enc x)) = Inr x"
  using roundtrip [of x "[]"] by (simp add: r_whole_def expect_end_def)

lemma times:
  "\<forall>x \<in> set xs. is_ok (enc x) \<and> wf x \<Longrightarrow>
   r_times (length xs) dec (concat (map (projr \<circ> enc) xs) @ rest) = Inr (xs, rest)"
proof (induction xs)
  case Nil
  then show ?case by simp
next
  case (Cons x xs)
  then show ?case by (simp add: roundtrip rbind_def)
qed

lemma listed:
  assumes "is_ok (w_list enc n xs)" "\<forall>x \<in> set xs. wf x"
  shows "r_list dec n (projr (w_list enc n xs) @ rest) = Inr (xs, rest)"
proof -
  from assms(1) have ok: "is_ok (w_count (length xs) n)" "\<forall>x \<in> set xs. is_ok (enc x)"
    by (simp_all add: is_ok_w_list)
  then have "projr (w_list enc n xs) =
      projr (w_count (length xs) n) @ concat (map (projr \<circ> enc) xs)"
    unfolding w_list_def by (subst projr_w_seq) (auto simp: comp_def)
  with ok assms(2) show ?thesis
    by (simp add: r_list_def r_count_w times rbind_def)
qed

lemma optional:
  assumes "is_ok (w_option enc v)" "\<forall>x. v = Some x \<longrightarrow> wf x"
  shows "r_option dec (projr (w_option enc v) @ rest) = Inr (v, rest)"
  using assms
  by (cases v) (simp_all add: w_option_def r_option_def is_ok_w_seq projr_w_seq r_bool_w roundtrip
      rbind_def)

end

text \<open>A contract holds for every stronger invariant, and for collections of the contracted type.\<close>

lemma codec_list:
  assumes "codec enc dec wf"
  shows "codec (w_list enc n) (r_list dec n) (\<lambda>xs. \<forall>x \<in> set xs. wf x)"
  using codec.listed [OF assms] by unfold_locales auto

lemma codec_option:
  assumes "codec enc dec wf"
  shows "codec (w_option enc) (r_option dec) (\<lambda>v. \<forall>x. v = Some x \<longrightarrow> wf x)"
  using codec.optional [OF assms] by unfold_locales auto

interpretation u8_codec: codec w_u8 r_u8 "\<lambda>_. True"
  by unfold_locales (simp add: r_u8_w)

interpretation u64_codec: codec w_u64 r_u64 "\<lambda>_. True"
  by unfold_locales (simp add: r_u64_w)

interpretation bool_codec: codec w_bool r_bool "\<lambda>_. True"
  by unfold_locales (simp add: r_bool_w)

interpretation digest_codec: codec w_digest r_digest "\<lambda>_. True"
  by unfold_locales (simp add: r_digest_w)

interpretation id_codec: codec w_id16 r_id16 "\<lambda>_. True"
  by unfold_locales (simp add: r_id16_w)

interpretation identifier_codec: codec w_identifier r_identifier "\<lambda>_. True"
  by unfold_locales (simp add: r_identifier_w)

interpretation text_codec: codec "\<lambda>s. w_text s n" "r_text n" "\<lambda>_. True" for n
  by unfold_locales (simp add: r_text_w)

end
