(* ===== verification/Sha256.thy ===== *)
theory Sha256
  imports Codec
begin

text \<open>
  The SHA-256 implementation (\<^verbatim>\<open>sha256.cpp\<close>, \<^verbatim>\<open>digest.hpp\<close>): the compression function on 32-bit
  words, the streaming object with its 64-byte buffer, and the one-shot hash. The main result is
  that the streaming object, fed any sequence of chunks, computes the compression of the padded
  concatenation of the chunks: buffering is invisible.

  \<open>sha256\<close> is the digest function the program passes wherever a definition of the later theories
  takes a parameter \<open>H\<close>.
\<close>

unbundle bit_operations_syntax

section \<open>Compression\<close>

text \<open>The tables are laid out in rows of seven words, as the source lays them out.\<close>

definition table_row :: "u32 \<Rightarrow> u32 \<Rightarrow> u32 \<Rightarrow> u32 \<Rightarrow> u32 \<Rightarrow> u32 \<Rightarrow> u32 \<Rightarrow> u32 list" where
  "table_row a b c d e f g = [a, b, c, d, e, f, g]"

definition kRoundConstants :: "u32 list" where
  "kRoundConstants =
     table_row 0x428a2f98 0x71374491 0xb5c0fbcf 0xe9b5dba5 0x3956c25b 0x59f111f1 0x923f82a4 @
     table_row 0xab1c5ed5 0xd807aa98 0x12835b01 0x243185be 0x550c7dc3 0x72be5d74 0x80deb1fe @
     table_row 0x9bdc06a7 0xc19bf174 0xe49b69c1 0xefbe4786 0x0fc19dc6 0x240ca1cc 0x2de92c6f @
     table_row 0x4a7484aa 0x5cb0a9dc 0x76f988da 0x983e5152 0xa831c66d 0xb00327c8 0xbf597fc7 @
     table_row 0xc6e00bf3 0xd5a79147 0x06ca6351 0x14292967 0x27b70a85 0x2e1b2138 0x4d2c6dfc @
     table_row 0x53380d13 0x650a7354 0x766a0abb 0x81c2c92e 0x92722c85 0xa2bfe8a1 0xa81a664b @
     table_row 0xc24b8b70 0xc76c51a3 0xd192e819 0xd6990624 0xf40e3585 0x106aa070 0x19a4c116 @
     table_row 0x1e376c08 0x2748774c 0x34b0bcb5 0x391c0cb3 0x4ed8aa4a 0x5b9cca4f 0x682e6ff3 @
     table_row 0x748f82ee 0x78a5636f 0x84c87814 0x8cc70208 0x90befffa 0xa4506ceb 0xbef9a3f7 @
     [0xc67178f2]"

definition kInitialState :: "u32 list" where
  "kInitialState =
     table_row 0x6a09e667 0xbb67ae85 0x3c6ef372 0xa54ff53a 0x510e527f 0x9b05688c 0x1f83d9ab @
     [0x5be0cd19]"

definition rotr :: "u32 \<Rightarrow> nat \<Rightarrow> u32" where
  "rotr v s = (drop_bit s v OR push_bit (32 - s) v)"

definition sha_choose :: "u32 \<Rightarrow> u32 \<Rightarrow> u32 \<Rightarrow> u32" where
  "sha_choose x y z = ((x AND y) XOR (NOT x AND z))"

definition majority :: "u32 \<Rightarrow> u32 \<Rightarrow> u32 \<Rightarrow> u32" where
  "majority x y z = ((x AND y) XOR (x AND z) XOR (y AND z))"

definition big_sigma0 :: "u32 \<Rightarrow> u32" where
  "big_sigma0 x = (rotr x 2 XOR rotr x 13 XOR rotr x 22)"

definition big_sigma1 :: "u32 \<Rightarrow> u32" where
  "big_sigma1 x = (rotr x 6 XOR rotr x 11 XOR rotr x 25)"

definition small_sigma0 :: "u32 \<Rightarrow> u32" where
  "small_sigma0 x = (rotr x 7 XOR rotr x 18 XOR drop_bit 3 x)"

definition small_sigma1 :: "u32 \<Rightarrow> u32" where
  "small_sigma1 x = (rotr x 17 XOR rotr x 19 XOR drop_bit 10 x)"

text \<open>The 16 big-endian words of a block, then the 48 words of the message schedule.\<close>

definition load_word :: "bytes \<Rightarrow> nat \<Rightarrow> u32" where
  "load_word block i =
     (push_bit 24 (ucast (block ! (i * 4))) OR push_bit 16 (ucast (block ! (i * 4 + 1))) OR
      push_bit 8 (ucast (block ! (i * 4 + 2))) OR ucast (block ! (i * 4 + 3)))"

definition schedule_step :: "u32 list \<Rightarrow> nat \<Rightarrow> u32 list" where
  "schedule_step w i =
     w @ [small_sigma1 (w ! (i - 2)) + w ! (i - 7) + small_sigma0 (w ! (i - 15)) + w ! (i - 16)]"

definition message_schedule :: "bytes \<Rightarrow> u32 list" where
  "message_schedule block = foldl schedule_step (map (load_word block) [0..<16]) [16..<64]"

definition sha_round :: "u32 list \<Rightarrow> u32 \<times> u32 \<Rightarrow> u32 list" where
  "sha_round s kw = (case (s, kw) of
     ([a, b, c, d, e, f, g, h], (k, w)) \<Rightarrow>
        let t1 = h + big_sigma1 e + sha_choose e f g + k + w;
            t2 = big_sigma0 a + majority a b c
        in [t1 + t2, a, b, c, d + t1, e, f, g]
   | _ \<Rightarrow> s)"

definition compress :: "u32 list \<Rightarrow> bytes \<Rightarrow> u32 list" where
  "compress state block =
     map2 (+) state (foldl sha_round state (zip kRoundConstants (message_schedule block)))"

section \<open>The streaming object\<close>

record Sha256 =
  sh_state :: "u32 list"
  sh_buffer :: bytes
  sh_buffered :: nat
  sh_total_bytes :: u64
  sh_finished :: bool

definition sha_init :: Sha256 where
  "sha_init = \<lparr>sh_state = kInitialState, sh_buffer = replicate 64 0, sh_buffered = 0,
               sh_total_bytes = 0, sh_finished = False\<rparr>"

text \<open>\<^verbatim>\<open>memcpy\<close> of \<open>data\<close> into the buffer at an offset.\<close>

definition buffer_put :: "bytes \<Rightarrow> nat \<Rightarrow> bytes \<Rightarrow> bytes" where
  "buffer_put buffer offset data = take offset buffer @ data @ drop (offset + length data) buffer"

text \<open>The loop over whole blocks: the new state and the bytes that do not fill a block.\<close>

function compress_blocks :: "u32 list \<Rightarrow> bytes \<Rightarrow> u32 list \<times> bytes" where
  "compress_blocks state data =
     (if length data \<ge> 64 then compress_blocks (compress state (take 64 data)) (drop 64 data)
      else (state, data))"
  by pat_completeness auto
termination
  by (relation "measure (\<lambda>(_, data). length data)") auto

declare compress_blocks.simps [simp del]

definition sha_update :: "Sha256 \<Rightarrow> bytes \<Rightarrow> Sha256" where
  "sha_update s data =
     (if sh_finished s \<or> data = [] then s
      else
        let s = s\<lparr>sh_total_bytes := sh_total_bytes s + word_of_nat (length data)\<rparr>;
            n = (if sh_buffered s > 0 then min (length data) (64 - sh_buffered s) else 0);
            s = (if sh_buffered s > 0 then
                   let buffer = buffer_put (sh_buffer s) (sh_buffered s) (take n data);
                       buffered = sh_buffered s + n
                   in if buffered = 64
                      then s\<lparr>sh_buffer := buffer, sh_state := compress (sh_state s) buffer,
                             sh_buffered := 0\<rparr>
                      else s\<lparr>sh_buffer := buffer, sh_buffered := buffered\<rparr>
                 else s);
            (state, rest) = compress_blocks (sh_state s) (drop n data);
            s = s\<lparr>sh_state := state\<rparr>
        in if rest \<noteq> [] then
             s\<lparr>sh_buffer := buffer_put (sh_buffer s) (sh_buffered s) rest,
               sh_buffered := sh_buffered s + length rest\<rparr>
           else s)"

definition sha_output :: "u32 list \<Rightarrow> Digest" where
  "sha_output state = from_be (concat (map (be_bytes 4) state))"

definition sha_finish :: "Sha256 \<Rightarrow> Digest \<times> Sha256" where
  "sha_finish s =
     (let s = (if sh_finished s then s
               else
                 let bit_length = sh_total_bytes s * 8;
                     pad_len = (if sh_buffered s < 56 then 56 - sh_buffered s
                                else 120 - sh_buffered s);
                     s = sha_update s (0x80 # replicate (pad_len - 1) 0);
                     s = sha_update s (be_bytes 8 bit_length)
                 in s\<lparr>sh_finished := True\<rparr>)
      in (sha_output (sh_state s), s))"

definition sha256 :: "bytes \<Rightarrow> Digest" where
  "sha256 data = fst (sha_finish (sha_update sha_init data))"

section \<open>Reference definition\<close>

text \<open>FIPS 180-4 padding, then the compression of the blocks in order.\<close>

definition sha_pad :: "bytes \<Rightarrow> bytes" where
  "sha_pad m =
     m @ [0x80] @ replicate (if length m mod 64 < 56 then 55 - length m mod 64
                             else 119 - length m mod 64) 0 @
     be_bytes 8 (word_of_nat (8 * length m) :: u64)"

definition sha256_reference :: "bytes \<Rightarrow> Digest" where
  "sha256_reference m = sha_output (fst (compress_blocks kInitialState (sha_pad m)))"

section \<open>The stream invariant\<close>

lemma compress_blocks_short [simp]: "length m < 64 \<Longrightarrow> compress_blocks st m = (st, m)"
  by (simp add: compress_blocks.simps)

lemma compress_blocks_block:
  "length b = 64 \<Longrightarrow> compress_blocks st (b @ m) = compress_blocks (compress st b) m"
  by (subst compress_blocks.simps) simp

lemma compress_blocks_append:
  "compress_blocks st (a @ b) =
     (case compress_blocks st a of (st', r) \<Rightarrow> compress_blocks st' (r @ b))"
proof (induction st a rule: compress_blocks.induct)
  case (1 st a)
  show ?case
  proof (cases "length a \<ge> 64")
    case True
    have "compress_blocks st (a @ b) =
        compress_blocks (compress st (take 64 a)) (drop 64 a @ b)"
      using True compress_blocks_block [of "take 64 a" st "drop 64 a @ b"]
      by (metis append.assoc append_take_drop_id length_take min.absorb2)
    also have "\<dots> = (case compress_blocks (compress st (take 64 a)) (drop 64 a) of
        (st', r) \<Rightarrow> compress_blocks st' (r @ b))" using 1 True by blast
    also have "compress_blocks (compress st (take 64 a)) (drop 64 a) = compress_blocks st a"
      using True by (subst (2) compress_blocks.simps) simp
    finally show ?thesis .
  qed simp
qed

lemma compress_blocks_rest:
  "compress_blocks st m = (st', r) \<Longrightarrow> length r = length m mod 64"
proof (induction st m arbitrary: st' r rule: compress_blocks.induct)
  case (1 st m)
  show ?case
  proof (cases "length m \<ge> 64")
    case True
    then have "compress_blocks (compress st (take 64 m)) (drop 64 m) = (st', r)"
      using 1(2) by (subst (asm) compress_blocks.simps) simp
    from 1(1) [OF True this] have "length r = (length m - 64) mod 64" by simp
    with True show ?thesis by (simp add: le_mod_geq)
  next
    case False
    with 1 show ?thesis by simp
  qed
qed

text \<open>
  \<open>sha_inv s m\<close>: the object \<open>s\<close> has absorbed exactly the bytes \<open>m\<close>. The bytes of the buffer beyond
  \<open>sh_buffered\<close> are left over from earlier blocks and are not constrained.
\<close>

definition sha_inv :: "Sha256 \<Rightarrow> bytes \<Rightarrow> bool" where
  "sha_inv s m \<longleftrightarrow>
     compress_blocks kInitialState m = (sh_state s, take (sh_buffered s) (sh_buffer s)) \<and>
     length (sh_buffer s) = 64 \<and> sh_buffered s < 64 \<and>
     sh_total_bytes s = word_of_nat (length m) \<and> \<not> sh_finished s"

lemma sha_inv_init: "sha_inv sha_init []"
  by (simp add: sha_inv_def sha_init_def)

lemma sha_inv_buffered: "sha_inv s m \<Longrightarrow> sh_buffered s = length m mod 64"
  by (auto simp: sha_inv_def dest: compress_blocks_rest)

lemma length_buffer_put [simp]:
  "offset + length data \<le> length buffer \<Longrightarrow> length (buffer_put buffer offset data) = length buffer"
  by (simp add: buffer_put_def)

lemma take_buffer_put [simp]:
  "offset + length data \<le> length buffer \<Longrightarrow>
   take (offset + length data) (buffer_put buffer offset data) = take offset buffer @ data"
  by (simp add: buffer_put_def)

text \<open>The part of \<open>sha_update\<close> after the buffer was topped up: the invariant is restored.\<close>

lemma sha_inv_drain:
  assumes "compress_blocks kInitialState m = (sh_state s, take (sh_buffered s) (sh_buffer s))"
    and "length (sh_buffer s) = 64" "sh_buffered s = 0 \<or> d = [] \<and> sh_buffered s < 64"
    and "sh_total_bytes s = word_of_nat (length m + length d)" "\<not> sh_finished s"
    and "compress_blocks (sh_state s) d = (state, rest)"
    and "s' = s\<lparr>sh_state := state\<rparr>"
    and "s'' = (if rest \<noteq> [] then
             s'\<lparr>sh_buffer := buffer_put (sh_buffer s') (sh_buffered s') rest,
               sh_buffered := sh_buffered s' + length rest\<rparr> else s')"
  shows "sha_inv s'' (m @ d)"
proof (cases "d = []")
  case True
  with assms show ?thesis by (auto simp: sha_inv_def)
next
  case False
  with assms(3) have empty: "sh_buffered s = 0" by simp
  have "length rest < 64" using compress_blocks_rest [OF assms(6)] by simp
  moreover have "compress_blocks kInitialState (m @ d) = (state, rest)"
    using assms(1,6) empty by (simp add: compress_blocks_append [of _ m d])
  moreover have "take (length rest) (buffer_put (sh_buffer s) 0 rest) = rest"
    "length (buffer_put (sh_buffer s) 0 rest) = 64"
    using \<open>length rest < 64\<close> assms(2) by (simp_all add: buffer_put_def)
  ultimately show ?thesis
    using assms(2,4,5) empty unfolding assms(7,8) by (simp add: sha_inv_def)
qed

lemma sha_inv_update:
  assumes inv: "sha_inv s m"
  shows "sha_inv (sha_update s d) (m @ d)"
proof (cases "d = []")
  case True
  with inv show ?thesis by (simp add: sha_update_def)
next
  case False
  have b: "compress_blocks kInitialState m = (sh_state s, take (sh_buffered s) (sh_buffer s))"
    "length (sh_buffer s) = 64" "sh_buffered s < 64" "\<not> sh_finished s"
    "sh_total_bytes s = word_of_nat (length m)"
    using inv by (simp_all add: sha_inv_def)
  define s1 where "s1 = s\<lparr>sh_total_bytes := sh_total_bytes s + word_of_nat (length d)\<rparr>"
  define n where "n = (if sh_buffered s > 0 then min (length d) (64 - sh_buffered s) else 0)"
  define buf where "buf = buffer_put (sh_buffer s) (sh_buffered s) (take n d)"
  define s2 where "s2 = (if sh_buffered s > 0 then
      if sh_buffered s + n = 64
      then s1\<lparr>sh_buffer := buf, sh_state := compress (sh_state s) buf, sh_buffered := 0\<rparr>
      else s1\<lparr>sh_buffer := buf, sh_buffered := sh_buffered s + n\<rparr> else s1)"
  obtain state rest where cb: "compress_blocks (sh_state s2) (drop n d) = (state, rest)"
    by force
  have upd: "sha_update s d = (let s' = s2\<lparr>sh_state := state\<rparr> in
      if rest \<noteq> [] then s'\<lparr>sh_buffer := buffer_put (sh_buffer s') (sh_buffered s') rest,
        sh_buffered := sh_buffered s' + length rest\<rparr> else s')"
    using False b(4) cb
    by (simp add: sha_update_def Let_def s1_def n_def buf_def s2_def cong: if_cong)
  have len: "sh_buffered s + length (take n d) \<le> 64" "length (take n d) = n"
    using b(3) by (auto simp: n_def)
  have buf: "take (sh_buffered s + n) buf = take (sh_buffered s) (sh_buffer s) @ take n d"
    "length buf = 64"
    using len b(2) take_buffer_put [of "sh_buffered s" "take n d" "sh_buffer s"]
    by (simp_all add: buf_def)
  have absorbed: "compress_blocks kInitialState (m @ take n d) =
      (sh_state s2, take (sh_buffered s2) (sh_buffer s2))"
  proof (cases "sh_buffered s + n = 64")
    case True
    then have "take (sh_buffered s) (sh_buffer s) @ take n d = buf" using buf by simp
    then have "compress_blocks kInitialState (m @ take n d) = (compress (sh_state s) buf, [])"
      using compress_blocks_block [OF buf(2), of "sh_state s" "[]"] b(1)
      by (simp add: compress_blocks_append [of _ m "take n d"])
    moreover have "sh_buffered s > 0" using True len by (cases "sh_buffered s") (simp_all add: n_def)
    ultimately show ?thesis using True by (simp add: s2_def s1_def)
  next
    case False
    then have lt: "length (take (sh_buffered s) (sh_buffer s) @ take n d) < 64"
      using b len by simp
    show ?thesis
    proof (cases "sh_buffered s = 0")
      case True
      then have "n = 0" by (simp add: n_def)
      with True b show ?thesis by (simp add: s2_def s1_def)
    next
      case pos: False
      have "compress_blocks kInitialState (m @ take n d) =
          (sh_state s, take (sh_buffered s) (sh_buffer s) @ take n d)"
        using lt b(1) by (simp add: compress_blocks_append [of _ m "take n d"])
      with pos False buf(1) show ?thesis by (simp add: s2_def s1_def)
    qed
  qed
  have "sha_inv (sha_update s d) ((m @ take n d) @ drop n d)"
  proof (rule sha_inv_drain [OF absorbed _ _ _ _ cb refl])
    show "length (sh_buffer s2) = 64" "\<not> sh_finished s2"
      using b buf by (simp_all add: s2_def s1_def)
    show "sh_buffered s2 = 0 \<or> drop n d = [] \<and> sh_buffered s2 < 64"
      using b by (auto simp: s2_def s1_def n_def)
    show "sh_total_bytes s2 = word_of_nat (length (m @ take n d) + length (drop n d))"
      using b len by (auto simp: s2_def s1_def)
  qed (simp only: upd Let_def)
  then show ?thesis by (simp only: append_assoc append_take_drop_id)
qed

lemma sha_inv_updates: "sha_inv s m \<Longrightarrow> sha_inv (foldl sha_update s chunks) (m @ concat chunks)"
proof (induction chunks arbitrary: s m)
  case Nil
  then show ?case by simp
next
  case (Cons c cs)
  from Cons.IH [OF sha_inv_update [OF Cons.prems]] show ?case by simp
qed

lemma sha_finish_inv:
  assumes "sha_inv s m"
  shows "fst (sha_finish s) = sha256_reference m"
proof -
  define k where "k = (if sh_buffered s < 56 then 56 - sh_buffered s else 120 - sh_buffered s)"
  define s' where "s' = sha_update (sha_update s (0x80 # replicate (k - 1) 0))
      (be_bytes 8 (sh_total_bytes s * 8))"
  have total: "sh_total_bytes s * 8 = word_of_nat (8 * length m)"
    using assms by (simp add: sha_inv_def)
  have pad: "sha_pad m = (m @ 0x80 # replicate (k - 1) 0) @ be_bytes 8 (sh_total_bytes s * 8)"
    using sha_inv_buffered [OF assms] unfolding total
    by (simp add: sha_pad_def k_def)
  have "sha_inv s' (sha_pad m)"
    unfolding pad s'_def by (intro sha_inv_update assms)
  then have "compress_blocks kInitialState (sha_pad m) =
      (sh_state s', take (sh_buffered s') (sh_buffer s'))" by (simp add: sha_inv_def)
  then show ?thesis
    using assms by (simp add: sha_finish_def sha256_reference_def Let_def sha_inv_def s'_def k_def)
qed

lemma sha_finish_again: "sha_finish (snd (sha_finish s)) = sha_finish s"
  by (simp add: sha_finish_def Let_def)

section \<open>Properties\<close>

text \<open>
  C35: feeding a message to the streaming hash in any chunks gives the digest of the whole message
  under the reference definition (padding, then compression block by block), and finishing the
  object a second time, or feeding it more bytes after that, does not change the digest.
\<close>

theorem sha256_streaming:
  "fst (sha_finish (foldl sha_update sha_init chunks)) = sha256_reference (concat chunks) \<and>
   fst (sha_finish (sha_update (snd (sha_finish s)) extra)) = fst (sha_finish s)"
proof
  show "fst (sha_finish (foldl sha_update sha_init chunks)) = sha256_reference (concat chunks)"
    using sha_inv_updates [OF sha_inv_init, of chunks] by (simp add: sha_finish_inv)
  have "sh_finished (snd (sha_finish s))" by (simp add: sha_finish_def Let_def)
  then have "sha_update (snd (sha_finish s)) extra = snd (sha_finish s)"
    by (simp add: sha_update_def)
  then show "fst (sha_finish (sha_update (snd (sha_finish s)) extra)) = fst (sha_finish s)"
    by (simp add: sha_finish_again)
qed

lemma sha256_eq_reference: "sha256 m = sha256_reference m"
  unfolding sha256_def by (rule sha_finish_inv) (use sha_inv_update [OF sha_inv_init] in simp)

end
