(* ===== verification/Scope.thy ===== *)
theory Scope
  imports Codec
begin

text \<open>
  Scopes, verbs, grants, delegation terms, conflict records and the scope catalogue
  (\<^verbatim>\<open>scope.hpp\<close>, \<^verbatim>\<open>scope.cpp\<close>). Every hashing definition takes the digest function \<open>H\<close> as its first
  argument (\<^verbatim>\<open>Sha256.thy\<close> gives the one the program uses). The lemmas show the codec contract of
  each wire type, that canonical digests depend only on the set they digest, what the grant
  intersection returns, and the invariant of the catalogue.
\<close>

section \<open>Enumerations\<close>

datatype AuthorityVerb = Verb_Observe | Verb_Write | Verb_Mutate | Verb_Administer

datatype ScopeClass = Class_Local | Class_Federation | Class_GlobalMutation

datatype DelegationMode = Mode_Shared | Mode_Exclusive

datatype ConflictKind =
    Conflict_OverlappingExclusive | Conflict_AmbiguousPrecedence | Conflict_ModeMismatch
  | Conflict_DuplicateEvidence | Conflict_ConflictingIdentity | Conflict_PrecedenceUnsatisfiable

primrec verb_wire :: "AuthorityVerb \<Rightarrow> u8" where
  "verb_wire Verb_Observe = 0"
| "verb_wire Verb_Write = 1"
| "verb_wire Verb_Mutate = 2"
| "verb_wire Verb_Administer = 3"

primrec class_wire :: "ScopeClass \<Rightarrow> u8" where
  "class_wire Class_Local = 0"
| "class_wire Class_Federation = 1"
| "class_wire Class_GlobalMutation = 2"

primrec mode_wire :: "DelegationMode \<Rightarrow> u8" where
  "mode_wire Mode_Shared = 0"
| "mode_wire Mode_Exclusive = 1"

primrec conflict_kind_wire :: "ConflictKind \<Rightarrow> u8" where
  "conflict_kind_wire Conflict_OverlappingExclusive = 0"
| "conflict_kind_wire Conflict_AmbiguousPrecedence = 1"
| "conflict_kind_wire Conflict_ModeMismatch = 2"
| "conflict_kind_wire Conflict_DuplicateEvidence = 3"
| "conflict_kind_wire Conflict_ConflictingIdentity = 4"
| "conflict_kind_wire Conflict_PrecedenceUnsatisfiable = 5"

definition verb_to_string :: "AuthorityVerb \<Rightarrow> string" where
  "verb_to_string v = (case v of
     Verb_Observe \<Rightarrow> ''observe'' | Verb_Write \<Rightarrow> ''write'' | Verb_Mutate \<Rightarrow> ''mutate''
   | Verb_Administer \<Rightarrow> ''administer'')"

definition parse_verb :: "string \<Rightarrow> AuthorityVerb option" where
  "parse_verb str =
     (if str = ''observe'' then Some Verb_Observe
      else if str = ''write'' then Some Verb_Write
      else if str = ''mutate'' then Some Verb_Mutate
      else if str = ''administer'' then Some Verb_Administer
      else None)"

definition verb_from_wire :: "u8 \<Rightarrow> AuthorityVerb result" where
  "verb_from_wire v =
     (if v > 3 then Fail Error_InvalidArgument ''authority verb is out of range''
      else Inr (if v = 0 then Verb_Observe else if v = 1 then Verb_Write
                else if v = 2 then Verb_Mutate else Verb_Administer))"

definition scope_class_to_string :: "ScopeClass \<Rightarrow> string" where
  "scope_class_to_string c = (case c of
     Class_Local \<Rightarrow> ''local'' | Class_Federation \<Rightarrow> ''federation''
   | Class_GlobalMutation \<Rightarrow> ''global-mutation'')"

definition mode_to_string :: "DelegationMode \<Rightarrow> string" where
  "mode_to_string m = (case m of Mode_Shared \<Rightarrow> ''shared'' | Mode_Exclusive \<Rightarrow> ''exclusive'')"

definition conflict_kind_to_string :: "ConflictKind \<Rightarrow> string" where
  "conflict_kind_to_string k = (case k of
     Conflict_OverlappingExclusive \<Rightarrow> ''overlapping-exclusive''
   | Conflict_AmbiguousPrecedence \<Rightarrow> ''ambiguous-precedence''
   | Conflict_ModeMismatch \<Rightarrow> ''mode-mismatch''
   | Conflict_DuplicateEvidence \<Rightarrow> ''duplicate-evidence''
   | Conflict_ConflictingIdentity \<Rightarrow> ''conflicting-identity''
   | Conflict_PrecedenceUnsatisfiable \<Rightarrow> ''precedence-unsatisfiable'')"

text \<open>\<^verbatim>\<open>static_cast\<close> from the wire after the range check of the decoder.\<close>

definition mode_from_wire :: "u8 \<Rightarrow> DelegationMode result" where
  "mode_from_wire v =
     (if v > 1 then Fail Error_InvalidArgument ''delegation mode is out of range''
      else Inr (if v = 0 then Mode_Shared else Mode_Exclusive))"

definition conflict_kind_from_wire :: "u8 \<Rightarrow> ConflictKind result" where
  "conflict_kind_from_wire v =
     (if v > 5 then Fail Error_InvalidArgument ''conflict kind is out of range''
      else Inr (if v = 0 then Conflict_OverlappingExclusive
                else if v = 1 then Conflict_AmbiguousPrecedence
                else if v = 2 then Conflict_ModeMismatch
                else if v = 3 then Conflict_DuplicateEvidence
                else if v = 4 then Conflict_ConflictingIdentity
                else Conflict_PrecedenceUnsatisfiable))"

lemma verb_wire_inject [simp]: "verb_wire a = verb_wire b \<longleftrightarrow> a = b"
  by (cases a; cases b) simp_all

lemma mode_wire_inject [simp]: "mode_wire a = mode_wire b \<longleftrightarrow> a = b"
  by (cases a; cases b) simp_all

lemma conflict_kind_wire_inject [simp]: "conflict_kind_wire a = conflict_kind_wire b \<longleftrightarrow> a = b"
  by (cases a; cases b) simp_all

lemma verb_from_wire_wire [codec_rt, simp]: "verb_from_wire (verb_wire v) = Inr v"
  by (cases v) (simp_all add: verb_from_wire_def)

lemma mode_from_wire_wire [codec_rt, simp]: "mode_from_wire (mode_wire v) = Inr v"
  by (cases v) (simp_all add: mode_from_wire_def)

lemma conflict_kind_from_wire_wire [codec_rt, simp]:
  "conflict_kind_from_wire (conflict_kind_wire v) = Inr v"
  by (cases v) (simp_all add: conflict_kind_from_wire_def)

text \<open>The enumerations compare by their numeric value.\<close>

instantiation AuthorityVerb :: linorder
begin
definition less_eq_AuthorityVerb :: "AuthorityVerb \<Rightarrow> AuthorityVerb \<Rightarrow> bool" where
  "a \<le> b \<longleftrightarrow> verb_wire a \<le> verb_wire b"
definition less_AuthorityVerb :: "AuthorityVerb \<Rightarrow> AuthorityVerb \<Rightarrow> bool" where
  "a < b \<longleftrightarrow> verb_wire a < verb_wire b"
instance
  by intro_classes (simp_all only: less_eq_AuthorityVerb_def less_AuthorityVerb_def less_le_not_le
      order_refl linear verb_wire_inject [symmetric] order_trans order_antisym)
end

instantiation DelegationMode :: linorder
begin
definition less_eq_DelegationMode :: "DelegationMode \<Rightarrow> DelegationMode \<Rightarrow> bool" where
  "a \<le> b \<longleftrightarrow> mode_wire a \<le> mode_wire b"
definition less_DelegationMode :: "DelegationMode \<Rightarrow> DelegationMode \<Rightarrow> bool" where
  "a < b \<longleftrightarrow> mode_wire a < mode_wire b"
instance
  by intro_classes (simp_all only: less_eq_DelegationMode_def less_DelegationMode_def less_le_not_le
      order_refl linear mode_wire_inject [symmetric] order_trans order_antisym)
end

instantiation ConflictKind :: linorder
begin
definition less_eq_ConflictKind :: "ConflictKind \<Rightarrow> ConflictKind \<Rightarrow> bool" where
  "a \<le> b \<longleftrightarrow> conflict_kind_wire a \<le> conflict_kind_wire b"
definition less_ConflictKind :: "ConflictKind \<Rightarrow> ConflictKind \<Rightarrow> bool" where
  "a < b \<longleftrightarrow> conflict_kind_wire a < conflict_kind_wire b"
instance
  by intro_classes (simp_all only: less_eq_ConflictKind_def less_ConflictKind_def less_le_not_le
      order_refl linear conflict_kind_wire_inject [symmetric] order_trans order_antisym)
end

section \<open>Grants\<close>

record ScopeGrant =
  sg_scope :: ScopeId
  sg_verb :: AuthorityVerb

definition ScopeGrant_key :: "'a ScopeGrant_scheme \<Rightarrow> ScopeId \<times> AuthorityVerb \<times> 'a" where
  "ScopeGrant_key g = (sg_scope g, sg_verb g, ScopeGrant.more g)"

lemma ScopeGrant_key_inject [simp]: "ScopeGrant_key a = ScopeGrant_key b \<longleftrightarrow> a = b"
  by (cases a; cases b) (auto simp: ScopeGrant_key_def)

instantiation ScopeGrant_ext :: (linorder) linorder
begin
definition less_eq_ScopeGrant_ext :: "'a ScopeGrant_scheme \<Rightarrow> 'a ScopeGrant_scheme \<Rightarrow> bool" where
  "a \<le> b \<longleftrightarrow> ScopeGrant_key a \<le> ScopeGrant_key b"
definition less_ScopeGrant_ext :: "'a ScopeGrant_scheme \<Rightarrow> 'a ScopeGrant_scheme \<Rightarrow> bool" where
  "a < b \<longleftrightarrow> ScopeGrant_key a < ScopeGrant_key b"
instance
  by intro_classes (simp_all only: less_eq_ScopeGrant_ext_def less_ScopeGrant_ext_def
      less_le_not_le order_refl linear ScopeGrant_key_inject [symmetric] order_trans order_antisym)
end

definition grant_to_string :: "ScopeGrant \<Rightarrow> string" where
  "grant_to_string g = sg_scope g @ '':'' @ verb_to_string (sg_verb g)"

definition encode_grant :: "ScopeGrant \<Rightarrow> bytes result" where
  "encode_grant g = w_seq [w_identifier (sg_scope g), w_u8 (verb_wire (sg_verb g))]"

text \<open>An optional name on the wire: empty, or accepted by its parser.\<close>

definition optional_name :: "(string \<Rightarrow> string result) \<Rightarrow> string \<Rightarrow> string \<Rightarrow> string result" where
  "optional_name parse message name =
     (if name = [] then Inr []
      else case parse name of
        Inl _ \<Rightarrow> Fail Error_InvalidArgument message
      | Inr n \<Rightarrow> Inr n)"

definition decode_grant :: "ScopeGrant reader" where
  "decode_grant =
     rbind r_identifier (\<lambda>scope.
     rbind (r_lift (optional_name parse_scope ''scope identifier is malformed'' scope)) (\<lambda>scope.
     rbind r_u8 (\<lambda>verb.
     rbind (r_lift (verb_from_wire verb)) (\<lambda>verb.
     r_return \<lparr>sg_scope = scope, sg_verb = verb\<rparr>))))"

definition canonicalize_grants :: "ScopeGrant list \<Rightarrow> ScopeGrant list" where
  "canonicalize_grants grants = sort_unique grants"

definition grants_cover :: "ScopeGrant list \<Rightarrow> ScopeGrant \<Rightarrow> bool" where
  "grants_cover grants query \<longleftrightarrow>
     (\<exists>candidate \<in> set grants.
        sg_verb candidate = sg_verb query \<and> covers (sg_scope candidate) (sg_scope query))"

text \<open>The inner loop of \<open>intersect_grants\<close>: the first filter that covers the candidate.\<close>

fun intersect_one :: "ScopeGrant \<Rightarrow> ScopeGrant list \<Rightarrow> ScopeGrant list" where
  "intersect_one candidate [] = []"
| "intersect_one candidate (flt # right) =
     (if sg_verb candidate \<noteq> sg_verb flt then intersect_one candidate right
      else if \<not> covers (sg_scope flt) (sg_scope candidate) then intersect_one candidate right
      else
        [\<lparr>sg_scope = (if is_wildcard (sg_scope candidate) \<and> \<not> is_wildcard (sg_scope flt)
                      then sg_scope flt else sg_scope candidate),
          sg_verb = sg_verb candidate\<rparr>])"

definition intersect_grants :: "ScopeGrant list \<Rightarrow> ScopeGrant list \<Rightarrow> ScopeGrant list" where
  "intersect_grants left right =
     canonicalize_grants (concat (map (\<lambda>candidate. intersect_one candidate right) left))"

definition encode_grants :: "ScopeGrant list \<Rightarrow> nat \<Rightarrow> bytes result" where
  "encode_grants grants max_count = w_list encode_grant max_count grants"

definition decode_grants :: "nat \<Rightarrow> ScopeGrant list reader" where
  "decode_grants max_count = r_list decode_grant max_count"

text \<open>\<open>join sep xs\<close> is the loop that appends a separator before every element but the first.\<close>

fun join :: "string \<Rightarrow> string list \<Rightarrow> string" where
  "join sep [] = []"
| "join sep [x] = x"
| "join sep (x # y # xs) = x @ sep @ join sep (y # xs)"

definition render_grants :: "ScopeGrant list \<Rightarrow> string" where
  "render_grants grants =
     (let out = join '', '' (map grant_to_string grants) in if out = [] then ''(none)'' else out)"

text \<open>\<^verbatim>\<open>writer.sha256()\<close> of a finished encoding; the zero digest when the encoding failed.\<close>

definition digest_of :: "(bytes \<Rightarrow> Digest) \<Rightarrow> bytes result \<Rightarrow> Digest" where
  "digest_of H w = (case w of Inl _ \<Rightarrow> 0 | Inr bs \<Rightarrow> H bs)"

definition digest_grants :: "(bytes \<Rightarrow> Digest) \<Rightarrow> ScopeGrant list \<Rightarrow> Digest" where
  "digest_grants H grants =
     digest_of H (encode_grants (canonicalize_grants grants) kMaxScopesPerMember)"

section \<open>Delegation terms\<close>

record DelegationTerms =
  dt_grant :: ScopeGrant
  dt_mode :: DelegationMode
  dt_weight :: u32
  dt_not_after :: Tick
  dt_constraint :: ConstraintToken

definition DelegationTerms_key ::
  "'a DelegationTerms_scheme \<Rightarrow> ScopeGrant \<times> DelegationMode \<times> u32 \<times> Tick \<times> ConstraintToken \<times> 'a"
where
  "DelegationTerms_key t =
     (dt_grant t, dt_mode t, dt_weight t, dt_not_after t, dt_constraint t, DelegationTerms.more t)"

lemma DelegationTerms_key_inject [simp]: "DelegationTerms_key a = DelegationTerms_key b \<longleftrightarrow> a = b"
  by (cases a; cases b) (auto simp: DelegationTerms_key_def)

instantiation DelegationTerms_ext :: (linorder) linorder
begin
definition less_eq_DelegationTerms_ext ::
  "'a DelegationTerms_scheme \<Rightarrow> 'a DelegationTerms_scheme \<Rightarrow> bool" where
  "a \<le> b \<longleftrightarrow> DelegationTerms_key a \<le> DelegationTerms_key b"
definition less_DelegationTerms_ext ::
  "'a DelegationTerms_scheme \<Rightarrow> 'a DelegationTerms_scheme \<Rightarrow> bool" where
  "a < b \<longleftrightarrow> DelegationTerms_key a < DelegationTerms_key b"
instance
  by intro_classes (simp_all only: less_eq_DelegationTerms_ext_def less_DelegationTerms_ext_def
      less_le_not_le order_refl linear DelegationTerms_key_inject [symmetric] order_trans
      order_antisym)
end

definition encode_term :: "DelegationTerms \<Rightarrow> bytes result" where
  "encode_term t = w_seq
     [encode_grant (dt_grant t), w_u8 (mode_wire (dt_mode t)), w_u32 (dt_weight t),
      w_u64 (dt_not_after t), w_identifier (dt_constraint t)]"

definition decode_term :: "DelegationTerms reader" where
  "decode_term =
     rbind decode_grant (\<lambda>grant.
     rbind r_u8 (\<lambda>mode.
     rbind (r_lift (mode_from_wire mode)) (\<lambda>mode.
     rbind r_u32 (\<lambda>weight.
     rbind r_u64 (\<lambda>not_after.
     rbind r_identifier (\<lambda>constr.
     rbind (r_lift (optional_name parse_constraint ''constraint token is malformed'' constr))
       (\<lambda>constr.
     r_return \<lparr>dt_grant = grant, dt_mode = mode, dt_weight = weight, dt_not_after = not_after,
               dt_constraint = constr\<rparr>)))))))"

definition term_to_string :: "DelegationTerms \<Rightarrow> string" where
  "term_to_string t =
     grant_to_string (dt_grant t) @ '' '' @ mode_to_string (dt_mode t) @ '' weight='' @
     word_to_string (dt_weight t) @
     (if dt_not_after t \<noteq> 0 then '' not_after='' @ word_to_string (dt_not_after t) else []) @
     (if dt_constraint t \<noteq> [] then '' constraint='' @ dt_constraint t else [])"

definition canonicalize_terms :: "DelegationTerms list \<Rightarrow> DelegationTerms list" where
  "canonicalize_terms terms = sort_unique terms"

definition encode_terms :: "DelegationTerms list \<Rightarrow> nat \<Rightarrow> bytes result" where
  "encode_terms terms max_count = w_list encode_term max_count terms"

definition decode_terms :: "nat \<Rightarrow> DelegationTerms list reader" where
  "decode_terms max_count = r_list decode_term max_count"

definition digest_terms :: "(bytes \<Rightarrow> Digest) \<Rightarrow> DelegationTerms list \<Rightarrow> Digest" where
  "digest_terms H terms =
     digest_of H (encode_terms (canonicalize_terms terms) kMaxDelegationTermsPerMember)"

section \<open>Conflict records\<close>

record ConflictRecord =
  cr_grant :: ScopeGrant
  cr_kind :: ConflictKind
  cr_claimants :: "MemberId list"
  cr_detail :: string

definition ConflictRecord_key ::
  "'a ConflictRecord_scheme \<Rightarrow> ScopeGrant \<times> ConflictKind \<times> MemberId list \<times> string \<times> 'a" where
  "ConflictRecord_key c =
     (cr_grant c, cr_kind c, cr_claimants c, cr_detail c, ConflictRecord.more c)"

lemma ConflictRecord_key_inject [simp]: "ConflictRecord_key a = ConflictRecord_key b \<longleftrightarrow> a = b"
  by (cases a; cases b) (auto simp: ConflictRecord_key_def)

instantiation ConflictRecord_ext :: (linorder) linorder
begin
definition less_eq_ConflictRecord_ext ::
  "'a ConflictRecord_scheme \<Rightarrow> 'a ConflictRecord_scheme \<Rightarrow> bool" where
  "a \<le> b \<longleftrightarrow> ConflictRecord_key a \<le> ConflictRecord_key b"
definition less_ConflictRecord_ext ::
  "'a ConflictRecord_scheme \<Rightarrow> 'a ConflictRecord_scheme \<Rightarrow> bool" where
  "a < b \<longleftrightarrow> ConflictRecord_key a < ConflictRecord_key b"
instance
  by intro_classes (simp_all only: less_eq_ConflictRecord_ext_def less_ConflictRecord_ext_def
      less_le_not_le order_refl linear ConflictRecord_key_inject [symmetric] order_trans
      order_antisym)
end

definition conflict_to_string :: "ConflictRecord \<Rightarrow> string" where
  "conflict_to_string c =
     conflict_kind_to_string (cr_kind c) @ '' on '' @ grant_to_string (cr_grant c) @
     '' claimants=['' @ join '','' (map member_to_string (cr_claimants c)) @ '']'' @
     (if cr_detail c \<noteq> [] then '' '' @ cr_detail c else [])"

definition canonicalize_conflicts :: "ConflictRecord list \<Rightarrow> ConflictRecord list" where
  "canonicalize_conflicts conflicts =
     sort_unique (map (\<lambda>c. c\<lparr>cr_claimants := sort_unique (cr_claimants c)\<rparr>) conflicts)"

definition encode_conflict :: "ConflictRecord \<Rightarrow> bytes result" where
  "encode_conflict c = w_seq
     [encode_grant (cr_grant c), w_u8 (conflict_kind_wire (cr_kind c)),
      w_list w_id16 kMaxMembers (cr_claimants c), w_text (cr_detail c) kMaxTextLength]"

definition decode_conflict :: "ConflictRecord reader" where
  "decode_conflict =
     rbind decode_grant (\<lambda>grant.
     rbind r_u8 (\<lambda>kind.
     rbind (r_lift (conflict_kind_from_wire kind)) (\<lambda>kind.
     rbind (r_list r_id16 kMaxMembers) (\<lambda>claimants.
     rbind (r_text kMaxTextLength) (\<lambda>detail.
     r_return \<lparr>cr_grant = grant, cr_kind = kind, cr_claimants = claimants,
               cr_detail = detail\<rparr>)))))"

definition encode_conflicts :: "ConflictRecord list \<Rightarrow> nat \<Rightarrow> bytes result" where
  "encode_conflicts conflicts max_count = w_list encode_conflict max_count conflicts"

definition decode_conflicts :: "nat \<Rightarrow> ConflictRecord list reader" where
  "decode_conflicts max_count = r_list decode_conflict max_count"

definition digest_conflicts :: "(bytes \<Rightarrow> Digest) \<Rightarrow> ConflictRecord list \<Rightarrow> Digest" where
  "digest_conflicts H conflicts =
     digest_of H (encode_conflicts (canonicalize_conflicts conflicts) kMaxConflicts)"

section \<open>The scope catalogue\<close>

record ScopeDescriptor =
  sd_scope :: ScopeId
  sd_class :: ScopeClass
  sd_description :: string

type_synonym ScopeCatalog = "ScopeDescriptor list"

primrec replace_descriptor :: "ScopeDescriptor \<Rightarrow> ScopeCatalog \<Rightarrow> ScopeCatalog option" where
  "replace_descriptor d [] = None"
| "replace_descriptor d (e # es) =
     (if sd_scope e = sd_scope d then Some (d # es)
      else map_option ((#) e) (replace_descriptor d es))"

definition catalog_add :: "ScopeDescriptor \<Rightarrow> ScopeCatalog \<Rightarrow> ScopeCatalog" where
  "catalog_add d entries =
     (case replace_descriptor d entries of
        Some entries' \<Rightarrow> sort_key sd_scope entries'
      | None \<Rightarrow> sort_key sd_scope (entries @ [d]))"

definition catalog_find :: "ScopeCatalog \<Rightarrow> ScopeId \<Rightarrow> ScopeDescriptor option" where
  "catalog_find entries scope = find (\<lambda>d. sd_scope d = scope) entries"

text \<open>The class and the out-parameter \<^verbatim>\<open>known\<close>.\<close>

definition classify :: "ScopeCatalog \<Rightarrow> ScopeId \<Rightarrow> ScopeClass \<times> bool" where
  "classify entries scope =
     (if is_wildcard scope then (Class_Federation, False)
      else case catalog_find entries scope of
        Some d \<Rightarrow> (sd_class d, True)
      | None \<Rightarrow>
          if length scope > 7 \<and> take 7 scope = ''domain.'' then (Class_Local, True)
          else (Class_Federation, False))"

definition catalog_digest :: "(bytes \<Rightarrow> Digest) \<Rightarrow> ScopeCatalog \<Rightarrow> Digest" where
  "catalog_digest H entries = digest_of H (w_list
     (\<lambda>d. w_seq [w_identifier (sd_scope d), w_u8 (class_wire (sd_class d)),
                 w_text (sd_description d) kMaxShortTextLength])
     kMaxPolicyRules (sort_key sd_scope entries))"

definition builtin_add :: "ScopeCatalog \<Rightarrow> string \<times> ScopeClass \<times> string \<Rightarrow> ScopeCatalog" where
  "builtin_add built entry =
     (case entry of (name, scope_class, description) \<Rightarrow>
        (case parse_scope name of
           Inl _ \<Rightarrow> built
         | Inr scope \<Rightarrow> catalog_add \<lparr>sd_scope = scope, sd_class = scope_class,
                                     sd_description = description\<rparr> built))"

definition builtin :: ScopeCatalog where
  "builtin = foldl builtin_add []
    [(''federation.membership.observe'', Class_Federation,
      ''read membership records for the federation''),
     (''federation.membership.propose'', Class_Federation, ''sponsor a candidate member''),
     (''federation.membership.admit'', Class_GlobalMutation,
      ''change the membership set of the federation''),
     (''federation.delegation.observe'', Class_Federation,
      ''read delegation terms held across the federation''),
     (''federation.delegation.grant'', Class_GlobalMutation,
      ''change the delegation terms held across the federation''),
     (''federation.policy.observe'', Class_Federation, ''read the federation policy''),
     (''federation.policy.endorse'', Class_Federation,
      ''endorse a policy revision without adopting it''),
     (''federation.policy.adopt'', Class_GlobalMutation,
      ''adopt a policy revision for the federation''),
     (''federation.epoch.observe'', Class_Federation, ''read the federation epoch''),
     (''federation.epoch.advance'', Class_GlobalMutation, ''advance the federation epoch''),
     (''federation.route.advertise'', Class_GlobalMutation,
      ''publish reachability advertisements consumed federation-wide''),
     (''federation.route.observe'', Class_Federation, ''read federation-wide advertisements''),
     (''federation.capacity.publish'', Class_Federation,
      ''publish capacity statements for the federation''),
     (''federation.health.report'', Class_Federation, ''publish health statements''),
     (''federation.evidence.attest'', Class_Federation,
      ''attest another member's declared identity''),
     (''federation.lease.observe'', Class_Federation, ''read federation leases'')]"

section \<open>Codec contracts\<close>

definition scope_wf :: "ScopeId \<Rightarrow> bool" where
  "scope_wf scope \<longleftrightarrow> name_invariant parse_scope scope"

definition grant_wf :: "ScopeGrant \<Rightarrow> bool" where
  "grant_wf g \<longleftrightarrow> scope_wf (sg_scope g)"

definition term_wf :: "DelegationTerms \<Rightarrow> bool" where
  "term_wf t \<longleftrightarrow> grant_wf (dt_grant t) \<and> name_invariant parse_constraint (dt_constraint t)"

definition conflict_wf :: "ConflictRecord \<Rightarrow> bool" where
  "conflict_wf c \<longleftrightarrow> grant_wf (cr_grant c)"

lemma optional_name_ok [codec_rt]:
  "name_invariant parse name \<Longrightarrow> optional_name parse message name = Inr name"
  by (auto simp: name_invariant_def optional_name_def)

interpretation grant_codec: codec encode_grant decode_grant grant_wf
proof
  fix x :: ScopeGrant and rest
  assume "is_ok (encode_grant x)" "grant_wf x"
  then show "decode_grant (projr (encode_grant x) @ rest) = Inr (x, rest)"
    by (cases x) (simp add: encode_grant_def decode_grant_def grant_wf_def scope_wf_def
        is_ok_w_seq projr_w_seq codec_rt)
qed

lemmas decode_grant_rt [codec_rt] = grant_codec.roundtrip

interpretation term_codec: codec encode_term decode_term term_wf
proof
  fix x :: DelegationTerms and rest
  assume "is_ok (encode_term x)" "term_wf x"
  then show "decode_term (projr (encode_term x) @ rest) = Inr (x, rest)"
    by (cases x) (simp add: encode_term_def decode_term_def term_wf_def
        is_ok_w_seq projr_w_seq codec_rt)
qed

lemmas member_list_rt [codec_rt] = id_codec.listed

interpretation conflict_codec: codec encode_conflict decode_conflict conflict_wf
proof
  fix x :: ConflictRecord and rest
  assume "is_ok (encode_conflict x)" "conflict_wf x"
  then show "decode_conflict (projr (encode_conflict x) @ rest) = Inr (x, rest)"
    by (cases x) (simp add: encode_conflict_def decode_conflict_def conflict_wf_def
        is_ok_w_seq projr_w_seq codec_rt)
qed

lemma decode_grants_rt [codec_rt]:
  "is_ok (encode_grants gs n) \<Longrightarrow> \<forall>g \<in> set gs. grant_wf g \<Longrightarrow>
   decode_grants n (projr (encode_grants gs n) @ rest) = Inr (gs, rest)"
  unfolding encode_grants_def decode_grants_def by (rule grant_codec.listed)

lemma decode_terms_rt [codec_rt]:
  "is_ok (encode_terms ts n) \<Longrightarrow> \<forall>t \<in> set ts. term_wf t \<Longrightarrow>
   decode_terms n (projr (encode_terms ts n) @ rest) = Inr (ts, rest)"
  unfolding encode_terms_def decode_terms_def by (rule term_codec.listed)

lemma decode_conflicts_rt [codec_rt]:
  "is_ok (encode_conflicts cs n) \<Longrightarrow> \<forall>c \<in> set cs. conflict_wf c \<Longrightarrow>
   decode_conflicts n (projr (encode_conflicts cs n) @ rest) = Inr (cs, rest)"
  unfolding encode_conflicts_def decode_conflicts_def by (rule conflict_codec.listed)

lemma is_ok_encode_grant: "grant_wf g \<Longrightarrow> is_ok (encode_grant g)"
  by (auto simp: encode_grant_def is_ok_w_seq grant_wf_def scope_wf_def name_invariant_def
      parse_scope_def dest: is_ok_w_identifier_name)

lemma is_ok_encode_term: "term_wf t \<Longrightarrow> is_ok (encode_term t)"
  by (auto simp: encode_term_def is_ok_w_seq term_wf_def name_invariant_def parse_constraint_def
      is_ok_encode_grant dest: is_ok_w_identifier_name)

lemma is_ok_encode_grants:
  "\<forall>g \<in> set gs. grant_wf g \<Longrightarrow> length gs \<le> n \<Longrightarrow> n < 4294967296 \<Longrightarrow> is_ok (encode_grants gs n)"
  by (simp add: encode_grants_def is_ok_w_list is_ok_w_count_iff is_ok_encode_grant)

lemma is_ok_encode_terms:
  "\<forall>t \<in> set ts. term_wf t \<Longrightarrow> length ts \<le> n \<Longrightarrow> n < 4294967296 \<Longrightarrow> is_ok (encode_terms ts n)"
  by (simp add: encode_terms_def is_ok_w_list is_ok_w_count_iff is_ok_encode_term)

section \<open>Canonical digests are functions of sets\<close>

text \<open>
  The contract of a canonicalised collection: what a codec of its elements promises of the digest
  of the sorted, duplicate-free collection. The digest function is only required not to collide on
  the two encodings that are compared.
\<close>

locale canonical_collection = codec enc dec wf
  for enc :: "'a::linorder \<Rightarrow> bytes result" and dec :: "'a reader" and wf :: "'a \<Rightarrow> bool" +
  fixes max_count :: nat
begin

lemma digest_of_set:
  "set xs = set ys \<Longrightarrow>
   digest_of H (w_list enc max_count (sort_unique xs)) =
   digest_of H (w_list enc max_count (sort_unique ys))"
  by (simp add: sort_unique_eq_set)

lemma encodings_equal:
  assumes "is_ok (w_list enc max_count xs)" "w_list enc max_count xs = w_list enc max_count ys"
    and "\<forall>x \<in> set xs. wf x" "\<forall>y \<in> set ys. wf y"
  shows "xs = ys"
  using listed [of max_count xs "[]"] listed [of max_count ys "[]"] assms by simp

lemma digest_determines_set:
  assumes ok: "is_ok (w_list enc max_count (sort_unique xs))"
      "is_ok (w_list enc max_count (sort_unique ys))"
    and wf: "\<forall>x \<in> set xs. wf x" "\<forall>y \<in> set ys. wf y"
    and H: "inj_on H {projr (w_list enc max_count (sort_unique xs)),
                      projr (w_list enc max_count (sort_unique ys))}"
    and eq: "digest_of H (w_list enc max_count (sort_unique xs)) =
             digest_of H (w_list enc max_count (sort_unique ys))"
  shows "set xs = set ys"
proof -
  from ok obtain bx by' where enc: "w_list enc max_count (sort_unique xs) = Inr bx"
      "w_list enc max_count (sort_unique ys) = Inr by'"
    by (auto simp: is_ok_iff)
  from eq have "H bx = H by'" unfolding enc by (simp add: digest_of_def)
  moreover from H have "inj_on H {bx, by'}" unfolding enc by simp
  ultimately have "bx = by'" by (auto dest: inj_onD)
  then have "w_list enc max_count (sort_unique xs) = w_list enc max_count (sort_unique ys)"
    unfolding enc by simp
  with ok(1) have "sort_unique xs = sort_unique ys"
    using wf by (rule_tac encodings_equal) simp_all
  then show ?thesis by (metis set_sort_unique)
qed

end

interpretation grant_set: canonical_collection encode_grant decode_grant grant_wf kMaxScopesPerMember
  by unfold_locales

interpretation term_set:
  canonical_collection encode_term decode_term term_wf kMaxDelegationTermsPerMember
  by unfold_locales

interpretation conflict_set:
  canonical_collection encode_conflict decode_conflict conflict_wf kMaxConflicts
  by unfold_locales

section \<open>Grant intersection\<close>

lemma intersect_one_eq:
  "intersect_one c right = (if grants_cover right c then [c] else [])"
proof (induction right)
  case Nil
  then show ?case by (simp add: grants_cover_def)
next
  case (Cons f right)
  have dead: "\<not> is_wildcard (sg_scope f) \<Longrightarrow> covers (sg_scope f) (sg_scope c) \<Longrightarrow>
      sg_scope f = sg_scope c"
    by (cases "sg_scope f = []")
      (auto simp: is_wildcard_def qualified_name_covers_concrete)
  show ?case
  proof (cases "sg_verb c = sg_verb f \<and> covers (sg_scope f) (sg_scope c)")
    case True
    then have "(if is_wildcard (sg_scope c) \<and> \<not> is_wildcard (sg_scope f)
        then sg_scope f else sg_scope c) = sg_scope c"
      using dead by auto
    with True show ?thesis by (auto simp: grants_cover_def)
  next
    case False
    with Cons show ?thesis by (auto simp: grants_cover_def)
  qed
qed

text \<open>The nested loop is a filter of the left side; its wildcard branch is never taken.\<close>

lemma intersect_grants_eq_filter:
  "intersect_grants left right = canonicalize_grants (filter (grants_cover right) left)"
proof -
  have "concat (map (\<lambda>c. intersect_one c right) left) = filter (grants_cover right) left"
    by (induction left) (simp_all add: intersect_one_eq)
  then show ?thesis by (simp add: intersect_grants_def)
qed

lemma set_intersect_grants:
  "set (intersect_grants left right) = {g \<in> set left. grants_cover right g}"
  by (simp add: intersect_grants_eq_filter canonicalize_grants_def)

section \<open>The catalogue\<close>

definition catalog_wf :: "ScopeCatalog \<Rightarrow> bool" where
  "catalog_wf entries \<longleftrightarrow> sorted (map sd_scope entries) \<and> distinct (map sd_scope entries)"

lemma replace_descriptor_None:
  "replace_descriptor d es = None \<longleftrightarrow> sd_scope d \<notin> sd_scope ` set es"
  by (induction es) auto

lemma replace_descriptor_Some:
  "replace_descriptor d es = Some es' \<Longrightarrow>
     map sd_scope es' = map sd_scope es \<and> d \<in> set es' \<and>
     (\<forall>e. sd_scope e \<noteq> sd_scope d \<longrightarrow> (e \<in> set es' \<longleftrightarrow> e \<in> set es))"
  by (induction es arbitrary: es') (auto split: if_splits)

lemma map_key_sort_key: "map f (sort_key f xs) = sort (map f xs)"
  by (rule properties_for_sort [symmetric]) simp_all

lemma catalog_add_wf: "catalog_wf es \<Longrightarrow> catalog_wf (catalog_add d es)"
  by (auto simp: catalog_wf_def catalog_add_def map_key_sort_key replace_descriptor_None
      split: option.splits dest: replace_descriptor_Some)

lemma catalog_find_iff:
  assumes "distinct (map sd_scope es)"
  shows "catalog_find es s = Some d \<longleftrightarrow> d \<in> set es \<and> sd_scope d = s"
  using assms by (induction es) (auto simp: catalog_find_def)

lemma catalog_find_add:
  assumes "catalog_wf es"
  shows "catalog_find (catalog_add d es) s =
    (if s = sd_scope d then Some d else catalog_find es s)"
proof -
  have wf: "distinct (map sd_scope (catalog_add d es))" "distinct (map sd_scope es)"
    using catalog_add_wf [OF assms] assms by (simp_all add: catalog_wf_def)
  have mem: "e \<in> set (catalog_add d es) \<longleftrightarrow>
      (if sd_scope e = sd_scope d then e = d else e \<in> set es)" for e
  proof (cases "replace_descriptor d es")
    case None
    then have "sd_scope d \<notin> sd_scope ` set es" by (simp add: replace_descriptor_None)
    then have "e \<in> set es \<Longrightarrow> sd_scope e \<noteq> sd_scope d" by (metis image_eqI)
    with None show ?thesis by (auto simp: catalog_add_def)
  next
    case (Some es')
    then have "d \<in> set es'" "distinct (map sd_scope es')"
      using replace_descriptor_Some [OF Some] wf(2) by auto
    then have "sd_scope e = sd_scope d \<Longrightarrow> e \<in> set es' \<Longrightarrow> e = d"
      by (metis distinct_map inj_onD)
    with \<open>d \<in> set es'\<close> Some replace_descriptor_Some [OF Some] show ?thesis
      by (auto simp: catalog_add_def)
  qed
  show ?thesis
    using catalog_find_iff [OF wf(1), of s] catalog_find_iff [OF wf(2), of s] mem
    by (metis not_Some_eq)
qed

text \<open>The built-in catalogue: sixteen scopes, none under the \<^verbatim>\<open>domain.\<close> prefix.\<close>

definition global_mutation_scopes :: "ScopeId list" where
  "global_mutation_scopes =
     [''federation.delegation.grant'', ''federation.epoch.advance'',
      ''federation.membership.admit'', ''federation.policy.adopt'', ''federation.route.advertise'']"

lemma builtin_wf: "catalog_wf builtin"
proof -
  have step: "catalog_wf (builtin_add built e)" if "catalog_wf built" for built e
    using that by (auto simp: builtin_add_def catalog_add_wf split: prod.splits sum.splits)
  have "catalog_wf (foldl builtin_add built es)" if "catalog_wf built" for built es
    using that by (induction es arbitrary: built) (simp_all add: step)
  moreover have "catalog_wf []" by (simp add: catalog_wf_def)
  ultimately show ?thesis unfolding builtin_def by blast
qed

text \<open>The built-in catalogue, evaluated once: the entries in the order of their names.\<close>

lemma builtin_eq [code]:
  "builtin =
    [\<lparr>sd_scope = ''federation.capacity.publish'', sd_class = Class_Federation,
      sd_description = ''publish capacity statements for the federation''\<rparr>,
     \<lparr>sd_scope = ''federation.delegation.grant'', sd_class = Class_GlobalMutation,
      sd_description = ''change the delegation terms held across the federation''\<rparr>,
     \<lparr>sd_scope = ''federation.delegation.observe'', sd_class = Class_Federation,
      sd_description = ''read delegation terms held across the federation''\<rparr>,
     \<lparr>sd_scope = ''federation.epoch.advance'', sd_class = Class_GlobalMutation,
      sd_description = ''advance the federation epoch''\<rparr>,
     \<lparr>sd_scope = ''federation.epoch.observe'', sd_class = Class_Federation,
      sd_description = ''read the federation epoch''\<rparr>,
     \<lparr>sd_scope = ''federation.evidence.attest'', sd_class = Class_Federation,
      sd_description = ''attest another member's declared identity''\<rparr>,
     \<lparr>sd_scope = ''federation.health.report'', sd_class = Class_Federation,
      sd_description = ''publish health statements''\<rparr>,
     \<lparr>sd_scope = ''federation.lease.observe'', sd_class = Class_Federation,
      sd_description = ''read federation leases''\<rparr>,
     \<lparr>sd_scope = ''federation.membership.admit'', sd_class = Class_GlobalMutation,
      sd_description = ''change the membership set of the federation''\<rparr>,
     \<lparr>sd_scope = ''federation.membership.observe'', sd_class = Class_Federation,
      sd_description = ''read membership records for the federation''\<rparr>,
     \<lparr>sd_scope = ''federation.membership.propose'', sd_class = Class_Federation,
      sd_description = ''sponsor a candidate member''\<rparr>,
     \<lparr>sd_scope = ''federation.policy.adopt'', sd_class = Class_GlobalMutation,
      sd_description = ''adopt a policy revision for the federation''\<rparr>,
     \<lparr>sd_scope = ''federation.policy.endorse'', sd_class = Class_Federation,
      sd_description = ''endorse a policy revision without adopting it''\<rparr>,
     \<lparr>sd_scope = ''federation.policy.observe'', sd_class = Class_Federation,
      sd_description = ''read the federation policy''\<rparr>,
     \<lparr>sd_scope = ''federation.route.advertise'', sd_class = Class_GlobalMutation,
      sd_description = ''publish reachability advertisements consumed federation-wide''\<rparr>,
     \<lparr>sd_scope = ''federation.route.observe'', sd_class = Class_Federation,
      sd_description = ''read federation-wide advertisements''\<rparr>]"
  by code_simp

lemma builtin_global_scopes:
  "map sd_scope (filter (\<lambda>d. sd_class d = Class_GlobalMutation) builtin) = global_mutation_scopes"
  by (simp add: builtin_eq global_mutation_scopes_def)

lemma builtin_no_domain: "list_all (\<lambda>d. take 7 (sd_scope d) \<noteq> ''domain.'') builtin"
  by (simp add: builtin_eq)

lemma builtin_concrete: "list_all (\<lambda>d. \<not> is_wildcard (sd_scope d) \<and> sd_class d \<noteq> Class_Local) builtin"
  by (simp add: builtin_eq is_wildcard_def)

section \<open>Properties\<close>

text \<open>
  The catalogue's classification. A concrete scope under \<^verbatim>\<open>domain.\<close> is always local authority:
  no catalogue entry can shadow the structural rule. The scopes classified as global mutation are
  exactly the five named ones, and a wildcard is never known.
\<close>

theorem builtin_classification:
  "classify builtin s =
     (if is_wildcard s then (Class_Federation, False)
      else if s \<in> set global_mutation_scopes then (Class_GlobalMutation, True)
      else if length s > 7 \<and> take 7 s = ''domain.'' then (Class_Local, True)
      else (Class_Federation, s \<in> sd_scope ` set builtin))"
proof -
  have find: "catalog_find builtin s = Some d \<longleftrightarrow> d \<in> set builtin \<and> sd_scope d = s" for d
    using builtin_wf by (simp add: catalog_find_iff catalog_wf_def)
  have global: "s \<in> set global_mutation_scopes \<longleftrightarrow>
      (\<exists>d \<in> set builtin. sd_class d = Class_GlobalMutation \<and> sd_scope d = s)"
    unfolding builtin_global_scopes [symmetric] by auto
  have fed: "d \<in> set builtin \<Longrightarrow> sd_class d \<noteq> Class_GlobalMutation \<Longrightarrow> sd_class d = Class_Federation"
    and dom: "d \<in> set builtin \<Longrightarrow> take 7 (sd_scope d) \<noteq> ''domain.''" for d
    using builtin_concrete builtin_no_domain
    by (auto simp: list_all_iff) (metis ScopeClass.exhaust)+
  have uniq: "d \<in> set builtin \<Longrightarrow> e \<in> set builtin \<Longrightarrow> sd_scope d = sd_scope e \<Longrightarrow> d = e" for d e
    using builtin_wf by (auto simp: catalog_wf_def distinct_map dest: inj_onD)
  show ?thesis
  proof (cases "catalog_find builtin s")
    case None
    then have "s \<notin> sd_scope ` set builtin" using find by fastforce
    with None global show ?thesis by (auto simp: classify_def)
  next
    case (Some d)
    with find have d: "d \<in> set builtin" "sd_scope d = s" by auto
    with Some global fed dom uniq show ?thesis
      by (cases "sd_class d = Class_GlobalMutation") (fastforce simp: classify_def)+
  qed
qed

text \<open>
  Intersecting grants with a filter keeps exactly the grants of the left side that some filter
  covers, as a sorted duplicate-free list.
\<close>

theorem intersect_grants_exact:
  "set (intersect_grants left right) = {g \<in> set left. grants_cover right g} \<and>
   sorted (intersect_grants left right) \<and> distinct (intersect_grants left right)"
  by (simp add: set_intersect_grants) (simp add: intersect_grants_def canonicalize_grants_def)

text \<open>
  Delegation terms with valid names encode, and the decoder returns them and the bytes that
  follow.
\<close>

theorem terms_roundtrip:
  assumes "\<forall>t \<in> set ts. term_wf t" "length ts \<le> n" "n < 4294967296"
  shows "\<exists>bs. encode_terms ts n = Inr bs \<and> decode_terms n (bs @ rest) = Inr (ts, rest)"
  using is_ok_encode_terms [OF assms] decode_terms_rt [of ts n rest] assms(1)
  by (cases "encode_terms ts n") auto

text \<open>
  The digest of delegation terms identifies the set of terms: equal sets have equal digests in
  whatever order and multiplicity they are held, and, unless the digest function collides on the
  two canonical encodings, equal digests come from equal sets.
\<close>

theorem digest_terms_identifies_set:
  assumes "\<forall>t \<in> set xs. term_wf t" "\<forall>t \<in> set ys. term_wf t"
    and "card (set xs) \<le> kMaxDelegationTermsPerMember" "card (set ys) \<le> kMaxDelegationTermsPerMember"
    and "inj_on H {projr (encode_terms (canonicalize_terms xs) kMaxDelegationTermsPerMember),
                   projr (encode_terms (canonicalize_terms ys) kMaxDelegationTermsPerMember)}"
  shows "digest_terms H xs = digest_terms H ys \<longleftrightarrow> set xs = set ys"
proof
  have ok: "is_ok (w_list encode_term kMaxDelegationTermsPerMember (sort_unique zs))"
    if "\<forall>t \<in> set zs. term_wf t" "card (set zs) \<le> kMaxDelegationTermsPerMember" for zs
    using is_ok_encode_terms [of "sort_unique zs" kMaxDelegationTermsPerMember] that
    by (simp add: length_sort_unique ff_bounds encode_terms_def)
  show "digest_terms H xs = digest_terms H ys \<Longrightarrow> set xs = set ys"
    unfolding digest_terms_def encode_terms_def canonicalize_terms_def
    by (rule term_set.digest_determines_set [OF ok ok assms(1,2)
          assms(5) [unfolded encode_terms_def canonicalize_terms_def]]) (use assms in auto)
  show "set xs = set ys \<Longrightarrow> digest_terms H xs = digest_terms H ys"
    unfolding digest_terms_def encode_terms_def canonicalize_terms_def
    by (rule term_set.digest_of_set)
qed

definition sample_term :: "string \<Rightarrow> DelegationTerms" where
  "sample_term scope = \<lparr>dt_grant = \<lparr>sg_scope = scope, sg_verb = Verb_Mutate\<rparr>,
     dt_mode = Mode_Exclusive, dt_weight = 1, dt_not_after = 0, dt_constraint = []\<rparr>"

theorem terms_roundtrip_witness:
  "\<exists>bs. encode_terms [sample_term ''federation.epoch.advance''] 4 = Inr bs \<and>
        decode_terms 4 (bs @ [7]) = Inr ([sample_term ''federation.epoch.advance''], [7])"
  by (rule terms_roundtrip; code_simp)

theorem digest_terms_identifies_set_witness:
  "digest_terms (\<lambda>bs. word_of_nat (length bs)) [sample_term ''a.b''] \<noteq>
   digest_terms (\<lambda>bs. word_of_nat (length bs)) [sample_term ''a.b.c'']"
proof -
  have "digest_terms (\<lambda>bs. word_of_nat (length bs)) [sample_term ''a.b''] =
      digest_terms (\<lambda>bs. word_of_nat (length bs)) [sample_term ''a.b.c''] \<longleftrightarrow>
      set [sample_term ''a.b''] = set [sample_term ''a.b.c'']"
    by (rule digest_terms_identifies_set) (unfold inj_on_def ff_bounds, code_simp+)
  then show ?thesis by (simp add: sample_term_def)
qed

end
