(* ===== verification/Capability.thy ===== *)
theory Capability
  imports Scope
begin

text \<open>
  Capability requirements and statements and their deterministic evaluation (\<^verbatim>\<open>capability.hpp\<close>,
  \<^verbatim>\<open>capability.cpp\<close>). The lemmas show the codec contracts, that the evaluation depends only on the
  sets of requirements and statements, and that a satisfied report means every requirement was
  matched by a single declared version, in range, with evidence.
\<close>

section \<open>Requirements and statements\<close>

datatype CompatibilityState =
    Compat_Satisfied | Compat_Incompatible | Compat_Unsupported | Compat_Unknown
  | Compat_Conflicting

definition compatibility_to_string :: "CompatibilityState \<Rightarrow> string" where
  "compatibility_to_string s = (case s of
     Compat_Satisfied \<Rightarrow> ''SATISFIED'' | Compat_Incompatible \<Rightarrow> ''INCOMPATIBLE''
   | Compat_Unsupported \<Rightarrow> ''UNSUPPORTED'' | Compat_Unknown \<Rightarrow> ''UNKNOWN''
   | Compat_Conflicting \<Rightarrow> ''CONFLICTING'')"

primrec evidence_wire :: "EvidenceState \<Rightarrow> u8" where
  "evidence_wire Evidence_Known = 0"
| "evidence_wire Evidence_Unknown = 1"
| "evidence_wire Evidence_Stale = 2"
| "evidence_wire Evidence_Conflicting = 3"
| "evidence_wire Evidence_Incomplete = 4"
| "evidence_wire Evidence_Indeterminate = 5"
| "evidence_wire Evidence_Invalid = 6"

definition evidence_from_wire :: "u8 \<Rightarrow> EvidenceState result" where
  "evidence_from_wire v =
     (if v > 6 then Fail Error_InvalidArgument ''evidence state is out of range''
      else Inr (if v = 0 then Evidence_Known else if v = 1 then Evidence_Unknown
                else if v = 2 then Evidence_Stale else if v = 3 then Evidence_Conflicting
                else if v = 4 then Evidence_Incomplete else if v = 5 then Evidence_Indeterminate
                else Evidence_Invalid))"

lemma evidence_wire_inject [simp]: "evidence_wire a = evidence_wire b \<longleftrightarrow> a = b"
  by (cases a; cases b) simp_all

lemma evidence_from_wire_wire [codec_rt]: "evidence_from_wire (evidence_wire v) = Inr v"
  by (cases v) (simp_all add: evidence_from_wire_def)

instantiation EvidenceState :: linorder
begin
definition less_eq_EvidenceState :: "EvidenceState \<Rightarrow> EvidenceState \<Rightarrow> bool" where
  "a \<le> b \<longleftrightarrow> evidence_wire a \<le> evidence_wire b"
definition less_EvidenceState :: "EvidenceState \<Rightarrow> EvidenceState \<Rightarrow> bool" where
  "a < b \<longleftrightarrow> evidence_wire a < evidence_wire b"
instance
  by intro_classes (simp_all only: less_eq_EvidenceState_def less_EvidenceState_def less_le_not_le
      order_refl linear evidence_wire_inject [symmetric] order_trans order_antisym)
end

record CapabilityRequirement =
  rq_capability :: CapabilityId
  rq_min_version :: u32
  rq_max_version :: u32
  rq_mandatory :: bool

definition CapabilityRequirement_key ::
  "'a CapabilityRequirement_scheme \<Rightarrow> CapabilityId \<times> u32 \<times> u32 \<times> bool \<times> 'a" where
  "CapabilityRequirement_key r = (rq_capability r, rq_min_version r, rq_max_version r,
     rq_mandatory r, CapabilityRequirement.more r)"

lemma CapabilityRequirement_key_inject [simp]:
  "CapabilityRequirement_key a = CapabilityRequirement_key b \<longleftrightarrow> a = b"
  by (cases a; cases b) (auto simp: CapabilityRequirement_key_def)

instantiation CapabilityRequirement_ext :: (linorder) linorder
begin
definition less_eq_CapabilityRequirement_ext ::
  "'a CapabilityRequirement_scheme \<Rightarrow> 'a CapabilityRequirement_scheme \<Rightarrow> bool" where
  "a \<le> b \<longleftrightarrow> CapabilityRequirement_key a \<le> CapabilityRequirement_key b"
definition less_CapabilityRequirement_ext ::
  "'a CapabilityRequirement_scheme \<Rightarrow> 'a CapabilityRequirement_scheme \<Rightarrow> bool" where
  "a < b \<longleftrightarrow> CapabilityRequirement_key a < CapabilityRequirement_key b"
instance
  by intro_classes (simp_all only: less_eq_CapabilityRequirement_ext_def
      less_CapabilityRequirement_ext_def less_le_not_le order_refl linear
      CapabilityRequirement_key_inject [symmetric] order_trans order_antisym)
end

record CapabilityStatement =
  cs_capability :: CapabilityId
  cs_version :: u32
  cs_evidence :: EvidenceState
  cs_evidence_digest :: Digest

definition CapabilityStatement_key ::
  "'a CapabilityStatement_scheme \<Rightarrow> CapabilityId \<times> u32 \<times> EvidenceState \<times> Digest \<times> 'a" where
  "CapabilityStatement_key r = (cs_capability r, cs_version r, cs_evidence r,
     cs_evidence_digest r, CapabilityStatement.more r)"

lemma CapabilityStatement_key_inject [simp]:
  "CapabilityStatement_key a = CapabilityStatement_key b \<longleftrightarrow> a = b"
  by (cases a; cases b) (auto simp: CapabilityStatement_key_def)

instantiation CapabilityStatement_ext :: (linorder) linorder
begin
definition less_eq_CapabilityStatement_ext ::
  "'a CapabilityStatement_scheme \<Rightarrow> 'a CapabilityStatement_scheme \<Rightarrow> bool" where
  "a \<le> b \<longleftrightarrow> CapabilityStatement_key a \<le> CapabilityStatement_key b"
definition less_CapabilityStatement_ext ::
  "'a CapabilityStatement_scheme \<Rightarrow> 'a CapabilityStatement_scheme \<Rightarrow> bool" where
  "a < b \<longleftrightarrow> CapabilityStatement_key a < CapabilityStatement_key b"
instance
  by intro_classes (simp_all only: less_eq_CapabilityStatement_ext_def
      less_CapabilityStatement_ext_def less_le_not_le order_refl linear
      CapabilityStatement_key_inject [symmetric] order_trans order_antisym)
end

definition version_in_range :: "CapabilityRequirement \<Rightarrow> u32 \<Rightarrow> bool" where
  "version_in_range r version =
     (if version < rq_min_version r then False
      else rq_max_version r = 0 \<or> version \<le> rq_max_version r)"

definition requirement_to_string :: "CapabilityRequirement \<Rightarrow> string" where
  "requirement_to_string r =
     rq_capability r @ '' >= '' @ word_to_string (rq_min_version r) @
     (if rq_max_version r \<noteq> 0 then '' <= '' @ word_to_string (rq_max_version r) else []) @
     (if rq_mandatory r then '' (mandatory)'' else '' (optional)'')"

definition encode_requirement :: "CapabilityRequirement \<Rightarrow> bytes result" where
  "encode_requirement r = w_seq
     [w_identifier (rq_capability r), w_u32 (rq_min_version r), w_u32 (rq_max_version r),
      w_bool (rq_mandatory r)]"

definition decode_requirement :: "CapabilityRequirement reader" where
  "decode_requirement =
     rbind r_identifier (\<lambda>capability.
     rbind (r_lift (optional_name parse_capability ''capability identifier is malformed''
              capability)) (\<lambda>parsed.
     rbind r_u32 (\<lambda>min_version.
     rbind r_u32 (\<lambda>max_version.
     rbind r_bool (\<lambda>mandatory.
     if max_version \<noteq> 0 \<and> max_version < min_version then
       r_fail Error_InvalidArgument ''capability version range is inverted''
     else r_return \<lparr>rq_capability = parsed, rq_min_version = min_version,
                    rq_max_version = max_version, rq_mandatory = mandatory\<rparr>)))))"

definition statement_to_string :: "CapabilityStatement \<Rightarrow> string" where
  "statement_to_string s =
     cs_capability s @ '' = '' @ word_to_string (cs_version s) @ '' evidence='' @
     evidence_state_to_string (cs_evidence s)"

definition encode_statement :: "CapabilityStatement \<Rightarrow> bytes result" where
  "encode_statement s = w_seq
     [w_identifier (cs_capability s), w_u32 (cs_version s),
      w_u8 (evidence_wire (cs_evidence s)), w_digest (cs_evidence_digest s)]"

text \<open>A name that must be present: the decoder replaces the parser's status by its own.\<close>

definition required_name :: "(string \<Rightarrow> string result) \<Rightarrow> string \<Rightarrow> string \<Rightarrow> string result" where
  "required_name parse message name =
     (case parse name of Inl _ \<Rightarrow> Fail Error_InvalidArgument message | Inr n \<Rightarrow> Inr n)"

definition decode_statement :: "CapabilityStatement reader" where
  "decode_statement =
     rbind r_identifier (\<lambda>capability.
     rbind (r_lift (required_name parse_capability ''capability identifier is malformed''
              capability)) (\<lambda>parsed.
     rbind r_u32 (\<lambda>version.
     rbind r_u8 (\<lambda>evidence.
     rbind (r_lift (evidence_from_wire evidence)) (\<lambda>evidence.
     rbind r_digest (\<lambda>digest.
     r_return \<lparr>cs_capability = parsed, cs_version = version, cs_evidence = evidence,
               cs_evidence_digest = digest\<rparr>))))))"

definition canonicalize_statements :: "CapabilityStatement list \<Rightarrow> CapabilityStatement list" where
  "canonicalize_statements statements = sort_unique statements"

definition canonicalize_requirements ::
  "CapabilityRequirement list \<Rightarrow> CapabilityRequirement list" where
  "canonicalize_requirements requirements = sort_unique requirements"

definition encode_statements :: "CapabilityStatement list \<Rightarrow> nat \<Rightarrow> bytes result" where
  "encode_statements statements max_count = w_list encode_statement max_count statements"

definition decode_statements :: "nat \<Rightarrow> CapabilityStatement list reader" where
  "decode_statements max_count = r_list decode_statement max_count"

definition encode_requirements :: "CapabilityRequirement list \<Rightarrow> nat \<Rightarrow> bytes result" where
  "encode_requirements requirements max_count = w_list encode_requirement max_count requirements"

definition decode_requirements :: "nat \<Rightarrow> CapabilityRequirement list reader" where
  "decode_requirements max_count = r_list decode_requirement max_count"

definition digest_statements :: "(bytes \<Rightarrow> Digest) \<Rightarrow> CapabilityStatement list \<Rightarrow> Digest" where
  "digest_statements H statements =
     digest_of H (encode_statements (canonicalize_statements statements) kMaxCapabilitiesPerMember)"

section \<open>Evaluation\<close>

record CapabilityMatch =
  cm_capability :: CapabilityId
  cm_mandatory :: bool
  cm_declared :: bool
  cm_declared_version :: u32
  cm_requirement :: CapabilityRequirement
  cm_state :: CompatibilityState
  cm_detail :: string

record CompatibilityReport =
  rp_state :: CompatibilityState
  rp_matches :: "CapabilityMatch list"
  rp_summary :: string

text \<open>The literal names are valid, so the parse filter of the source keeps all of them.\<close>

definition modelled_capabilities :: "CapabilityId list" where
  "modelled_capabilities = sort (filter (\<lambda>name. is_ok (parse_capability name))
     [''federation.protocol.v1'', ''federation.transport.framed-tcp'',
      ''federation.authority.lease'', ''federation.partition.observation'',
      ''federation.canonical-state.v1'', ''federation.membership.multiparty''])"

definition capability_is_modelled :: "CapabilityId \<Rightarrow> bool" where
  "capability_is_modelled capability \<longleftrightarrow> capability \<in> set modelled_capabilities"

definition declared_versions :: "CapabilityStatement list \<Rightarrow> CapabilityId \<Rightarrow> u32 list" where
  "declared_versions statements capability =
     sort_unique (map cs_version (filter (\<lambda>s. cs_capability s = capability) statements))"

definition match_requirement ::
  "CapabilityStatement list \<Rightarrow> CapabilityRequirement \<Rightarrow> CapabilityMatch" where
  "match_requirement statements r =
     (let versions = declared_versions statements (rq_capability r);
          base = \<lparr>cm_capability = rq_capability r, cm_mandatory = rq_mandatory r,
                  cm_declared = False, cm_declared_version = 0, cm_requirement = r,
                  cm_state = Compat_Unknown, cm_detail = []\<rparr>
      in if \<not> capability_is_modelled (rq_capability r) then
           base\<lparr>cm_state := Compat_Unsupported,
                cm_detail := ''this build has no model for the capability''\<rparr>
         else case versions of
           [] \<Rightarrow> base\<lparr>cm_detail := ''no declaration covers the requirement''\<rparr>
         | _ # _ # _ \<Rightarrow>
             base\<lparr>cm_declared := True, cm_state := Compat_Conflicting,
                  cm_detail := ''two declarations for one capability disagree on version''\<rparr>
         | [version] \<Rightarrow>
             let base = base\<lparr>cm_declared := True, cm_declared_version := version\<rparr> in
             if \<not> version_in_range r version then
               base\<lparr>cm_state := Compat_Incompatible,
                    cm_detail := ''declared version is outside the required range''\<rparr>
             else if (\<exists>s \<in> set statements.
                        cs_capability s = rq_capability r \<and> cs_evidence s = Evidence_Known) then
               base\<lparr>cm_state := Compat_Satisfied, cm_detail := ''version in range with evidence''\<rparr>
             else
               base\<lparr>cm_detail := ''version in range but the statement carries no evidence''\<rparr>)"

text \<open>The flags \<^verbatim>\<open>any_...\<close> of the loop are read off the matches.\<close>

definition any_state :: "CompatibilityState \<Rightarrow> CapabilityMatch list \<Rightarrow> bool" where
  "any_state state matches \<longleftrightarrow> (\<exists>m \<in> set matches. cm_state m = state)"

definition any_unknown :: "bool \<Rightarrow> CapabilityMatch list \<Rightarrow> bool" where
  "any_unknown mandatory matches \<longleftrightarrow>
     (\<exists>m \<in> set matches. cm_state m = Compat_Unknown \<and> cm_mandatory m = mandatory)"

definition summarize_matches :: "CapabilityMatch list \<Rightarrow> CompatibilityState \<times> string" where
  "summarize_matches matches =
     (if any_state Compat_Incompatible matches then
        (Compat_Incompatible, ''an incompatible declaration was found'')
      else if any_state Compat_Conflicting matches then
        (Compat_Conflicting, ''declarations for one capability disagree'')
      else if any_state Compat_Unsupported matches \<and>
              (any_unknown True matches \<or> length matches = 1) then
        (Compat_Unsupported, ''a requirement names a capability this build does not model'')
      else if any_unknown True matches then
        (Compat_Unknown, ''a mandatory requirement has no usable evidence'')
      else if any_state Compat_Unsupported matches then
        (Compat_Unsupported, ''a requirement names a capability this build does not model'')
      else if any_unknown False matches then
        (Compat_Unknown, ''only optional requirements are unevidenced'')
      else if matches = [] then (Compat_Satisfied, ''no requirements were stated'')
      else (Compat_Satisfied, ''every requirement is satisfied with evidence''))"

definition evaluate_compatibility ::
  "CapabilityRequirement list \<Rightarrow> CapabilityStatement list \<Rightarrow> CompatibilityReport" where
  "evaluate_compatibility requirements statements =
     (let matches = map (match_requirement (canonicalize_statements statements))
                      (canonicalize_requirements requirements);
          (state, summary) = summarize_matches matches
      in \<lparr>rp_state = state, rp_matches = matches, rp_summary = summary\<rparr>)"

section \<open>Codec contracts\<close>

definition requirement_wf :: "CapabilityRequirement \<Rightarrow> bool" where
  "requirement_wf r \<longleftrightarrow> name_invariant parse_capability (rq_capability r) \<and>
     (rq_max_version r = 0 \<or> rq_min_version r \<le> rq_max_version r)"

definition statement_wf :: "CapabilityStatement \<Rightarrow> bool" where
  "statement_wf s \<longleftrightarrow> parse_capability (cs_capability s) = Inr (cs_capability s)"

lemma required_name_ok [codec_rt]: "parse name = Inr name \<Longrightarrow> required_name parse message name = Inr name"
  by (simp add: required_name_def)

interpretation requirement_codec: codec encode_requirement decode_requirement requirement_wf
proof
  fix x :: CapabilityRequirement and rest
  assume "is_ok (encode_requirement x)" "requirement_wf x"
  then show "decode_requirement (projr (encode_requirement x) @ rest) = Inr (x, rest)"
    by (cases x) (auto simp: encode_requirement_def decode_requirement_def requirement_wf_def
        is_ok_w_seq projr_w_seq codec_rt)
qed

interpretation statement_codec: codec encode_statement decode_statement statement_wf
proof
  fix x :: CapabilityStatement and rest
  assume "is_ok (encode_statement x)" "statement_wf x"
  then show "decode_statement (projr (encode_statement x) @ rest) = Inr (x, rest)"
    by (cases x) (simp add: encode_statement_def decode_statement_def statement_wf_def
        is_ok_w_seq projr_w_seq codec_rt)
qed

interpretation statement_set:
  canonical_collection encode_statement decode_statement statement_wf kMaxCapabilitiesPerMember
  by unfold_locales

lemma decode_statements_rt [codec_rt]:
  "is_ok (encode_statements ss n) \<Longrightarrow> \<forall>s \<in> set ss. statement_wf s \<Longrightarrow>
   decode_statements n (projr (encode_statements ss n) @ rest) = Inr (ss, rest)"
  unfolding encode_statements_def decode_statements_def by (rule statement_codec.listed)

lemma decode_requirements_rt [codec_rt]:
  "is_ok (encode_requirements rs n) \<Longrightarrow> \<forall>r \<in> set rs. requirement_wf r \<Longrightarrow>
   decode_requirements n (projr (encode_requirements rs n) @ rest) = Inr (rs, rest)"
  unfolding encode_requirements_def decode_requirements_def by (rule requirement_codec.listed)

lemma is_ok_encode_statement: "statement_wf s \<Longrightarrow> is_ok (encode_statement s)"
  by (auto simp: encode_statement_def is_ok_w_seq statement_wf_def parse_capability_def
      dest: is_ok_w_identifier_name)

section \<open>Evaluation depends on sets\<close>

lemma set_declared_versions:
  "set (declared_versions ss c) = cs_version ` {s \<in> set ss. cs_capability s = c}"
  by (auto simp: declared_versions_def)

lemma evaluate_compatibility_cong:
  assumes "set rs = set rs'" "set ss = set ss'"
  shows "evaluate_compatibility rs ss = evaluate_compatibility rs' ss'"
  using sort_unique_cong [OF assms(1)] sort_unique_cong [OF assms(2)]
  by (simp add: evaluate_compatibility_def canonicalize_requirements_def
      canonicalize_statements_def)

text \<open>A requirement is met by a set of statements.\<close>

definition requirement_met :: "CapabilityStatement list \<Rightarrow> CapabilityRequirement \<Rightarrow> bool" where
  "requirement_met ss r \<longleftrightarrow>
     capability_is_modelled (rq_capability r) \<and>
     (\<exists>v. {cs_version s | s. s \<in> set ss \<and> cs_capability s = rq_capability r} = {v} \<and>
          version_in_range r v) \<and>
     (\<exists>s \<in> set ss. cs_capability s = rq_capability r \<and> cs_evidence s = Evidence_Known)"

lemma declared_versions_single:
  "declared_versions ss c = [v] \<longleftrightarrow> {cs_version s | s. s \<in> set ss \<and> cs_capability s = c} = {v}"
proof -
  have eq: "set (declared_versions ss c) = {cs_version s | s. s \<in> set ss \<and> cs_capability s = c}"
    by (auto simp: set_declared_versions)
  have "distinct (declared_versions ss c)" by (simp add: declared_versions_def)
  then have "set (declared_versions ss c) = {v} \<longleftrightarrow> declared_versions ss c = [v]"
    by (cases "declared_versions ss c"; cases "tl (declared_versions ss c)") auto
  then show ?thesis by (simp add: eq)
qed

lemma match_requirement_satisfied_iff:
  "cm_state (match_requirement ss r) = Compat_Satisfied \<longleftrightarrow> requirement_met ss r"
  unfolding requirement_met_def declared_versions_single [symmetric] match_requirement_def
  by (auto simp: Let_def split: list.splits if_splits)

lemma summarize_matches_satisfied_iff:
  "fst (summarize_matches ms) = Compat_Satisfied \<longleftrightarrow> (\<forall>m \<in> set ms. cm_state m = Compat_Satisfied)"
proof -
  have "fst (summarize_matches ms) = Compat_Satisfied \<longleftrightarrow>
      (\<forall>m \<in> set ms. cm_state m \<noteq> Compat_Incompatible \<and> cm_state m \<noteq> Compat_Conflicting \<and>
         cm_state m \<noteq> Compat_Unsupported \<and> cm_state m \<noteq> Compat_Unknown)"
    by (auto simp: summarize_matches_def any_state_def any_unknown_def)
  also have "\<dots> \<longleftrightarrow> (\<forall>m \<in> set ms. cm_state m = Compat_Satisfied)"
    by (metis CompatibilityState.distinct CompatibilityState.exhaust)
  finally show ?thesis .
qed

section \<open>Properties\<close>

text \<open>
  Compatibility is satisfied exactly when every requirement, mandatory or optional, names a
  modelled capability for which exactly one version is declared, in the required range, and some
  declaration of it carries known evidence; missing evidence is never success. The verdict does not
  depend on the order or multiplicity of requirements and statements.
\<close>

theorem compatibility_satisfied_iff:
  "rp_state (evaluate_compatibility rs ss) = Compat_Satisfied \<longleftrightarrow>
     list_all (requirement_met ss) rs"
proof -
  have met: "requirement_met (canonicalize_statements ss) r \<longleftrightarrow> requirement_met ss r" for r
    by (simp add: requirement_met_def canonicalize_statements_def)
  have "rp_state (evaluate_compatibility rs ss) = fst (summarize_matches
      (map (match_requirement (canonicalize_statements ss)) (canonicalize_requirements rs)))"
    by (simp add: evaluate_compatibility_def Let_def split: prod.splits)
  then show ?thesis
    by (simp add: summarize_matches_satisfied_iff match_requirement_satisfied_iff met
        canonicalize_requirements_def list_all_iff)
qed

end
