(* ===== verification/Policy.thy ===== *)
theory Policy
  imports Capability
begin

text \<open>
  Federation policy (\<^verbatim>\<open>policy.hpp\<close>, \<^verbatim>\<open>policy.cpp\<close>): rules, their canonical form and codec, the
  effective parameters the derivation reads, validation, and the shipped default policy. The lemmas
  show the codec contract, the bounds of the effective parameters for every policy, and what
  canonicalisation does to a precedence list.
\<close>

section \<open>Rules and policies\<close>

datatype PolicyRuleKind =
    Rule_RequireEndorsements | Rule_RequireDistinctParties | Rule_RequireCapability
  | Rule_ForbidScopeDelegation | Rule_RequireLease | Rule_SuspendGlobalMutationOnPartition
  | Rule_SuspendGlobalMutationWhileReconciling | Rule_RequireMutualReachability
  | Rule_MaxLeaseLifetimeTicks | Rule_RequireReconsentOnGenerationChange
  | Rule_PrecedenceForGrant | Rule_RequireReattestationAfterPartition
  | Rule_ObservationFreshnessTicks | Rule_AllowGenerationChangeWithoutReconsent

definition rule_kinds :: "PolicyRuleKind list" where
  "rule_kinds =
    [Rule_RequireEndorsements, Rule_RequireDistinctParties, Rule_RequireCapability,
     Rule_ForbidScopeDelegation, Rule_RequireLease, Rule_SuspendGlobalMutationOnPartition,
     Rule_SuspendGlobalMutationWhileReconciling, Rule_RequireMutualReachability,
     Rule_MaxLeaseLifetimeTicks, Rule_RequireReconsentOnGenerationChange,
     Rule_PrecedenceForGrant, Rule_RequireReattestationAfterPartition,
     Rule_ObservationFreshnessTicks, Rule_AllowGenerationChangeWithoutReconsent]"

primrec rule_kind_wire :: "PolicyRuleKind \<Rightarrow> u8" where
  "rule_kind_wire Rule_RequireEndorsements = 0"
| "rule_kind_wire Rule_RequireDistinctParties = 1"
| "rule_kind_wire Rule_RequireCapability = 2"
| "rule_kind_wire Rule_ForbidScopeDelegation = 3"
| "rule_kind_wire Rule_RequireLease = 4"
| "rule_kind_wire Rule_SuspendGlobalMutationOnPartition = 5"
| "rule_kind_wire Rule_SuspendGlobalMutationWhileReconciling = 6"
| "rule_kind_wire Rule_RequireMutualReachability = 7"
| "rule_kind_wire Rule_MaxLeaseLifetimeTicks = 8"
| "rule_kind_wire Rule_RequireReconsentOnGenerationChange = 9"
| "rule_kind_wire Rule_PrecedenceForGrant = 10"
| "rule_kind_wire Rule_RequireReattestationAfterPartition = 11"
| "rule_kind_wire Rule_ObservationFreshnessTicks = 12"
| "rule_kind_wire Rule_AllowGenerationChangeWithoutReconsent = 13"

definition rule_kind_from_wire :: "u8 \<Rightarrow> PolicyRuleKind result" where
  "rule_kind_from_wire v =
     (if v > 13 then Fail Error_InvalidArgument ''policy rule kind is out of range''
      else Inr (rule_kinds ! unat v))"

definition rule_kind_to_string :: "PolicyRuleKind \<Rightarrow> string" where
  "rule_kind_to_string k = (case k of
     Rule_RequireEndorsements \<Rightarrow> ''require-endorsements''
   | Rule_RequireDistinctParties \<Rightarrow> ''require-distinct-parties''
   | Rule_RequireCapability \<Rightarrow> ''require-capability''
   | Rule_ForbidScopeDelegation \<Rightarrow> ''forbid-scope-delegation''
   | Rule_RequireLease \<Rightarrow> ''require-lease''
   | Rule_SuspendGlobalMutationOnPartition \<Rightarrow> ''suspend-global-mutation-on-partition''
   | Rule_SuspendGlobalMutationWhileReconciling \<Rightarrow> ''suspend-global-mutation-while-reconciling''
   | Rule_RequireMutualReachability \<Rightarrow> ''require-mutual-reachability''
   | Rule_MaxLeaseLifetimeTicks \<Rightarrow> ''max-lease-lifetime-ticks''
   | Rule_RequireReconsentOnGenerationChange \<Rightarrow> ''require-reconsent-on-generation-change''
   | Rule_PrecedenceForGrant \<Rightarrow> ''precedence-for-grant''
   | Rule_RequireReattestationAfterPartition \<Rightarrow> ''require-reattestation-after-partition''
   | Rule_ObservationFreshnessTicks \<Rightarrow> ''observation-freshness-ticks''
   | Rule_AllowGenerationChangeWithoutReconsent \<Rightarrow> ''allow-generation-change-without-reconsent'')"

record PolicyRule =
  pr_id :: RuleId
  pr_kind :: PolicyRuleKind
  pr_enabled :: bool
  pr_value :: u64
  pr_scope :: ScopeId
  pr_capability :: CapabilityRequirement
  pr_members :: "MemberId list"
  pr_description :: string

record FederationPolicy =
  fp_id :: PolicyId
  fp_generation :: Generation
  fp_rules :: "PolicyRule list"
  fp_description :: string

definition rule_to_string :: "PolicyRule \<Rightarrow> string" where
  "rule_to_string r =
     pr_id r @ '' kind='' @ rule_kind_to_string (pr_kind r) @
     (if pr_enabled r then '' enabled'' else '' disabled'') @ '' value='' @
     word_to_string (pr_value r) @
     (if pr_scope r \<noteq> [] then '' scope='' @ pr_scope r else []) @
     (if rq_capability (pr_capability r) \<noteq> []
      then '' capability='' @ requirement_to_string (pr_capability r) else []) @
     (if pr_members r \<noteq> []
      then '' members=['' @ join '','' (map member_to_string (pr_members r)) @ '']'' else [])"

definition encode_rule :: "PolicyRule \<Rightarrow> bytes result" where
  "encode_rule r = w_seq
     [w_identifier (pr_id r), w_u8 (rule_kind_wire (pr_kind r)), w_bool (pr_enabled r),
      w_u64 (pr_value r), w_identifier (pr_scope r), encode_requirement (pr_capability r),
      w_list w_id16 kMaxMembers (pr_members r), w_text (pr_description r) kMaxShortTextLength]"

definition decode_rule :: "PolicyRule reader" where
  "decode_rule =
     rbind r_identifier (\<lambda>rid.
     rbind (r_lift (optional_name parse_rule_id ''policy rule identifier is malformed'' rid)) (\<lambda>rid.
     rbind r_u8 (\<lambda>kind.
     rbind (r_lift (rule_kind_from_wire kind)) (\<lambda>kind.
     rbind r_bool (\<lambda>enabled.
     rbind r_u64 (\<lambda>val.
     rbind r_identifier (\<lambda>scope.
     rbind (r_lift (optional_name parse_scope ''policy rule scope is malformed'' scope)) (\<lambda>scope.
     rbind decode_requirement (\<lambda>capability.
     rbind (r_list r_id16 kMaxMembers) (\<lambda>members.
     rbind (r_text kMaxShortTextLength) (\<lambda>description.
     r_return \<lparr>pr_id = rid, pr_kind = kind, pr_enabled = enabled, pr_value = val,
               pr_scope = scope, pr_capability = capability, pr_members = members,
               pr_description = description\<rparr>)))))))))))"

text \<open>
  \<^verbatim>\<open>std::sort\<close> by rule identifier: rules with equal identifiers, which validation refuses, keep
  their order here (the C++ sort leaves it open).
\<close>

definition canonicalize_policy :: "FederationPolicy \<Rightarrow> FederationPolicy" where
  "canonicalize_policy p =
     p\<lparr>fp_rules := sort_key pr_id
         (map (\<lambda>r. r\<lparr>pr_members := sort_unique (pr_members r)\<rparr>) (fp_rules p))\<rparr>"

definition encode_policy :: "FederationPolicy \<Rightarrow> bytes result" where
  "encode_policy p =
     (let copy = canonicalize_policy p in w_seq
        [w_identifier (fp_id copy), w_u64 (fp_generation copy),
         w_list encode_rule kMaxPolicyRules (fp_rules copy),
         w_text (fp_description copy) kMaxTextLength])"

definition decode_policy :: "FederationPolicy reader" where
  "decode_policy =
     rbind r_identifier (\<lambda>pid.
     rbind (r_lift (optional_name parse_policy_id ''policy identifier is malformed'' pid)) (\<lambda>pid.
     rbind r_u64 (\<lambda>generation.
     rbind (r_list decode_rule kMaxPolicyRules) (\<lambda>rules.
     rbind (r_text kMaxTextLength) (\<lambda>description.
     r_return (canonicalize_policy \<lparr>fp_id = pid, fp_generation = generation, fp_rules = rules,
                                    fp_description = description\<rparr>))))))"

definition policy_digest :: "(bytes \<Rightarrow> Digest) \<Rightarrow> FederationPolicy \<Rightarrow> Digest" where
  "policy_digest H p = digest_of H (encode_policy p)"

definition policy_to_string :: "(bytes \<Rightarrow> Digest) \<Rightarrow> FederationPolicy \<Rightarrow> string" where
  "policy_to_string H p =
     fp_id p @ '' generation='' @ word_to_string (fp_generation p) @ '' rules='' @
     nat_to_string (length (fp_rules p)) @ '' digest='' @
     take 16 (digest_to_hex (policy_digest H p))"

section \<open>Effective parameters\<close>

definition kDefaultMaxLeaseLifetimeTicks :: u64 where "kDefaultMaxLeaseLifetimeTicks = 100000"
definition kDefaultObservationFreshnessTicks :: u64 where
  "kDefaultObservationFreshnessTicks = 100000"

definition find_rule :: "FederationPolicy \<Rightarrow> RuleId \<Rightarrow> PolicyRule option" where
  "find_rule p rule_id = find (\<lambda>r. pr_id r = rule_id) (fp_rules p)"

text \<open>The loops that keep the value of the last enabled rule of a kind.\<close>

definition last_value :: "PolicyRuleKind \<Rightarrow> u64 \<Rightarrow> PolicyRule list \<Rightarrow> u64" where
  "last_value kind fallback rules =
     foldl (\<lambda>v r. if pr_enabled r \<and> pr_kind r = kind then pr_value r else v) fallback rules"

text \<open>The loops that return at the first enabled rule of a kind, and \<^verbatim>\<open>true\<close> without one.\<close>

definition first_flag :: "PolicyRuleKind \<Rightarrow> PolicyRule list \<Rightarrow> bool" where
  "first_flag kind rules =
     (case find (\<lambda>r. pr_enabled r \<and> pr_kind r = kind) rules of
        None \<Rightarrow> True | Some r \<Rightarrow> pr_value r \<noteq> 0)"

definition required_endorsements :: "FederationPolicy \<Rightarrow> nat" where
  "required_endorsements p =
     (let v = unat (last_value Rule_RequireEndorsements 1 (fp_rules p))
      in if v > kMaxRequiredEndorsements then kMaxRequiredEndorsements else v)"

definition required_distinct_parties :: "FederationPolicy \<Rightarrow> nat" where
  "required_distinct_parties p =
     (let v = unat (last_value Rule_RequireDistinctParties 2 (fp_rules p));
          v = (if v < 2 then 2 else v)
      in if v > kMaxMembers then kMaxMembers else v)"

definition scope_delegation_forbidden :: "FederationPolicy \<Rightarrow> ScopeId \<Rightarrow> bool" where
  "scope_delegation_forbidden p scope \<longleftrightarrow>
     (\<exists>r \<in> set (fp_rules p). pr_enabled r \<and> pr_kind r = Rule_ForbidScopeDelegation \<and>
        pr_scope r \<noteq> [] \<and> covers (pr_scope r) scope)"

definition lease_required :: "FederationPolicy \<Rightarrow> ScopeGrant \<Rightarrow> bool" where
  "lease_required p grant =
     (if sg_verb grant \<noteq> Verb_Mutate \<and> sg_verb grant \<noteq> Verb_Administer then False
      else (\<exists>r \<in> set (fp_rules p). pr_enabled r \<and> pr_kind r = Rule_RequireLease \<and>
              pr_scope r \<noteq> [] \<and> covers (pr_scope r) (sg_scope grant)))"

definition max_lease_lifetime_ticks :: "FederationPolicy \<Rightarrow> u64" where
  "max_lease_lifetime_ticks p =
     last_value Rule_MaxLeaseLifetimeTicks kDefaultMaxLeaseLifetimeTicks (fp_rules p)"

definition reconsent_on_generation_change :: "FederationPolicy \<Rightarrow> bool" where
  "reconsent_on_generation_change p =
     foldl (\<lambda>reconsent r.
        if \<not> pr_enabled r then reconsent
        else if pr_kind r = Rule_RequireReconsentOnGenerationChange then pr_value r \<noteq> 0
        else if pr_kind r = Rule_AllowGenerationChangeWithoutReconsent then pr_value r = 0
        else reconsent) True (fp_rules p)"

definition suspend_global_mutation_on_partition :: "FederationPolicy \<Rightarrow> bool" where
  "suspend_global_mutation_on_partition p =
     first_flag Rule_SuspendGlobalMutationOnPartition (fp_rules p)"

definition suspend_global_mutation_while_reconciling :: "FederationPolicy \<Rightarrow> bool" where
  "suspend_global_mutation_while_reconciling p =
     first_flag Rule_SuspendGlobalMutationWhileReconciling (fp_rules p)"

definition require_mutual_reachability :: "FederationPolicy \<Rightarrow> bool" where
  "require_mutual_reachability p = first_flag Rule_RequireMutualReachability (fp_rules p)"

definition require_reattestation_after_partition :: "FederationPolicy \<Rightarrow> bool" where
  "require_reattestation_after_partition p =
     first_flag Rule_RequireReattestationAfterPartition (fp_rules p)"

definition observation_freshness_ticks :: "FederationPolicy \<Rightarrow> u64" where
  "observation_freshness_ticks p =
     last_value Rule_ObservationFreshnessTicks kDefaultObservationFreshnessTicks (fp_rules p)"

definition precedence_for :: "FederationPolicy \<Rightarrow> ScopeGrant \<Rightarrow> MemberId list option" where
  "precedence_for p grant =
     map_option pr_members
       (find (\<lambda>r. pr_enabled r \<and> pr_kind r = Rule_PrecedenceForGrant \<and> pr_scope r \<noteq> [] \<and>
                  covers (pr_scope r) (sg_scope grant)) (fp_rules p))"

definition mandatory_capabilities :: "FederationPolicy \<Rightarrow> CapabilityRequirement list" where
  "mandatory_capabilities p =
     sort_unique (map pr_capability
       (filter (\<lambda>r. pr_enabled r \<and> pr_kind r = Rule_RequireCapability \<and>
                    rq_capability (pr_capability r) \<noteq> []) (fp_rules p)))"

section \<open>Validation\<close>

definition check_no_duplicate_members :: "PolicyRule \<Rightarrow> check" where
  "check_no_duplicate_members r =
     (if pr_kind r = Rule_PrecedenceForGrant \<and>
         length (sort_unique (pr_members r)) \<noteq> length (pr_members r)
      then Fail Error_Conflict ''a precedence list names the same member more than once''
      else success)"

fun check_adjacent_ids :: "PolicyRule list \<Rightarrow> check" where
  "check_adjacent_ids (a # b # rs) =
     (if pr_id b = pr_id a then
        Fail Error_Conflict (''policy declares rule '' @ pr_id b @ '' twice'')
      else check_adjacent_ids (b # rs))"
| "check_adjacent_ids _ = success"

definition check_rule :: "PolicyRule \<Rightarrow> check" where
  "check_rule r =
     (if length (pr_description r) > kMaxShortTextLength then
        Fail Error_BoundsExceeded ''policy rule description is too long''
      else if pr_kind r = Rule_RequireEndorsements \<and> unat (pr_value r) > kMaxRequiredEndorsements
      then Fail Error_OutOfRange ''required endorsement count is out of range''
      else if pr_kind r = Rule_RequireDistinctParties \<and> pr_value r < 2 then
        Fail Error_InvalidArgument
          ''a non-bootstrap admission requires at least two distinct parties''
      else if pr_kind r = Rule_PrecedenceForGrant then
        (if length (pr_members r) > kMaxPrecedenceEntries then
           Fail Error_BoundsExceeded ''precedence list is too long''
         else if pr_scope r = [] then
           Fail Error_InvalidArgument ''a precedence rule must name the scope it applies to''
         else check_no_duplicate_members r)
      else success)"

definition validate_policy :: "FederationPolicy \<Rightarrow> check" where
  "validate_policy p =
     (if fp_id p = [] then Fail Error_InvalidArgument ''policy has no identifier''
      else if length (fp_rules p) > kMaxPolicyRules then
        Fail Error_BoundsExceeded ''policy has too many rules''
      else
        and_then (check_all check_no_duplicate_members (fp_rules p)) (\<lambda>_.
        let canonical = canonicalize_policy p in
        and_then (check_adjacent_ids (fp_rules canonical)) (\<lambda>_.
        check_all check_rule (fp_rules canonical))))"

section \<open>The default policy\<close>

definition no_requirement :: CapabilityRequirement where
  "no_requirement = \<lparr>rq_capability = [], rq_min_version = 0, rq_max_version = 0,
                     rq_mandatory = True\<rparr>"

definition name_or_empty :: "string result \<Rightarrow> string" where
  "name_or_empty r = (case r of Inl _ \<Rightarrow> [] | Inr n \<Rightarrow> n)"

definition default_rule :: "string \<Rightarrow> PolicyRuleKind \<Rightarrow> u64 \<Rightarrow> string \<Rightarrow> PolicyRule" where
  "default_rule rid kind val description =
     \<lparr>pr_id = name_or_empty (parse_rule_id rid), pr_kind = kind, pr_enabled = True,
      pr_value = val, pr_scope = [], pr_capability = no_requirement, pr_members = [],
      pr_description = description\<rparr>"

definition default_policy :: FederationPolicy where
  "default_policy = canonicalize_policy
    \<lparr>fp_id = (case parse_policy_id ''fabric-federation.default.v1'' of
                Inr n \<Rightarrow> n | Inl _ \<Rightarrow> name_or_empty (parse_policy_id ''fallback'')),
     fp_generation = 1,
     fp_rules =
      [default_rule ''fed.rule.endorsements'' Rule_RequireEndorsements 0
         ''third-party endorsements required beyond the sponsor and the candidate; zero means the sponsor and the candidate are enough'',
       default_rule ''fed.rule.distinct-parties'' Rule_RequireDistinctParties 2
         ''at least two distinct member identities across the admission evidence'',
       (default_rule ''fed.rule.lease-required'' Rule_RequireLease 1
         ''mutating and administering federation grants require a lease'')
         \<lparr>pr_scope := name_or_empty (parse_scope ''federation.*'')\<rparr>,
       default_rule ''fed.rule.partition-suspend'' Rule_SuspendGlobalMutationOnPartition 1
         ''a split or indeterminate partition suspends global-mutation authority'',
       default_rule ''fed.rule.reconcile-suspend'' Rule_SuspendGlobalMutationWhileReconciling 1
         ''global-mutation authority stays suspended until reconciliation completes'',
       default_rule ''fed.rule.mutual-reachability'' Rule_RequireMutualReachability 1
         ''an edge requires both endpoints to confirm each other'',
       default_rule ''fed.rule.max-lease-lifetime'' Rule_MaxLeaseLifetimeTicks 100000
         ''leases expire after this many logical ticks'',
       default_rule ''fed.rule.reconsent-on-generation-change''
         Rule_RequireReconsentOnGenerationChange 1
         ''a generation change fences authority until the member consents again'',
       default_rule ''fed.rule.reattestation-after-partition''
         Rule_RequireReattestationAfterPartition 1
         ''every active member must re-attest after a partition before global mutation resumes'',
       default_rule ''fed.rule.observation-freshness'' Rule_ObservationFreshnessTicks 100000
         ''reachability observations older than this many ticks stop counting'',
       (default_rule ''fed.rule.require-protocol'' Rule_RequireCapability 1
         ''every member must declare the framed transport capability'')
         \<lparr>pr_capability := (case parse_capability ''federation.protocol.v1'' of
             Inr n \<Rightarrow> \<lparr>rq_capability = n, rq_min_version = 1, rq_max_version = 1,
                       rq_mandatory = True\<rparr>
           | Inl _ \<Rightarrow> no_requirement)\<rparr>],
     fp_description =
       ''conservative defaults: two distinct parties, no third-party endorsement required, leases for mutating federation grants, re-consent on generation change, global-mutation suspension on partition or while reconciling''\<rparr>"

text \<open>The default policy, evaluated once: the rules in the order of their names.\<close>

lemma default_policy_eq [code]:
  "default_policy =
    \<lparr>fp_id = ''fabric-federation.default.v1'', fp_generation = 1,
     fp_rules =
       [\<lparr>pr_id = ''fed.rule.distinct-parties'', pr_kind = Rule_RequireDistinctParties,
         pr_enabled = True, pr_value = 2, pr_scope = [], pr_capability = no_requirement,
         pr_members = [],
         pr_description = ''at least two distinct member identities across the admission evidence''\<rparr>,
        \<lparr>pr_id = ''fed.rule.endorsements'', pr_kind = Rule_RequireEndorsements,
         pr_enabled = True, pr_value = 0, pr_scope = [], pr_capability = no_requirement,
         pr_members = [],
         pr_description = ''third-party endorsements required beyond the sponsor and the candidate; zero means the sponsor and the candidate are enough''\<rparr>,
        \<lparr>pr_id = ''fed.rule.lease-required'', pr_kind = Rule_RequireLease,
         pr_enabled = True, pr_value = 1, pr_scope = ''federation.*'', pr_capability = no_requirement,
         pr_members = [],
         pr_description = ''mutating and administering federation grants require a lease''\<rparr>,
        \<lparr>pr_id = ''fed.rule.max-lease-lifetime'', pr_kind = Rule_MaxLeaseLifetimeTicks,
         pr_enabled = True, pr_value = 100000, pr_scope = [], pr_capability = no_requirement,
         pr_members = [],
         pr_description = ''leases expire after this many logical ticks''\<rparr>,
        \<lparr>pr_id = ''fed.rule.mutual-reachability'', pr_kind = Rule_RequireMutualReachability,
         pr_enabled = True, pr_value = 1, pr_scope = [], pr_capability = no_requirement,
         pr_members = [],
         pr_description = ''an edge requires both endpoints to confirm each other''\<rparr>,
        \<lparr>pr_id = ''fed.rule.observation-freshness'', pr_kind = Rule_ObservationFreshnessTicks,
         pr_enabled = True, pr_value = 100000, pr_scope = [], pr_capability = no_requirement,
         pr_members = [],
         pr_description = ''reachability observations older than this many ticks stop counting''\<rparr>,
        \<lparr>pr_id = ''fed.rule.partition-suspend'', pr_kind = Rule_SuspendGlobalMutationOnPartition,
         pr_enabled = True, pr_value = 1, pr_scope = [], pr_capability = no_requirement,
         pr_members = [],
         pr_description = ''a split or indeterminate partition suspends global-mutation authority''\<rparr>,
        \<lparr>pr_id = ''fed.rule.reattestation-after-partition'', pr_kind = Rule_RequireReattestationAfterPartition,
         pr_enabled = True, pr_value = 1, pr_scope = [], pr_capability = no_requirement,
         pr_members = [],
         pr_description = ''every active member must re-attest after a partition before global mutation resumes''\<rparr>,
        \<lparr>pr_id = ''fed.rule.reconcile-suspend'', pr_kind = Rule_SuspendGlobalMutationWhileReconciling,
         pr_enabled = True, pr_value = 1, pr_scope = [], pr_capability = no_requirement,
         pr_members = [],
         pr_description = ''global-mutation authority stays suspended until reconciliation completes''\<rparr>,
        \<lparr>pr_id = ''fed.rule.reconsent-on-generation-change'', pr_kind = Rule_RequireReconsentOnGenerationChange,
         pr_enabled = True, pr_value = 1, pr_scope = [], pr_capability = no_requirement,
         pr_members = [],
         pr_description = ''a generation change fences authority until the member consents again''\<rparr>,
        \<lparr>pr_id = ''fed.rule.require-protocol'', pr_kind = Rule_RequireCapability,
         pr_enabled = True, pr_value = 1, pr_scope = [], pr_capability = \<lparr>rq_capability = ''federation.protocol.v1'', rq_min_version = 1, rq_max_version = 1,
           rq_mandatory = True\<rparr>,
         pr_members = [],
         pr_description = ''every member must declare the framed transport capability''\<rparr>],
     fp_description =
       ''conservative defaults: two distinct parties, no third-party endorsement required, leases for mutating federation grants, re-consent on generation change, global-mutation suspension on partition or while reconciling''\<rparr>"
  by code_simp

section \<open>Codec contract\<close>

definition rule_wf :: "PolicyRule \<Rightarrow> bool" where
  "rule_wf r \<longleftrightarrow> name_invariant parse_rule_id (pr_id r) \<and> scope_wf (pr_scope r) \<and>
     requirement_wf (pr_capability r)"

definition policy_wf :: "FederationPolicy \<Rightarrow> bool" where
  "policy_wf p \<longleftrightarrow> name_invariant parse_policy_id (fp_id p) \<and> (\<forall>r \<in> set (fp_rules p). rule_wf r)"

lemma rule_kind_from_wire_wire [codec_rt]: "rule_kind_from_wire (rule_kind_wire k) = Inr k"
  by (cases k) (simp_all add: rule_kind_from_wire_def rule_kinds_def)

lemmas decode_requirement_rt [codec_rt] = requirement_codec.roundtrip

interpretation rule_codec: codec encode_rule decode_rule rule_wf
proof
  fix x :: PolicyRule and rest
  assume "is_ok (encode_rule x)" "rule_wf x"
  then show "decode_rule (projr (encode_rule x) @ rest) = Inr (x, rest)"
    by (cases x) (simp add: encode_rule_def decode_rule_def rule_wf_def scope_wf_def
        is_ok_w_seq projr_w_seq codec_rt)
qed

lemmas decode_rules_rt [codec_rt] = rule_codec.listed

lemma canonicalize_policy_idem [simp]:
  "canonicalize_policy (canonicalize_policy p) = canonicalize_policy p"
proof -
  define f where "f = (\<lambda>r :: PolicyRule. r\<lparr>pr_members := sort_unique (pr_members r)\<rparr>)"
  have ids: "pr_id (f r) = pr_id r" and twice: "f (f r) = f r" for r by (simp_all add: f_def)
  have "map f (sort_key pr_id (map f rs)) = sort_key pr_id (map f rs)" for rs
    by (rule map_idI) (auto simp: twice)
  then show ?thesis
    by (simp add: canonicalize_policy_def f_def sort_key_id_if_sorted sorted_sort_key)
qed

lemma decode_encode_policy:
  assumes "is_ok (encode_policy p)" "policy_wf p"
  shows "decode_policy (projr (encode_policy p) @ rest) = Inr (canonicalize_policy p, rest)"
proof -
  have wf: "\<forall>r \<in> set (fp_rules (canonicalize_policy p)). rule_wf r"
    and pid: "fp_id (canonicalize_policy p) = fp_id p"
    using assms(2) by (auto simp: policy_wf_def canonicalize_policy_def rule_wf_def)
  obtain q where q: "q = canonicalize_policy p" by simp
  have "canonicalize_policy \<lparr>fp_id = fp_id q, fp_generation = fp_generation q,
      fp_rules = fp_rules q, fp_description = fp_description q\<rparr> = q"
    unfolding q by (cases "canonicalize_policy p")
      (metis canonicalize_policy_idem FederationPolicy.select_convs(1,2,3,4))
  then show ?thesis
    using assms wf pid unfolding q [symmetric]
    by (simp add: encode_policy_def decode_policy_def q [symmetric] policy_wf_def Let_def
        is_ok_w_seq projr_w_seq codec_rt)
qed

definition policy_canonical :: "FederationPolicy \<Rightarrow> bool" where
  "policy_canonical p \<longleftrightarrow> policy_wf p \<and> canonicalize_policy p = p"

interpretation policy_codec: codec encode_policy decode_policy policy_canonical
  by unfold_locales (simp add: decode_encode_policy policy_canonical_def)

section \<open>Properties\<close>

text \<open>
  Whatever rules a policy holds, the number of distinct parties an admission needs is at least
  two and at most the member bound, and the number of endorsements at most the endorsement bound.
\<close>

theorem policy_parameter_bounds:
  "2 \<le> required_distinct_parties p \<and> required_distinct_parties p \<le> kMaxMembers \<and>
   required_endorsements p \<le> kMaxRequiredEndorsements"
  by (simp add: required_distinct_parties_def required_endorsements_def Let_def ff_bounds)

text \<open>
  Encoding a policy and decoding the bytes yields its canonical form, which has the same digest.
\<close>

theorem policy_roundtrip:
  assumes "policy_wf p" "encode_policy p = Inr bs"
  shows "decode_policy (bs @ rest) = Inr (canonicalize_policy p, rest) \<and>
    policy_digest H (canonicalize_policy p) = policy_digest H p"
  using decode_encode_policy [of p rest] assms
  by (simp add: policy_digest_def encode_policy_def)

text \<open>
  Canonicalisation, which every encoded or decoded policy goes through, sorts the member list
  of a precedence rule: the precedence a canonical policy reports is the ascending order of the
  member identifiers, whatever order the rule configured.
\<close>

theorem canonical_precedence_is_sorted:
  assumes "precedence_for (canonicalize_policy p) grant = Some order"
  shows "sorted order \<and> distinct order"
proof -
  from assms obtain r where "r \<in> set (fp_rules (canonicalize_policy p))" "order = pr_members r"
    by (auto simp: precedence_for_def) (metis (no_types, lifting) find_Some_iff nth_mem)
  then show ?thesis by (auto simp: canonicalize_policy_def)
qed

theorem policy_roundtrip_witness:
  "decode_policy (projr (encode_policy default_policy) @ []) =
     Inr (canonicalize_policy default_policy, []) \<and>
   policy_digest (\<lambda>bs. word_of_nat (length bs)) (canonicalize_policy default_policy) =
     policy_digest (\<lambda>bs. word_of_nat (length bs)) default_policy"
proof (rule policy_roundtrip)
  show "policy_wf default_policy" by code_simp
  have "is_ok (encode_policy default_policy)" by code_simp
  then show "encode_policy default_policy = Inr (projr (encode_policy default_policy))"
    by (auto simp: is_ok_iff)
qed

definition sample_precedence :: FederationPolicy where
  "sample_precedence = \<lparr>fp_id = ''p'', fp_generation = 1, fp_rules =
     [(default_rule ''r'' Rule_PrecedenceForGrant 1 [])\<lparr>pr_scope := ''a.b'', pr_members := [9, 4]\<rparr>],
     fp_description = []\<rparr>"

theorem canonical_precedence_is_sorted_witness:
  "precedence_for sample_precedence \<lparr>sg_scope = ''a.b'', sg_verb = Verb_Mutate\<rparr> = Some [9, 4] \<and>
   precedence_for (canonicalize_policy sample_precedence)
     \<lparr>sg_scope = ''a.b'', sg_verb = Verb_Mutate\<rparr> = Some [4, 9] \<and>
   sorted [4, 9 :: MemberId] \<and> distinct [4, 9 :: MemberId]"
proof -
  have "precedence_for (canonicalize_policy sample_precedence)
      \<lparr>sg_scope = ''a.b'', sg_verb = Verb_Mutate\<rparr> = Some [4, 9]" by code_simp
  moreover have "precedence_for sample_precedence
      \<lparr>sg_scope = ''a.b'', sg_verb = Verb_Mutate\<rparr> = Some [9, 4]" by code_simp
  ultimately show ?thesis using canonical_precedence_is_sorted by blast
qed

text \<open>
  The shipped default policy passes validation, and its effective parameters are the ones its
  description announces: two distinct parties, no third-party endorsement, leases for mutating
  federation grants, re-consent on generation change, suspension of global mutation on partition and
  while reconciling.
\<close>

theorem default_policy_valid:
  "validate_policy default_policy = success \<and> policy_wf default_policy \<and>
   required_distinct_parties default_policy = 2 \<and> required_endorsements default_policy = 0 \<and>
   lease_required default_policy \<lparr>sg_scope = ''federation.epoch.advance'', sg_verb = Verb_Mutate\<rparr> \<and>
   reconsent_on_generation_change default_policy \<and>
   suspend_global_mutation_on_partition default_policy \<and>
   suspend_global_mutation_while_reconciling default_policy"
  by code_simp

end
