(* ===== verification/Identity.thy ===== *)
theory Identity
  imports Policy
begin

text \<open>
  Member identity (\<^verbatim>\<open>identity.hpp\<close>, \<^verbatim>\<open>identity.cpp\<close>): the membership lifecycle, constitutions and
  their validation, runtime identities and their comparison, declarations, membership slots. The
  lemmas show the codec contracts, what a validated constitution guarantees, and that comparing
  identities separates the six identity fields.
\<close>

section \<open>Lifecycle\<close>

datatype MemberLifecycleState =
    Lifecycle_Absent | Lifecycle_Proposed | Lifecycle_Admitted | Lifecycle_Active
  | Lifecycle_Degraded | Lifecycle_Fenced | Lifecycle_Leaving | Lifecycle_Retired

primrec lifecycle_wire :: "MemberLifecycleState \<Rightarrow> u8" where
  "lifecycle_wire Lifecycle_Absent = 0"
| "lifecycle_wire Lifecycle_Proposed = 1"
| "lifecycle_wire Lifecycle_Admitted = 2"
| "lifecycle_wire Lifecycle_Active = 3"
| "lifecycle_wire Lifecycle_Degraded = 4"
| "lifecycle_wire Lifecycle_Fenced = 5"
| "lifecycle_wire Lifecycle_Leaving = 6"
| "lifecycle_wire Lifecycle_Retired = 7"

definition lifecycle_to_string :: "MemberLifecycleState \<Rightarrow> string" where
  "lifecycle_to_string s = (case s of
     Lifecycle_Absent \<Rightarrow> ''ABSENT'' | Lifecycle_Proposed \<Rightarrow> ''PROPOSED''
   | Lifecycle_Admitted \<Rightarrow> ''ADMITTED'' | Lifecycle_Active \<Rightarrow> ''ACTIVE''
   | Lifecycle_Degraded \<Rightarrow> ''DEGRADED'' | Lifecycle_Fenced \<Rightarrow> ''FENCED''
   | Lifecycle_Leaving \<Rightarrow> ''LEAVING'' | Lifecycle_Retired \<Rightarrow> ''RETIRED'')"

definition lifecycle_holds_federation_authority :: "MemberLifecycleState \<Rightarrow> bool" where
  "lifecycle_holds_federation_authority s \<longleftrightarrow> s = Lifecycle_Active \<or> s = Lifecycle_Degraded"

definition lifecycle_is_terminal :: "MemberLifecycleState \<Rightarrow> bool" where
  "lifecycle_is_terminal s \<longleftrightarrow> s = Lifecycle_Retired"

lemma lifecycle_wire_inject [simp]: "lifecycle_wire a = lifecycle_wire b \<longleftrightarrow> a = b"
  by (cases a; cases b) simp_all

section \<open>Constitutions\<close>

record MemberConstitution =
  mc_domain :: FabricDomainId
  mc_member :: MemberId
  mc_generation :: Generation
  mc_software_major :: u32
  mc_software_minor :: u32
  mc_software_patch :: u32
  mc_capabilities :: "CapabilityStatement list"
  mc_requirements :: "CapabilityRequirement list"
  mc_retained :: "ScopeGrant list"
  mc_delegated :: "DelegationTerms list"
  mc_description :: string

definition canonicalize_constitution :: "MemberConstitution \<Rightarrow> MemberConstitution" where
  "canonicalize_constitution c =
     c\<lparr>mc_capabilities := canonicalize_statements (mc_capabilities c),
       mc_requirements := canonicalize_requirements (mc_requirements c),
       mc_retained := canonicalize_grants (mc_retained c),
       mc_delegated := canonicalize_terms (mc_delegated c)\<rparr>"

definition encode_constitution :: "MemberConstitution \<Rightarrow> bytes result" where
  "encode_constitution c = w_seq
     [w_id16 (mc_domain c), w_id16 (mc_member c), w_u64 (mc_generation c),
      w_u32 (mc_software_major c), w_u32 (mc_software_minor c), w_u32 (mc_software_patch c),
      encode_statements (mc_capabilities c) kMaxCapabilitiesPerMember,
      encode_requirements (mc_requirements c) kMaxCapabilitiesPerMember,
      encode_grants (mc_retained c) kMaxScopesPerMember,
      encode_terms (mc_delegated c) kMaxDelegationTermsPerMember,
      w_text (mc_description c) kMaxTextLength]"

definition decode_constitution :: "MemberConstitution reader" where
  "decode_constitution =
     rbind r_id16 (\<lambda>domain.
     rbind r_id16 (\<lambda>member.
     rbind r_u64 (\<lambda>generation.
     rbind r_u32 (\<lambda>major.
     rbind r_u32 (\<lambda>minor.
     rbind r_u32 (\<lambda>patch.
     rbind (decode_statements kMaxCapabilitiesPerMember) (\<lambda>capabilities.
     rbind (decode_requirements kMaxCapabilitiesPerMember) (\<lambda>requirements.
     rbind (decode_grants kMaxScopesPerMember) (\<lambda>retained.
     rbind (decode_terms kMaxDelegationTermsPerMember) (\<lambda>delegated.
     rbind (r_text kMaxTextLength) (\<lambda>description.
     r_return (canonicalize_constitution
       \<lparr>mc_domain = domain, mc_member = member, mc_generation = generation,
        mc_software_major = major, mc_software_minor = minor, mc_software_patch = patch,
        mc_capabilities = capabilities, mc_requirements = requirements, mc_retained = retained,
        mc_delegated = delegated, mc_description = description\<rparr>))))))))))))"

definition constitution_digest :: "(bytes \<Rightarrow> Digest) \<Rightarrow> MemberConstitution \<Rightarrow> Digest" where
  "constitution_digest H c = digest_of H (encode_constitution (canonicalize_constitution c))"

definition constitution_to_string :: "(bytes \<Rightarrow> Digest) \<Rightarrow> MemberConstitution \<Rightarrow> string" where
  "constitution_to_string H c =
     ''domain='' @ format_id ''dom'' (mc_domain c) @ '' member='' @ member_to_string (mc_member c) @
     '' generation='' @ word_to_string (mc_generation c) @ '' software='' @
     word_to_string (mc_software_major c) @ ''.'' @ word_to_string (mc_software_minor c) @ ''.'' @
     word_to_string (mc_software_patch c) @
     '' retained=['' @ render_grants (mc_retained c) @ ''] delegated=['' @
     join '', '' (map term_to_string (mc_delegated c)) @
     (if mc_delegated c = [] then ''(none)'' else []) @ ''] capabilities=['' @
     join '', '' (map statement_to_string (mc_capabilities c)) @
     (if mc_capabilities c = [] then ''(none)'' else []) @ ''] digest='' @
     digest_to_hex (constitution_digest H c)"

section \<open>Validation\<close>

definition check_delegated :: "ScopeCatalog \<Rightarrow> DelegationTerms \<Rightarrow> check" where
  "check_delegated catalog terms =
     (let scope = sg_scope (dt_grant terms); (scope_class, known) = classify catalog scope in
      if is_wildcard scope \<and> scope = ''*'' then
        Fail Error_InvalidArgument ''a member may not delegate every scope at once''
      else if \<not> known then
        Fail Error_InvalidArgument
          (''delegated scope '' @ scope @ '' is not in the scope catalogue'')
      else if scope_class = Class_Local then
        Fail Error_InvalidArgument
          (''scope '' @ scope @ '' is local authority and cannot be delegated'')
      else if length scope \<ge> 7 \<and> take 7 scope = ''domain.'' then
        Fail Error_InvalidArgument ''a member may not delegate authority inside its own domain''
      else success)"

definition check_overlap :: "ScopeGrant \<Rightarrow> ScopeGrant \<Rightarrow> check" where
  "check_overlap retained delegated =
     (if sg_verb retained \<noteq> sg_verb delegated then success
      else if covers (sg_scope delegated) (sg_scope retained) \<or>
              covers (sg_scope retained) (sg_scope delegated) then
        Fail Error_InvalidArgument
          (''grant '' @ grant_to_string retained @
           '' is declared both as retained local authority and as delegated authority'')
      else success)"

definition check_retained :: "ScopeCatalog \<Rightarrow> ScopeGrant list \<Rightarrow> ScopeGrant \<Rightarrow> check" where
  "check_retained catalog delegated_grants retained =
     (let (scope_class, known) = classify catalog (sg_scope retained) in
      if \<not> known then
        Fail Error_InvalidArgument
          (''retained scope '' @ sg_scope retained @ '' is not in the scope catalogue'')
      else if scope_class \<noteq> Class_Local then
        Fail Error_InvalidArgument
          (''scope '' @ sg_scope retained @
           '' is federation authority and cannot be listed as retained local authority'')
      else check_all (check_overlap retained) delegated_grants)"

definition validate_constitution :: "MemberConstitution \<Rightarrow> ScopeCatalog \<Rightarrow> check" where
  "validate_constitution c catalog =
     (if is_nil (mc_domain c) then
        Fail Error_InvalidArgument ''constitution has no domain identity''
      else if is_nil (mc_member c) then
        Fail Error_InvalidArgument ''constitution has no member identity''
      else if length (mc_capabilities c) > kMaxCapabilitiesPerMember then
        Fail Error_BoundsExceeded ''too many capability statements''
      else if length (mc_requirements c) > kMaxCapabilitiesPerMember then
        Fail Error_BoundsExceeded ''too many capability requirements''
      else if length (mc_retained c) > kMaxScopesPerMember then
        Fail Error_BoundsExceeded ''too many retained grants''
      else if length (mc_delegated c) > kMaxDelegationTermsPerMember then
        Fail Error_BoundsExceeded ''too many delegation terms''
      else if length (mc_description c) > kMaxTextLength then
        Fail Error_BoundsExceeded ''constitution description is too long''
      else
        and_then (check_all (check_delegated catalog) (mc_delegated c)) (\<lambda>_.
        check_all (check_retained catalog (map dt_grant (mc_delegated c))) (mc_retained c)))"

section \<open>Runtime identity\<close>

record MemberIdentity =
  mi_domain :: FabricDomainId
  mi_member :: MemberId
  mi_generation :: Generation
  mi_incarnation :: Incarnation
  mi_constitution :: Digest
  mi_node :: NodeId
  mi_started_at :: Tick
  mi_reincarnated :: bool

definition MemberIdentity_key :: "'a MemberIdentity_scheme \<Rightarrow>
    MemberId \<times> Generation \<times> Incarnation \<times> Digest \<times> NodeId \<times> FabricDomainId \<times> Tick \<times> bool \<times> 'a" where
  "MemberIdentity_key i = (mi_member i, mi_generation i, mi_incarnation i, mi_constitution i,
     mi_node i, mi_domain i, mi_started_at i, mi_reincarnated i, MemberIdentity.more i)"

lemma MemberIdentity_key_inject [simp]: "MemberIdentity_key a = MemberIdentity_key b \<longleftrightarrow> a = b"
  by (cases a; cases b) (auto simp: MemberIdentity_key_def)

instantiation MemberIdentity_ext :: (linorder) linorder
begin
definition less_eq_MemberIdentity_ext ::
  "'a MemberIdentity_scheme \<Rightarrow> 'a MemberIdentity_scheme \<Rightarrow> bool" where
  "a \<le> b \<longleftrightarrow> MemberIdentity_key a \<le> MemberIdentity_key b"
definition less_MemberIdentity_ext ::
  "'a MemberIdentity_scheme \<Rightarrow> 'a MemberIdentity_scheme \<Rightarrow> bool" where
  "a < b \<longleftrightarrow> MemberIdentity_key a < MemberIdentity_key b"
instance
  by intro_classes (simp_all only: less_eq_MemberIdentity_ext_def less_MemberIdentity_ext_def
      less_le_not_le order_refl linear MemberIdentity_key_inject [symmetric] order_trans
      order_antisym)
end

definition encode_identity :: "MemberIdentity \<Rightarrow> bytes result" where
  "encode_identity i = w_seq
     [w_id16 (mi_domain i), w_id16 (mi_member i), w_u64 (mi_generation i),
      w_u64 (mi_incarnation i), w_digest (mi_constitution i), w_id16 (mi_node i),
      w_u64 (mi_started_at i), w_bool (mi_reincarnated i)]"

definition decode_identity :: "MemberIdentity reader" where
  "decode_identity =
     rbind r_id16 (\<lambda>domain.
     rbind r_id16 (\<lambda>member.
     rbind r_u64 (\<lambda>generation.
     rbind r_u64 (\<lambda>incarnation.
     rbind r_digest (\<lambda>constitution.
     rbind r_id16 (\<lambda>node.
     rbind r_u64 (\<lambda>started_at.
     rbind r_bool (\<lambda>reincarnated.
     r_return \<lparr>mi_domain = domain, mi_member = member, mi_generation = generation,
               mi_incarnation = incarnation, mi_constitution = constitution, mi_node = node,
               mi_started_at = started_at, mi_reincarnated = reincarnated\<rparr>))))))))"

definition identity_to_string :: "MemberIdentity \<Rightarrow> string" where
  "identity_to_string i =
     member_to_string (mi_member i) @ '' gen='' @ word_to_string (mi_generation i) @ '' inc='' @
     word_to_string (mi_incarnation i) @ '' node='' @ node_to_string (mi_node i) @ '' digest='' @
     take 16 (digest_to_hex (mi_constitution i))"

definition identity_digest :: "(bytes \<Rightarrow> Digest) \<Rightarrow> MemberIdentity \<Rightarrow> Digest" where
  "identity_digest H i = digest_of H (encode_identity i)"

definition same_lineage :: "MemberIdentity \<Rightarrow> MemberIdentity \<Rightarrow> bool" where
  "same_lineage a b \<longleftrightarrow> mi_member a = mi_member b \<and> mi_domain a = mi_domain b"

datatype IdentityMismatch =
    Mismatch_None | Mismatch_Member | Mismatch_Domain | Mismatch_Generation
  | Mismatch_Incarnation | Mismatch_Constitution | Mismatch_Node

definition mismatch_to_string :: "IdentityMismatch \<Rightarrow> string" where
  "mismatch_to_string m = (case m of
     Mismatch_None \<Rightarrow> ''none'' | Mismatch_Member \<Rightarrow> ''member'' | Mismatch_Domain \<Rightarrow> ''domain''
   | Mismatch_Generation \<Rightarrow> ''generation'' | Mismatch_Incarnation \<Rightarrow> ''incarnation''
   | Mismatch_Constitution \<Rightarrow> ''constitution'' | Mismatch_Node \<Rightarrow> ''node'')"

definition compare_identities :: "MemberIdentity \<Rightarrow> MemberIdentity \<Rightarrow> IdentityMismatch" where
  "compare_identities expected presented =
     (if mi_member expected \<noteq> mi_member presented then Mismatch_Member
      else if mi_domain expected \<noteq> mi_domain presented then Mismatch_Domain
      else if mi_generation expected \<noteq> mi_generation presented then Mismatch_Generation
      else if mi_constitution expected \<noteq> mi_constitution presented then Mismatch_Constitution
      else if mi_incarnation expected \<noteq> mi_incarnation presented then Mismatch_Incarnation
      else if mi_node expected \<noteq> mi_node presented then Mismatch_Node
      else Mismatch_None)"

section \<open>Declarations and slots\<close>

record MemberDeclaration =
  md_constitution :: MemberConstitution
  md_incarnation :: Incarnation
  md_node :: NodeId
  md_declared_at :: Tick

definition declaration_identity :: "(bytes \<Rightarrow> Digest) \<Rightarrow> MemberDeclaration \<Rightarrow> MemberIdentity" where
  "declaration_identity H d =
     \<lparr>mi_domain = mc_domain (md_constitution d), mi_member = mc_member (md_constitution d),
      mi_generation = mc_generation (md_constitution d), mi_incarnation = md_incarnation d,
      mi_constitution = constitution_digest H (md_constitution d), mi_node = md_node d,
      mi_started_at = md_declared_at d,
      mi_reincarnated = (md_incarnation d \<noteq> 0 \<and> md_incarnation d > 1)\<rparr>"

definition encode_declaration :: "MemberDeclaration \<Rightarrow> bytes result" where
  "encode_declaration d = w_seq
     [encode_constitution (md_constitution d), w_u64 (md_incarnation d), w_id16 (md_node d),
      w_u64 (md_declared_at d)]"

definition decode_declaration :: "MemberDeclaration reader" where
  "decode_declaration =
     rbind decode_constitution (\<lambda>constitution.
     rbind r_u64 (\<lambda>incarnation.
     rbind r_id16 (\<lambda>node.
     rbind r_u64 (\<lambda>declared_at.
     r_return \<lparr>md_constitution = constitution, md_incarnation = incarnation, md_node = node,
               md_declared_at = declared_at\<rparr>))))"

definition declaration_to_string :: "(bytes \<Rightarrow> Digest) \<Rightarrow> MemberDeclaration \<Rightarrow> string" where
  "declaration_to_string H d =
     constitution_to_string H (md_constitution d) @ '' incarnation='' @
     word_to_string (md_incarnation d) @ '' node='' @ node_to_string (md_node d)"

text \<open>\<^verbatim>\<open>BasicId::derive\<close>: the first sixteen bytes of a digest over prefix, seed and counter.\<close>

definition derive_id :: "(bytes \<Rightarrow> Digest) \<Rightarrow> string \<Rightarrow> string \<Rightarrow> u64 \<Rightarrow> id128" where
  "derive_id H prefix seed counter =
     from_be (take 16 (digest_bytes
       (H (map byte_of_char prefix @ map byte_of_char ''|derive|'' @ map byte_of_char seed @
           le_bytes 8 counter))))"

record MembershipSlot =
  ms_member :: MemberId
  ms_lineage :: Lineage
  ms_lineage_id :: LineageId

definition make_slot :: "(bytes \<Rightarrow> Digest) \<Rightarrow> MemberId \<Rightarrow> Lineage \<Rightarrow> MembershipSlot" where
  "make_slot H member lineage =
     \<lparr>ms_member = member, ms_lineage = lineage,
      ms_lineage_id = derive_id H ''lin'' (member_to_string member) lineage\<rparr>"

section \<open>Codec contracts\<close>

definition constitution_names_ok :: "MemberConstitution \<Rightarrow> bool" where
  "constitution_names_ok c \<longleftrightarrow>
     (\<forall>s \<in> set (mc_capabilities c). statement_wf s) \<and>
     (\<forall>r \<in> set (mc_requirements c). requirement_wf r) \<and>
     (\<forall>g \<in> set (mc_retained c). grant_wf g) \<and> (\<forall>t \<in> set (mc_delegated c). term_wf t)"

definition constitution_wf :: "MemberConstitution \<Rightarrow> bool" where
  "constitution_wf c \<longleftrightarrow> constitution_names_ok c \<and> canonicalize_constitution c = c"

definition declaration_wf :: "MemberDeclaration \<Rightarrow> bool" where
  "declaration_wf d \<longleftrightarrow> constitution_wf (md_constitution d)"

lemmas constitution_canonical_defs = canonicalize_constitution_def canonicalize_statements_def
  canonicalize_requirements_def canonicalize_grants_def canonicalize_terms_def

lemma canonicalize_constitution_idem [simp]:
  "canonicalize_constitution (canonicalize_constitution c) = canonicalize_constitution c"
  by (simp add: constitution_canonical_defs)

lemma constitution_names_ok_canonicalize [simp]:
  "constitution_names_ok (canonicalize_constitution c) \<longleftrightarrow> constitution_names_ok c"
  by (simp add: constitution_names_ok_def constitution_canonical_defs)

lemma decode_encode_constitution:
  assumes "is_ok (encode_constitution c)" "constitution_names_ok c"
  shows "decode_constitution (projr (encode_constitution c) @ rest) =
    Inr (canonicalize_constitution c, rest)"
  using assms
  by (cases c) (simp add: encode_constitution_def decode_constitution_def constitution_names_ok_def
      is_ok_w_seq projr_w_seq codec_rt)

interpretation constitution_codec: codec encode_constitution decode_constitution constitution_wf
  by unfold_locales (simp add: decode_encode_constitution constitution_wf_def)

lemmas decode_constitution_rt [codec_rt] = constitution_codec.roundtrip

interpretation identity_codec: codec encode_identity decode_identity "\<lambda>_. True"
proof
  fix x :: MemberIdentity and rest
  show "decode_identity (projr (encode_identity x) @ rest) = Inr (x, rest)"
    by (cases x) (simp add: encode_identity_def decode_identity_def projr_w_seq codec_rt)
qed

lemmas decode_identity_rt [codec_rt] = identity_codec.roundtrip

interpretation declaration_codec: codec encode_declaration decode_declaration declaration_wf
proof
  fix x :: MemberDeclaration and rest
  assume "is_ok (encode_declaration x)" "declaration_wf x"
  then show "decode_declaration (projr (encode_declaration x) @ rest) = Inr (x, rest)"
    by (cases x) (simp add: encode_declaration_def decode_declaration_def declaration_wf_def
        is_ok_w_seq projr_w_seq codec_rt)
qed

lemma is_ok_encode_identity [simp]: "is_ok (encode_identity i)"
  by (simp add: encode_identity_def is_ok_w_seq)

section \<open>Validation lemmas\<close>

lemma validate_constitution_ok_iff:
  "validate_constitution c catalog = success \<longleftrightarrow>
     \<not> is_nil (mc_domain c) \<and> \<not> is_nil (mc_member c) \<and>
     length (mc_capabilities c) \<le> kMaxCapabilitiesPerMember \<and>
     length (mc_requirements c) \<le> kMaxCapabilitiesPerMember \<and>
     length (mc_retained c) \<le> kMaxScopesPerMember \<and>
     length (mc_delegated c) \<le> kMaxDelegationTermsPerMember \<and>
     length (mc_description c) \<le> kMaxTextLength \<and>
     (\<forall>t \<in> set (mc_delegated c). check_delegated catalog t = success) \<and>
     (\<forall>g \<in> set (mc_retained c).
        check_retained catalog (map dt_grant (mc_delegated c)) g = success)"
  by (auto simp: validate_constitution_def)

lemma check_delegated_ok:
  "check_delegated catalog t = success \<Longrightarrow>
     \<exists>c. classify catalog (sg_scope (dt_grant t)) = (c, True) \<and> c \<noteq> Class_Local \<and>
         take 7 (sg_scope (dt_grant t)) \<noteq> ''domain.''"
  by (auto simp: check_delegated_def Let_def split: prod.splits if_splits)

lemma check_retained_ok:
  "check_retained catalog ds g = success \<Longrightarrow>
     classify catalog (sg_scope g) = (Class_Local, True) \<and>
     (\<forall>d \<in> set ds. sg_verb g = sg_verb d \<longrightarrow>
        \<not> covers (sg_scope d) (sg_scope g) \<and> \<not> covers (sg_scope g) (sg_scope d))"
  by (auto simp: check_retained_def check_overlap_def split: prod.splits if_splits)

section \<open>Properties\<close>

text \<open>
  C28: joining never transfers everything. In a constitution that passes validation every delegated
  scope is a known, non-local scope outside the member's own domain, every retained scope is known
  local authority, and no delegated grant overlaps a retained grant in either direction.
\<close>

theorem validated_constitution_separates_authority:
  assumes "validate_constitution c catalog = success"
  shows "(\<forall>t \<in> set (mc_delegated c).
            fst (classify catalog (sg_scope (dt_grant t))) \<noteq> Class_Local \<and>
            snd (classify catalog (sg_scope (dt_grant t))) \<and>
            take 7 (sg_scope (dt_grant t)) \<noteq> ''domain.'') \<and>
         (\<forall>g \<in> set (mc_retained c). classify catalog (sg_scope g) = (Class_Local, True)) \<and>
         (\<forall>g \<in> set (mc_retained c). \<not> grants_cover (map dt_grant (mc_delegated c)) g) \<and>
         (\<forall>t \<in> set (mc_delegated c). \<not> grants_cover (mc_retained c) (dt_grant t))"
  using assms unfolding validate_constitution_ok_iff
  by (fastforce simp: grants_cover_def dest!: check_delegated_ok check_retained_ok)

text \<open>
  A constitution that passes validation and whose names are well formed survives the wire: it
  encodes, and decoding yields its canonical form, whose digest is the digest of the original.
\<close>

theorem constitution_roundtrip:
  assumes "constitution_names_ok c" "validate_constitution c catalog = success"
    and "utf8_is_valid (mc_description c)"
  shows "\<exists>bs. encode_constitution c = Inr bs \<and>
    decode_constitution (bs @ rest) = Inr (canonicalize_constitution c, rest) \<and>
    constitution_digest H (canonicalize_constitution c) = constitution_digest H c"
proof -
  have requirement: "requirement_wf r \<Longrightarrow> is_ok (encode_requirement r)" for r
    by (auto simp: encode_requirement_def is_ok_w_seq requirement_wf_def name_invariant_def
        parse_capability_def dest: is_ok_w_identifier_name)
  have "is_ok (encode_constitution c)"
    using assms unfolding validate_constitution_ok_iff
    by (simp add: encode_constitution_def is_ok_w_seq constitution_names_ok_def
        encode_statements_def encode_requirements_def is_ok_w_list is_ok_w_count_iff
        is_ok_encode_statement requirement is_ok_encode_grants is_ok_encode_terms
        is_ok_w_text_iff ff_bounds)
  with decode_encode_constitution [of c rest] assms(1) show ?thesis
    by (cases "encode_constitution c") (simp_all add: constitution_digest_def)
qed

text \<open>
  Comparing identities reports no mismatch exactly when the two identities agree on member,
  domain, generation, constitution, incarnation and node; a reported generation mismatch means that
  member and domain agree, so that generation fencing never confuses two members.
\<close>

theorem compare_identities_exact:
  "(compare_identities a b = Mismatch_None \<longleftrightarrow>
      same_lineage a b \<and> mi_generation a = mi_generation b \<and>
      mi_constitution a = mi_constitution b \<and> mi_incarnation a = mi_incarnation b \<and>
      mi_node a = mi_node b) \<and>
   (compare_identities a b = Mismatch_Generation \<longleftrightarrow>
      same_lineage a b \<and> mi_generation a \<noteq> mi_generation b)"
  by (simp add: compare_identities_def same_lineage_def)

definition sample_constitution :: "MemberId \<Rightarrow> MemberConstitution" where
  "sample_constitution m =
     \<lparr>mc_domain = 7, mc_member = m, mc_generation = 1, mc_software_major = 1,
      mc_software_minor = 0, mc_software_patch = 0,
      mc_capabilities = [\<lparr>cs_capability = ''federation.protocol.v1'', cs_version = 1,
                          cs_evidence = Evidence_Known, cs_evidence_digest = 5\<rparr>],
      mc_requirements = [],
      mc_retained = [\<lparr>sg_scope = ''domain.local.routes'', sg_verb = Verb_Mutate\<rparr>],
      mc_delegated = [sample_term ''federation.epoch.advance''],
      mc_description = ''sample''\<rparr>"

lemma sample_constitution_valid:
  "validate_constitution (sample_constitution 3) builtin = success"
  by code_simp

theorem validated_constitution_separates_authority_witness:
  "\<not> grants_cover (map dt_grant (mc_delegated (sample_constitution 3)))
      \<lparr>sg_scope = ''domain.local.routes'', sg_verb = Verb_Mutate\<rparr>"
  using validated_constitution_separates_authority [OF sample_constitution_valid]
  by (simp add: sample_constitution_def)

theorem constitution_roundtrip_witness:
  "\<exists>bs. encode_constitution (sample_constitution 3) = Inr bs \<and>
     decode_constitution (bs @ [1]) = Inr (canonicalize_constitution (sample_constitution 3), [1]) \<and>
     constitution_digest (\<lambda>bs. word_of_nat (length bs))
       (canonicalize_constitution (sample_constitution 3)) =
     constitution_digest (\<lambda>bs. word_of_nat (length bs)) (sample_constitution 3)"
  by (rule constitution_roundtrip [OF _ sample_constitution_valid]) code_simp+

end
