(* ===== verification/Explanation.thy ===== *)
theory Explanation
  imports Identity
begin

text \<open>
  Decision explanations (\<^verbatim>\<open>explanation.hpp\<close>, \<^verbatim>\<open>explanation.cpp\<close>): reason codes, contributions, the
  explanation record with its bounded reason list, its canonical form, codec and renderings.

  \<^verbatim>\<open>ReasonCode\<close> is an enumeration with a fixed 16-bit underlying type and 82 named values that the
  program also fills by unchecked casts (\<^verbatim>\<open>lease.cpp\<close>): it is modelled as a wrapped 16-bit word with
  the named values as abbreviations.
\<close>

section \<open>Reason codes\<close>

datatype ReasonCode = ReasonCode (reason_value: u16)

abbreviation Reason_MembershipActive :: ReasonCode where "Reason_MembershipActive \<equiv> ReasonCode 0"
abbreviation Reason_MembershipAdmittedPendingActivation :: ReasonCode where "Reason_MembershipAdmittedPendingActivation \<equiv> ReasonCode 1"
abbreviation Reason_MembershipProposedInsufficientEvidence :: ReasonCode where "Reason_MembershipProposedInsufficientEvidence \<equiv> ReasonCode 2"
abbreviation Reason_MembershipAbsent :: ReasonCode where "Reason_MembershipAbsent \<equiv> ReasonCode 3"
abbreviation Reason_MembershipRetired :: ReasonCode where "Reason_MembershipRetired \<equiv> ReasonCode 4"
abbreviation Reason_MembershipLeaving :: ReasonCode where "Reason_MembershipLeaving \<equiv> ReasonCode 5"
abbreviation Reason_MembershipFencedByOrder :: ReasonCode where "Reason_MembershipFencedByOrder \<equiv> ReasonCode 6"
abbreviation Reason_MembershipRequiresReattestation :: ReasonCode where "Reason_MembershipRequiresReattestation \<equiv> ReasonCode 7"
abbreviation Reason_MembershipDegradedObservationGap :: ReasonCode where "Reason_MembershipDegradedObservationGap \<equiv> ReasonCode 8"
abbreviation Reason_MultiPartySatisfied :: ReasonCode where "Reason_MultiPartySatisfied \<equiv> ReasonCode 9"
abbreviation Reason_MultiPartyInsufficientDistinctParties :: ReasonCode where "Reason_MultiPartyInsufficientDistinctParties \<equiv> ReasonCode 10"
abbreviation Reason_MultiPartyInsufficientEndorsements :: ReasonCode where "Reason_MultiPartyInsufficientEndorsements \<equiv> ReasonCode 11"
abbreviation Reason_MultiPartyEndorserNotActive :: ReasonCode where "Reason_MultiPartyEndorserNotActive \<equiv> ReasonCode 12"
abbreviation Reason_MultiPartyProposerNotActive :: ReasonCode where "Reason_MultiPartyProposerNotActive \<equiv> ReasonCode 13"
abbreviation Reason_MultiPartySelfProposalRejected :: ReasonCode where "Reason_MultiPartySelfProposalRejected \<equiv> ReasonCode 14"
abbreviation Reason_MultiPartyBootstrapGenesis :: ReasonCode where "Reason_MultiPartyBootstrapGenesis \<equiv> ReasonCode 15"
abbreviation Reason_IdentityMatches :: ReasonCode where "Reason_IdentityMatches \<equiv> ReasonCode 16"
abbreviation Reason_IdentityGenerationStale :: ReasonCode where "Reason_IdentityGenerationStale \<equiv> ReasonCode 17"
abbreviation Reason_IdentityIncarnationStale :: ReasonCode where "Reason_IdentityIncarnationStale \<equiv> ReasonCode 18"
abbreviation Reason_IdentityConstitutionStale :: ReasonCode where "Reason_IdentityConstitutionStale \<equiv> ReasonCode 19"
abbreviation Reason_IdentityDomainMismatch :: ReasonCode where "Reason_IdentityDomainMismatch \<equiv> ReasonCode 20"
abbreviation Reason_IdentityMemberUnknown :: ReasonCode where "Reason_IdentityMemberUnknown \<equiv> ReasonCode 21"
abbreviation Reason_GenerationChangeRequiresReconsent :: ReasonCode where "Reason_GenerationChangeRequiresReconsent \<equiv> ReasonCode 22"
abbreviation Reason_GenerationChangeAcceptedByPolicy :: ReasonCode where "Reason_GenerationChangeAcceptedByPolicy \<equiv> ReasonCode 23"
abbreviation Reason_ScopeCoveredByDelegation :: ReasonCode where "Reason_ScopeCoveredByDelegation \<equiv> ReasonCode 24"
abbreviation Reason_ScopeNotDelegated :: ReasonCode where "Reason_ScopeNotDelegated \<equiv> ReasonCode 25"
abbreviation Reason_ScopeRetainedLocalAuthority :: ReasonCode where "Reason_ScopeRetainedLocalAuthority \<equiv> ReasonCode 26"
abbreviation Reason_ScopeUnknownToCatalogue :: ReasonCode where "Reason_ScopeUnknownToCatalogue \<equiv> ReasonCode 27"
abbreviation Reason_ScopeDelegationForbiddenByPolicy :: ReasonCode where "Reason_ScopeDelegationForbiddenByPolicy \<equiv> ReasonCode 28"
abbreviation Reason_ScopeVerbNotDelegated :: ReasonCode where "Reason_ScopeVerbNotDelegated \<equiv> ReasonCode 29"
abbreviation Reason_ScopeLocalAuthorityAlwaysGranted :: ReasonCode where "Reason_ScopeLocalAuthorityAlwaysGranted \<equiv> ReasonCode 30"
abbreviation Reason_DelegationWithdrawn :: ReasonCode where "Reason_DelegationWithdrawn \<equiv> ReasonCode 31"
abbreviation Reason_DelegationExpired :: ReasonCode where "Reason_DelegationExpired \<equiv> ReasonCode 32"
abbreviation Reason_DelegationConflictContained :: ReasonCode where "Reason_DelegationConflictContained \<equiv> ReasonCode 33"
abbreviation Reason_DelegationPrecedenceConfigured :: ReasonCode where "Reason_DelegationPrecedenceConfigured \<equiv> ReasonCode 34"
abbreviation Reason_DelegationPrecedenceUnsatisfiable :: ReasonCode where "Reason_DelegationPrecedenceUnsatisfiable \<equiv> ReasonCode 35"
abbreviation Reason_LeaseValid :: ReasonCode where "Reason_LeaseValid \<equiv> ReasonCode 36"
abbreviation Reason_LeaseMissing :: ReasonCode where "Reason_LeaseMissing \<equiv> ReasonCode 37"
abbreviation Reason_LeaseExpired :: ReasonCode where "Reason_LeaseExpired \<equiv> ReasonCode 38"
abbreviation Reason_LeaseRevoked :: ReasonCode where "Reason_LeaseRevoked \<equiv> ReasonCode 39"
abbreviation Reason_LeaseStaleIssuer :: ReasonCode where "Reason_LeaseStaleIssuer \<equiv> ReasonCode 40"
abbreviation Reason_LeaseEpochMismatch :: ReasonCode where "Reason_LeaseEpochMismatch \<equiv> ReasonCode 41"
abbreviation Reason_LeaseHolderMismatch :: ReasonCode where "Reason_LeaseHolderMismatch \<equiv> ReasonCode 42"
abbreviation Reason_LeaseScopeNotCovered :: ReasonCode where "Reason_LeaseScopeNotCovered \<equiv> ReasonCode 43"
abbreviation Reason_LeaseRequiredByPolicy :: ReasonCode where "Reason_LeaseRequiredByPolicy \<equiv> ReasonCode 44"
abbreviation Reason_EpochMatches :: ReasonCode where "Reason_EpochMatches \<equiv> ReasonCode 45"
abbreviation Reason_EpochStale :: ReasonCode where "Reason_EpochStale \<equiv> ReasonCode 46"
abbreviation Reason_EpochAheadOfCoordinator :: ReasonCode where "Reason_EpochAheadOfCoordinator \<equiv> ReasonCode 47"
abbreviation Reason_PartitionConnected :: ReasonCode where "Reason_PartitionConnected \<equiv> ReasonCode 48"
abbreviation Reason_PartitionSplitSuspendsGlobalMutation :: ReasonCode where "Reason_PartitionSplitSuspendsGlobalMutation \<equiv> ReasonCode 49"
abbreviation Reason_PartitionIndeterminateSuspendsGlobalMutation :: ReasonCode where "Reason_PartitionIndeterminateSuspendsGlobalMutation \<equiv> ReasonCode 50"
abbreviation Reason_PartitionReconcilingSuspendsGlobalMutation :: ReasonCode where "Reason_PartitionReconcilingSuspendsGlobalMutation \<equiv> ReasonCode 51"
abbreviation Reason_PartitionObservationStale :: ReasonCode where "Reason_PartitionObservationStale \<equiv> ReasonCode 52"
abbreviation Reason_PartitionReattestationComplete :: ReasonCode where "Reason_PartitionReattestationComplete \<equiv> ReasonCode 53"
abbreviation Reason_PartitionReattestationMissing :: ReasonCode where "Reason_PartitionReattestationMissing \<equiv> ReasonCode 54"
abbreviation Reason_RequestReplayed :: ReasonCode where "Reason_RequestReplayed \<equiv> ReasonCode 55"
abbreviation Reason_RequestFresh :: ReasonCode where "Reason_RequestFresh \<equiv> ReasonCode 56"
abbreviation Reason_EvidenceDuplicateIdentical :: ReasonCode where "Reason_EvidenceDuplicateIdentical \<equiv> ReasonCode 57"
abbreviation Reason_EvidenceDuplicateConflicting :: ReasonCode where "Reason_EvidenceDuplicateConflicting \<equiv> ReasonCode 58"
abbreviation Reason_CapabilitySatisfied :: ReasonCode where "Reason_CapabilitySatisfied \<equiv> ReasonCode 59"
abbreviation Reason_CapabilityMissing :: ReasonCode where "Reason_CapabilityMissing \<equiv> ReasonCode 60"
abbreviation Reason_CapabilityIncompatible :: ReasonCode where "Reason_CapabilityIncompatible \<equiv> ReasonCode 61"
abbreviation Reason_CapabilityUnsupported :: ReasonCode where "Reason_CapabilityUnsupported \<equiv> ReasonCode 62"
abbreviation Reason_EvidenceUnknown :: ReasonCode where "Reason_EvidenceUnknown \<equiv> ReasonCode 63"
abbreviation Reason_EvidenceIncomplete :: ReasonCode where "Reason_EvidenceIncomplete \<equiv> ReasonCode 64"
abbreviation Reason_EvidenceInvalid :: ReasonCode where "Reason_EvidenceInvalid \<equiv> ReasonCode 65"
abbreviation Reason_EvidenceIndeterminate :: ReasonCode where "Reason_EvidenceIndeterminate \<equiv> ReasonCode 66"
abbreviation Reason_EvidenceConflicting :: ReasonCode where "Reason_EvidenceConflicting \<equiv> ReasonCode 67"
abbreviation Reason_ArtifactAccepted :: ReasonCode where "Reason_ArtifactAccepted \<equiv> ReasonCode 68"
abbreviation Reason_ArtifactRejected :: ReasonCode where "Reason_ArtifactRejected \<equiv> ReasonCode 69"
abbreviation Reason_ArtifactDigestMismatch :: ReasonCode where "Reason_ArtifactDigestMismatch \<equiv> ReasonCode 70"
abbreviation Reason_ArtifactSubjectMismatch :: ReasonCode where "Reason_ArtifactSubjectMismatch \<equiv> ReasonCode 71"
abbreviation Reason_ArtifactEpochStale :: ReasonCode where "Reason_ArtifactEpochStale \<equiv> ReasonCode 72"
abbreviation Reason_ArtifactMalformed :: ReasonCode where "Reason_ArtifactMalformed \<equiv> ReasonCode 73"
abbreviation Reason_ArtifactUnknownKind :: ReasonCode where "Reason_ArtifactUnknownKind \<equiv> ReasonCode 74"
abbreviation Reason_ArtifactSupersededLineage :: ReasonCode where "Reason_ArtifactSupersededLineage \<equiv> ReasonCode 75"
abbreviation Reason_PolicyRuleMatched :: ReasonCode where "Reason_PolicyRuleMatched \<equiv> ReasonCode 76"
abbreviation Reason_PolicyRuleNotMatched :: ReasonCode where "Reason_PolicyRuleNotMatched \<equiv> ReasonCode 77"
abbreviation Reason_PolicyRejected :: ReasonCode where "Reason_PolicyRejected \<equiv> ReasonCode 78"
abbreviation Reason_FederationUnknown :: ReasonCode where "Reason_FederationUnknown \<equiv> ReasonCode 79"
abbreviation Reason_FederationIdentityMismatch :: ReasonCode where "Reason_FederationIdentityMismatch \<equiv> ReasonCode 80"
abbreviation Reason_LimitExceeded :: ReasonCode where "Reason_LimitExceeded \<equiv> ReasonCode 81"

definition max_reason_code :: u16 where
  "max_reason_code = 81"

definition reason_names :: "string list" where
  "reason_names =
    [''MEMBERSHIP_ACTIVE'',
     ''MEMBERSHIP_ADMITTED_PENDING_ACTIVATION'',
     ''MEMBERSHIP_PROPOSED_INSUFFICIENT_EVIDENCE'',
     ''MEMBERSHIP_ABSENT'',
     ''MEMBERSHIP_RETIRED'',
     ''MEMBERSHIP_LEAVING'',
     ''MEMBERSHIP_FENCED_BY_ORDER'',
     ''MEMBERSHIP_REQUIRES_REATTESTATION'',
     ''MEMBERSHIP_DEGRADED_OBSERVATION_GAP'',
     ''MULTIPARTY_SATISFIED'',
     ''MULTIPARTY_INSUFFICIENT_DISTINCT_PARTIES'',
     ''MULTIPARTY_INSUFFICIENT_ENDORSEMENTS'',
     ''MULTIPARTY_ENDORSER_NOT_ACTIVE'',
     ''MULTIPARTY_PROPOSER_NOT_ACTIVE'',
     ''MULTIPARTY_SELF_PROPOSAL_REJECTED'',
     ''MULTIPARTY_BOOTSTRAP_GENESIS'',
     ''IDENTITY_MATCHES'',
     ''IDENTITY_GENERATION_STALE'',
     ''IDENTITY_INCARNATION_STALE'',
     ''IDENTITY_CONSTITUTION_STALE'',
     ''IDENTITY_DOMAIN_MISMATCH'',
     ''IDENTITY_MEMBER_UNKNOWN'',
     ''GENERATION_CHANGE_REQUIRES_RECONSENT'',
     ''GENERATION_CHANGE_ACCEPTED_BY_POLICY'',
     ''SCOPE_COVERED_BY_DELEGATION'',
     ''SCOPE_NOT_DELEGATED'',
     ''SCOPE_RETAINED_LOCAL_AUTHORITY'',
     ''SCOPE_UNKNOWN_TO_CATALOGUE'',
     ''SCOPE_DELEGATION_FORBIDDEN_BY_POLICY'',
     ''SCOPE_VERB_NOT_DELEGATED'',
     ''SCOPE_LOCAL_AUTHORITY_ALWAYS_GRANTED'',
     ''DELEGATION_WITHDRAWN'',
     ''DELEGATION_EXPIRED'',
     ''DELEGATION_CONFLICT_CONTAINED'',
     ''DELEGATION_PRECEDENCE_CONFIGURED'',
     ''DELEGATION_PRECEDENCE_UNSATISFIABLE'',
     ''LEASE_VALID'',
     ''LEASE_MISSING'',
     ''LEASE_EXPIRED'',
     ''LEASE_REVOKED'',
     ''LEASE_STALE_ISSUER'',
     ''LEASE_EPOCH_MISMATCH'',
     ''LEASE_HOLDER_MISMATCH'',
     ''LEASE_SCOPE_NOT_COVERED'',
     ''LEASE_REQUIRED_BY_POLICY'',
     ''EPOCH_MATCHES'',
     ''EPOCH_STALE'',
     ''EPOCH_AHEAD_OF_COORDINATOR'',
     ''PARTITION_CONNECTED'',
     ''PARTITION_SPLIT_SUSPENDS_GLOBAL_MUTATION'',
     ''PARTITION_INDETERMINATE_SUSPENDS_GLOBAL_MUTATION'',
     ''PARTITION_RECONCILING_SUSPENDS_GLOBAL_MUTATION'',
     ''PARTITION_OBSERVATION_STALE'',
     ''PARTITION_REATTESTATION_COMPLETE'',
     ''PARTITION_REATTESTATION_MISSING'',
     ''REQUEST_REPLAYED'',
     ''REQUEST_FRESH'',
     ''EVIDENCE_DUPLICATE_IDENTICAL'',
     ''EVIDENCE_DUPLICATE_CONFLICTING'',
     ''CAPABILITY_SATISFIED'',
     ''CAPABILITY_MISSING'',
     ''CAPABILITY_INCOMPATIBLE'',
     ''CAPABILITY_UNSUPPORTED'',
     ''EVIDENCE_UNKNOWN'',
     ''EVIDENCE_INCOMPLETE'',
     ''EVIDENCE_INVALID'',
     ''EVIDENCE_INDETERMINATE'',
     ''EVIDENCE_CONFLICTING'',
     ''ARTIFACT_ACCEPTED'',
     ''ARTIFACT_REJECTED'',
     ''ARTIFACT_DIGEST_MISMATCH'',
     ''ARTIFACT_SUBJECT_MISMATCH'',
     ''ARTIFACT_EPOCH_STALE'',
     ''ARTIFACT_MALFORMED'',
     ''ARTIFACT_UNKNOWN_KIND'',
     ''ARTIFACT_SUPERSEDED_LINEAGE'',
     ''POLICY_RULE_MATCHED'',
     ''POLICY_RULE_NOT_MATCHED'',
     ''POLICY_REJECTED'',
     ''FEDERATION_UNKNOWN'',
     ''FEDERATION_IDENTITY_MISMATCH'',
     ''LIMIT_EXCEEDED'']"

definition reason_code_to_string :: "ReasonCode \<Rightarrow> string" where
  "reason_code_to_string code =
     (if reason_value code \<le> max_reason_code then reason_names ! unat (reason_value code)
      else ''EVIDENCE_UNKNOWN'')"

definition reason_from_wire :: "u16 \<Rightarrow> ReasonCode result" where
  "reason_from_wire v =
     (if v > max_reason_code then Fail Error_InvalidArgument ''reason code is out of range''
      else Inr (ReasonCode v))"

record Reason =
  rs_code :: ReasonCode
  rs_detail :: string

definition Reason_key :: "'a Reason_scheme \<Rightarrow> u16 \<times> string \<times> 'a" where
  "Reason_key r = (reason_value (rs_code r), rs_detail r, Reason.more r)"

lemma Reason_key_inject [simp]: "Reason_key a = Reason_key b \<longleftrightarrow> a = b"
  by (cases a; cases b) (auto simp: Reason_key_def intro: ReasonCode.expand)

instantiation Reason_ext :: (linorder) linorder
begin
definition less_eq_Reason_ext :: "'a Reason_scheme \<Rightarrow> 'a Reason_scheme \<Rightarrow> bool" where
  "a \<le> b \<longleftrightarrow> Reason_key a \<le> Reason_key b"
definition less_Reason_ext :: "'a Reason_scheme \<Rightarrow> 'a Reason_scheme \<Rightarrow> bool" where
  "a < b \<longleftrightarrow> Reason_key a < Reason_key b"
instance
  by intro_classes (simp_all only: less_eq_Reason_ext_def less_Reason_ext_def
      less_le_not_le order_refl linear Reason_key_inject [symmetric] order_trans order_antisym)
end

definition make_reason :: "ReasonCode \<Rightarrow> string \<Rightarrow> Reason" where
  "make_reason code detail = \<lparr>rs_code = code, rs_detail = detail\<rparr>"

definition reason_to_string :: "Reason \<Rightarrow> string" where
  "reason_to_string r =
     reason_code_to_string (rs_code r) @
     (if rs_detail r \<noteq> [] then '' ('' @ rs_detail r @ '')'' else [])"

section \<open>Contributions\<close>

datatype ContributionRole =
    Role_Proposer | Role_Candidate | Role_Endorser | Role_Coordinator | Role_Observer | Role_Actor

primrec role_wire :: "ContributionRole \<Rightarrow> u8" where
  "role_wire Role_Proposer = 0"
| "role_wire Role_Candidate = 1"
| "role_wire Role_Endorser = 2"
| "role_wire Role_Coordinator = 3"
| "role_wire Role_Observer = 4"
| "role_wire Role_Actor = 5"

definition role_from_wire :: "u8 \<Rightarrow> ContributionRole result" where
  "role_from_wire v =
     (if v > 5 then Fail Error_InvalidArgument ''contribution role is out of range''
      else Inr ([Role_Proposer, Role_Candidate, Role_Endorser, Role_Coordinator, Role_Observer,
                 Role_Actor] ! unat v))"

definition role_to_string :: "ContributionRole \<Rightarrow> string" where
  "role_to_string r = (case r of
     Role_Proposer \<Rightarrow> ''proposer'' | Role_Candidate \<Rightarrow> ''candidate'' | Role_Endorser \<Rightarrow> ''endorser''
   | Role_Coordinator \<Rightarrow> ''coordinator'' | Role_Observer \<Rightarrow> ''observer'' | Role_Actor \<Rightarrow> ''actor'')"

record Contribution =
  cb_member :: MemberId
  cb_role :: ContributionRole
  cb_generation :: Generation
  cb_incarnation :: Incarnation
  cb_constitution :: Digest
  cb_evidence :: Digest
  cb_epoch :: Epoch
  cb_identity_current :: bool
  cb_note :: string

text \<open>The comparison of contributions looks at six of the nine fields.\<close>

definition contribution_key ::
  "Contribution \<Rightarrow> MemberId \<times> u8 \<times> Incarnation \<times> Generation \<times> Digest \<times> Digest" where
  "contribution_key c = (cb_member c, role_wire (cb_role c), cb_incarnation c, cb_generation c,
     cb_constitution c, cb_evidence c)"

section \<open>Explanations\<close>

primrec outcome_wire :: "Outcome \<Rightarrow> u8" where
  "outcome_wire Outcome_Granted = 0"
| "outcome_wire Outcome_Degraded = 1"
| "outcome_wire Outcome_Refused = 2"
| "outcome_wire Outcome_Fenced = 3"
| "outcome_wire Outcome_Stale = 4"
| "outcome_wire Outcome_Conflicting = 5"
| "outcome_wire Outcome_Incomplete = 6"
| "outcome_wire Outcome_Indeterminate = 7"
| "outcome_wire Outcome_Invalid = 8"
| "outcome_wire Outcome_Unsupported = 9"
| "outcome_wire Outcome_Cancelled = 10"
| "outcome_wire Outcome_Replayed = 11"
| "outcome_wire Outcome_Unknown = 12"

definition outcome_from_wire :: "string \<Rightarrow> u8 \<Rightarrow> Outcome result" where
  "outcome_from_wire message v =
     (if v > 12 then Fail Error_InvalidArgument message
      else Inr ([Outcome_Granted, Outcome_Degraded, Outcome_Refused, Outcome_Fenced, Outcome_Stale,
                 Outcome_Conflicting, Outcome_Incomplete, Outcome_Indeterminate, Outcome_Invalid,
                 Outcome_Unsupported, Outcome_Cancelled, Outcome_Replayed, Outcome_Unknown]
                ! unat v))"

record Explanation =
  ex_outcome :: Outcome
  ex_evidence :: EvidenceState
  ex_reasons :: "Reason list"
  ex_contributions :: "Contribution list"
  ex_conflicts :: "ConflictRecord list"
  ex_considered_grants :: "ScopeGrant list"
  ex_effective_grants :: "ScopeGrant list"
  ex_limit_reached :: bool
  ex_summary :: string

definition empty_explanation :: Explanation where
  "empty_explanation =
     \<lparr>ex_outcome = Outcome_Unknown, ex_evidence = Evidence_Unknown, ex_reasons = [],
      ex_contributions = [], ex_conflicts = [], ex_considered_grants = [],
      ex_effective_grants = [], ex_limit_reached = False, ex_summary = []\<rparr>"

definition ex_add :: "ReasonCode \<Rightarrow> string \<Rightarrow> Explanation \<Rightarrow> Explanation" where
  "ex_add code detail e =
     (if length (ex_reasons e) \<ge> kMaxReasonsPerDecision then e\<lparr>ex_limit_reached := True\<rparr>
      else if (\<exists>r \<in> set (ex_reasons e). rs_code r = code \<and> rs_detail r = detail) then e
      else e\<lparr>ex_reasons := ex_reasons e @ [make_reason code detail]\<rparr>)"

definition ex_has :: "Explanation \<Rightarrow> ReasonCode \<Rightarrow> bool" where
  "ex_has e code \<longleftrightarrow> (\<exists>r \<in> set (ex_reasons e). rs_code r = code)"

definition canonicalize_contributions :: "Contribution list \<Rightarrow> Contribution list" where
  "canonicalize_contributions cs = remdups_adj (sort_key contribution_key cs)"

definition canonicalize_explanation :: "Explanation \<Rightarrow> Explanation" where
  "canonicalize_explanation e =
     e\<lparr>ex_reasons := sort_unique (ex_reasons e),
       ex_contributions := canonicalize_contributions (ex_contributions e),
       ex_conflicts := canonicalize_conflicts (ex_conflicts e),
       ex_considered_grants := canonicalize_grants (ex_considered_grants e),
       ex_effective_grants := canonicalize_grants (ex_effective_grants e)\<rparr>"

definition encode_reason :: "Reason \<Rightarrow> bytes result" where
  "encode_reason r = w_seq
     [w_u16 (reason_value (rs_code r)), w_text (rs_detail r) kMaxShortTextLength]"

definition decode_reason :: "Reason reader" where
  "decode_reason =
     rbind r_u16 (\<lambda>code.
     rbind (r_lift (reason_from_wire code)) (\<lambda>code.
     rbind (r_text kMaxShortTextLength) (\<lambda>detail.
     r_return \<lparr>rs_code = code, rs_detail = detail\<rparr>)))"

definition encode_contribution :: "Contribution \<Rightarrow> bytes result" where
  "encode_contribution c = w_seq
     [w_id16 (cb_member c), w_u8 (role_wire (cb_role c)), w_u64 (cb_generation c),
      w_u64 (cb_incarnation c), w_digest (cb_constitution c), w_digest (cb_evidence c),
      w_u64 (cb_epoch c), w_bool (cb_identity_current c),
      w_text (cb_note c) kMaxShortTextLength]"

definition decode_contribution :: "Contribution reader" where
  "decode_contribution =
     rbind r_id16 (\<lambda>member.
     rbind r_u8 (\<lambda>role.
     rbind (r_lift (role_from_wire role)) (\<lambda>role.
     rbind r_u64 (\<lambda>generation.
     rbind r_u64 (\<lambda>incarnation.
     rbind r_digest (\<lambda>constitution.
     rbind r_digest (\<lambda>evidence.
     rbind r_u64 (\<lambda>epoch.
     rbind r_bool (\<lambda>current.
     rbind (r_text kMaxShortTextLength) (\<lambda>note.
     r_return \<lparr>cb_member = member, cb_role = role, cb_generation = generation,
               cb_incarnation = incarnation, cb_constitution = constitution,
               cb_evidence = evidence, cb_epoch = epoch, cb_identity_current = current,
               cb_note = note\<rparr>))))))))))"

definition encode_explanation :: "Explanation \<Rightarrow> bytes result" where
  "encode_explanation e =
     (let copy = canonicalize_explanation e in w_seq
        [w_u8 (outcome_wire (ex_outcome copy)), w_u8 (evidence_wire (ex_evidence copy)),
         w_list encode_reason kMaxReasonsPerDecision (ex_reasons copy),
         w_list encode_contribution kMaxContributionsPerDecision (ex_contributions copy),
         encode_conflicts (ex_conflicts copy) kMaxConflicts,
         encode_grants (ex_considered_grants copy) kMaxEffectiveGrantsPerDecision,
         encode_grants (ex_effective_grants copy) kMaxEffectiveGrantsPerDecision,
         w_bool (ex_limit_reached copy), w_text (ex_summary copy) kMaxExplanationTextLength])"

definition decode_explanation :: "Explanation reader" where
  "decode_explanation =
     rbind r_u8 (\<lambda>outcome.
     rbind (r_lift (outcome_from_wire ''outcome is out of range'' outcome)) (\<lambda>outcome.
     rbind r_u8 (\<lambda>evidence.
     rbind (r_lift (evidence_from_wire evidence)) (\<lambda>evidence.
     rbind (r_list decode_reason kMaxReasonsPerDecision) (\<lambda>reasons.
     rbind (r_list decode_contribution kMaxContributionsPerDecision) (\<lambda>contributions.
     rbind (decode_conflicts kMaxConflicts) (\<lambda>conflicts.
     rbind (decode_grants kMaxEffectiveGrantsPerDecision) (\<lambda>considered.
     rbind (decode_grants kMaxEffectiveGrantsPerDecision) (\<lambda>effective.
     rbind r_bool (\<lambda>limit.
     rbind (r_text kMaxExplanationTextLength) (\<lambda>summary.
     r_return (canonicalize_explanation
       \<lparr>ex_outcome = outcome, ex_evidence = evidence, ex_reasons = reasons,
        ex_contributions = contributions, ex_conflicts = conflicts,
        ex_considered_grants = considered, ex_effective_grants = effective,
        ex_limit_reached = limit, ex_summary = summary\<rparr>))))))))))))"

definition explanation_digest :: "(bytes \<Rightarrow> Digest) \<Rightarrow> Explanation \<Rightarrow> Digest" where
  "explanation_digest H e = digest_of H (encode_explanation e)"

section \<open>Renderings\<close>

definition newline :: string where
  "newline = [CHR 0x0A]"

definition render_contribution :: "Contribution \<Rightarrow> string" where
  "render_contribution c =
     ''  - '' @ member_to_string (cb_member c) @ '' role='' @ role_to_string (cb_role c) @
     '' gen='' @ word_to_string (cb_generation c) @ '' inc='' @ word_to_string (cb_incarnation c) @
     '' epoch='' @ word_to_string (cb_epoch c) @ '' digest='' @
     take 16 (digest_to_hex (cb_constitution c)) @
     (if cb_identity_current c then '' current'' else '' superseded'') @
     (if cb_note c \<noteq> [] then '' note='' @ cb_note c else []) @ newline"

definition render_explanation :: "Explanation \<Rightarrow> string" where
  "render_explanation e =
     (let copy = canonicalize_explanation e;
          none = ''  (none)'' @ newline
      in ''outcome: '' @ outcome_to_string (ex_outcome copy) @ newline @
         ''evidence: '' @ evidence_state_to_string (ex_evidence copy) @ newline @
         (if ex_summary copy \<noteq> [] then ''summary: '' @ ex_summary copy @ newline else []) @
         ''reasons:'' @ newline @ (if ex_reasons copy = [] then none else []) @
         concat (map (\<lambda>r. ''  - '' @ reason_to_string r @ newline) (ex_reasons copy)) @
         ''contributing members:'' @ newline @
         (if ex_contributions copy = [] then none else []) @
         concat (map render_contribution (ex_contributions copy)) @
         ''considered grants: '' @ render_grants (ex_considered_grants copy) @ newline @
         ''effective grants: '' @ render_grants (ex_effective_grants copy) @ newline @
         ''conflicts:'' @ newline @ (if ex_conflicts copy = [] then none else []) @
         concat (map (\<lambda>c. ''  - '' @ conflict_to_string c @ newline) (ex_conflicts copy)))"

definition summarize_explanation :: "Explanation \<Rightarrow> string" where
  "summarize_explanation e =
     (let copy = canonicalize_explanation e
      in outcome_to_string (ex_outcome copy) @ '' '' @ render_grants (ex_effective_grants copy) @
         (if ex_reasons copy \<noteq> [] then
            '' ['' @ join '','' (map (reason_code_to_string \<circ> rs_code) (take 4 (ex_reasons copy))) @
            (if length (ex_reasons copy) > 4 then '',..'' else []) @ '']''
          else []) @
         (if ex_limit_reached copy then '' (explanation truncated at the bound)'' else []))"

section \<open>Codec contracts\<close>

definition reason_wf :: "Reason \<Rightarrow> bool" where
  "reason_wf r \<longleftrightarrow> reason_value (rs_code r) \<le> max_reason_code"

definition explanation_names_ok :: "Explanation \<Rightarrow> bool" where
  "explanation_names_ok e \<longleftrightarrow>
     (\<forall>r \<in> set (ex_reasons e). reason_wf r) \<and> (\<forall>c \<in> set (ex_conflicts e). conflict_wf c) \<and>
     (\<forall>g \<in> set (ex_considered_grants e). grant_wf g) \<and>
     (\<forall>g \<in> set (ex_effective_grants e). grant_wf g)"

definition explanation_wf :: "Explanation \<Rightarrow> bool" where
  "explanation_wf e \<longleftrightarrow> explanation_names_ok e \<and> canonicalize_explanation e = e"

lemma outcome_from_wire_wire [codec_rt]: "outcome_from_wire message (outcome_wire v) = Inr v"
  by (cases v) (simp_all add: outcome_from_wire_def)

lemma role_from_wire_wire [codec_rt]: "role_from_wire (role_wire v) = Inr v"
  by (cases v) (simp_all add: role_from_wire_def)

lemma reason_from_wire_value [codec_rt]:
  "reason_value c \<le> max_reason_code \<Longrightarrow> reason_from_wire (reason_value c) = Inr c"
  by (simp add: reason_from_wire_def)

interpretation reason_codec: codec encode_reason decode_reason reason_wf
proof
  fix x :: Reason and rest
  assume "is_ok (encode_reason x)" "reason_wf x"
  then show "decode_reason (projr (encode_reason x) @ rest) = Inr (x, rest)"
    by (cases x) (simp add: encode_reason_def decode_reason_def reason_wf_def
        is_ok_w_seq projr_w_seq codec_rt)
qed

interpretation contribution_codec: codec encode_contribution decode_contribution "\<lambda>_. True"
proof
  fix x :: Contribution and rest
  assume "is_ok (encode_contribution x)"
  then show "decode_contribution (projr (encode_contribution x) @ rest) = Inr (x, rest)"
    by (cases x) (simp add: encode_contribution_def decode_contribution_def
        is_ok_w_seq projr_w_seq codec_rt)
qed

lemmas decode_reasons_rt [codec_rt] = reason_codec.listed
lemmas decode_contributions_rt [codec_rt] = contribution_codec.listed

lemma sorted_key_remdups_adj: "sorted (map k xs) \<Longrightarrow> sorted (map k (remdups_adj xs))"
  by (induction xs rule: remdups_adj.induct) auto

lemma canonicalize_contributions_idem [simp]:
  "canonicalize_contributions (canonicalize_contributions cs) = canonicalize_contributions cs"
  by (simp add: canonicalize_contributions_def sort_key_id_if_sorted sorted_key_remdups_adj
      distinct_adj_altdef [symmetric] distinct_adj_remdups_adj)

lemma canonicalize_conflicts_idem [simp]:
  "canonicalize_conflicts (canonicalize_conflicts cs) = canonicalize_conflicts cs"
proof -
  have "map (\<lambda>c. c\<lparr>cr_claimants := sort_unique (cr_claimants c)\<rparr>) (canonicalize_conflicts cs) =
      canonicalize_conflicts cs"
    by (rule map_idI) (auto simp: canonicalize_conflicts_def)
  then show ?thesis
    by (subst canonicalize_conflicts_def) (simp add: canonicalize_conflicts_def)
qed

lemma canonicalize_explanation_idem [simp]:
  "canonicalize_explanation (canonicalize_explanation e) = canonicalize_explanation e"
  by (simp add: canonicalize_explanation_def canonicalize_grants_def)

lemma conflict_wf_canonicalize [simp]:
  "(\<forall>c \<in> set (canonicalize_conflicts cs). conflict_wf c) \<longleftrightarrow> (\<forall>c \<in> set cs. conflict_wf c)"
  by (auto simp: canonicalize_conflicts_def conflict_wf_def)

lemma decode_encode_explanation:
  assumes "is_ok (encode_explanation e)" "explanation_names_ok e"
  shows "decode_explanation (projr (encode_explanation e) @ rest) =
    Inr (canonicalize_explanation e, rest)"
proof -
  define q where "q = canonicalize_explanation e"
  have names: "explanation_names_ok q"
    using assms(2) unfolding q_def explanation_names_ok_def canonicalize_explanation_def
    by (simp add: canonicalize_grants_def)
  have again: "canonicalize_explanation q = q" by (simp add: q_def)
  have "decode_explanation (projr (encode_explanation e) @ rest) =
      Inr (canonicalize_explanation q, rest)"
    using assms(1) names unfolding encode_explanation_def q_def [symmetric] Let_def
    by (cases q) (simp add: decode_explanation_def explanation_names_ok_def
        is_ok_w_seq projr_w_seq codec_rt)
  then show ?thesis by (simp add: again q_def [symmetric])
qed

interpretation explanation_codec: codec encode_explanation decode_explanation explanation_wf
  by unfold_locales (simp add: decode_encode_explanation explanation_wf_def)

section \<open>The reason list\<close>

lemma ex_add_simps [simp]:
  "ex_outcome (ex_add c d e) = ex_outcome e" "ex_evidence (ex_add c d e) = ex_evidence e"
  "ex_contributions (ex_add c d e) = ex_contributions e"
  "ex_conflicts (ex_add c d e) = ex_conflicts e"
  "ex_considered_grants (ex_add c d e) = ex_considered_grants e"
  "ex_effective_grants (ex_add c d e) = ex_effective_grants e"
  "ex_summary (ex_add c d e) = ex_summary e"
  by (simp_all add: ex_add_def)

section \<open>Properties\<close>

text \<open>
  Adding reasons keeps the list within its bound and free of duplicates, and never loses a
  reason silently: after adding, the reason is present or the limit flag is raised.
\<close>

theorem ex_add_bounded:
  assumes "length (ex_reasons e) \<le> kMaxReasonsPerDecision" "distinct (ex_reasons e)"
  shows "length (ex_reasons (ex_add code detail e)) \<le> kMaxReasonsPerDecision \<and>
    distinct (ex_reasons (ex_add code detail e)) \<and>
    set (ex_reasons e) \<subseteq> set (ex_reasons (ex_add code detail e)) \<and>
    (make_reason code detail \<in> set (ex_reasons (ex_add code detail e)) \<or>
     ex_limit_reached (ex_add code detail e))"
proof -
  have "(\<exists>r \<in> set (ex_reasons e). rs_code r = code \<and> rs_detail r = detail) \<longleftrightarrow>
      make_reason code detail \<in> set (ex_reasons e)"
    by (auto simp: make_reason_def intro: bexI [of _ "\<lparr>rs_code = code, rs_detail = detail\<rparr>"])
      (metis (full_types) Reason.equality Reason.select_convs(1,2) old.unit.exhaust)
  with assms show ?thesis by (auto simp: ex_add_def)
qed

text \<open>
  An explanation survives the wire as its canonical form, and an explanation and its canonical
  form have the same digest and the same renderings.
\<close>

theorem explanation_roundtrip:
  assumes "explanation_names_ok e" "encode_explanation e = Inr bs"
  shows "decode_explanation (bs @ rest) = Inr (canonicalize_explanation e, rest) \<and>
    explanation_digest H (canonicalize_explanation e) = explanation_digest H e \<and>
    render_explanation (canonicalize_explanation e) = render_explanation e"
  using decode_encode_explanation [of e rest] assms
  by (simp add: explanation_digest_def encode_explanation_def render_explanation_def)

definition sample_explanation :: Explanation where
  "sample_explanation = ex_add Reason_LeaseMissing ''no lease'' (ex_add Reason_EpochMatches []
     (empty_explanation\<lparr>ex_outcome := Outcome_Refused, ex_considered_grants :=
        [\<lparr>sg_scope = ''a.b'', sg_verb = Verb_Write\<rparr>]\<rparr>))"

theorem ex_add_bounded_witness:
  "distinct (ex_reasons (ex_add Reason_LeaseMissing ''again'' sample_explanation))"
proof -
  have "length (ex_reasons sample_explanation) \<le> kMaxReasonsPerDecision"
    "distinct (ex_reasons sample_explanation)" by code_simp+
  then show ?thesis using ex_add_bounded by blast
qed

theorem explanation_roundtrip_witness:
  "decode_explanation (projr (encode_explanation sample_explanation) @ []) =
     Inr (canonicalize_explanation sample_explanation, [])"
proof -
  have "is_ok (encode_explanation sample_explanation)" by code_simp
  then have "encode_explanation sample_explanation =
      Inr (projr (encode_explanation sample_explanation))" by (auto simp: is_ok_iff)
  moreover have "explanation_names_ok sample_explanation" by code_simp
  ultimately show ?thesis using explanation_roundtrip by blast
qed

end
