(* ===== verification/Lease.thy ===== *)
theory Lease
  imports Explanation
begin

text \<open>
  Authority leases (\<^verbatim>\<open>lease.hpp\<close>, \<^verbatim>\<open>lease.cpp\<close>): the lease record, its codec, and its evaluation
  against the coordinator's epoch, incarnation and logical time. The lemmas show the codec contract
  and characterise the leases that evaluate as valid.
\<close>

datatype LeaseState =
    Lease_Valid | Lease_Unknown | Lease_Expired | Lease_Revoked | Lease_StaleIssuer
  | Lease_EpochMismatch | Lease_HolderMismatch | Lease_ScopeNotCovered

definition lease_state_to_string :: "LeaseState \<Rightarrow> string" where
  "lease_state_to_string s = (case s of
     Lease_Valid \<Rightarrow> ''VALID'' | Lease_Unknown \<Rightarrow> ''UNKNOWN'' | Lease_Expired \<Rightarrow> ''EXPIRED''
   | Lease_Revoked \<Rightarrow> ''REVOKED'' | Lease_StaleIssuer \<Rightarrow> ''STALE_ISSUER''
   | Lease_EpochMismatch \<Rightarrow> ''EPOCH_MISMATCH'' | Lease_HolderMismatch \<Rightarrow> ''HOLDER_MISMATCH''
   | Lease_ScopeNotCovered \<Rightarrow> ''SCOPE_NOT_COVERED'')"

record AuthorityLease =
  al_id :: LeaseId
  al_federation :: FederationId
  al_holder :: MemberIdentity
  al_scopes :: "ScopeGrant list"
  al_issued_epoch :: Epoch
  al_not_after_epoch :: Epoch
  al_issued_at :: Tick
  al_not_after :: Tick
  al_issuer_node :: NodeId
  al_issuer_incarnation :: Incarnation
  al_revoked :: bool
  al_revoked_at :: Tick
  al_revoke_reason :: ReasonCode
  al_revoke_detail :: string

definition encode_lease :: "AuthorityLease \<Rightarrow> bytes result" where
  "encode_lease l = w_seq
     [w_id16 (al_id l), w_id16 (al_federation l), encode_identity (al_holder l),
      encode_grants (al_scopes l) kMaxScopesPerLease, w_u64 (al_issued_epoch l),
      w_u64 (al_not_after_epoch l), w_u64 (al_issued_at l), w_u64 (al_not_after l),
      w_id16 (al_issuer_node l), w_u64 (al_issuer_incarnation l), w_bool (al_revoked l),
      w_u64 (al_revoked_at l), w_u16 (reason_value (al_revoke_reason l)),
      w_text (al_revoke_detail l) kMaxShortTextLength]"

text \<open>The revocation reason is cast from the wire without a range check.\<close>

definition decode_lease :: "AuthorityLease reader" where
  "decode_lease =
     rbind r_id16 (\<lambda>lid.
     rbind r_id16 (\<lambda>federation.
     rbind decode_identity (\<lambda>holder.
     rbind (decode_grants kMaxScopesPerLease) (\<lambda>scopes.
     rbind r_u64 (\<lambda>issued_epoch.
     rbind r_u64 (\<lambda>not_after_epoch.
     rbind r_u64 (\<lambda>issued_at.
     rbind r_u64 (\<lambda>not_after.
     rbind r_id16 (\<lambda>issuer_node.
     rbind r_u64 (\<lambda>issuer_incarnation.
     rbind r_bool (\<lambda>revoked.
     rbind r_u64 (\<lambda>revoked_at.
     rbind r_u16 (\<lambda>reason.
     rbind (r_text kMaxShortTextLength) (\<lambda>detail.
     r_return \<lparr>al_id = lid, al_federation = federation, al_holder = holder, al_scopes = scopes,
               al_issued_epoch = issued_epoch, al_not_after_epoch = not_after_epoch,
               al_issued_at = issued_at, al_not_after = not_after, al_issuer_node = issuer_node,
               al_issuer_incarnation = issuer_incarnation, al_revoked = revoked,
               al_revoked_at = revoked_at, al_revoke_reason = ReasonCode reason,
               al_revoke_detail = detail\<rparr>))))))))))))))"

definition lease_digest :: "(bytes \<Rightarrow> Digest) \<Rightarrow> AuthorityLease \<Rightarrow> Digest" where
  "lease_digest H l = digest_of H (encode_lease l)"

definition authority_lease_to_string :: "AuthorityLease \<Rightarrow> string" where
  "authority_lease_to_string l =
     lease_to_string (al_id l) @ '' holder='' @ identity_to_string (al_holder l) @ '' scopes=['' @
     render_grants (al_scopes l) @ ''] issued_epoch='' @ word_to_string (al_issued_epoch l) @
     (if al_not_after_epoch l \<noteq> 0
      then '' not_after_epoch='' @ word_to_string (al_not_after_epoch l) else []) @
     '' not_after_tick='' @ word_to_string (al_not_after l) @ '' issuer_incarnation='' @
     word_to_string (al_issuer_incarnation l) @ (if al_revoked l then '' REVOKED'' else [])"

record LeaseEvaluation =
  le_state :: LeaseState
  le_reason :: ReasonCode
  le_detail :: string

definition make_evaluation :: "LeaseState \<Rightarrow> ReasonCode \<Rightarrow> string \<Rightarrow> LeaseEvaluation" where
  "make_evaluation state reason detail =
     \<lparr>le_state = state, le_reason = reason, le_detail = detail\<rparr>"

definition evaluate_common ::
  "AuthorityLease \<Rightarrow> Epoch \<Rightarrow> Incarnation \<Rightarrow> Tick \<Rightarrow> LeaseEvaluation" where
  "evaluate_common l current_epoch coordinator_incarnation now =
     (let lowest = al_issued_epoch l;
          highest = (if al_not_after_epoch l > al_issued_epoch l then al_not_after_epoch l
                     else al_issued_epoch l)
      in if al_revoked l then
           make_evaluation Lease_Revoked Reason_LeaseRevoked
             (''revoked at tick '' @ word_to_string (al_revoked_at l))
         else if al_issuer_incarnation l \<noteq> coordinator_incarnation then
           make_evaluation Lease_StaleIssuer Reason_LeaseStaleIssuer
             (''issued by coordinator incarnation '' @ word_to_string (al_issuer_incarnation l) @
              '', current is '' @ word_to_string coordinator_incarnation)
         else if current_epoch > highest then
           make_evaluation Lease_EpochMismatch Reason_LeaseEpochMismatch
             (''lease is valid through epoch '' @ word_to_string highest @ '', current epoch '' @
              word_to_string current_epoch)
         else if current_epoch < lowest then
           make_evaluation Lease_EpochMismatch Reason_LeaseEpochMismatch
             (''lease starts at epoch '' @ word_to_string lowest @ '', current epoch '' @
              word_to_string current_epoch)
         else if now > al_not_after l then
           make_evaluation Lease_Expired Reason_LeaseExpired
             (''lease expired at tick '' @ word_to_string (al_not_after l) @ '', now '' @
              word_to_string now)
         else make_evaluation Lease_Valid Reason_LeaseValid [])"

definition evaluate_lease ::
  "AuthorityLease \<Rightarrow> Epoch \<Rightarrow> Incarnation \<Rightarrow> Tick \<Rightarrow> LeaseEvaluation" where
  "evaluate_lease l current_epoch coordinator_incarnation now =
     evaluate_common l current_epoch coordinator_incarnation now"

definition evaluate_lease_for ::
  "AuthorityLease \<Rightarrow> ScopeGrant \<Rightarrow> Epoch \<Rightarrow> Incarnation \<Rightarrow> Tick \<Rightarrow> LeaseEvaluation" where
  "evaluate_lease_for l requested current_epoch coordinator_incarnation now =
     (let result = evaluate_common l current_epoch coordinator_incarnation now in
      if le_state result \<noteq> Lease_Valid then result
      else if \<not> grants_cover (al_scopes l) requested then
        make_evaluation Lease_ScopeNotCovered Reason_LeaseScopeNotCovered
          (''lease does not cover '' @ grant_to_string requested)
      else result)"

section \<open>Codec contract\<close>

definition lease_wf :: "AuthorityLease \<Rightarrow> bool" where
  "lease_wf l \<longleftrightarrow> (\<forall>g \<in> set (al_scopes l). grant_wf g)"

interpretation lease_codec: codec encode_lease decode_lease lease_wf
proof
  fix x :: AuthorityLease and rest
  assume "is_ok (encode_lease x)" "lease_wf x"
  then show "decode_lease (projr (encode_lease x) @ rest) = Inr (x, rest)"
    by (cases x) (simp add: encode_lease_def decode_lease_def lease_wf_def
        is_ok_w_seq projr_w_seq codec_rt)
qed

section \<open>Validity\<close>

definition lease_current :: "AuthorityLease \<Rightarrow> Epoch \<Rightarrow> Incarnation \<Rightarrow> Tick \<Rightarrow> bool" where
  "lease_current l epoch incarnation now \<longleftrightarrow>
     \<not> al_revoked l \<and> al_issuer_incarnation l = incarnation \<and> al_issued_epoch l \<le> epoch \<and>
     epoch \<le> max (al_issued_epoch l) (al_not_after_epoch l) \<and> now \<le> al_not_after l"

lemma evaluate_common_valid_iff:
  "le_state (evaluate_common l e i now) = Lease_Valid \<longleftrightarrow> lease_current l e i now"
  by (auto simp: evaluate_common_def make_evaluation_def lease_current_def Let_def max_def not_less)

section \<open>Properties\<close>

text \<open>
  A lease is valid for a grant exactly when it is not revoked, was issued by the current
  coordinator incarnation, the epoch lies between its issue epoch and its last epoch, the logical
  time has not passed its expiry, and its scopes cover the grant.
\<close>

theorem lease_valid_iff:
  "le_state (evaluate_lease_for l g e i now) = Lease_Valid \<longleftrightarrow>
     lease_current l e i now \<and> grants_cover (al_scopes l) g"
  using evaluate_common_valid_iff [of l e i now]
  by (auto simp: evaluate_lease_for_def Let_def make_evaluation_def)

text \<open>
  Once invalid by revocation, by a coordinator restart or by the passing of logical time, a
  lease stays invalid: no later tick, and no epoch or grant, makes a revoked, foreign-issued or
  expired lease valid again.
\<close>

theorem lease_invalid_is_permanent:
  assumes "al_revoked l \<or> al_issuer_incarnation l \<noteq> i \<or> al_not_after l < now" "now \<le> later"
  shows "le_state (evaluate_lease_for l g e i later) \<noteq> Lease_Valid"
proof -
  have "\<not> lease_current l e i later"
    using assms(1) less_le_trans [of "al_not_after l" now later, OF _ assms(2)]
    by (auto simp: lease_current_def dest: leD)
  then have "le_state (evaluate_common l e i later) \<noteq> Lease_Valid"
    by (simp add: evaluate_common_valid_iff)
  then show ?thesis by (simp add: evaluate_lease_for_def Let_def)
qed

definition sample_lease :: AuthorityLease where
  "sample_lease =
     \<lparr>al_id = 9, al_federation = 1,
      al_holder = \<lparr>mi_domain = 7, mi_member = 3, mi_generation = 1, mi_incarnation = 1,
                   mi_constitution = 5, mi_node = 2, mi_started_at = 0, mi_reincarnated = False\<rparr>,
      al_scopes = [\<lparr>sg_scope = ''federation.*'', sg_verb = Verb_Mutate\<rparr>], al_issued_epoch = 4,
      al_not_after_epoch = 0, al_issued_at = 10, al_not_after = 20, al_issuer_node = 2,
      al_issuer_incarnation = 6, al_revoked = False, al_revoked_at = 0,
      al_revoke_reason = Reason_EvidenceUnknown, al_revoke_detail = []\<rparr>"

theorem lease_invalid_is_permanent_witness:
  "le_state (evaluate_lease_for sample_lease \<lparr>sg_scope = ''federation.x'', sg_verb = Verb_Mutate\<rparr>
     4 6 20) = Lease_Valid \<and>
   le_state (evaluate_lease_for sample_lease \<lparr>sg_scope = ''federation.x'', sg_verb = Verb_Mutate\<rparr>
     4 6 25) \<noteq> Lease_Valid"
proof
  show "le_state (evaluate_lease_for sample_lease
      \<lparr>sg_scope = ''federation.x'', sg_verb = Verb_Mutate\<rparr> 4 6 20) = Lease_Valid" by code_simp
  have "al_revoked sample_lease \<or> al_issuer_incarnation sample_lease \<noteq> 6 \<or>
      al_not_after sample_lease < 21" "(21 :: Tick) \<le> 25" by code_simp+
  then show "le_state (evaluate_lease_for sample_lease
      \<lparr>sg_scope = ''federation.x'', sg_verb = Verb_Mutate\<rparr> 4 6 25) \<noteq> Lease_Valid"
    by (rule lease_invalid_is_permanent)
qed

end
