(* ===== verification/Ordered_Map.thy ===== *)
theory Ordered_Map
  imports Prelude
begin

text \<open>
  The \<^verbatim>\<open>std::map\<close> of the code: an association list in strictly ascending key order, so that iterating
  the list is iterating the map. The locale \<open>keyed_store\<close> is the contract its clients use (what a
  lookup returns after an insertion, what an insertion keeps of the invariant); it is interpreted on
  the ordered association list.
\<close>

type_synonym ('k, 'v) smap = "('k \<times> 'v) list"

fun smap_put :: "'k::linorder \<Rightarrow> 'v \<Rightarrow> ('k, 'v) smap \<Rightarrow> ('k, 'v) smap" where
  "smap_put k v [] = [(k, v)]"
| "smap_put k v ((k', v') # m) =
     (if k < k' then (k, v) # (k', v') # m
      else if k = k' then (k, v) # m
      else (k', v') # smap_put k v m)"

definition smap_get :: "('k, 'v) smap \<Rightarrow> 'k \<Rightarrow> 'v option" where
  "smap_get m k = map_of m k"

text \<open>\<^verbatim>\<open>m[k]\<close> with a default value, followed by an update of the slot.\<close>

definition smap_update :: "'v \<Rightarrow> 'k::linorder \<Rightarrow> ('v \<Rightarrow> 'v) \<Rightarrow> ('k, 'v) smap \<Rightarrow> ('k, 'v) smap" where
  "smap_update d k f m = smap_put k (f (case smap_get m k of None \<Rightarrow> d | Some v \<Rightarrow> v)) m"

definition smap_wf :: "('k::linorder, 'v) smap \<Rightarrow> bool" where
  "smap_wf m \<longleftrightarrow> sorted_wrt (<) (map fst m)"

lemma smap_put_keys: "set (map fst (smap_put k v m)) = insert k (set (map fst m))"
  by (induction k v m rule: smap_put.induct) auto

lemma smap_wf_put: "smap_wf m \<Longrightarrow> smap_wf (smap_put k v m)"
proof (induction k v m rule: smap_put.induct)
  case (1 k v)
  then show ?case by (simp add: smap_wf_def)
next
  case (2 k v k' v' m)
  have "\<forall>x \<in> set (map fst (smap_put k v m)). k' < x" if "k' < k"
    using 2 that unfolding smap_put_keys by (auto simp: smap_wf_def)
  with 2 show ?case by (fastforce simp: smap_wf_def)
qed

lemma smap_get_put: "smap_get (smap_put k v m) = (smap_get m)(k \<mapsto> v)"
proof -
  have "map_of (smap_put k v m) x = ((map_of m)(k \<mapsto> v)) x" for x
    by (induction k v m rule: smap_put.induct) auto
  then show ?thesis by (auto simp: smap_get_def)
qed

lemma smap_wf_distinct: "smap_wf m \<Longrightarrow> distinct (map fst m)"
  by (simp add: smap_wf_def strict_sorted_iff)

lemma smap_get_iff: "smap_wf m \<Longrightarrow> smap_get m k = Some v \<longleftrightarrow> (k, v) \<in> set m"
  by (simp add: smap_get_def smap_wf_distinct)

lemma smap_get_None: "smap_get m k = None \<longleftrightarrow> k \<notin> set (map fst m)"
  by (simp add: smap_get_def map_of_eq_None_iff image_image)

lemma smap_ext: "smap_wf m \<Longrightarrow> smap_wf m' \<Longrightarrow> smap_get m = smap_get m' \<Longrightarrow> m = m'"
proof -
  assume wf: "smap_wf m" "smap_wf m'" and eq: "smap_get m = smap_get m'"
  have keys: "map fst m = map fst m'"
  proof (rule sorted_distinct_set_unique)
    show "sorted (map fst m)" "distinct (map fst m)" "sorted (map fst m')" "distinct (map fst m')"
      using wf by (simp_all add: smap_wf_def strict_sorted_iff)
    show "set (map fst m) = set (map fst m')"
      using eq by (metis smap_get_None subsetI subset_antisym)
  qed
  have rebuild: "map (\<lambda>k. (k, the (smap_get n k))) (map fst n) = n" if "smap_wf n" for n
    unfolding map_map using smap_wf_distinct [OF that]
    by (intro map_idI) (auto simp: smap_get_def)
  show "m = m'"
    using rebuild [OF wf(1)] rebuild [OF wf(2)] by (simp add: keys eq)
qed

text \<open>The interface of a keyed store and the lemma its clients share.\<close>

locale keyed_store =
  fixes empty :: "'m"
    and get :: "'m \<Rightarrow> 'k \<Rightarrow> 'v option"
    and put :: "'k \<Rightarrow> 'v \<Rightarrow> 'm \<Rightarrow> 'm"
    and inv :: "'m \<Rightarrow> bool"
  assumes inv_empty: "inv empty"
    and get_empty: "get empty k = None"
    and inv_put: "inv m \<Longrightarrow> inv (put k v m)"
    and get_put: "get (put k v m) = (get m)(k \<mapsto> v)"
begin

lemma inv_fold: "inv m \<Longrightarrow> inv (foldl (\<lambda>m (k, v). put k v m) m kvs)"
  by (induction kvs arbitrary: m) (auto simp: inv_put)

lemma get_fold: "get (foldl (\<lambda>m (k, v). put k v m) m kvs) = get m ++ map_of (rev kvs)"
  by (induction kvs arbitrary: m) (auto simp: get_put)

lemma get_build: "get (foldl (\<lambda>m (k, v). put k v m) empty kvs) = map_of (rev kvs)"
  by (rule ext) (simp add: get_fold get_empty map_add_def split: option.splits)

end

interpretation smap_store: keyed_store "[]" smap_get smap_put smap_wf
  by unfold_locales (simp_all add: smap_wf_put smap_get_put, simp_all add: smap_wf_def smap_get_def)

end
