(* ===== verification/Disjoint_Set.thy ===== *)
theory Disjoint_Set
  imports Prelude
begin

text \<open>
  The disjoint-set structure of \<^verbatim>\<open>partition.cpp\<close>: parents and ranks in two vectors, \<^verbatim>\<open>find\<close> with path
  halving, \<^verbatim>\<open>unite\<close> by rank. The loop of \<^verbatim>\<open>find\<close> carries fuel; under the invariant of the
  structure the number of elements is always enough (\<open>ds_find_root\<close>). The abstract view is the
  equivalence generated by the pairs that were united (\<open>ds_same_iff\<close>).
\<close>

record DisjointSet =
  ds_parent :: "nat list"
  ds_rank :: "nat list"

definition ds_init :: "nat \<Rightarrow> DisjointSet" where
  "ds_init n = \<lparr>ds_parent = [0..<n], ds_rank = replicate n 0\<rparr>"

fun ds_find_loop :: "nat \<Rightarrow> nat list \<Rightarrow> nat \<Rightarrow> nat list \<times> nat" where
  "ds_find_loop 0 parent index = (parent, index)"
| "ds_find_loop (Suc fuel) parent index =
     (if parent ! index \<noteq> index then
        let parent = parent[index := parent ! (parent ! index)]
        in ds_find_loop fuel parent (parent ! index)
      else (parent, index))"

definition ds_find :: "DisjointSet \<Rightarrow> nat \<Rightarrow> DisjointSet \<times> nat" where
  "ds_find ds index =
     (let (parent, root) = ds_find_loop (length (ds_parent ds)) (ds_parent ds) index
      in (ds\<lparr>ds_parent := parent\<rparr>, root))"

definition ds_unite :: "DisjointSet \<Rightarrow> nat \<Rightarrow> nat \<Rightarrow> DisjointSet" where
  "ds_unite ds a b =
     (let (ds, a) = ds_find ds a; (ds, b) = ds_find ds b
      in if a = b then ds
         else
           let (a, b) = (if ds_rank ds ! a < ds_rank ds ! b then (b, a) else (a, b));
               ds = ds\<lparr>ds_parent := (ds_parent ds)[b := a]\<rparr>
           in if ds_rank ds ! a = ds_rank ds ! b
              then ds\<lparr>ds_rank := (ds_rank ds)[a := ds_rank ds ! a + 1]\<rparr> else ds)"

section \<open>Invariant\<close>

text \<open>Every parent is an element, and ranks grow strictly towards the root.\<close>

definition forest :: "nat list \<Rightarrow> nat list \<Rightarrow> bool" where
  "forest parent rank \<longleftrightarrow>
     length rank = length parent \<and>
     (\<forall>i < length parent. parent ! i < length parent) \<and>
     (\<forall>i < length parent. parent ! i \<noteq> i \<longrightarrow> rank ! i < rank ! (parent ! i))"

definition ds_inv :: "DisjointSet \<Rightarrow> bool" where
  "ds_inv ds \<longleftrightarrow> forest (ds_parent ds) (ds_rank ds)"

text \<open>The edges of the forest, and the root of an element.\<close>

definition edges :: "nat list \<Rightarrow> (nat \<times> nat) set" where
  "edges parent = {(i, parent ! i) | i. i < length parent}"

definition is_root :: "nat list \<Rightarrow> nat \<Rightarrow> nat \<Rightarrow> bool" where
  "is_root parent i r \<longleftrightarrow> (i, r) \<in> (edges parent)\<^sup>* \<and> r < length parent \<and> parent ! r = r"

lemma edges_fixpoint: "(r, s) \<in> (edges parent)\<^sup>* \<Longrightarrow> parent ! r = r \<Longrightarrow> s = r"
  by (induction rule: rtrancl_induct) (auto simp: edges_def)

lemma single_valued_edges: "single_valued (edges parent)"
  by (auto simp: single_valued_def edges_def)

lemma is_root_unique: "is_root parent i r \<Longrightarrow> is_root parent i s \<Longrightarrow> r = s"
  unfolding is_root_def
  by (metis edges_fixpoint single_valued_confluent [OF single_valued_edges])

lemma is_root_step:
  assumes "i < length parent"
  shows "is_root parent (parent ! i) r \<longleftrightarrow> is_root parent i r"
proof
  show "is_root parent (parent ! i) r \<Longrightarrow> is_root parent i r"
    using assms by (auto simp: is_root_def edges_def intro: converse_rtrancl_into_rtrancl)
  assume r: "is_root parent i r"
  then consider "i = r" | "(parent ! i, r) \<in> (edges parent)\<^sup>*"
    unfolding is_root_def by (auto simp: edges_def elim: converse_rtranclE)
  then show "is_root parent (parent ! i) r"
    using r by cases (auto simp: is_root_def)
qed

text \<open>A node has at most \<open>length parent - height\<close> proper ancestors.\<close>

definition height :: "nat list \<Rightarrow> nat list \<Rightarrow> nat \<Rightarrow> nat" where
  "height parent rank i = card {j. j < length parent \<and> rank ! j < rank ! i}"

lemma height_less: "i < length parent \<Longrightarrow> height parent rank i < length parent"
proof -
  assume "i < length parent"
  then have "{j. j < length parent \<and> rank ! j < rank ! i} \<subset> {..<length parent}" by auto
  then have "card {j. j < length parent \<and> rank ! j < rank ! i} < card {..<length parent}"
    by (intro psubset_card_mono) auto
  then show ?thesis by (simp add: height_def)
qed

lemma height_mono:
  assumes "i < length parent" "rank ! i < rank ! j"
  shows "height parent rank i < height parent rank j"
  unfolding height_def using assms by (intro psubset_card_mono) auto

lemma forest_halve:
  assumes "forest parent rank" "i < length parent"
  shows "forest (parent[i := parent ! (parent ! i)]) rank"
proof -
  have up: "parent ! k < length parent" "parent ! k \<noteq> k \<Longrightarrow> rank ! k < rank ! (parent ! k)"
    if "k < length parent" for k using assms(1) that by (simp_all add: forest_def)
  have "rank ! i < rank ! (parent ! (parent ! i))" if "parent ! (parent ! i) \<noteq> i"
  proof -
    from that have "parent ! i \<noteq> i" by auto
    then have "rank ! i < rank ! (parent ! i)" by (rule up(2) [OF assms(2)])
    also have "\<dots> \<le> rank ! (parent ! (parent ! i))"
      using up(2) [OF up(1) [OF assms(2)]] by (cases "parent ! (parent ! i) = parent ! i") auto
    finally show ?thesis .
  qed
  with assms show ?thesis by (auto simp: forest_def nth_list_update)
qed

lemma is_root_halve:
  assumes "forest parent rank" "i < length parent" "k < length parent" "is_root parent k r"
  shows "is_root (parent[i := parent ! (parent ! i)]) k r"
  using assms(3,4)
proof (induction "length parent - height parent rank k" arbitrary: k rule: less_induct)
  case less
  let ?p = "parent[i := parent ! (parent ! i)]"
  have rootfix: "?p ! r = r" using less.prems assms(2) by (auto simp: is_root_def nth_list_update)
  show ?case
  proof (cases "parent ! k = k")
    case True
    then have "r = k" using less.prems edges_fixpoint by (auto simp: is_root_def)
    with rootfix less.prems show ?thesis by (simp add: is_root_def)
  next
    case False
    have up: "height parent rank k < height parent rank (parent ! k)"
      and lt: "parent ! k < length parent"
      using assms(1) less.prems False by (auto simp: forest_def intro: height_mono)
    have rec: "is_root ?p m r" if "m < length parent" "is_root parent m r"
      "height parent rank k < height parent rank m" for m
      using less.hyps [of m] that height_less [of m parent rank] by simp
    have parent_root: "is_root parent (parent ! k) r"
      using less.prems by (simp add: is_root_step)
    show ?thesis
    proof (cases "k = i")
      case True
      let ?g = "parent ! (parent ! k)"
      have "?g < length parent" using assms(1) lt by (simp add: forest_def)
      moreover have "is_root parent ?g r" using parent_root lt by (simp add: is_root_step)
      moreover have "height parent rank k < height parent rank ?g"
        using up lt assms(1) height_mono [of "parent ! k" parent rank ?g]
        by (cases "?g = parent ! k") (auto simp: forest_def)
      ultimately have "is_root ?p (?p ! k) r"
        using rec True assms(2) by simp
      then show ?thesis using less.prems is_root_step [of k ?p r] by simp
    next
      case False
      then have "is_root ?p (?p ! k) r" using rec [OF lt parent_root up] by simp
      then show ?thesis using less.prems is_root_step [of k ?p r] by simp
    qed
  qed
qed

lemma has_root:
  assumes "forest parent rank" "k < length parent"
  shows "\<exists>r. is_root parent k r"
  using assms(2)
proof (induction "length parent - height parent rank k" arbitrary: k rule: less_induct)
  case less
  show ?case
  proof (cases "parent ! k = k")
    case True
    with less.prems show ?thesis by (auto simp: is_root_def)
  next
    case False
    then have "height parent rank k < height parent rank (parent ! k)" "parent ! k < length parent"
      using assms(1) less.prems by (auto simp: forest_def intro: height_mono)
    moreover from this have "length parent - height parent rank (parent ! k) <
        length parent - height parent rank k"
      using height_less [of "parent ! k" parent rank] by linarith
    ultimately obtain r where "is_root parent (parent ! k) r" using less.hyps by blast
    with less.prems show ?thesis by (auto simp: is_root_step)
  qed
qed

section \<open>Find\<close>

lemma ds_find_loop_correct:
  assumes "forest parent rank" "i < length parent"
    and "length parent \<le> fuel + height parent rank i"
    and "ds_find_loop fuel parent i = (parent', r)"
  shows "forest parent' rank \<and> length parent' = length parent \<and> is_root parent i r \<and>
    (\<forall>k < length parent. \<forall>s. is_root parent k s \<longrightarrow> is_root parent' k s)"
  using assms
proof (induction fuel parent i rule: ds_find_loop.induct)
  case (1 parent i)
  then show ?case using height_less [of i parent rank] by simp
next
  case (2 fuel parent i)
  let ?p = "parent[i := parent ! (parent ! i)]"
  show ?case
  proof (cases "parent ! i = i")
    case True
    with 2 show ?thesis by (auto simp: is_root_def)
  next
    case False
    let ?g = "parent ! (parent ! i)"
    have p: "parent ! i < length parent" "?g < length parent" "?p ! i = ?g"
      using 2 by (auto simp: forest_def)
    have up: "height parent rank i < height parent rank ?g"
    proof -
      have "height parent rank i < height parent rank (parent ! i)"
        using 2 False by (auto simp: forest_def intro: height_mono)
      moreover have "height parent rank (parent ! i) \<le> height parent rank ?g"
        using 2 p height_mono [of "parent ! i" parent rank ?g]
        by (cases "?g = parent ! i") (auto simp: forest_def)
      ultimately show ?thesis by simp
    qed
    have run: "ds_find_loop fuel ?p (?p ! i) = (parent', r)"
      using 2(5) False by (simp add: Let_def)
    have halved: "forest ?p rank" using 2 by (intro forest_halve)
    have "height ?p rank (?p ! i) = height parent rank ?g" by (simp add: height_def p)
    then have IH: "forest parent' rank \<and> length parent' = length ?p \<and> is_root ?p (?p ! i) r \<and>
        (\<forall>k < length ?p. \<forall>s. is_root ?p k s \<longrightarrow> is_root parent' k s)"
      using 2(1) [OF False refl halved _ _ run] p up 2(4) by simp
    have keep: "is_root ?p k s" if "k < length parent" "is_root parent k s" for k s
      using is_root_halve [OF 2(2,3) that] .
    have "is_root parent i r"
    proof -
      obtain s where s: "is_root parent i s" using has_root [OF 2(2,3)] by blast
      then have "is_root ?p i s" using keep 2(3) by simp
      moreover have "is_root ?p i r" using IH is_root_step [of i ?p r] 2(3) by simp
      ultimately have "r = s" using is_root_unique by metis
      with s show ?thesis by simp
    qed
    with IH keep show ?thesis by simp
  qed
qed

lemma ds_find_correct:
  assumes "ds_inv ds" "i < length (ds_parent ds)" "ds_find ds i = (ds', r)"
  shows "ds_inv ds' \<and> length (ds_parent ds') = length (ds_parent ds) \<and> ds_rank ds' = ds_rank ds \<and>
    is_root (ds_parent ds) i r \<and>
    (\<forall>k < length (ds_parent ds). \<forall>s. is_root (ds_parent ds') k s \<longleftrightarrow> is_root (ds_parent ds) k s)"
proof -
  obtain p where run: "ds_find_loop (length (ds_parent ds)) (ds_parent ds) i = (p, r)"
    and ds': "ds' = ds\<lparr>ds_parent := p\<rparr>"
    using assms(3) by (auto simp: ds_find_def split: prod.splits)
  have forest: "forest (ds_parent ds) (ds_rank ds)" using assms(1) by (simp add: ds_inv_def)
  note c = ds_find_loop_correct [OF forest assms(2) _ run]
  have "is_root p k s \<Longrightarrow> is_root (ds_parent ds) k s" if "k < length (ds_parent ds)" for k s
    using c has_root [OF forest that] is_root_unique that by (metis le_add1)
  with c ds' show ?thesis by (auto simp: ds_inv_def)
qed

section \<open>The equivalence\<close>

definition ds_same :: "DisjointSet \<Rightarrow> nat \<Rightarrow> nat \<Rightarrow> bool" where
  "ds_same ds i j \<longleftrightarrow> (\<exists>r. is_root (ds_parent ds) i r \<and> is_root (ds_parent ds) j r)"

lemma ds_inv_init: "ds_inv (ds_init n)"
  by (simp add: ds_inv_def ds_init_def forest_def)

lemma ds_same_init: "i < n \<Longrightarrow> j < n \<Longrightarrow> ds_same (ds_init n) i j \<longleftrightarrow> i = j"
  using edges_fixpoint [of _ _ "[0..<n]"]
  by (auto simp: ds_same_def ds_init_def is_root_def) (metis nth_upt add_0)+

text \<open>Linking root \<open>b\<close> under root \<open>a\<close>.\<close>

lemma is_root_link:
  assumes "forest parent rank" "a < length parent" "b < length parent"
    and "parent ! a = a" "parent ! b = b" "a \<noteq> b" "k < length parent" "is_root parent k r"
  shows "is_root (parent[b := a]) k (if r = b then a else r)"
  using assms(7,8)
proof (induction "length parent - height parent rank k" arbitrary: k rule: less_induct)
  case less
  let ?p = "parent[b := a]"
  show ?case
  proof (cases "parent ! k = k")
    case True
    then have rk: "r = k" using less.prems edges_fixpoint by (auto simp: is_root_def)
    show ?thesis
    proof (cases "k = b")
      case True
      have "is_root ?p a a" using assms by (simp add: is_root_def)
      then have "is_root ?p k a" using is_root_step [of k ?p a] True less.prems by simp
      with True rk show ?thesis by simp
    next
      case False
      with True rk less.prems show ?thesis by (simp add: is_root_def)
    qed
  next
    case False
    then have up: "height parent rank k < height parent rank (parent ! k)"
      and lt: "parent ! k < length parent" and kb: "k \<noteq> b"
      using assms less.prems by (auto simp: forest_def intro: height_mono)
    have "is_root parent (parent ! k) r" using less.prems by (simp add: is_root_step)
    then have "is_root ?p (parent ! k) (if r = b then a else r)"
      using less.hyps [OF _ lt] up height_less [OF lt, of rank] by simp
    then show ?thesis using is_root_step [of k ?p] less.prems kb by simp
  qed
qed

lemma ds_link:
  assumes "forest parent rank" "a < length parent" "b < length parent" "parent ! a = a"
    "parent ! b = b" "a \<noteq> b" "\<not> rank ! a < rank ! b"
  shows "forest (parent[b := a]) (if rank ! a = rank ! b then rank[a := rank ! a + 1] else rank)"
  using assms unfolding forest_def
  by (auto simp: nth_list_update)

lemma ds_unite_correct:
  assumes "ds_inv ds" "a < length (ds_parent ds)" "b < length (ds_parent ds)"
  shows "ds_inv (ds_unite ds a b) \<and>
    length (ds_parent (ds_unite ds a b)) = length (ds_parent ds) \<and>
    (\<exists>f. (\<forall>k < length (ds_parent ds). \<forall>r. is_root (ds_parent ds) k r \<longrightarrow>
            is_root (ds_parent (ds_unite ds a b)) k (f r)) \<and>
         (\<exists>ra rb. is_root (ds_parent ds) a ra \<and> is_root (ds_parent ds) b rb \<and> f ra = f rb \<and>
            (\<forall>x y. f x = f y \<longrightarrow> x = y \<or> {x, y} \<subseteq> {ra, rb})))"
proof -
  obtain ds1 ra where f1: "ds_find ds a = (ds1, ra)" by force
  obtain ds2 rb where f2: "ds_find ds1 b = (ds2, rb)" by force
  note c1 = ds_find_correct [OF assms(1,2) f1]
  have inv1: "ds_inv ds1" "b < length (ds_parent ds1)" using c1 assms(3) by auto
  note c2 = ds_find_correct [OF inv1 f2]
  have roots: "is_root (ds_parent ds) a ra" "is_root (ds_parent ds) b rb"
    using c1 c2 assms(3) by auto
  have same: "is_root (ds_parent ds2) k s \<longleftrightarrow> is_root (ds_parent ds) k s"
    if "k < length (ds_parent ds)" for k s using c1 c2 that by simp
  have len: "length (ds_parent ds2) = length (ds_parent ds)" using c1 c2 by simp
  have inv2: "forest (ds_parent ds2) (ds_rank ds2)" using c2 unfolding ds_inv_def by blast
  have fix2: "ra < length (ds_parent ds2)" "rb < length (ds_parent ds2)"
    "ds_parent ds2 ! ra = ra" "ds_parent ds2 ! rb = rb"
    using roots same [OF assms(2)] same [OF assms(3)] by (auto simp: is_root_def)
  show ?thesis
  proof (cases "ra = rb")
    case True
    then have "ds_unite ds a b = ds2" by (simp add: ds_unite_def f1 f2)
    with True roots same len c2 show ?thesis by (auto intro!: exI [of _ "\<lambda>r. r"])
  next
    case False
    obtain x y where xy: "(if ds_rank ds2 ! ra < ds_rank ds2 ! rb then (rb, ra) else (ra, rb)) =
        (x, y)" by force
    then have set: "{x, y} = {ra, rb}" "x \<noteq> y" "\<not> ds_rank ds2 ! x < ds_rank ds2 ! y"
      using False by (auto split: if_splits)
    have xyfix: "x < length (ds_parent ds2)" "y < length (ds_parent ds2)"
      "ds_parent ds2 ! x = x" "ds_parent ds2 ! y = y"
      using set(1) fix2 by (auto simp: doubleton_eq_iff)
    have parent': "ds_parent (ds_unite ds a b) = (ds_parent ds2)[y := x]"
      and rank': "ds_rank (ds_unite ds a b) = (if ds_rank ds2 ! x = ds_rank ds2 ! y
        then (ds_rank ds2)[x := ds_rank ds2 ! x + 1] else ds_rank ds2)"
      using False xy by (simp_all add: ds_unite_def f1 f2 Let_def)
    have inv': "ds_inv (ds_unite ds a b)"
      unfolding ds_inv_def parent' rank'
      using ds_link [OF inv2 xyfix(1,2,3,4) set(2,3)] .
    have linked: "is_root (ds_parent (ds_unite ds a b)) k (if r = y then x else r)"
      if "k < length (ds_parent ds)" "is_root (ds_parent ds) k r" for k r
      unfolding parent'
      using is_root_link [OF inv2 xyfix(1,2,3,4) set(2)] same that len by simp
    let ?f = "\<lambda>r. if r = y then x else r"
    have "?f ra = ?f rb" "\<forall>u v. ?f u = ?f v \<longrightarrow> u = v \<or> {u, v} \<subseteq> {ra, rb}"
      using set(1) by (auto simp: doubleton_eq_iff)
    with inv' linked roots len show ?thesis
      unfolding parent' by (auto simp: parent' intro!: exI [of _ ?f])
  qed
qed

lemma ds_same_unite:
  assumes "ds_inv ds" "a < length (ds_parent ds)" "b < length (ds_parent ds)"
    and "i < length (ds_parent ds)" "j < length (ds_parent ds)"
  shows "ds_same (ds_unite ds a b) i j \<longleftrightarrow>
    ds_same ds i j \<or> ds_same ds i a \<and> ds_same ds b j \<or> ds_same ds i b \<and> ds_same ds a j"
proof -
  let ?P = "ds_parent ds" and ?Q = "ds_parent (ds_unite ds a b)"
  obtain f ra rb where f: "\<forall>k < length ?P. \<forall>r. is_root ?P k r \<longrightarrow> is_root ?Q k (f r)"
    and ra: "is_root ?P a ra" and rb: "is_root ?P b rb" and merge: "f ra = f rb"
    and only: "\<forall>x y. f x = f y \<longrightarrow> x = y \<or> {x, y} \<subseteq> {ra, rb}"
    using ds_unite_correct [OF assms(1-3)] by blast
  have forest: "forest ?P (ds_rank ds)" using assms(1) by (simp add: ds_inv_def)
  obtain ri rj where ri: "is_root ?P i ri" and rj: "is_root ?P j rj"
    using has_root [OF forest] assms(4,5) by blast
  have new: "ds_same (ds_unite ds a b) i j \<longleftrightarrow> f ri = f rj"
    using f ri rj assms(4,5) is_root_unique unfolding ds_same_def by metis
  have old: "ds_same ds k l \<longleftrightarrow> rk = rl" if "is_root ?P k rk" "is_root ?P l rl" for k l rk rl
    using that is_root_unique unfolding ds_same_def by metis
  show ?thesis
    unfolding new old [OF ri rj] old [OF ri ra] old [OF rb rj] old [OF ri rb] old [OF ra rj]
    using merge only by auto
qed

section \<open>Sequences of unions\<close>

definition linked :: "(nat \<times> nat) set \<Rightarrow> (nat \<times> nat) set" where
  "linked P = (P \<union> P\<inverse>)\<^sup>*"

lemma linked_sym: "(i, j) \<in> linked P \<Longrightarrow> (j, i) \<in> linked P"
proof -
  have "sym (linked P)" unfolding linked_def by (intro sym_rtrancl) (auto simp: sym_def)
  then show "(i, j) \<in> linked P \<Longrightarrow> (j, i) \<in> linked P" by (auto dest: symD)
qed

lemma linked_trans: "(i, j) \<in> linked P \<Longrightarrow> (j, k) \<in> linked P \<Longrightarrow> (i, k) \<in> linked P"
  by (simp add: linked_def)

lemma linked_insert:
  "(i, j) \<in> linked (insert (a, b) P) \<longleftrightarrow>
     (i, j) \<in> linked P \<or> (i, a) \<in> linked P \<and> (b, j) \<in> linked P \<or>
     (i, b) \<in> linked P \<and> (a, j) \<in> linked P" (is "_ \<longleftrightarrow> ?R i j")
proof
  assume "(i, j) \<in> linked (insert (a, b) P)"
  then show "?R i j"
    unfolding linked_def [of "insert (a, b) P"]
  proof (induction rule: rtrancl_induct)
    case base
    then show ?case by (simp add: linked_def)
  next
    case (step y z)
    have refl: "(a, a) \<in> linked P" "(b, b) \<in> linked P" by (simp_all add: linked_def)
    from step(2) consider "(y, z) \<in> linked P" | "y = a" "z = b" | "y = b" "z = a"
      by (auto simp: linked_def)
    then show ?case
    proof cases
      case 1
      with step(3) show ?thesis using linked_trans by meson
    next
      case 2
      with step(3) refl show ?thesis by blast
    next
      case 3
      with step(3) refl show ?thesis by blast
    qed
  qed
next
  have mono: "linked P \<subseteq> linked (insert (a, b) P)"
    unfolding linked_def by (intro rtrancl_mono) auto
  have ab: "(a, b) \<in> linked (insert (a, b) P)" by (auto simp: linked_def)
  show "?R i j \<Longrightarrow> (i, j) \<in> linked (insert (a, b) P)"
    using mono ab linked_sym [OF ab] linked_trans by (meson subsetD)
qed

definition ds_unite_all :: "DisjointSet \<Rightarrow> (nat \<times> nat) list \<Rightarrow> DisjointSet" where
  "ds_unite_all ds pairs = foldl (\<lambda>ds (a, b). ds_unite ds a b) ds pairs"

lemma ds_unite_all_correct:
  assumes "ds_inv ds" "\<forall>(a, b) \<in> set pairs. a < n \<and> b < n" "length (ds_parent ds) = n"
    and "\<forall>i < n. \<forall>j < n. ds_same ds i j \<longleftrightarrow> (i, j) \<in> linked P"
  shows "ds_inv (ds_unite_all ds pairs) \<and> length (ds_parent (ds_unite_all ds pairs)) = n \<and>
    (\<forall>i < n. \<forall>j < n. ds_same (ds_unite_all ds pairs) i j \<longleftrightarrow> (i, j) \<in> linked (P \<union> set pairs))"
  using assms
proof (induction pairs arbitrary: ds P)
  case Nil
  then show ?case by (simp add: ds_unite_all_def)
next
  case (Cons ab pairs)
  obtain a b where ab: "ab = (a, b)" by force
  have lt: "a < n" "b < n" using Cons.prems(2) ab by auto
  let ?ds = "ds_unite ds a b"
  have c: "ds_inv ?ds" "length (ds_parent ?ds) = n"
    using ds_unite_correct [of ds a b] Cons.prems lt by auto
  have step: "\<forall>i < n. \<forall>j < n. ds_same ?ds i j \<longleftrightarrow> (i, j) \<in> linked (insert (a, b) P)"
    using ds_same_unite [of ds a b] Cons.prems lt by (simp add: linked_insert)
  have "\<forall>(a, b) \<in> set pairs. a < n \<and> b < n" using Cons.prems(2) by simp
  from Cons.IH [OF c(1) this c(2) step] show ?case
    by (simp add: ds_unite_all_def ab)
qed

text \<open>
  The contract of the structure: after uniting a sequence of pairs, two elements have the same root
  exactly when the pairs connect them.
\<close>

lemma ds_same_iff:
  assumes "\<forall>(a, b) \<in> set pairs. a < n \<and> b < n"
  shows "ds_inv (ds_unite_all (ds_init n) pairs) \<and>
    length (ds_parent (ds_unite_all (ds_init n) pairs)) = n \<and>
    (\<forall>i < n. \<forall>j < n. ds_same (ds_unite_all (ds_init n) pairs) i j \<longleftrightarrow> (i, j) \<in> linked (set pairs))"
proof -
  have "\<forall>i < n. \<forall>j < n. ds_same (ds_init n) i j \<longleftrightarrow> (i, j) \<in> linked {}"
    by (simp add: ds_same_init linked_def)
  from ds_unite_all_correct [OF ds_inv_init assms _ this] show ?thesis
    by (simp add: ds_init_def)
qed

lemma ds_find_same:
  assumes "ds_inv ds" "i < length (ds_parent ds)" "j < length (ds_parent ds)"
  shows "snd (ds_find ds i) = snd (ds_find ds j) \<longleftrightarrow> ds_same ds i j"
proof -
  have "is_root (ds_parent ds) i (snd (ds_find ds i))" "is_root (ds_parent ds) j (snd (ds_find ds j))"
    using ds_find_correct [OF assms(1,2)] ds_find_correct [OF assms(1,3)]
    by (metis prod.collapse)+
  then show ?thesis using is_root_unique unfolding ds_same_def by metis
qed

text \<open>
  The disjoint-set structure with path halving and union by rank computes connectivity: after
  uniting any sequence of pairs, the loop of \<open>find\<close> ends at the same root for two elements exactly
  when the pairs connect them. The fuel of the loop, the number of elements, never runs out.
\<close>

theorem disjoint_set_connectivity:
  assumes "\<forall>(a, b) \<in> set pairs. a < n \<and> b < n" "i < n" "j < n"
  shows "snd (ds_find (ds_unite_all (ds_init n) pairs) i) =
           snd (ds_find (ds_unite_all (ds_init n) pairs) j) \<longleftrightarrow> (i, j) \<in> linked (set pairs)"
  using ds_same_iff [OF assms(1)] ds_find_same assms(2,3) by simp

theorem disjoint_set_connectivity_witness:
  "snd (ds_find (ds_unite_all (ds_init 5) [(0, 1), (3, 1)]) 0) =
     snd (ds_find (ds_unite_all (ds_init 5) [(0, 1), (3, 1)]) 3) \<longleftrightarrow>
   (0, 3) \<in> linked (set [(0, 1), (3, 1)])"
  by (rule disjoint_set_connectivity) simp_all

end
