(* ===== verification/Partition.thy ===== *)
theory Partition
  imports Lease Ordered_Map Disjoint_Set
begin

text \<open>
  Reachability observations and the partition assessment (\<^verbatim>\<open>partition.hpp\<close>, \<^verbatim>\<open>partition.cpp\<close>). The
  assessment collects the latest usable observation per ordered pair of active members, keeps the
  pairs that both endpoints confirm at their current incarnation, and groups the members with the
  disjoint-set structure. The lemmas show that the reported components are the connected components
  of the confirmed edges and when each verdict is reached.
\<close>

section \<open>Observations\<close>

datatype ReachabilityState = Reach_Reachable | Reach_Unreachable | Reach_Unknown

datatype PartitionState =
    Partition_Connected | Partition_Split | Partition_Indeterminate | Partition_Empty

primrec reach_wire :: "ReachabilityState \<Rightarrow> u8" where
  "reach_wire Reach_Reachable = 0"
| "reach_wire Reach_Unreachable = 1"
| "reach_wire Reach_Unknown = 2"

primrec partition_wire :: "PartitionState \<Rightarrow> u8" where
  "partition_wire Partition_Connected = 0"
| "partition_wire Partition_Split = 1"
| "partition_wire Partition_Indeterminate = 2"
| "partition_wire Partition_Empty = 3"

definition reach_from_wire :: "u8 \<Rightarrow> ReachabilityState result" where
  "reach_from_wire v =
     (if v > 2 then Fail Error_InvalidArgument ''reachability state is out of range''
      else Inr (if v = 0 then Reach_Reachable else if v = 1 then Reach_Unreachable
                else Reach_Unknown))"

definition reach_to_string :: "ReachabilityState \<Rightarrow> string" where
  "reach_to_string s = (case s of
     Reach_Reachable \<Rightarrow> ''REACHABLE'' | Reach_Unreachable \<Rightarrow> ''UNREACHABLE''
   | Reach_Unknown \<Rightarrow> ''UNKNOWN'')"

definition partition_to_string :: "PartitionState \<Rightarrow> string" where
  "partition_to_string s = (case s of
     Partition_Connected \<Rightarrow> ''CONNECTED'' | Partition_Split \<Rightarrow> ''SPLIT''
   | Partition_Indeterminate \<Rightarrow> ''INDETERMINATE'' | Partition_Empty \<Rightarrow> ''EMPTY'')"

lemma reach_wire_inject [simp]: "reach_wire a = reach_wire b \<longleftrightarrow> a = b"
  by (cases a; cases b) simp_all

lemma reach_from_wire_wire [codec_rt]: "reach_from_wire (reach_wire v) = Inr v"
  by (cases v) (simp_all add: reach_from_wire_def)

record PeerObservation =
  po_peer :: MemberId
  po_peer_incarnation :: Incarnation
  po_state :: ReachabilityState
  po_observed_at :: Tick
  po_detail :: string

definition PeerObservation_key ::
  "'a PeerObservation_scheme \<Rightarrow> MemberId \<times> Incarnation \<times> u8 \<times> Tick \<times> string \<times> 'a" where
  "PeerObservation_key p = (po_peer p, po_peer_incarnation p, reach_wire (po_state p),
     po_observed_at p, po_detail p, PeerObservation.more p)"

lemma PeerObservation_key_inject [simp]: "PeerObservation_key a = PeerObservation_key b \<longleftrightarrow> a = b"
  by (cases a; cases b) (auto simp: PeerObservation_key_def)

instantiation PeerObservation_ext :: (linorder) linorder
begin
definition less_eq_PeerObservation_ext ::
  "'a PeerObservation_scheme \<Rightarrow> 'a PeerObservation_scheme \<Rightarrow> bool" where
  "a \<le> b \<longleftrightarrow> PeerObservation_key a \<le> PeerObservation_key b"
definition less_PeerObservation_ext ::
  "'a PeerObservation_scheme \<Rightarrow> 'a PeerObservation_scheme \<Rightarrow> bool" where
  "a < b \<longleftrightarrow> PeerObservation_key a < PeerObservation_key b"
instance
  by intro_classes (simp_all only: less_eq_PeerObservation_ext_def less_PeerObservation_ext_def
      less_le_not_le order_refl linear PeerObservation_key_inject [symmetric] order_trans
      order_antisym)
end

record MemberObservation =
  ob_observer :: MemberId
  ob_observer_incarnation :: Incarnation
  ob_epoch :: Epoch
  ob_recorded_at :: Tick
  ob_peers :: "PeerObservation list"

definition encode_peer :: "PeerObservation \<Rightarrow> bytes result" where
  "encode_peer p = w_seq
     [w_id16 (po_peer p), w_u64 (po_peer_incarnation p), w_u8 (reach_wire (po_state p)),
      w_u64 (po_observed_at p), w_text (po_detail p) kMaxShortTextLength]"

definition decode_peer :: "PeerObservation reader" where
  "decode_peer =
     rbind r_id16 (\<lambda>peer.
     rbind r_u64 (\<lambda>incarnation.
     rbind r_u8 (\<lambda>state.
     rbind (r_lift (reach_from_wire state)) (\<lambda>state.
     rbind r_u64 (\<lambda>observed_at.
     rbind (r_text kMaxShortTextLength) (\<lambda>detail.
     r_return \<lparr>po_peer = peer, po_peer_incarnation = incarnation, po_state = state,
               po_observed_at = observed_at, po_detail = detail\<rparr>))))))"

definition encode_observation :: "MemberObservation \<Rightarrow> bytes result" where
  "encode_observation ob = w_seq
     [w_id16 (ob_observer ob), w_u64 (ob_observer_incarnation ob), w_u64 (ob_epoch ob),
      w_u64 (ob_recorded_at ob),
      w_list encode_peer kMaxMembersPerObservation (sort_unique (ob_peers ob))]"

definition decode_observation :: "MemberObservation reader" where
  "decode_observation =
     rbind r_id16 (\<lambda>observer.
     rbind r_u64 (\<lambda>incarnation.
     rbind r_u64 (\<lambda>epoch.
     rbind r_u64 (\<lambda>recorded_at.
     rbind (r_list decode_peer kMaxMembersPerObservation) (\<lambda>peers.
     r_return \<lparr>ob_observer = observer, ob_observer_incarnation = incarnation, ob_epoch = epoch,
               ob_recorded_at = recorded_at, ob_peers = peers\<rparr>)))))"

section \<open>Assessment\<close>

text \<open>A \<^verbatim>\<open>PartitionComponent\<close> is its vector of members.\<close>

record PartitionAssessment =
  pa_state :: PartitionState
  pa_components :: "MemberId list list"
  pa_mutually_reachable :: "MemberId list"
  pa_unreachable :: "MemberId list"
  pa_unobserved :: "MemberId list"
  pa_stale_observations :: "MemberId list"
  pa_evidence :: EvidenceState
  pa_summary :: string

definition empty_assessment :: PartitionAssessment where
  "empty_assessment = \<lparr>pa_state = Partition_Empty, pa_components = [], pa_mutually_reachable = [],
     pa_unreachable = [], pa_unobserved = [], pa_stale_observations = [],
     pa_evidence = Evidence_Unknown, pa_summary = []\<rparr>"

definition allows_global_mutation :: "PartitionAssessment \<Rightarrow> bool" where
  "allows_global_mutation a \<longleftrightarrow> pa_state a = Partition_Connected"

type_synonym latest_map = "(MemberId \<times> MemberId, PeerObservation) smap"

text \<open>
  The collection loop. \<open>members\<close> are the keys of \<^verbatim>\<open>index_of\<close>; the accumulator holds \<^verbatim>\<open>latest\<close> and
  \<^verbatim>\<open>stale\<close>.
\<close>

definition collect_peer :: "MemberId list \<Rightarrow> Tick \<Rightarrow> u64 \<Rightarrow> MemberId \<Rightarrow>
    latest_map \<times> MemberId list \<Rightarrow> PeerObservation \<Rightarrow> latest_map \<times> MemberId list" where
  "collect_peer members now freshness observer acc peer =
     (case acc of (latest, stale) \<Rightarrow>
        if is_nil (po_peer peer) \<or> po_peer peer = observer then (latest, stale)
        else if po_peer peer \<notin> set members then (latest, stale)
        else if freshness \<noteq> 0 \<and> (po_observed_at peer > now \<or> now - po_observed_at peer > freshness)
        then (latest, stale @ [po_peer peer])
        else
          (case smap_get latest (observer, po_peer peer) of
             None \<Rightarrow> (smap_put (observer, po_peer peer) peer latest, stale)
           | Some existing \<Rightarrow>
               if po_observed_at existing < po_observed_at peer
               then (smap_put (observer, po_peer peer) peer latest, stale)
               else (latest, stale)))"

definition collect_observation :: "MemberId list \<Rightarrow> Epoch \<Rightarrow> Tick \<Rightarrow> u64 \<Rightarrow>
    latest_map \<times> MemberId list \<Rightarrow> MemberObservation \<Rightarrow> latest_map \<times> MemberId list" where
  "collect_observation members epoch now freshness acc ob =
     (case acc of (latest, stale) \<Rightarrow>
        if is_nil (ob_observer ob) \<or> ob_observer ob \<notin> set members then (latest, stale)
        else if ob_epoch ob \<noteq> epoch then (latest, stale @ [ob_observer ob])
        else if freshness \<noteq> 0 \<and> ob_recorded_at ob > now then (latest, stale @ [ob_observer ob])
        else foldl (collect_peer members now freshness (ob_observer ob)) (latest, stale)
               (ob_peers ob))"

definition collect_observations :: "MemberId list \<Rightarrow> Epoch \<Rightarrow> Tick \<Rightarrow> u64 \<Rightarrow>
    MemberObservation list \<Rightarrow> latest_map \<times> MemberId list" where
  "collect_observations members epoch now freshness observations =
     foldl (collect_observation members epoch now freshness) ([], []) observations"

text \<open>
  \<open>index_of\<close> and \<open>current_incarnation\<close>: filling a map in the ascending order of the members gives
  the zipped lists.
\<close>

definition index_map :: "MemberId list \<Rightarrow> (MemberId, nat) smap" where
  "index_map members = zip members [0..<length members]"

definition index_of :: "MemberId list \<Rightarrow> MemberId \<Rightarrow> nat" where
  "index_of members m = (case smap_get (index_map members) m of None \<Rightarrow> 0 | Some i \<Rightarrow> i)"

definition current_incarnation :: "MemberId list \<Rightarrow> Incarnation list \<Rightarrow> MemberId \<Rightarrow> Incarnation" where
  "current_incarnation members incarnations m =
     (case smap_get (zip members incarnations) m of None \<Rightarrow> 0 | Some i \<Rightarrow> i)"

text \<open>The flags the loop over \<^verbatim>\<open>latest\<close> raises, and the candidate pairs it pushes.\<close>

definition referenced :: "latest_map \<Rightarrow> MemberId \<Rightarrow> bool" where
  "referenced latest m \<longleftrightarrow> (\<exists>((a, b), _) \<in> set latest. m = a \<or> m = b)"

definition seen_unreachable :: "latest_map \<Rightarrow> MemberId \<Rightarrow> bool" where
  "seen_unreachable latest m \<longleftrightarrow>
     (\<exists>((a, b), p) \<in> set latest. po_state p = Reach_Unreachable \<and> m = b)"

definition candidate_pairs ::
  "MemberId list \<Rightarrow> Incarnation list \<Rightarrow> latest_map \<Rightarrow> (nat \<times> nat) list" where
  "candidate_pairs members incarnations latest =
     concat (map (\<lambda>((a, b), p).
        if po_state p = Reach_Unreachable then []
        else if po_state p \<noteq> Reach_Reachable then []
        else if po_peer_incarnation p = 0 \<or>
                po_peer_incarnation p \<noteq> current_incarnation members incarnations b then []
        else if index_of members a < index_of members b
             then [(index_of members a, index_of members b)] else []) latest)"

definition pair_confirmed ::
  "MemberId list \<Rightarrow> Incarnation list \<Rightarrow> latest_map \<Rightarrow> nat \<times> nat \<Rightarrow> bool" where
  "pair_confirmed members incarnations latest pair =
     (let a = members ! fst pair; b = members ! snd pair in
      case (smap_get latest (a, b), smap_get latest (b, a)) of
        (Some forward, Some backward) \<Rightarrow>
          po_state forward = Reach_Reachable \<and> po_state backward = Reach_Reachable \<and>
          po_peer_incarnation forward = current_incarnation members incarnations b \<and>
          po_peer_incarnation backward = current_incarnation members incarnations a
      | _ \<Rightarrow> False)"

definition confirmed_pairs ::
  "MemberId list \<Rightarrow> Incarnation list \<Rightarrow> latest_map \<Rightarrow> (nat \<times> nat) list" where
  "confirmed_pairs members incarnations latest =
     filter (pair_confirmed members incarnations latest)
       (candidate_pairs members incarnations latest)"

definition has_confirmed_edge :: "(nat \<times> nat) list \<Rightarrow> nat \<Rightarrow> bool" where
  "has_confirmed_edge pairs i \<longleftrightarrow> (\<exists>(a, b) \<in> set pairs. i = a \<or> i = b)"

text \<open>The grouping loop: \<^verbatim>\<open>grouped[components.find(i)].push_back(members[i])\<close>.\<close>

definition group_step :: "MemberId list \<Rightarrow> DisjointSet \<times> (nat, MemberId list) smap \<Rightarrow> nat \<Rightarrow>
    DisjointSet \<times> (nat, MemberId list) smap" where
  "group_step members acc i =
     (case acc of (ds, grouped) \<Rightarrow>
        let (ds, root) = ds_find ds i
        in (ds, smap_update [] root (\<lambda>ms. ms @ [members ! i]) grouped))"

definition group_components :: "MemberId list \<Rightarrow> DisjointSet \<Rightarrow> MemberId list list" where
  "group_components members ds =
     (let (_, grouped) = foldl (group_step members) (ds, []) [0..<length members]
      in sort (map (sort \<circ> snd) grouped))"

definition assess_partition :: "MemberId list \<Rightarrow> Incarnation list \<Rightarrow> MemberObservation list \<Rightarrow>
    Epoch \<Rightarrow> Tick \<Rightarrow> u64 \<Rightarrow> PartitionAssessment" where
  "assess_partition active_members active_incarnations observations current_epoch now freshness =
     (let members = sort_unique active_members in
      if length members \<noteq> length active_incarnations then
        empty_assessment\<lparr>pa_state := Partition_Indeterminate, pa_evidence := Evidence_Invalid,
                         pa_summary := ''active member and incarnation lists disagree''\<rparr>
      else if members = [] then
        empty_assessment\<lparr>pa_summary := ''no active members''\<rparr>
      else if length members = 1 then
        empty_assessment\<lparr>pa_components := [members], pa_mutually_reachable := members,
                         pa_state := Partition_Connected, pa_evidence := Evidence_Known,
                         pa_summary :=
                           ''a single active member cannot be partitioned from itself''\<rparr>
      else
        let (latest, stale) =
              collect_observations members current_epoch now freshness observations;
            pairs = confirmed_pairs members active_incarnations latest;
            ds = ds_unite_all (ds_init (length members)) pairs;
            indices = [0..<length members];
            unobserved = filter (\<lambda>m. \<not> referenced latest m) members;
            components = group_components members ds;
            base = empty_assessment
              \<lparr>pa_stale_observations := sort_unique stale,
               pa_mutually_reachable :=
                 map ((!) members) (filter (has_confirmed_edge pairs) indices),
               pa_unreachable :=
                 map ((!) members) (filter (\<lambda>i. seen_unreachable latest (members ! i) \<and>
                                                \<not> has_confirmed_edge pairs i) indices),
               pa_unobserved := unobserved, pa_components := components\<rparr>
        in if unobserved \<noteq> [] then
             base\<lparr>pa_state := Partition_Indeterminate, pa_evidence := Evidence_Indeterminate,
                  pa_summary := ''no usable reachability observation covers '' @
                    nat_to_string (length unobserved) @ '' active member(s)''\<rparr>
           else if length components = 1 then
             base\<lparr>pa_state := Partition_Connected, pa_evidence := Evidence_Known,
                  pa_summary := ''all active members are mutually reachable''\<rparr>
           else
             base\<lparr>pa_state := Partition_Split, pa_evidence := Evidence_Known,
                  pa_summary := ''the active set is split into '' @
                    nat_to_string (length components) @ '' component(s)''\<rparr>)"

section \<open>Codec contracts\<close>

definition observation_wf :: "MemberObservation \<Rightarrow> bool" where
  "observation_wf ob \<longleftrightarrow> sort_unique (ob_peers ob) = ob_peers ob"

interpretation peer_codec: codec encode_peer decode_peer "\<lambda>_. True"
proof
  fix x :: PeerObservation and rest
  assume "is_ok (encode_peer x)"
  then show "decode_peer (projr (encode_peer x) @ rest) = Inr (x, rest)"
    by (cases x) (simp add: encode_peer_def decode_peer_def is_ok_w_seq projr_w_seq codec_rt)
qed

lemmas decode_peers_rt [codec_rt] = peer_codec.listed

interpretation observation_codec: codec encode_observation decode_observation observation_wf
proof
  fix x :: MemberObservation and rest
  assume "is_ok (encode_observation x)" "observation_wf x"
  then show "decode_observation (projr (encode_observation x) @ rest) = Inr (x, rest)"
    by (cases x) (simp add: encode_observation_def decode_observation_def observation_wf_def
        is_ok_w_seq projr_w_seq codec_rt)
qed

section \<open>Grouping\<close>

definition root_of :: "DisjointSet \<Rightarrow> nat \<Rightarrow> nat" where
  "root_of ds i = snd (ds_find ds i)"

definition class_of :: "DisjointSet \<Rightarrow> nat \<Rightarrow> nat \<Rightarrow> nat list" where
  "class_of ds k r = filter (\<lambda>i. root_of ds i = r) [0..<k]"

lemma root_of_is_root:
  assumes "ds_inv ds" "i < length (ds_parent ds)"
  shows "is_root (ds_parent ds) i (root_of ds i)"
  using ds_find_correct [OF assms] by (metis prod.collapse root_of_def)

lemma group_fold:
  assumes "ds_inv ds" "length (ds_parent ds) = length members" "k \<le> length members"
    and "foldl (group_step members) (ds, []) [0..<k] = (ds', g)"
  shows "ds_inv ds' \<and> length (ds_parent ds') = length members \<and>
    (\<forall>i < length members. \<forall>s. is_root (ds_parent ds') i s \<longleftrightarrow> is_root (ds_parent ds) i s) \<and>
    smap_wf g \<and>
    (\<forall>r. smap_get g r = (if class_of ds k r = [] then None
                         else Some (map ((!) members) (class_of ds k r))))"
  using assms(3,4)
proof (induction k arbitrary: ds' g)
  case 0
  then show ?case using assms(1,2) by (simp add: smap_wf_def smap_get_def class_of_def)
next
  case (Suc k)
  obtain d m where prev: "foldl (group_step members) (ds, []) [0..<k] = (d, m)" by force
  have IH: "ds_inv d" "length (ds_parent d) = length members"
    "\<forall>i < length members. \<forall>s. is_root (ds_parent d) i s \<longleftrightarrow> is_root (ds_parent ds) i s"
    "smap_wf m" "\<And>r. smap_get m r = (if class_of ds k r = [] then None
        else Some (map ((!) members) (class_of ds k r)))"
    using Suc.IH [OF _ prev] Suc.prems(1) by auto
  obtain d' root where f: "ds_find d k = (d', root)" by force
  have lt: "k < length (ds_parent d)" using Suc.prems(1) IH(2) by simp
  note c = ds_find_correct [OF IH(1) lt f]
  have root: "root = root_of ds k"
  proof -
    have "is_root (ds_parent ds) k root" using c IH(2,3) Suc.prems(1) by auto
    moreover have "is_root (ds_parent ds) k (root_of ds k)"
      using root_of_is_root [OF assms(1)] assms(2) Suc.prems(1) by simp
    ultimately show ?thesis by (rule is_root_unique)
  qed
  have out: "ds' = d'" "g = smap_update [] root (\<lambda>ms. ms @ [members ! k]) m"
    using Suc.prems(2) prev f group_step_def [of members "(d, m)" k] by simp_all
  have get: "smap_get g r = (if class_of ds (Suc k) r = [] then None
      else Some (map ((!) members) (class_of ds (Suc k) r)))" for r
    using IH(5) [of r] IH(5) [of root]
    by (auto simp: out smap_update_def smap_get_put class_of_def root)
  from c IH get show ?case by (auto simp: out smap_update_def smap_wf_put)
qed

lemma group_components_eq:
  assumes "ds_inv ds" "length (ds_parent ds) = length members"
  shows "mset (group_components members ds) =
    image_mset (\<lambda>r. sort (map ((!) members) (class_of ds (length members) r)))
      (mset_set (root_of ds ` {..<length members}))"
proof -
  let ?n = "length members"
  obtain d g where run: "foldl (group_step members) (ds, []) [0..<?n] = (d, g)" by force
  note G = group_fold [OF assms order_refl run]
  have keys: "set (map fst g) = root_of ds ` {..<?n}"
  proof -
    have "r \<in> set (map fst g) \<longleftrightarrow> class_of ds ?n r \<noteq> []" for r
      using G smap_get_None [of g r] by (metis option.distinct(1))
    then have "r \<in> set (map fst g) \<longleftrightarrow> r \<in> root_of ds ` {..<?n}" for r
      by (fastforce simp: class_of_def filter_empty_conv)
    then show ?thesis by blast
  qed
  have dist: "distinct (map fst g)" using G smap_wf_distinct by blast
  have vals: "snd x = map ((!) members) (class_of ds ?n (fst x))" if "x \<in> set g" for x
  proof -
    have "smap_get g (fst x) = Some (snd x)" using G that smap_get_iff by (metis prod.collapse)
    with G show ?thesis by (metis option.distinct(1) option.inject)
  qed
  have "mset (group_components members ds) = image_mset (sort \<circ> snd) (mset g)"
    by (simp add: group_components_def run)
  also have "\<dots> = image_mset (\<lambda>x. sort (map ((!) members) (class_of ds ?n (fst x)))) (mset g)"
    using vals by (intro image_mset_cong) simp
  also have "\<dots> = image_mset (\<lambda>r. sort (map ((!) members) (class_of ds ?n r))) (mset (map fst g))"
    by (simp add: image_mset.compositionality comp_def)
  also have "mset (map fst g) = mset_set (root_of ds ` {..<?n})"
    unfolding keys [symmetric] using dist by (simp add: mset_set_set del: set_map mset_map)
  finally show ?thesis .
qed

lemma set_group_components:
  assumes "ds_inv ds" "length (ds_parent ds) = length members"
  shows "set (group_components members ds) =
    {sort (map ((!) members) (class_of ds (length members) (root_of ds i))) | i. i < length members}"
  using arg_cong [OF group_components_eq [OF assms], of set_mset] by auto

lemma length_group_components:
  assumes "ds_inv ds" "length (ds_parent ds) = length members"
  shows "length (group_components members ds) = card (root_of ds ` {..<length members})"
  using arg_cong [OF group_components_eq [OF assms], of size] by simp

section \<open>Confirmed edges\<close>

text \<open>Two active members confirm each other at the incarnations the federation knows.\<close>

definition mutual ::
  "MemberId list \<Rightarrow> Incarnation list \<Rightarrow> latest_map \<Rightarrow> MemberId \<Rightarrow> MemberId \<Rightarrow> bool" where
  "mutual members incarnations latest a b \<longleftrightarrow>
     (\<exists>f g. smap_get latest (a, b) = Some f \<and> smap_get latest (b, a) = Some g \<and>
        po_state f = Reach_Reachable \<and> po_state g = Reach_Reachable \<and>
        po_peer_incarnation f = current_incarnation members incarnations b \<and>
        po_peer_incarnation g = current_incarnation members incarnations a)"

lemma index_of_nth: "distinct members \<Longrightarrow> i < length members \<Longrightarrow> index_of members (members ! i) = i"
  using map_of_zip_nth [of members "[0..<length members]" i]
  by (simp add: index_of_def index_map_def smap_get_def)

definition latest_ok :: "MemberId list \<Rightarrow> latest_map \<Rightarrow> bool" where
  "latest_ok members latest \<longleftrightarrow> smap_wf latest \<and>
     (\<forall>((a, b), p) \<in> set latest. a \<in> set members \<and> b \<in> set members \<and> a \<noteq> b \<and> po_peer p = b)"

lemma latest_ok_put:
  assumes "latest_ok members latest" "a \<in> set members" "po_peer p \<in> set members" "a \<noteq> po_peer p"
  shows "latest_ok members (smap_put (a, po_peer p) p latest)"
proof -
  let ?m = "smap_put (a, po_peer p) p latest"
  have wf: "smap_wf ?m" "smap_wf latest"
    using assms(1) by (simp_all add: latest_ok_def smap_wf_put)
  have "x \<in> set ?m \<Longrightarrow> x = ((a, po_peer p), p) \<or> x \<in> set latest" for x
  proof -
    assume "x \<in> set ?m"
    then have "smap_get ?m (fst x) = Some (snd x)" using wf(1) by (simp add: smap_get_iff)
    then show ?thesis
      using wf(2) by (cases x) (auto simp: smap_get_put smap_get_iff split: if_splits)
  qed
  with assms wf show ?thesis unfolding latest_ok_def by fastforce
qed

lemma collect_peer_ok:
  assumes "latest_ok members latest" "observer \<in> set members"
  shows "latest_ok members (fst (collect_peer members now fr observer (latest, stale) peer))"
  using assms by (auto simp: collect_peer_def latest_ok_put split: option.splits)

lemma collect_observation_ok:
  assumes "latest_ok members (fst acc)"
  shows "latest_ok members (fst (collect_observation members epoch now fr acc ob))"
proof -
  have fold: "latest_ok members (fst (foldl (collect_peer members now fr observer) acc' peers))"
    if "latest_ok members (fst acc')" "observer \<in> set members" for observer acc' peers
    using that
  proof (induction peers arbitrary: acc')
    case Nil
    then show ?case by simp
  next
    case (Cons p ps)
    then show ?case
      using collect_peer_ok [of members "fst acc'" observer now fr "snd acc'" p] by simp
  qed
  obtain latest stale where acc: "acc = (latest, stale)" by force
  show ?thesis
    using assms fold [of "(latest, stale)"]
    by (simp add: collect_observation_def acc)
qed

lemma collect_observations_ok:
  "latest_ok members (fst (collect_observations members epoch now fr obs))"
proof -
  have "latest_ok members (fst (foldl (collect_observation members epoch now fr) acc obs))"
    if "latest_ok members (fst acc)" for acc
    using that by (induction obs arbitrary: acc) (simp_all add: collect_observation_ok)
  moreover have "latest_ok members []" by (simp add: latest_ok_def smap_wf_def)
  ultimately show ?thesis by (simp add: collect_observations_def)
qed

lemma confirmed_pairs_iff:
  assumes "latest_ok members latest" "distinct members"
  shows "(i, j) \<in> set (confirmed_pairs members incs latest) \<longleftrightarrow>
    i < j \<and> j < length members \<and> current_incarnation members incs (members ! j) \<noteq> 0 \<and>
    mutual members incs latest (members ! i) (members ! j)"
proof -
  have wf: "smap_wf latest" using assms(1) by (simp add: latest_ok_def)
  have confirmed: "pair_confirmed members incs latest (x, y) \<longleftrightarrow>
      mutual members incs latest (members ! x) (members ! y)" for x y
    by (auto simp: pair_confirmed_def mutual_def Let_def split: option.splits)
  have cand: "(i, j) \<in> set (candidate_pairs members incs latest) \<longleftrightarrow>
      (\<exists>a b p. ((a, b), p) \<in> set latest \<and> po_state p = Reach_Reachable \<and>
         po_peer_incarnation p \<noteq> 0 \<and> po_peer_incarnation p = current_incarnation members incs b \<and>
         i = index_of members a \<and> j = index_of members b \<and> i < j)"
    unfolding candidate_pairs_def by (auto split: if_splits) force+
  show ?thesis
  proof
    assume "(i, j) \<in> set (confirmed_pairs members incs latest)"
    then obtain a b p where e: "((a, b), p) \<in> set latest" "po_peer_incarnation p \<noteq> 0"
        "po_peer_incarnation p = current_incarnation members incs b"
        "i = index_of members a" "j = index_of members b" "i < j"
      and m: "mutual members incs latest (members ! i) (members ! j)"
      unfolding confirmed_pairs_def using cand confirmed by auto
    from e(1) assms(1) have "a \<in> set members" "b \<in> set members"
      by (fastforce simp: latest_ok_def)+
    then obtain x y where "x < length members" "a = members ! x" "y < length members"
        "b = members ! y"
      by (metis in_set_conv_nth)
    with e m assms(2) show "i < j \<and> j < length members \<and>
        current_incarnation members incs (members ! j) \<noteq> 0 \<and>
        mutual members incs latest (members ! i) (members ! j)"
      by (simp add: index_of_nth)
  next
    assume a: "i < j \<and> j < length members \<and>
        current_incarnation members incs (members ! j) \<noteq> 0 \<and>
        mutual members incs latest (members ! i) (members ! j)"
    then obtain f where f: "smap_get latest (members ! i, members ! j) = Some f"
        "po_state f = Reach_Reachable"
        "po_peer_incarnation f = current_incarnation members incs (members ! j)"
      by (auto simp: mutual_def)
    have "((members ! i, members ! j), f) \<in> set latest" using f(1) wf by (simp add: smap_get_iff)
    moreover have "index_of members (members ! i) = i" "index_of members (members ! j) = j"
      using a assms(2) by (simp_all add: index_of_nth)
    ultimately have "(i, j) \<in> set (candidate_pairs members incs latest)"
      unfolding cand using f a by (metis (no_types))
    with a show "(i, j) \<in> set (confirmed_pairs members incs latest)"
      by (simp add: confirmed_pairs_def confirmed)
  qed
qed

section \<open>Verdicts\<close>

text \<open>
  The confirmed edges of an assessment, over positions in the sorted member list: both endpoints
  observed each other as reachable at the incarnation the federation believes is running.
\<close>

definition confirmed_edges :: "MemberId list \<Rightarrow> Incarnation list \<Rightarrow> latest_map \<Rightarrow> (nat \<times> nat) set" where
  "confirmed_edges members incs latest =
     {(i, j). i < j \<and> j < length members \<and> current_incarnation members incs (members ! j) \<noteq> 0 \<and>
        mutual members incs latest (members ! i) (members ! j)}"

abbreviation partition_latest ::
  "MemberId list \<Rightarrow> MemberObservation list \<Rightarrow> Epoch \<Rightarrow> Tick \<Rightarrow> u64 \<Rightarrow> latest_map" where
  "partition_latest active obs epoch now fr \<equiv>
     fst (collect_observations (sort_unique active) epoch now fr obs)"

lemma set_confirmed_pairs:
  assumes "latest_ok members latest" "distinct members"
  shows "set (confirmed_pairs members incs latest) = confirmed_edges members incs latest"
  using confirmed_pairs_iff [OF assms, of _ _ incs] unfolding confirmed_edges_def by auto

lemma partition_disjoint_set:
  fixes incs :: "Incarnation list"
  assumes "latest_ok members latest" "distinct members"
  defines "ds \<equiv> ds_unite_all (ds_init (length members)) (confirmed_pairs members incs latest)"
  shows "ds_inv ds" "length (ds_parent ds) = length members"
    "i < length members \<Longrightarrow> j < length members \<Longrightarrow>
       root_of ds i = root_of ds j \<longleftrightarrow> (i, j) \<in> linked (confirmed_edges members incs latest)"
proof -
  note E = set_confirmed_pairs [OF assms(1,2), of incs]
  have range: "\<forall>(a, b) \<in> set (confirmed_pairs members incs latest).
      a < length members \<and> b < length members"
    unfolding E confirmed_edges_def by auto
  note S = ds_same_iff [OF range, folded ds_def]
  show inv: "ds_inv ds" and len: "length (ds_parent ds) = length members" using S by auto
  show "i < length members \<Longrightarrow> j < length members \<Longrightarrow>
      root_of ds i = root_of ds j \<longleftrightarrow> (i, j) \<in> linked (confirmed_edges members incs latest)"
    using S ds_find_same [OF inv, of i j] len by (simp add: root_of_def E)
qed

lemma confirmed_edge_referenced:
  assumes "(i, j) \<in> confirmed_edges members incs latest" "smap_wf latest"
  shows "referenced latest (members ! i)" "referenced latest (members ! j)"
proof -
  obtain f where "smap_get latest (members ! i, members ! j) = Some f"
    using assms(1) by (auto simp: confirmed_edges_def mutual_def)
  then have "((members ! i, members ! j), f) \<in> set latest" using assms(2) by (simp add: smap_get_iff)
  then show "referenced latest (members ! i)" "referenced latest (members ! j)"
    unfolding referenced_def by blast+
qed

lemma linked_has_edge:
  assumes "(i, j) \<in> linked E" "i \<noteq> j"
  shows "\<exists>k. (i, k) \<in> E \<or> (k, i) \<in> E"
  using assms unfolding linked_def by (auto elim: converse_rtranclE)

lemma assess_components:
  assumes "members = sort_unique active" "length members = length incs" "2 \<le> length members"
    and "i < length members" "j < length members"
  shows "(\<exists>C \<in> set (pa_components (assess_partition active incs obs epoch now fr)).
            members ! i \<in> set C \<and> members ! j \<in> set C) \<longleftrightarrow>
         (i, j) \<in> linked (confirmed_edges members incs (partition_latest active obs epoch now fr))"
    and "\<Union> (set ` set (pa_components (assess_partition active incs obs epoch now fr))) = set active"
proof -
  define latest where "latest = partition_latest active obs epoch now fr"
  define ds where "ds = ds_unite_all (ds_init (length members)) (confirmed_pairs members incs latest)"
  have ok: "latest_ok members latest" and dist: "distinct members"
    using collect_observations_ok by (simp_all add: latest_def assms(1))
  note P = partition_disjoint_set [OF ok dist, where incs = incs, folded ds_def]
  have comps: "pa_components (assess_partition active incs obs epoch now fr) =
      group_components members ds"
    using assms(2,3) by (auto simp: assess_partition_def Let_def assms(1) [symmetric] ds_def
        latest_def empty_assessment_def split: prod.splits)
  note C = set_group_components [OF P(1,2)]
  have mem: "members ! k \<in> set (map ((!) members) (class_of ds (length members) r)) \<longleftrightarrow>
      root_of ds k = r" if "k < length members" for k r
    using that dist by (auto simp: class_of_def nth_eq_iff_index_eq)
  show "(\<exists>C \<in> set (pa_components (assess_partition active incs obs epoch now fr)).
      members ! i \<in> set C \<and> members ! j \<in> set C) \<longleftrightarrow>
      (i, j) \<in> linked (confirmed_edges members incs (partition_latest active obs epoch now fr))"
    unfolding comps C latest_def [symmetric] P(3) [OF assms(4,5), symmetric]
    using mem assms(4,5) by (auto simp del: set_map)
  have "\<Union> (set ` set (group_components members ds)) = set members"
  proof
    show "\<Union> (set ` set (group_components members ds)) \<subseteq> set members"
      unfolding C by (auto simp: class_of_def)
    show "set members \<subseteq> \<Union> (set ` set (group_components members ds))"
    proof
      fix m assume "m \<in> set members"
      then obtain k where k: "k < length members" "m = members ! k" by (metis in_set_conv_nth)
      let ?C = "sort (map ((!) members) (class_of ds (length members) (root_of ds k)))"
      have "m \<in> set ?C" using mem [OF k(1)] k(2) by simp
      moreover have "?C \<in> set (group_components members ds)" unfolding C using k(1) by blast
      ultimately show "m \<in> \<Union> (set ` set (group_components members ds))" by blast
    qed
  qed
  then show "\<Union> (set ` set (pa_components (assess_partition active incs obs epoch now fr))) = set active"
    by (simp add: comps assms(1))
qed

lemma assess_verdict:
  assumes "members = sort_unique active" "length members = length incs" "2 \<le> length members"
    and latest_def: "latest = partition_latest active obs epoch now fr"
  shows "pa_state (assess_partition active incs obs epoch now fr) =
    (if \<exists>m \<in> set members. \<not> referenced latest m then Partition_Indeterminate
     else if \<forall>i < length members. \<forall>j < length members.
               (i, j) \<in> linked (confirmed_edges members incs latest) then Partition_Connected
     else Partition_Split)"
proof -
  define ds where "ds = ds_unite_all (ds_init (length members)) (confirmed_pairs members incs latest)"
  have ok: "latest_ok members latest" and dist: "distinct members"
    using collect_observations_ok by (simp_all add: latest_def assms(1))
  note P = partition_disjoint_set [OF ok dist, where incs = incs, folded ds_def]
  have nonempty: "root_of ds 0 \<in> root_of ds ` {..<length members}" using assms(3) by auto
  have "length (group_components members ds) = 1 \<longleftrightarrow>
      (\<forall>i < length members. \<forall>j < length members. root_of ds i = root_of ds j)"
    unfolding length_group_components [OF P(1,2)] One_nat_def card_1_singleton_iff
  proof
    assume "\<exists>x. root_of ds ` {..<length members} = {x}"
    then obtain x where x: "root_of ds ` {..<length members} = {x}" ..
    have "root_of ds i = x" if "i < length members" for i
      using that x imageI [of i "{..<length members}" "root_of ds"] by simp
    then show "\<forall>i<length members. \<forall>j<length members. root_of ds i = root_of ds j" by simp
  next
    assume all: "\<forall>i<length members. \<forall>j<length members. root_of ds i = root_of ds j"
    have "0 < length members" using assms(3) by linarith
    with all have "root_of ds k = root_of ds 0" if "k < length members" for k using that by blast
    then have "root_of ds ` {..<length members} \<subseteq> {root_of ds 0}" by blast
    with nonempty show "\<exists>x. root_of ds ` {..<length members} = {x}" by blast
  qed
  then have one: "length (group_components members ds) = 1 \<longleftrightarrow> (\<forall>i < length members.
      \<forall>j < length members. (i, j) \<in> linked (confirmed_edges members incs latest))"
    using P(3) by auto
  have unobserved: "filter (\<lambda>m. \<not> referenced latest m) members \<noteq> [] \<longleftrightarrow>
      (\<exists>m \<in> set members. \<not> referenced latest m)" by (simp add: filter_empty_conv)
  obtain stale where run: "collect_observations members epoch now fr obs = (latest, stale)"
    by (metis latest_def assms(1) prod.collapse)
  have shape: "members \<noteq> []" "length members \<noteq> 1" using assms(3) by auto
  show ?thesis
    unfolding assess_partition_def Let_def assms(1) [symmetric] run prod.case ds_def [symmetric]
    using assms(2) shape unobserved one by (simp; blast)
qed

section \<open>Properties\<close>

text \<open>
  C29: the components the assessment reports are the connected components of the confirmed edges:
  two active members are in one component exactly when a chain of mutual, current-incarnation
  confirmations links them, and the components together hold exactly the active members.
\<close>

theorem partition_components:
  assumes "members = sort_unique active" "length members = length incs" "2 \<le> length members"
    and "i < length members" "j < length members"
  shows "((\<exists>C \<in> set (pa_components (assess_partition active incs obs epoch now fr)).
            members ! i \<in> set C \<and> members ! j \<in> set C) \<longleftrightarrow>
         (i, j) \<in> linked (confirmed_edges members incs (partition_latest active obs epoch now fr))) \<and>
    \<Union> (set ` set (pa_components (assess_partition active incs obs epoch now fr))) = set active"
  using assess_components [OF assms] by blast

text \<open>
  C30: the assessment allows global mutation exactly when the confirmed edges connect all active
  members. A sole active member is connected without any observation. Of two or more, a member no
  usable observation mentions makes the verdict indeterminate, and otherwise a disconnected graph is a
  split: missing evidence is never read as connectivity.
\<close>

theorem partition_allows_mutation_iff_connected:
  assumes "members = sort_unique active" "length members = length incs" "members \<noteq> []"
    and "latest = partition_latest active obs epoch now fr"
  shows "(allows_global_mutation (assess_partition active incs obs epoch now fr) \<longleftrightarrow>
      (\<forall>i < length members. \<forall>j < length members.
         (i, j) \<in> linked (confirmed_edges members incs latest))) \<and>
    (pa_state (assess_partition active incs obs epoch now fr) = Partition_Indeterminate \<longleftrightarrow>
      2 \<le> length members \<and> (\<exists>m \<in> set members. \<not> referenced latest m))"
proof (cases "length members = 1")
  case True
  then have "length incs = 1" using assms(2) by simp
  with True show ?thesis
    using assms(1,3) by (simp add: assess_partition_def allows_global_mutation_def linked_def Let_def)
next
  case False
  with assms(3) have several: "2 \<le> length members" by (cases members) (auto simp: neq_Nil_conv)
  have ok: "latest_ok members latest"
    using collect_observations_ok by (simp add: assms(1,4))
  have "referenced latest m" if conn: "\<forall>i < length members. \<forall>j < length members.
      (i, j) \<in> linked (confirmed_edges members incs latest)" and "m \<in> set members" for m
  proof -
    obtain i where i: "i < length members" "members ! i = m"
      using \<open>m \<in> set members\<close> by (metis in_set_conv_nth)
    define j where "j = (if i = 0 then 1 else 0 :: nat)"
    have "j < length members" "i \<noteq> j" using several by (auto simp: j_def)
    with conn i obtain k where "(i, k) \<in> confirmed_edges members incs latest \<or>
        (k, i) \<in> confirmed_edges members incs latest" by (metis linked_has_edge)
    with i ok show ?thesis
      using confirmed_edge_referenced [of _ _ members incs latest] by (auto simp: latest_ok_def)
  qed
  with assess_verdict [OF assms(1,2) several assms(4)] several show ?thesis
    unfolding allows_global_mutation_def by auto
qed

definition sample_peer :: "MemberId \<Rightarrow> ReachabilityState \<Rightarrow> PeerObservation" where
  "sample_peer m state = \<lparr>po_peer = m, po_peer_incarnation = 1, po_state = state,
     po_observed_at = 5, po_detail = []\<rparr>"

definition sample_observation :: "MemberId \<Rightarrow> PeerObservation list \<Rightarrow> MemberObservation" where
  "sample_observation m peers = \<lparr>ob_observer = m, ob_observer_incarnation = 1, ob_epoch = 2,
     ob_recorded_at = 6, ob_peers = peers\<rparr>"

definition sample_observations :: "MemberObservation list" where
  "sample_observations =
     [sample_observation 3 [sample_peer 4 Reach_Reachable, sample_peer 5 Reach_Unreachable],
      sample_observation 4 [sample_peer 3 Reach_Reachable]]"

theorem partition_components_witness:
  "pa_components (assess_partition [4, 3, 5] [1, 1, 1] sample_observations 2 7 100) = [[3, 4], [5]] \<and>
   (0, 1) \<in> linked (confirmed_edges (sort_unique [4, 3, 5]) [1, 1, 1]
                     (partition_latest [4, 3, 5] sample_observations 2 7 100))"
proof
  show comps: "pa_components (assess_partition [4, 3, 5] [1, 1, 1] sample_observations 2 7 100) =
      [[3, 4], [5]]" by code_simp
  have len: "length (sort_unique [4, 3, 5 :: MemberId]) = length [1, 1, 1 :: Incarnation]"
    "2 \<le> length (sort_unique [4, 3, 5 :: MemberId])" "0 < length (sort_unique [4, 3, 5 :: MemberId])"
    "1 < length (sort_unique [4, 3, 5 :: MemberId])" by code_simp+
  have "sort_unique [4, 3, 5 :: MemberId] ! 0 = 3" "sort_unique [4, 3, 5 :: MemberId] ! 1 = 4"
    by code_simp+
  with partition_components [OF refl len, of sample_observations 2 7 100] comps
  show "(0, 1) \<in> linked (confirmed_edges (sort_unique [4, 3, 5]) [1, 1, 1]
      (partition_latest [4, 3, 5] sample_observations 2 7 100))" by simp
qed

theorem partition_allows_mutation_iff_connected_witness:
  "pa_state (assess_partition [4, 3, 5, 6] [1, 1, 1, 1] sample_observations 2 7 100) =
     Partition_Indeterminate"
proof -
  have len: "length (sort_unique [4, 3, 5, 6 :: MemberId]) = length [1, 1, 1, 1 :: Incarnation]"
    "sort_unique [4, 3, 5, 6 :: MemberId] \<noteq> []" "2 \<le> length (sort_unique [4, 3, 5, 6 :: MemberId])"
    by code_simp+
  have "6 \<in> set (sort_unique [4, 3, 5, 6 :: MemberId])" by simp
  moreover have "\<not> referenced (partition_latest [4, 3, 5, 6] sample_observations 2 7 100) 6"
    by code_simp
  ultimately show ?thesis
    using partition_allows_mutation_iff_connected [OF refl len(1,2) refl, of sample_observations 2 7 100]
      len(3) by blast
qed

text \<open>
  A tie between two observations of the same pair at the same tick is won by the one that comes
  first: the assessment depends on the order of the observations, although the interface announces
  the contrary. Here the same two observations, swapped, give a different verdict.
\<close>

theorem partition_depends_on_observation_order:
  "pa_state (assess_partition [3, 4] [1, 1]
     [sample_observation 3 [sample_peer 4 Reach_Reachable],
      sample_observation 3 [sample_peer 4 Reach_Unreachable],
      sample_observation 4 [sample_peer 3 Reach_Reachable]] 2 7 100) = Partition_Connected \<and>
   pa_state (assess_partition [3, 4] [1, 1]
     [sample_observation 3 [sample_peer 4 Reach_Unreachable],
      sample_observation 3 [sample_peer 4 Reach_Reachable],
      sample_observation 4 [sample_peer 3 Reach_Reachable]] 2 7 100) = Partition_Split"
  by code_simp

end
