(* ===== verification/Evidence.thy ===== *)
theory Evidence
  imports Lease Partition
begin

text \<open>
  Evidence artefacts (\<^verbatim>\<open>evidence.hpp\<close>, \<^verbatim>\<open>evidence.cpp\<close>): kinds, provenance, envelopes, the genesis
  record, the artefact body, their codecs, the body digest and the structural validation of an
  artefact. The lemmas show that a built artefact survives the wire with its digest, that a
  tampered body is caught, and what a validated artefact guarantees.
\<close>

section \<open>Kinds\<close>

datatype ArtifactKind =
    Kind_FederationGenesis | Kind_PolicyUpdate | Kind_MembershipProposal
  | Kind_MembershipAcceptance | Kind_MembershipEndorsement | Kind_MembershipAdmission
  | Kind_MembershipActivation | Kind_DelegationDeclaration | Kind_DelegationWithdrawal
  | Kind_MembershipLeave | Kind_MembershipFence | Kind_MembershipRetirement
  | Kind_MemberReattestation | Kind_LeaseIssued | Kind_LeaseRevoked | Kind_EpochAdvance
  | Kind_ReconciliationComplete | Kind_PartitionReport | Kind_TimeAdvance

text \<open>The enumerators in the order of their wire values.\<close>

definition artifact_kinds :: "ArtifactKind list" where
  "artifact_kinds =
     [Kind_FederationGenesis, Kind_PolicyUpdate, Kind_MembershipProposal,
      Kind_MembershipAcceptance, Kind_MembershipEndorsement, Kind_MembershipAdmission,
      Kind_MembershipActivation, Kind_DelegationDeclaration, Kind_DelegationWithdrawal,
      Kind_MembershipLeave, Kind_MembershipFence, Kind_MembershipRetirement,
      Kind_MemberReattestation, Kind_LeaseIssued, Kind_LeaseRevoked, Kind_EpochAdvance,
      Kind_ReconciliationComplete, Kind_PartitionReport, Kind_TimeAdvance]"

primrec kind_wire :: "ArtifactKind \<Rightarrow> u16" where
  "kind_wire Kind_FederationGenesis = 0"
| "kind_wire Kind_PolicyUpdate = 1"
| "kind_wire Kind_MembershipProposal = 2"
| "kind_wire Kind_MembershipAcceptance = 3"
| "kind_wire Kind_MembershipEndorsement = 4"
| "kind_wire Kind_MembershipAdmission = 5"
| "kind_wire Kind_MembershipActivation = 6"
| "kind_wire Kind_DelegationDeclaration = 7"
| "kind_wire Kind_DelegationWithdrawal = 8"
| "kind_wire Kind_MembershipLeave = 9"
| "kind_wire Kind_MembershipFence = 10"
| "kind_wire Kind_MembershipRetirement = 11"
| "kind_wire Kind_MemberReattestation = 12"
| "kind_wire Kind_LeaseIssued = 13"
| "kind_wire Kind_LeaseRevoked = 14"
| "kind_wire Kind_EpochAdvance = 15"
| "kind_wire Kind_ReconciliationComplete = 16"
| "kind_wire Kind_PartitionReport = 17"
| "kind_wire Kind_TimeAdvance = 18"

definition kind_from_wire :: "u16 \<Rightarrow> ArtifactKind result" where
  "kind_from_wire v =
     (if v > 18 then Fail Error_InvalidArgument ''artefact kind is out of range''
      else Inr (artifact_kinds ! unat v))"

definition kind_to_string :: "ArtifactKind \<Rightarrow> string" where
  "kind_to_string k = (case k of
     Kind_FederationGenesis \<Rightarrow> ''federation-genesis'' | Kind_PolicyUpdate \<Rightarrow> ''policy-update''
   | Kind_MembershipProposal \<Rightarrow> ''membership-proposal''
   | Kind_MembershipAcceptance \<Rightarrow> ''membership-acceptance''
   | Kind_MembershipEndorsement \<Rightarrow> ''membership-endorsement''
   | Kind_MembershipAdmission \<Rightarrow> ''membership-admission''
   | Kind_MembershipActivation \<Rightarrow> ''membership-activation''
   | Kind_DelegationDeclaration \<Rightarrow> ''delegation-declaration''
   | Kind_DelegationWithdrawal \<Rightarrow> ''delegation-withdrawal''
   | Kind_MembershipLeave \<Rightarrow> ''membership-leave'' | Kind_MembershipFence \<Rightarrow> ''membership-fence''
   | Kind_MembershipRetirement \<Rightarrow> ''membership-retirement''
   | Kind_MemberReattestation \<Rightarrow> ''member-reattestation'' | Kind_LeaseIssued \<Rightarrow> ''lease-issued''
   | Kind_LeaseRevoked \<Rightarrow> ''lease-revoked'' | Kind_EpochAdvance \<Rightarrow> ''epoch-advance''
   | Kind_ReconciliationComplete \<Rightarrow> ''reconciliation-complete''
   | Kind_PartitionReport \<Rightarrow> ''partition-report'' | Kind_TimeAdvance \<Rightarrow> ''time-advance'')"

definition parse_artifact_kind :: "string \<Rightarrow> ArtifactKind option" where
  "parse_artifact_kind s = find (\<lambda>k. kind_to_string k = s) artifact_kinds"

definition artifact_kind_requires_coordinator :: "ArtifactKind \<Rightarrow> bool" where
  "artifact_kind_requires_coordinator k \<longleftrightarrow> (case k of
     Kind_FederationGenesis \<Rightarrow> True | Kind_PolicyUpdate \<Rightarrow> True | Kind_MembershipAdmission \<Rightarrow> True
   | Kind_MembershipActivation \<Rightarrow> True | Kind_MembershipRetirement \<Rightarrow> True
   | Kind_LeaseIssued \<Rightarrow> True | Kind_LeaseRevoked \<Rightarrow> True | Kind_EpochAdvance \<Rightarrow> True
   | Kind_ReconciliationComplete \<Rightarrow> True | Kind_TimeAdvance \<Rightarrow> True | _ \<Rightarrow> False)"

definition artifact_kind_is_coordinator_issued :: "ArtifactKind \<Rightarrow> bool" where
  "artifact_kind_is_coordinator_issued k \<longleftrightarrow>
     (if k = Kind_MembershipFence then True else artifact_kind_requires_coordinator k)"

section \<open>Provenance and envelope\<close>

record Provenance =
  pv_node :: NodeId
  pv_member :: MemberId
  pv_generation :: Generation
  pv_incarnation :: Incarnation
  pv_constitution :: Digest
  pv_epoch :: Epoch
  pv_issued_at :: Tick

definition encode_provenance :: "Provenance \<Rightarrow> bytes result" where
  "encode_provenance p = w_seq
     [w_id16 (pv_node p), w_id16 (pv_member p), w_u64 (pv_generation p), w_u64 (pv_incarnation p),
      w_digest (pv_constitution p), w_u64 (pv_epoch p), w_u64 (pv_issued_at p)]"

definition decode_provenance :: "Provenance reader" where
  "decode_provenance =
     rbind r_id16 (\<lambda>node.
     rbind r_id16 (\<lambda>member.
     rbind r_u64 (\<lambda>generation.
     rbind r_u64 (\<lambda>incarnation.
     rbind r_digest (\<lambda>constitution.
     rbind r_u64 (\<lambda>epoch.
     rbind r_u64 (\<lambda>issued_at.
     r_return \<lparr>pv_node = node, pv_member = member, pv_generation = generation,
               pv_incarnation = incarnation, pv_constitution = constitution, pv_epoch = epoch,
               pv_issued_at = issued_at\<rparr>)))))))"

definition provenance_to_string :: "Provenance \<Rightarrow> string" where
  "provenance_to_string p =
     ''node='' @ node_to_string (pv_node p) @
     (if \<not> is_nil (pv_member p) then
        '' member='' @ member_to_string (pv_member p) @ '' gen='' @
        word_to_string (pv_generation p) @ '' inc='' @ word_to_string (pv_incarnation p) @
        '' digest='' @ take 16 (digest_to_hex (pv_constitution p))
      else []) @
     '' epoch='' @ word_to_string (pv_epoch p) @ '' at='' @ word_to_string (pv_issued_at p)"

record ArtifactEnvelope =
  en_evidence :: EvidenceId
  en_kind :: ArtifactKind
  en_federation :: FederationId
  en_subject :: MemberId
  en_issuer :: Provenance
  en_body_digest :: Digest

definition encode_envelope :: "ArtifactEnvelope \<Rightarrow> bytes result" where
  "encode_envelope e = w_seq
     [w_id16 (en_evidence e), w_u16 (kind_wire (en_kind e)), w_id16 (en_federation e),
      w_id16 (en_subject e), encode_provenance (en_issuer e), w_digest (en_body_digest e)]"

definition decode_envelope :: "ArtifactEnvelope reader" where
  "decode_envelope =
     rbind r_id16 (\<lambda>evidence.
     rbind r_u16 (\<lambda>kind.
     rbind (r_lift (kind_from_wire kind)) (\<lambda>kind.
     rbind r_id16 (\<lambda>federation.
     rbind r_id16 (\<lambda>subject.
     rbind decode_provenance (\<lambda>issuer.
     rbind r_digest (\<lambda>body_digest.
     r_return \<lparr>en_evidence = evidence, en_kind = kind, en_federation = federation,
               en_subject = subject, en_issuer = issuer, en_body_digest = body_digest\<rparr>)))))))"

definition envelope_to_string :: "ArtifactEnvelope \<Rightarrow> string" where
  "envelope_to_string e =
     evidence_to_string (en_evidence e) @ '' kind='' @ kind_to_string (en_kind e) @ '' subject='' @
     (if is_nil (en_subject e) then ''(federation)'' else member_to_string (en_subject e)) @
     '' issuer{'' @ provenance_to_string (en_issuer e) @ ''} body='' @
     take 16 (digest_to_hex (en_body_digest e))"

section \<open>Genesis\<close>

record FederationGenesis =
  ge_federation :: FederationId
  ge_coordinator :: NodeId
  ge_founder :: MemberDeclaration
  ge_founder_grants :: "ScopeGrant list"
  ge_policy :: FederationPolicy
  ge_description :: string
  ge_created_at :: Tick

definition encode_genesis :: "FederationGenesis \<Rightarrow> bytes result" where
  "encode_genesis g = w_seq
     [w_id16 (ge_federation g), w_id16 (ge_coordinator g), encode_declaration (ge_founder g),
      encode_grants (ge_founder_grants g) kMaxScopesPerMember, encode_policy (ge_policy g),
      w_text (ge_description g) kMaxTextLength, w_u64 (ge_created_at g)]"

definition decode_genesis :: "FederationGenesis reader" where
  "decode_genesis =
     rbind r_id16 (\<lambda>federation.
     rbind r_id16 (\<lambda>coordinator.
     rbind decode_declaration (\<lambda>founder.
     rbind (decode_grants kMaxScopesPerMember) (\<lambda>grants.
     rbind decode_policy (\<lambda>policy.
     rbind (r_text kMaxTextLength) (\<lambda>description.
     rbind r_u64 (\<lambda>created_at.
     r_return \<lparr>ge_federation = federation, ge_coordinator = coordinator, ge_founder = founder,
               ge_founder_grants = grants, ge_policy = policy, ge_description = description,
               ge_created_at = created_at\<rparr>)))))))"

definition genesis_to_string :: "FederationGenesis \<Rightarrow> string" where
  "genesis_to_string g =
     ''federation='' @ federation_to_string (ge_federation g) @ '' coordinator='' @
     node_to_string (ge_coordinator g) @ '' founder='' @
     member_to_string (mc_member (md_constitution (ge_founder g))) @ '' bootstrap_grants=['' @
     render_grants (ge_founder_grants g) @ '']''"

section \<open>Body\<close>

text \<open>The two \<^verbatim>\<open>std::size_t\<close> counters are 64-bit words, cut to 32 bits on the wire.\<close>

record ArtifactBody =
  ab_declaration :: MemberDeclaration
  ab_declared_identity :: MemberIdentity
  ab_genesis :: FederationGenesis
  ab_policy :: FederationPolicy
  ab_epoch :: Epoch
  ab_policy_generation :: Generation
  ab_policy_digest :: Digest
  ab_lineage :: Lineage
  ab_parties :: "MemberId list"
  ab_required_endorsements :: u64
  ab_required_distinct_parties :: u64
  ab_delegated_terms :: "DelegationTerms list"
  ab_withdrawn_grants :: "ScopeGrant list"
  ab_lease :: LeaseId
  ab_lease_holder :: MemberIdentity
  ab_lease_scopes :: "ScopeGrant list"
  ab_lease_issued_epoch :: Epoch
  ab_lease_not_after_epoch :: Epoch
  ab_lease_not_after :: Tick
  ab_lease_issuer_incarnation :: Incarnation
  ab_observations :: "PeerObservation list"
  ab_unreachable_members :: "MemberId list"
  ab_outcome :: Outcome
  ab_reason_code :: ReasonCode
  ab_fence_reason :: ReasonCode
  ab_reason_text :: string
  ab_logical_time :: Tick

definition canonicalize_declaration :: "MemberDeclaration \<Rightarrow> MemberDeclaration" where
  "canonicalize_declaration d =
     d\<lparr>md_constitution := canonicalize_constitution (md_constitution d)\<rparr>"

definition canonicalize_body :: "ArtifactBody \<Rightarrow> ArtifactBody" where
  "canonicalize_body b =
     b\<lparr>ab_declaration := canonicalize_declaration (ab_declaration b),
       ab_policy := canonicalize_policy (ab_policy b),
       ab_genesis := (ab_genesis b)
         \<lparr>ge_founder := canonicalize_declaration (ge_founder (ab_genesis b)),
          ge_founder_grants := canonicalize_grants (ge_founder_grants (ab_genesis b))\<rparr>,
       ab_delegated_terms := canonicalize_terms (ab_delegated_terms b),
       ab_withdrawn_grants := canonicalize_grants (ab_withdrawn_grants b),
       ab_lease_scopes := canonicalize_grants (ab_lease_scopes b),
       ab_parties := sort_unique (ab_parties b),
       ab_unreachable_members := sort_unique (ab_unreachable_members b),
       ab_observations := sort_unique (ab_observations b)\<rparr>"

text \<open>The field writer applied to the canonical copy, and the encoder that makes that copy.\<close>

definition encode_body_fields :: "ArtifactBody \<Rightarrow> bytes result" where
  "encode_body_fields b = w_seq
     [encode_declaration (ab_declaration b), encode_identity (ab_declared_identity b),
      encode_genesis (ab_genesis b), encode_policy (ab_policy b), w_u64 (ab_epoch b),
      w_u64 (ab_policy_generation b), w_digest (ab_policy_digest b), w_u64 (ab_lineage b),
      w_list w_id16 kMaxMembers (ab_parties b), w_u32 (ucast (ab_required_endorsements b)),
      w_u32 (ucast (ab_required_distinct_parties b)),
      encode_terms (ab_delegated_terms b) kMaxDelegationTermsPerMember,
      encode_grants (ab_withdrawn_grants b) kMaxScopesPerMember, w_id16 (ab_lease b),
      encode_identity (ab_lease_holder b), encode_grants (ab_lease_scopes b) kMaxScopesPerLease,
      w_u64 (ab_lease_issued_epoch b), w_u64 (ab_lease_not_after_epoch b),
      w_u64 (ab_lease_not_after b), w_u64 (ab_lease_issuer_incarnation b),
      w_list encode_peer kMaxMembersPerObservation (ab_observations b),
      w_list w_id16 kMaxMembers (ab_unreachable_members b), w_u8 (outcome_wire (ab_outcome b)),
      w_u16 (reason_value (ab_reason_code b)), w_u16 (reason_value (ab_fence_reason b)),
      w_text (ab_reason_text b) kMaxTextLength, w_u64 (ab_logical_time b)]"

definition encode_body :: "ArtifactBody \<Rightarrow> bytes result" where
  "encode_body b = encode_body_fields (canonicalize_body b)"

definition body_reason_from_wire :: "string \<Rightarrow> u16 \<Rightarrow> ReasonCode result" where
  "body_reason_from_wire message v =
     (if v > max_reason_code then Fail Error_InvalidArgument message else Inr (ReasonCode v))"

definition decode_body_fields :: "ArtifactBody reader" where
  "decode_body_fields =
     rbind decode_declaration (\<lambda>declaration.
     rbind decode_identity (\<lambda>identity.
     rbind decode_genesis (\<lambda>genesis.
     rbind decode_policy (\<lambda>policy.
     rbind r_u64 (\<lambda>epoch.
     rbind r_u64 (\<lambda>policy_generation.
     rbind r_digest (\<lambda>policy_digest.
     rbind r_u64 (\<lambda>lineage.
     rbind (r_list r_id16 kMaxMembers) (\<lambda>parties.
     rbind r_u32 (\<lambda>required_endorsements.
     rbind r_u32 (\<lambda>required_parties.
     rbind (decode_terms kMaxDelegationTermsPerMember) (\<lambda>terms.
     rbind (decode_grants kMaxScopesPerMember) (\<lambda>withdrawn.
     rbind r_id16 (\<lambda>lease.
     rbind decode_identity (\<lambda>lease_holder.
     rbind (decode_grants kMaxScopesPerLease) (\<lambda>lease_scopes.
     rbind r_u64 (\<lambda>lease_issued_epoch.
     rbind r_u64 (\<lambda>lease_not_after_epoch.
     rbind r_u64 (\<lambda>lease_not_after.
     rbind r_u64 (\<lambda>lease_issuer_incarnation.
     rbind (r_list decode_peer kMaxMembersPerObservation) (\<lambda>observations.
     rbind (r_list r_id16 kMaxMembers) (\<lambda>unreachable.
     rbind r_u8 (\<lambda>outcome.
     rbind (r_lift (outcome_from_wire ''artefact outcome is out of range'' outcome)) (\<lambda>outcome.
     rbind r_u16 (\<lambda>reason.
     rbind (r_lift (body_reason_from_wire ''artefact reason code is out of range'' reason)) (\<lambda>reason.
     rbind r_u16 (\<lambda>fence.
     rbind (r_lift (body_reason_from_wire ''artefact fence reason is out of range'' fence)) (\<lambda>fence.
     rbind (r_text kMaxTextLength) (\<lambda>reason_text.
     rbind r_u64 (\<lambda>logical_time.
     r_return
       \<lparr>ab_declaration = declaration, ab_declared_identity = identity, ab_genesis = genesis,
        ab_policy = policy, ab_epoch = epoch, ab_policy_generation = policy_generation,
        ab_policy_digest = policy_digest, ab_lineage = lineage, ab_parties = parties,
        ab_required_endorsements = ucast required_endorsements,
        ab_required_distinct_parties = ucast required_parties, ab_delegated_terms = terms,
        ab_withdrawn_grants = withdrawn, ab_lease = lease, ab_lease_holder = lease_holder,
        ab_lease_scopes = lease_scopes, ab_lease_issued_epoch = lease_issued_epoch,
        ab_lease_not_after_epoch = lease_not_after_epoch, ab_lease_not_after = lease_not_after,
        ab_lease_issuer_incarnation = lease_issuer_incarnation, ab_observations = observations,
        ab_unreachable_members = unreachable, ab_outcome = outcome, ab_reason_code = reason,
        ab_fence_reason = fence, ab_reason_text = reason_text,
        ab_logical_time = logical_time\<rparr>))))))))))))))))))))))))))))))"

definition decode_body :: "ArtifactBody reader" where
  "decode_body = rbind decode_body_fields (\<lambda>body. r_return (canonicalize_body body))"

definition body_digest :: "(bytes \<Rightarrow> Digest) \<Rightarrow> ArtifactBody \<Rightarrow> Digest" where
  "body_digest H b = digest_of H (encode_body b)"

definition body_to_string :: "(bytes \<Rightarrow> Digest) \<Rightarrow> ArtifactBody \<Rightarrow> string" where
  "body_to_string H b = ''declaration{'' @ declaration_to_string H (ab_declaration b) @ ''}''"

section \<open>Artefacts\<close>

record Artifact =
  ar_envelope :: ArtifactEnvelope
  ar_body :: ArtifactBody

definition encode_artifact :: "Artifact \<Rightarrow> bytes result" where
  "encode_artifact a = w_seq [encode_envelope (ar_envelope a), encode_body (ar_body a)]"

definition decode_artifact :: "Artifact reader" where
  "decode_artifact =
     rbind decode_envelope (\<lambda>envelope.
     rbind decode_body (\<lambda>body.
     r_return \<lparr>ar_envelope = envelope, ar_body = body\<rparr>))"

definition artifact_digest :: "(bytes \<Rightarrow> Digest) \<Rightarrow> Artifact \<Rightarrow> Digest" where
  "artifact_digest H a = digest_of H (encode_artifact a)"

definition verify_digest :: "(bytes \<Rightarrow> Digest) \<Rightarrow> Artifact \<Rightarrow> check" where
  "verify_digest H a =
     (let computed = body_digest H (ar_body a) in
      if is_zero_digest computed then Fail Error_Internal ''artefact body could not be encoded''
      else if computed \<noteq> en_body_digest (ar_envelope a) then
        Fail Error_ChecksumMismatch ''artefact body digest does not match the envelope''
      else success)"

definition make_artifact :: "(bytes \<Rightarrow> Digest) \<Rightarrow> ArtifactEnvelope \<Rightarrow> ArtifactBody \<Rightarrow> Artifact" where
  "make_artifact H envelope body =
     (let body = canonicalize_body body
      in \<lparr>ar_envelope = envelope\<lparr>en_body_digest := body_digest H body\<rparr>, ar_body = body\<rparr>)"

definition artifact_to_string :: "(bytes \<Rightarrow> Digest) \<Rightarrow> Artifact \<Rightarrow> string" where
  "artifact_to_string H a =
     envelope_to_string (ar_envelope a) @ '' digest='' @
     take 16 (digest_to_hex (artifact_digest H a)) @
     (if ab_reason_text (ar_body a) \<noteq> []
      then '' reason=\"'' @ ab_reason_text (ar_body a) @ ''\"'' else [])"

definition require :: "bool \<Rightarrow> string \<Rightarrow> check" where
  "require ok message = (if ok then success else Fail Error_InvalidArgument message)"

definition expect_empty_ids :: "MemberId list \<Rightarrow> string \<Rightarrow> check" where
  "expect_empty_ids members what =
     require (members = []) (what @ '' must not carry member identifiers'')"

definition validate_envelope :: "ArtifactEnvelope \<Rightarrow> check" where
  "validate_envelope e =
     and_then (require (\<not> is_nil (en_evidence e)) ''artefact has no evidence identifier'') (\<lambda>_.
     and_then (require (\<not> is_nil (en_federation e)) ''artefact has no federation identity'') (\<lambda>_.
     and_then (require (\<not> (is_nil (pv_node (en_issuer e)) \<and> is_nil (pv_member (en_issuer e))))
                 ''artefact has no issuer'') (\<lambda>_.
     require (\<not> (is_nil (pv_member (en_issuer e)) \<and>
                   \<not> artifact_kind_is_coordinator_issued (en_kind e)))
       (''artefact kind '' @ kind_to_string (en_kind e) @ '' must be issued by a member''))))"

definition validate_genesis :: "ScopeCatalog \<Rightarrow> ArtifactEnvelope \<Rightarrow> FederationGenesis \<Rightarrow> check" where
  "validate_genesis catalog e g =
     and_then (require (ge_federation g = en_federation e)
                 ''genesis record names a different federation'') (\<lambda>_.
     and_then (require (mc_member (md_constitution (ge_founder g)) = en_subject e)
                 ''genesis founder does not match the artefact subject'') (\<lambda>_.
     and_then (validate_constitution (md_constitution (ge_founder g)) catalog) (\<lambda>_.
     and_then (validate_policy (ge_policy g)) (\<lambda>_.
     check_all (\<lambda>grant. require (snd (classify catalog (sg_scope grant)))
                           ''bootstrap grant names an unknown scope'')
       (ge_founder_grants g)))))"

definition validate_declared ::
  "(bytes \<Rightarrow> Digest) \<Rightarrow> ScopeCatalog \<Rightarrow> ArtifactEnvelope \<Rightarrow> ArtifactBody \<Rightarrow> check" where
  "validate_declared H catalog e b =
     and_then (validate_constitution (md_constitution (ab_declaration b)) catalog) (\<lambda>_.
     and_then (require (mc_member (md_constitution (ab_declaration b)) = en_subject e)
                 ''declaration subject does not match the declared constitution'') (\<lambda>_.
     let derived = declaration_identity H (ab_declaration b) in
     require (\<not> (mi_incarnation derived \<noteq> mi_incarnation (ab_declared_identity b) \<or>
                   mi_constitution derived \<noteq> mi_constitution (ab_declared_identity b)))
       ''declared identity does not match the accompanying declaration''))"

definition validate_kind ::
  "(bytes \<Rightarrow> Digest) \<Rightarrow> ScopeCatalog \<Rightarrow> ArtifactEnvelope \<Rightarrow> ArtifactBody \<Rightarrow> check" where
  "validate_kind H catalog e b = (case en_kind e of
     Kind_FederationGenesis \<Rightarrow> validate_genesis catalog e (ab_genesis b)
   | Kind_PolicyUpdate \<Rightarrow>
       and_then (validate_policy (ab_policy b)) (\<lambda>_.
       require (fp_generation (ab_policy b) = ab_policy_generation b)
         ''policy update generation does not match its body'')
   | Kind_MembershipProposal \<Rightarrow>
       and_then (validate_constitution (md_constitution (ab_declaration b)) catalog) (\<lambda>_.
       require (mc_member (md_constitution (ab_declaration b)) = en_subject e)
         ''proposal subject does not match the declared constitution'')
   | Kind_MembershipAcceptance \<Rightarrow> validate_declared H catalog e b
   | Kind_MembershipEndorsement \<Rightarrow> validate_declared H catalog e b
   | Kind_MemberReattestation \<Rightarrow> validate_declared H catalog e b
   | Kind_MembershipAdmission \<Rightarrow>
       and_then (require (mi_member (ab_declared_identity b) = en_subject e)
                   ''admission identity does not match the artefact subject'') (\<lambda>_.
       require (\<not> (length (ab_parties b) < 2 \<and> length (ab_parties b) \<noteq> 1))
         ''admission record must name the parties it relies on'')
   | Kind_MembershipActivation \<Rightarrow>
       require (mi_member (ab_declared_identity b) = en_subject e)
         ''activation identity does not match the artefact subject''
   | Kind_DelegationDeclaration \<Rightarrow>
       and_then (validate_constitution (md_constitution (ab_declaration b)) catalog) (\<lambda>_.
       require (mi_member (ab_declared_identity b) = en_subject e)
         ''delegation declaration identity does not match the subject'')
   | Kind_DelegationWithdrawal \<Rightarrow>
       require (ab_withdrawn_grants b \<noteq> [])
         ''a delegation withdrawal must name the grants it withdraws''
   | Kind_MembershipLeave \<Rightarrow>
       require (\<not> is_nil (en_subject e)) ''lifecycle record has no subject''
   | Kind_MembershipFence \<Rightarrow>
       require (\<not> is_nil (en_subject e)) ''lifecycle record has no subject''
   | Kind_MembershipRetirement \<Rightarrow>
       require (\<not> is_nil (en_subject e)) ''lifecycle record has no subject''
   | Kind_LeaseIssued \<Rightarrow>
       and_then (require (\<not> is_nil (ab_lease b)) ''lease record has no lease identifier'') (\<lambda>_.
       and_then (require (mi_member (ab_lease_holder b) = en_subject e)
                   ''lease holder does not match the artefact subject'') (\<lambda>_.
       require (ab_lease_scopes b \<noteq> []) ''lease grants no scopes''))
   | Kind_LeaseRevoked \<Rightarrow>
       require (\<not> is_nil (ab_lease b)) ''lease revocation has no lease identifier''
   | Kind_EpochAdvance \<Rightarrow>
       require (ab_epoch b \<noteq> 0) ''epoch advance must name the new epoch''
   | Kind_ReconciliationComplete \<Rightarrow>
       and_then (require (ab_epoch b \<noteq> 0)
                   ''reconciliation record must name the epoch it closes'') (\<lambda>_.
       expect_empty_ids (ab_parties b) ''reconciliation record'')
   | Kind_PartitionReport \<Rightarrow>
       check_all (\<lambda>ob. require (\<not> is_nil (po_peer ob))
                          ''partition report contains a peer with no identity'')
         (ab_observations b)
   | Kind_TimeAdvance \<Rightarrow>
       require (ab_logical_time b \<noteq> 0) ''time advance must name the new tick'')"

definition validate_artifact :: "(bytes \<Rightarrow> Digest) \<Rightarrow> ScopeCatalog \<Rightarrow> Artifact \<Rightarrow> check" where
  "validate_artifact H catalog a =
     and_then (verify_digest H a) (\<lambda>_.
     and_then (validate_envelope (ar_envelope a)) (\<lambda>_.
     validate_kind H catalog (ar_envelope a) (ar_body a)))"

section \<open>Codec contracts\<close>

lemma kind_from_wire_wire [codec_rt]: "kind_from_wire (kind_wire k) = Inr k"
  by (cases k) (simp_all add: kind_from_wire_def artifact_kinds_def)

lemma body_reason_from_wire_value [codec_rt]:
  "reason_value c \<le> max_reason_code \<Longrightarrow> body_reason_from_wire m (reason_value c) = Inr c"
  by (simp add: body_reason_from_wire_def)

interpretation provenance_codec: codec encode_provenance decode_provenance "\<lambda>_. True"
proof
  fix x :: Provenance and rest
  show "decode_provenance (projr (encode_provenance x) @ rest) = Inr (x, rest)"
    by (cases x) (simp add: encode_provenance_def decode_provenance_def projr_w_seq codec_rt)
qed

lemma is_ok_encode_provenance [simp]: "is_ok (encode_provenance p)"
  by (simp add: encode_provenance_def is_ok_w_seq)

lemmas decode_provenance_rt [codec_rt] = provenance_codec.roundtrip

interpretation envelope_codec: codec encode_envelope decode_envelope "\<lambda>_. True"
proof
  fix x :: ArtifactEnvelope and rest
  show "decode_envelope (projr (encode_envelope x) @ rest) = Inr (x, rest)"
    by (cases x) (simp add: encode_envelope_def decode_envelope_def projr_w_seq codec_rt)
qed

lemma is_ok_encode_envelope [simp]: "is_ok (encode_envelope e)"
  by (simp add: encode_envelope_def is_ok_w_seq)

lemmas decode_envelope_rt [codec_rt] = envelope_codec.roundtrip
lemmas decode_declaration_rt [codec_rt] = declaration_codec.roundtrip
lemmas decode_ids_rt [codec_rt] = id_codec.listed

definition genesis_wf :: "FederationGenesis \<Rightarrow> bool" where
  "genesis_wf g \<longleftrightarrow> declaration_wf (ge_founder g) \<and> (\<forall>x \<in> set (ge_founder_grants g). grant_wf x) \<and>
     policy_wf (ge_policy g)"

definition genesis_canonical :: "FederationGenesis \<Rightarrow> FederationGenesis" where
  "genesis_canonical g = g\<lparr>ge_policy := canonicalize_policy (ge_policy g)\<rparr>"

lemma decode_genesis_rt [codec_rt]:
  assumes "is_ok (encode_genesis g)" "genesis_wf g"
  shows "decode_genesis (projr (encode_genesis g) @ rest) = Inr (genesis_canonical g, rest)"
  using assms
  by (cases g) (simp add: encode_genesis_def decode_genesis_def genesis_wf_def
      genesis_canonical_def is_ok_w_seq projr_w_seq codec_rt decode_encode_policy)

text \<open>The names of a body are well formed and its counters fit their wire width.\<close>

definition body_names_ok :: "ArtifactBody \<Rightarrow> bool" where
  "body_names_ok b \<longleftrightarrow>
     constitution_names_ok (md_constitution (ab_declaration b)) \<and>
     constitution_names_ok (md_constitution (ge_founder (ab_genesis b))) \<and>
     (\<forall>g \<in> set (ge_founder_grants (ab_genesis b)). grant_wf g) \<and>
     policy_wf (ge_policy (ab_genesis b)) \<and> policy_wf (ab_policy b) \<and>
     (\<forall>t \<in> set (ab_delegated_terms b). term_wf t) \<and>
     (\<forall>g \<in> set (ab_withdrawn_grants b). grant_wf g) \<and>
     (\<forall>g \<in> set (ab_lease_scopes b). grant_wf g) \<and>
     ab_required_endorsements b < 4294967296 \<and> ab_required_distinct_parties b < 4294967296 \<and>
     reason_value (ab_reason_code b) \<le> max_reason_code \<and>
     reason_value (ab_fence_reason b) \<le> max_reason_code"

text \<open>
  What decoding an encoded body yields: the canonical body, with the genesis policy canonical too
  (\<^verbatim>\<open>canonicalize_body\<close> leaves that policy alone; its own encoder sorts it).
\<close>

definition body_canonical :: "ArtifactBody \<Rightarrow> ArtifactBody" where
  "body_canonical b = (canonicalize_body b)\<lparr>ab_genesis :=
     genesis_canonical (ab_genesis (canonicalize_body b))\<rparr>"

lemma ucast_u32_u64: "(w :: u64) < 4294967296 \<Longrightarrow> (ucast (ucast w :: u32) :: u64) = w"
  by (simp add: word_unat_eq_iff unsigned_ucast_eq word_less_nat_alt unsigned_take_bit_eq
      take_bit_nat_eq_self)

lemma canonicalize_body_idem [simp]:
  "canonicalize_body (canonicalize_body b) = canonicalize_body b"
  by (simp add: canonicalize_body_def canonicalize_declaration_def canonicalize_grants_def
      canonicalize_terms_def)

definition body_fields_wf :: "ArtifactBody \<Rightarrow> bool" where
  "body_fields_wf c \<longleftrightarrow>
     declaration_wf (ab_declaration c) \<and> genesis_wf (ab_genesis c) \<and> policy_wf (ab_policy c) \<and>
     (\<forall>t \<in> set (ab_delegated_terms c). term_wf t) \<and>
     (\<forall>g \<in> set (ab_withdrawn_grants c). grant_wf g) \<and>
     (\<forall>g \<in> set (ab_lease_scopes c). grant_wf g) \<and>
     ab_required_endorsements c < 4294967296 \<and> ab_required_distinct_parties c < 4294967296 \<and>
     reason_value (ab_reason_code c) \<le> max_reason_code \<and>
     reason_value (ab_fence_reason c) \<le> max_reason_code"

lemma decode_body_fields_rt:
  assumes "is_ok (encode_body_fields c)" "body_fields_wf c"
  shows "decode_body_fields (projr (encode_body_fields c) @ rest) =
    Inr (c\<lparr>ab_genesis := genesis_canonical (ab_genesis c),
           ab_policy := canonicalize_policy (ab_policy c)\<rparr>, rest)"
  using assms
  by (cases c) (simp add: encode_body_fields_def decode_body_fields_def body_fields_wf_def
      is_ok_w_seq projr_w_seq codec_rt decode_encode_policy ucast_u32_u64)

lemma policy_wf_canonicalize [simp]: "policy_wf p \<Longrightarrow> policy_wf (canonicalize_policy p)"
  by (auto simp: policy_wf_def canonicalize_policy_def rule_wf_def)

lemma body_fields_wf_canonicalize:
  assumes "body_names_ok b"
  shows "body_fields_wf (canonicalize_body b)"
  using assms
  by (simp add: body_names_ok_def body_fields_wf_def canonicalize_body_def genesis_wf_def
      declaration_wf_def constitution_wf_def canonicalize_declaration_def canonicalize_grants_def
      canonicalize_terms_def policy_wf_canonicalize)

lemma encode_genesis_canonical [simp]: "encode_genesis (genesis_canonical g) = encode_genesis g"
  by (simp add: encode_genesis_def genesis_canonical_def encode_policy_def)

lemma canonicalize_body_canonical [simp]: "canonicalize_body (body_canonical b) = body_canonical b"
  by (simp add: body_canonical_def canonicalize_body_def canonicalize_declaration_def
      canonicalize_grants_def canonicalize_terms_def genesis_canonical_def)

lemma encode_body_canonical [simp]: "encode_body (body_canonical b) = encode_body b"
  by (simp add: encode_body_def) (simp add: body_canonical_def encode_body_fields_def)

lemma encode_body_canonicalize [simp]: "encode_body (canonicalize_body b) = encode_body b"
  by (simp add: encode_body_def)

lemma body_canonical_canonicalize [simp]: "body_canonical (canonicalize_body b) = body_canonical b"
  by (simp add: body_canonical_def)

lemma decode_encode_body:
  assumes "is_ok (encode_body b)" "body_names_ok b"
  shows "decode_body (projr (encode_body b) @ rest) = Inr (body_canonical b, rest)"
proof -
  have pol: "canonicalize_policy (ab_policy (canonicalize_body b)) = ab_policy (canonicalize_body b)"
    by (simp add: canonicalize_body_def)
  then have "(canonicalize_body b)\<lparr>ab_genesis := genesis_canonical (ab_genesis (canonicalize_body b)),
      ab_policy := canonicalize_policy (ab_policy (canonicalize_body b))\<rparr> = body_canonical b"
    unfolding body_canonical_def by simp
  with decode_body_fields_rt [of "canonicalize_body b" rest] assms show ?thesis
    by (simp add: decode_body_def encode_body_def rbind_def body_fields_wf_canonicalize)
qed

definition body_wf :: "ArtifactBody \<Rightarrow> bool" where
  "body_wf b \<longleftrightarrow> body_names_ok b \<and> body_canonical b = b"

definition artifact_wf :: "Artifact \<Rightarrow> bool" where
  "artifact_wf a \<longleftrightarrow> body_wf (ar_body a)"

interpretation body_codec: codec encode_body decode_body body_wf
  by unfold_locales (simp add: decode_encode_body body_wf_def)

lemma decode_encode_artifact:
  assumes "is_ok (encode_artifact a)" "body_names_ok (ar_body a)"
  shows "decode_artifact (projr (encode_artifact a) @ rest) =
    Inr (a\<lparr>ar_body := body_canonical (ar_body a)\<rparr>, rest)"
  using assms
  by (cases a) (simp add: encode_artifact_def decode_artifact_def is_ok_w_seq projr_w_seq codec_rt
      decode_encode_body)

interpretation artifact_codec: codec encode_artifact decode_artifact artifact_wf
  by unfold_locales (simp add: decode_encode_artifact artifact_wf_def body_wf_def)

section \<open>Validation lemmas\<close>

lemma require_ok_iff [simp]: "require ok m = Inr u \<longleftrightarrow> ok"
  by (simp add: require_def)

lemma body_digest_canonicalize [simp]: "body_digest H (canonicalize_body b) = body_digest H b"
  by (simp add: body_digest_def)

lemma verify_digest_ok_iff:
  "verify_digest H a = success \<longleftrightarrow>
     body_digest H (ar_body a) \<noteq> 0 \<and> en_body_digest (ar_envelope a) = body_digest H (ar_body a)"
  by (auto simp: verify_digest_def Let_def is_zero_digest_def)

lemma validate_artifact_ok_iff:
  "validate_artifact H catalog a = success \<longleftrightarrow>
     verify_digest H a = success \<and> validate_envelope (ar_envelope a) = success \<and>
     validate_kind H catalog (ar_envelope a) (ar_body a) = success"
  by (simp add: validate_artifact_def)

lemma validate_envelope_ok_iff:
  "validate_envelope e = success \<longleftrightarrow>
     en_evidence e \<noteq> 0 \<and> en_federation e \<noteq> 0 \<and>
     (pv_node (en_issuer e) \<noteq> 0 \<or> pv_member (en_issuer e) \<noteq> 0) \<and>
     (pv_member (en_issuer e) = 0 \<longrightarrow> artifact_kind_is_coordinator_issued (en_kind e))"
  by (auto simp: validate_envelope_def is_nil_def)

section \<open>Default values\<close>

text \<open>The default-constructed constitution, identity, policy, genesis and body.\<close>

definition empty_constitution :: MemberConstitution where
  "empty_constitution =
     \<lparr>mc_domain = 0, mc_member = 0, mc_generation = 0, mc_software_major = 0,
      mc_software_minor = 0, mc_software_patch = 0, mc_capabilities = [], mc_requirements = [],
      mc_retained = [], mc_delegated = [], mc_description = []\<rparr>"

definition empty_identity :: MemberIdentity where
  "empty_identity =
     \<lparr>mi_domain = 0, mi_member = 0, mi_generation = 0, mi_incarnation = 0, mi_constitution = 0,
      mi_node = 0, mi_started_at = 0, mi_reincarnated = False\<rparr>"

definition empty_declaration :: MemberDeclaration where
  "empty_declaration =
     \<lparr>md_constitution = empty_constitution, md_incarnation = 0, md_node = 0, md_declared_at = 0\<rparr>"

definition empty_policy :: FederationPolicy where
  "empty_policy = \<lparr>fp_id = [], fp_generation = 0, fp_rules = [], fp_description = []\<rparr>"

definition empty_genesis :: FederationGenesis where
  "empty_genesis =
     \<lparr>ge_federation = 0, ge_coordinator = 0, ge_founder = empty_declaration,
      ge_founder_grants = [], ge_policy = empty_policy, ge_description = [], ge_created_at = 0\<rparr>"

definition empty_body :: ArtifactBody where
  "empty_body =
     \<lparr>ab_declaration = empty_declaration, ab_declared_identity = empty_identity,
      ab_genesis = empty_genesis, ab_policy = empty_policy, ab_epoch = 0,
      ab_policy_generation = 0, ab_policy_digest = 0, ab_lineage = 0, ab_parties = [],
      ab_required_endorsements = 0, ab_required_distinct_parties = 0, ab_delegated_terms = [],
      ab_withdrawn_grants = [], ab_lease = 0, ab_lease_holder = empty_identity,
      ab_lease_scopes = [], ab_lease_issued_epoch = 0, ab_lease_not_after_epoch = 0,
      ab_lease_not_after = 0, ab_lease_issuer_incarnation = 0, ab_observations = [],
      ab_unreachable_members = [], ab_outcome = Outcome_Unknown,
      ab_reason_code = Reason_EvidenceUnknown, ab_fence_reason = Reason_EvidenceUnknown,
      ab_reason_text = [], ab_logical_time = 0\<rparr>"

section \<open>Properties\<close>

text \<open>
  C32: an artefact that \<^verbatim>\<open>Artifact::make\<close> builds from an encodable body passes its digest check, and
  it survives the wire: its bytes decode to an artefact with the same envelope that passes the
  digest check too and encodes to the same bytes.
\<close>

theorem made_artifact_roundtrip:
  assumes "body_names_ok b" "encode_body b = Inr bs" "H bs \<noteq> 0"
  shows "verify_digest H (make_artifact H e b) = success \<and>
    (\<exists>ws a. encode_artifact (make_artifact H e b) = Inr ws \<and>
       decode_artifact (ws @ rest) = Inr (a, rest) \<and>
       ar_envelope a = ar_envelope (make_artifact H e b) \<and> verify_digest H a = success \<and>
       encode_artifact a = Inr ws)"
proof -
  let ?a = "make_artifact H e b"
  let ?r = "?a\<lparr>ar_body := body_canonical b\<rparr>"
  have dig: "body_digest H b = H bs" "body_digest H (body_canonical b) = H bs"
    using assms(2) by (simp_all add: body_digest_def digest_of_def)
  have v: "verify_digest H ?a = success" "verify_digest H ?r = success"
    using assms(3) dig by (simp_all add: verify_digest_ok_iff make_artifact_def Let_def)
  have ok: "is_ok (encode_artifact ?a)" "encode_artifact ?r = encode_artifact ?a"
    using assms(2) by (simp_all add: encode_artifact_def make_artifact_def Let_def is_ok_w_seq)
  have "body_names_ok (ar_body ?a)"
    using assms(1) by (simp add: make_artifact_def Let_def body_names_ok_def canonicalize_body_def
        canonicalize_declaration_def canonicalize_grants_def canonicalize_terms_def)
  from decode_encode_artifact [OF ok(1) this, of rest]
  have "decode_artifact (projr (encode_artifact ?a) @ rest) = Inr (?r, rest)"
    by (simp add: make_artifact_def Let_def)
  moreover from ok(1) obtain ws where "encode_artifact ?a = Inr ws"
    by (cases "encode_artifact ?a") auto
  ultimately show ?thesis using v ok(2) by fastforce
qed

text \<open>
  C33: tampering is caught. Two well-formed bodies under one envelope both pass the digest check
  only if they are the same body, or the hash collides on their encodings.
\<close>

theorem digest_check_detects_tampering:
  assumes "verify_digest H \<lparr>ar_envelope = e, ar_body = b\<rparr> = success"
    and "verify_digest H \<lparr>ar_envelope = e, ar_body = c\<rparr> = success"
    and "body_wf b" "body_wf c"
    and "inj_on H (projr ` {encode_body b, encode_body c})"
  shows "b = c"
proof -
  have dig: "body_digest H b = body_digest H c" "body_digest H b \<noteq> 0"
    using assms(1,2) by (simp_all add: verify_digest_ok_iff)
  then obtain x y where xy: "encode_body b = Inr x" "encode_body c = Inr y"
    by (cases "encode_body b"; cases "encode_body c") (simp_all add: body_digest_def digest_of_def)
  with dig(1) have "H x = H y" by (simp add: body_digest_def digest_of_def)
  with assms(5) have "x = y" by (rule inj_onD) (simp_all add: xy)
  with xy have "is_ok (encode_body b)" "encode_body b = encode_body c" by simp_all
  then show ?thesis using assms(3,4) by (rule body_codec.enc_inject)
qed

text \<open>
  Every validated artefact is attributable: it names its evidence and its federation, it names
  an issuer, and only a coordinator kind or a fence comes without an issuing member. A validated
  consent (acceptance, endorsement, re-attestation) moreover carries a valid constitution of its
  subject, and its declared identity has exactly the digest of that constitution and the
  incarnation of that declaration.
\<close>

theorem validated_artifact_attributed:
  assumes "validate_artifact H catalog a = success"
    and "e = ar_envelope a" "d = ab_declaration (ar_body a)"
    and "i = ab_declared_identity (ar_body a)"
  shows "en_evidence e \<noteq> 0 \<and> en_federation e \<noteq> 0 \<and>
    (pv_member (en_issuer e) = 0 \<longrightarrow>
       pv_node (en_issuer e) \<noteq> 0 \<and>
       (artifact_kind_requires_coordinator (en_kind e) \<or> en_kind e = Kind_MembershipFence)) \<and>
    (en_kind e \<in> {Kind_MembershipAcceptance, Kind_MembershipEndorsement, Kind_MemberReattestation}
     \<longrightarrow> validate_constitution (md_constitution d) catalog = success \<and>
         mc_member (md_constitution d) = en_subject e \<and> en_subject e \<noteq> 0 \<and>
         mi_constitution i = constitution_digest H (md_constitution d) \<and>
         mi_incarnation i = md_incarnation d)"
proof -
  have env: "validate_envelope e = success" and kind: "validate_kind H catalog e (ar_body a) = success"
    using assms(1,2) by (simp_all add: validate_artifact_ok_iff)
  have attributed: "en_evidence e \<noteq> 0" "en_federation e \<noteq> 0"
    "pv_member (en_issuer e) = 0 \<longrightarrow> pv_node (en_issuer e) \<noteq> 0 \<and>
       (artifact_kind_requires_coordinator (en_kind e) \<or> en_kind e = Kind_MembershipFence)"
    using env by (auto simp: validate_envelope_ok_iff artifact_kind_is_coordinator_issued_def)
  have declared: "validate_constitution (md_constitution d) catalog = success \<and>
      mc_member (md_constitution d) = en_subject e \<and>
      mi_constitution i = constitution_digest H (md_constitution d) \<and>
      mi_incarnation i = md_incarnation d"
    if "en_kind e \<in> {Kind_MembershipAcceptance, Kind_MembershipEndorsement, Kind_MemberReattestation}"
  proof -
    have "validate_declared H catalog e (ar_body a) = success"
      using that kind by (elim insertE emptyE) (simp_all add: validate_kind_def)
    then show ?thesis
      using assms(3,4) by (simp add: validate_declared_def declaration_identity_def)
  qed
  moreover have "validate_constitution (md_constitution d) catalog = success \<Longrightarrow>
      mc_member (md_constitution d) \<noteq> 0"
    by (simp add: validate_constitution_ok_iff is_nil_def)
  ultimately show ?thesis using attributed by (metis (no_types, lifting))
qed

section \<open>Witnesses\<close>

definition toy_hash :: "bytes \<Rightarrow> Digest" where
  "toy_hash bs = word_of_nat (length bs)"

definition sample_body :: ArtifactBody where
  "sample_body = empty_body
     \<lparr>ab_declaration := \<lparr>md_constitution = sample_constitution 3, md_incarnation = 2, md_node = 8,
                         md_declared_at = 5\<rparr>,
      ab_declared_identity :=
        \<lparr>mi_domain = 7, mi_member = 3, mi_generation = 1, mi_incarnation = 2,
         mi_constitution = 211, mi_node = 8, mi_started_at = 5, mi_reincarnated = True\<rparr>,
      ab_parties := [4, 3]\<rparr>"

definition sample_envelope :: ArtifactEnvelope where
  "sample_envelope =
     \<lparr>en_evidence = 77, en_kind = Kind_MembershipAcceptance, en_federation = 1, en_subject = 3,
      en_issuer = \<lparr>pv_node = 8, pv_member = 3, pv_generation = 1, pv_incarnation = 2,
                   pv_constitution = 5, pv_epoch = 1, pv_issued_at = 5\<rparr>, en_body_digest = 0\<rparr>"

lemma sample_constitution_digest: "constitution_digest toy_hash (sample_constitution 3) = 211"
  by code_simp

lemma sample_body_encodes: "\<exists>bs. encode_body sample_body = Inr bs \<and> toy_hash bs \<noteq> 0"
proof -
  have "is_ok (encode_body sample_body) \<and> toy_hash (projr (encode_body sample_body)) \<noteq> 0"
    by code_simp
  then show ?thesis by (cases "encode_body sample_body") simp_all
qed

theorem made_artifact_roundtrip_witness:
  "verify_digest toy_hash (make_artifact toy_hash sample_envelope sample_body) = success"
proof -
  obtain bs where "encode_body sample_body = Inr bs" "toy_hash bs \<noteq> 0"
    using sample_body_encodes by blast
  moreover have "body_names_ok sample_body" by code_simp
  ultimately show ?thesis using made_artifact_roundtrip [of sample_body bs toy_hash] by blast
qed

lemma sample_body_canonical: "canonicalize_body sample_body = sample_body\<lparr>ab_parties := [3, 4]\<rparr>"
  by code_simp

lemma sample_artifact_valid:
  "validate_artifact toy_hash builtin (make_artifact toy_hash sample_envelope sample_body) = success"
proof -
  let ?a = "make_artifact toy_hash sample_envelope sample_body"
  have "verify_digest toy_hash ?a = success"
    using sample_body_encodes
    by (auto simp: verify_digest_ok_iff make_artifact_def body_digest_def digest_of_def)
  moreover have "validate_envelope (ar_envelope ?a) = success"
    by (simp add: validate_envelope_ok_iff make_artifact_def sample_envelope_def
        artifact_kind_is_coordinator_issued_def)
  moreover have body: "ar_body ?a = sample_body\<lparr>ab_parties := [3, 4]\<rparr>"
    by (simp add: make_artifact_def Let_def sample_body_canonical)
  have env: "en_kind (ar_envelope ?a) = Kind_MembershipAcceptance" "en_subject (ar_envelope ?a) = 3"
    by (simp_all add: make_artifact_def Let_def sample_envelope_def)
  have member: "mc_member (sample_constitution 3) = 3" by (simp add: sample_constitution_def)
  have "validate_kind toy_hash builtin (ar_envelope ?a) (ar_body ?a) = success"
    using sample_constitution_valid
    by (simp add: body env validate_kind_def validate_declared_def)
      (simp add: sample_body_def declaration_identity_def member sample_constitution_digest)
  ultimately show ?thesis by (simp add: validate_artifact_ok_iff)
qed

theorem validated_artifact_attributed_witness:
  "en_subject (ar_envelope (make_artifact toy_hash sample_envelope sample_body)) \<noteq> 0"
proof -
  have "en_kind (ar_envelope (make_artifact toy_hash sample_envelope sample_body)) =
      Kind_MembershipAcceptance"
    by (simp add: make_artifact_def sample_envelope_def)
  with validated_artifact_attributed [OF sample_artifact_valid refl refl refl] show ?thesis by simp
qed

theorem digest_check_detects_tampering_witness:
  "verify_digest toy_hash \<lparr>ar_envelope = sample_envelope\<lparr>en_body_digest :=
      body_digest toy_hash empty_body\<rparr>, ar_body = empty_body\<rparr> = success \<and>
   verify_digest toy_hash \<lparr>ar_envelope = sample_envelope\<lparr>en_body_digest :=
      body_digest toy_hash empty_body\<rparr>, ar_body = empty_body\<lparr>ab_reason_text := ''x''\<rparr>\<rparr> \<noteq> success"
proof
  let ?e = "sample_envelope\<lparr>en_body_digest := body_digest toy_hash empty_body\<rparr>"
  let ?c = "empty_body\<lparr>ab_reason_text := ''x''\<rparr>"
  show first: "verify_digest toy_hash \<lparr>ar_envelope = ?e, ar_body = empty_body\<rparr> = success"
    by code_simp
  have wf: "body_wf empty_body" "body_wf ?c" by code_simp+
  have "toy_hash (projr (encode_body empty_body)) \<noteq> toy_hash (projr (encode_body ?c))"
    by code_simp
  then have inj: "inj_on toy_hash (projr ` {encode_body empty_body, encode_body ?c})"
    by (auto simp: inj_on_def)
  have "empty_body \<noteq> ?c" by (simp add: empty_body_def)
  then show "verify_digest toy_hash \<lparr>ar_envelope = ?e, ar_body = ?c\<rparr> \<noteq> success"
    using digest_check_detects_tampering [OF first _ wf inj] by blast
qed

end
