(* ===== verification/Membership.thy ===== *)
theory Membership
  imports Evidence
begin

text \<open>
  Membership derivation (\<^verbatim>\<open>membership.hpp\<close>, \<^verbatim>\<open>membership.cpp\<close>): the multi-party assessment of an
  admission and the derivation of one member's lifecycle from the artefacts about it.

  The steps of \<^verbatim>\<open>derive_membership\<close> are one definition each, in the order of the code, threading the
  record of facts. A loop that keeps the best artefact in a pointer is \<open>select_best\<close>. Where the code
  calls \<^verbatim>\<open>std::sort\<close> with a key comparison, the model sorts stably by that key; artefacts with equal
  keys, evidence identifier included, do not occur in the lists the caller builds (it keys them by
  evidence identifier).
\<close>

section \<open>Context and facts\<close>

record MembershipContext =
  mx_federation :: FederationId
  mx_current_epoch :: Epoch
  mx_now :: Tick
  mx_policy :: FederationPolicy
  mx_catalog :: ScopeCatalog
  mx_partition :: PartitionAssessment
  mx_reconciling :: bool
  mx_established_members :: "MemberId list"
  mx_bootstrap_members :: "MemberId list"
  mx_bootstrap_declarations :: "MemberDeclaration list"

record MembershipFacts =
  mf_has_proposal :: bool
  mf_has_acceptance :: bool
  mf_has_admission :: bool
  mf_has_activation :: bool
  mf_has_leave :: bool
  mf_has_fence :: bool
  mf_has_retirement :: bool
  mf_has_reattestation :: bool
  mf_bootstrap :: bool
  mf_acceptance_matches_declaration :: bool
  mf_activation_matches_identity :: bool
  mf_activation_at_current_epoch :: bool
  mf_generation_changed_since_admission :: bool
  mf_lineage :: Lineage
  mf_endorsement_count :: nat
  mf_distinct_parties :: nat
  mf_endorsers :: "MemberId list"
  mf_declaration :: MemberDeclaration
  mf_current_identity :: MemberIdentity
  mf_admitted_identity :: MemberIdentity
  mf_delegated_terms :: "DelegationTerms list"
  mf_withdrawn_grants :: "ScopeGrant list"
  mf_contributions :: "Contribution list"
  mf_reasons :: "Reason list"
  mf_conflicts :: "ConflictRecord list"
  mf_rejected_kinds :: "ArtifactKind list"
  mf_activation_epoch :: Epoch
  mf_activation_tick :: Tick
  mf_admitted_epoch :: Epoch
  mf_fence_epoch :: Epoch
  mf_superseded_incarnations :: "Incarnation list"
  mf_fence_reason :: ReasonCode
  mf_admission_digest :: Digest
  mf_evidence :: EvidenceState
  mf_limit_reached :: bool

definition empty_facts :: MembershipFacts where
  "empty_facts =
     \<lparr>mf_has_proposal = False, mf_has_acceptance = False, mf_has_admission = False,
      mf_has_activation = False, mf_has_leave = False, mf_has_fence = False,
      mf_has_retirement = False, mf_has_reattestation = False, mf_bootstrap = False,
      mf_acceptance_matches_declaration = False, mf_activation_matches_identity = False,
      mf_activation_at_current_epoch = False, mf_generation_changed_since_admission = False,
      mf_lineage = 0, mf_endorsement_count = 0, mf_distinct_parties = 0, mf_endorsers = [],
      mf_declaration = empty_declaration, mf_current_identity = empty_identity,
      mf_admitted_identity = empty_identity, mf_delegated_terms = [], mf_withdrawn_grants = [],
      mf_contributions = [], mf_reasons = [], mf_conflicts = [], mf_rejected_kinds = [],
      mf_activation_epoch = 0, mf_activation_tick = 0, mf_admitted_epoch = 0,
      mf_fence_epoch = 0, mf_superseded_incarnations = [],
      mf_fence_reason = Reason_EvidenceUnknown, mf_admission_digest = 0,
      mf_evidence = Evidence_Unknown, mf_limit_reached = False\<rparr>"

record MembershipDerivation =
  dv_lifecycle :: MemberLifecycleState
  dv_facts :: MembershipFacts
  dv_retained_local_authority :: "ScopeGrant list"

abbreviation art_kind :: "Artifact \<Rightarrow> ArtifactKind" where
  "art_kind a \<equiv> en_kind (ar_envelope a)"

abbreviation art_evidence :: "Artifact \<Rightarrow> EvidenceId" where
  "art_evidence a \<equiv> en_evidence (ar_envelope a)"

abbreviation art_subject :: "Artifact \<Rightarrow> MemberId" where
  "art_subject a \<equiv> en_subject (ar_envelope a)"

abbreviation art_issuer :: "Artifact \<Rightarrow> MemberId" where
  "art_issuer a \<equiv> pv_member (en_issuer (ar_envelope a))"

abbreviation art_issuer_epoch :: "Artifact \<Rightarrow> Epoch" where
  "art_issuer_epoch a \<equiv> pv_epoch (en_issuer (ar_envelope a))"

abbreviation art_constitution :: "Artifact \<Rightarrow> MemberConstitution" where
  "art_constitution a \<equiv> md_constitution (ab_declaration (ar_body a))"

abbreviation art_declared :: "Artifact \<Rightarrow> MemberIdentity" where
  "art_declared a \<equiv> ab_declared_identity (ar_body a)"

definition add_reason :: "ReasonCode \<Rightarrow> string \<Rightarrow> MembershipFacts \<Rightarrow> MembershipFacts" where
  "add_reason code detail f = f\<lparr>mf_reasons := mf_reasons f @ [make_reason code detail]\<rparr>"

definition add_contribution :: "Contribution \<Rightarrow> MembershipFacts \<Rightarrow> MembershipFacts" where
  "add_contribution c f = f\<lparr>mf_contributions := mf_contributions f @ [c]\<rparr>"

text \<open>A loop over candidates that keeps the best one seen so far, the earlier one on a tie.\<close>

definition select_best :: "('a \<Rightarrow> 'a \<Rightarrow> bool) \<Rightarrow> 'a list \<Rightarrow> 'a option" where
  "select_best better xs =
     foldl (\<lambda>acc c. case acc of None \<Rightarrow> Some c | Some b \<Rightarrow> if better c b then Some c else Some b)
       None xs"

definition make_contribution ::
  "(bytes \<Rightarrow> Digest) \<Rightarrow> Artifact \<Rightarrow> ContributionRole \<Rightarrow> MemberIdentity \<Rightarrow> bool \<Rightarrow> Contribution" where
  "make_contribution H a role identity current =
     (let issuer = en_issuer (ar_envelope a) in
      \<lparr>cb_member = pv_member issuer, cb_role = role, cb_generation = pv_generation issuer,
       cb_incarnation = pv_incarnation issuer,
       cb_constitution = (if is_zero_digest (pv_constitution issuer) then mi_constitution identity
                          else pv_constitution issuer),
       cb_evidence = artifact_digest H a, cb_epoch = pv_epoch issuer,
       cb_identity_current = current, cb_note = []\<rparr>)"

section \<open>Multi-party assessment\<close>

record MultiPartyAssessment =
  mp_distinct_parties :: nat
  mp_endorsements :: nat
  mp_parties :: "MemberId list"
  mp_proposer_is_candidate :: bool
  mp_proposer_active :: bool
  mp_bootstrap :: bool
  mp_satisfied :: bool
  mp_reasons :: "Reason list"

definition admission_parties :: "MemberId \<Rightarrow> MemberId \<Rightarrow> MemberId list \<Rightarrow> MemberId list" where
  "admission_parties candidate proposer endorsers =
     sort_unique ((if \<not> is_nil proposer then [proposer] else []) @
                  (if \<not> is_nil candidate then [candidate] else []) @
                  filter (\<lambda>e. \<not> is_nil e) endorsers)"

definition counted_endorsers :: "MemberId \<Rightarrow> MemberId \<Rightarrow> MemberId list \<Rightarrow> MemberId list" where
  "counted_endorsers candidate proposer endorsers =
     sort_unique (filter (\<lambda>e. \<not> (is_nil e \<or> e = candidate \<or> e = proposer)) endorsers)"

definition assess_multi_party :: "MemberId \<Rightarrow> MemberId \<Rightarrow> bool \<Rightarrow> MemberId list \<Rightarrow>
    FederationPolicy \<Rightarrow> bool \<Rightarrow> MultiPartyAssessment" where
  "assess_multi_party candidate proposer proposer_active endorsers policy bootstrap =
     (let parties = admission_parties candidate proposer endorsers;
          distinct_parties = length parties;
          endorsements = length (counted_endorsers candidate proposer endorsers);
          base = \<lparr>mp_distinct_parties = distinct_parties, mp_endorsements = endorsements,
                  mp_parties = parties, mp_proposer_is_candidate = (proposer = candidate),
                  mp_proposer_active = proposer_active, mp_bootstrap = bootstrap,
                  mp_satisfied = False, mp_reasons = []\<rparr>
      in if bootstrap then
           base\<lparr>mp_satisfied := True, mp_reasons :=
             [make_reason Reason_MultiPartyBootstrapGenesis
                (''membership established by the federation genesis record; this is an '' @
                 ''operator-provisioned single-party bootstrap, not multi-party authority'')]\<rparr>
         else
           let few_parties = distinct_parties < required_distinct_parties policy;
               few_endorsements = endorsements < required_endorsements policy;
               satisfied = (\<not> proposer = candidate \<and> proposer_active \<and> \<not> few_parties \<and>
                            \<not> few_endorsements)
           in base\<lparr>mp_satisfied := satisfied, mp_reasons :=
                (if proposer = candidate then
                   [make_reason Reason_MultiPartySelfProposalRejected
                      ''a member cannot sponsor its own admission''] else []) @
                (if \<not> proposer_active then
                   [make_reason Reason_MultiPartyProposerNotActive
                      ''the sponsor is not an active member of this federation''] else []) @
                (if few_parties then
                   [make_reason Reason_MultiPartyInsufficientDistinctParties
                      (nat_to_string distinct_parties @
                       '' distinct part(ies) contributed, policy requires '' @
                       nat_to_string (required_distinct_parties policy))] else []) @
                (if few_endorsements then
                   [make_reason Reason_MultiPartyInsufficientEndorsements
                      (nat_to_string endorsements @
                       '' endorsement(s) from third parties, policy requires '' @
                       nat_to_string (required_endorsements policy))] else []) @
                (if satisfied then
                   [make_reason Reason_MultiPartySatisfied
                      (nat_to_string distinct_parties @ '' distinct parties, '' @
                       nat_to_string endorsements @ '' third-party endorsement(s)'')] else [])\<rparr>)"

section \<open>Lineage and collection\<close>

primrec lineage_loop :: "nat \<Rightarrow> u64 list \<Rightarrow> u64 list \<Rightarrow> u64 \<Rightarrow> u64" where
  "lineage_loop 0 leaves present lineage = lineage"
| "lineage_loop (Suc guard) leaves present lineage =
     (if lineage \<notin> set leaves \<or> lineage + 1 \<notin> set present then lineage
      else lineage_loop guard leaves present (lineage + 1))"

definition current_lineage :: "MemberId \<Rightarrow> Artifact list \<Rightarrow> u64" where
  "current_lineage member artifacts =
     lineage_loop (length artifacts + 1)
       (map (\<lambda>a. ab_lineage (ar_body a))
          (filter (\<lambda>a. art_kind a = Kind_MembershipLeave \<and> art_issuer a = member) artifacts))
       (map (\<lambda>a. ab_lineage (ar_body a)) artifacts) 0"

definition collect_kind :: "u64 \<Rightarrow> ArtifactKind \<Rightarrow> Artifact list \<Rightarrow> Artifact list" where
  "collect_kind lineage kind artifacts =
     filter (\<lambda>a. ab_lineage (ar_body a) = lineage \<and> art_kind a = kind) artifacts"

definition bootstrap_facts :: "(bytes \<Rightarrow> Digest) \<Rightarrow> MemberId \<Rightarrow> MembershipContext \<Rightarrow> MembershipFacts" where
  "bootstrap_facts H member cx =
     (if member \<notin> set (mx_bootstrap_members cx) then empty_facts
      else case find (\<lambda>d. mc_member (md_constitution d) = member) (mx_bootstrap_declarations cx) of
        None \<Rightarrow> empty_facts\<lparr>mf_bootstrap := True\<rparr>
      | Some d \<Rightarrow> empty_facts\<lparr>mf_bootstrap := True, mf_declaration := d,
                             mf_current_identity := declaration_identity H d,
                             mf_admitted_identity := declaration_identity H d\<rparr>)"

definition collect_facts :: "u64 \<Rightarrow> Artifact list \<Rightarrow> MembershipFacts \<Rightarrow> MembershipFacts" where
  "collect_facts lineage artifacts f =
     (let superseded = length (filter (\<lambda>a. ab_lineage (ar_body a) \<noteq> lineage) artifacts);
          has = (\<lambda>kind. collect_kind lineage kind artifacts \<noteq> []);
          f = f\<lparr>mf_lineage := lineage\<rparr>;
          f = (if superseded \<noteq> 0
               then add_reason Reason_ArtifactSupersededLineage
                      (nat_to_string superseded @ '' artefact(s) belong to an earlier lineage'') f
               else f)
      in f\<lparr>mf_has_proposal := has Kind_MembershipProposal,
           mf_has_acceptance := has Kind_MembershipAcceptance,
           mf_has_admission := has Kind_MembershipAdmission,
           mf_has_activation := has Kind_MembershipActivation,
           mf_has_leave := has Kind_MembershipLeave, mf_has_fence := has Kind_MembershipFence,
           mf_has_retirement := has Kind_MembershipRetirement,
           mf_has_reattestation := has Kind_MemberReattestation\<rparr>)"

section \<open>Proposal, consent, endorsement\<close>

definition set_aside_self_proposals ::
  "MemberId \<Rightarrow> Artifact list \<Rightarrow> MembershipFacts \<Rightarrow> MembershipFacts" where
  "set_aside_self_proposals member proposals f =
     foldl (\<lambda>f a. if art_issuer a = member
                  then add_reason Reason_MultiPartySelfProposalRejected
                         ''a self-proposal was recorded but cannot admit anyone'' f
                  else f) f proposals"

definition sponsored_proposals :: "MemberId \<Rightarrow> Artifact list \<Rightarrow> Artifact list" where
  "sponsored_proposals member proposals = filter (\<lambda>a. art_issuer a \<noteq> member) proposals"

text \<open>Descending generation, ascending evidence identifier.\<close>

definition proposal_key :: "Artifact \<Rightarrow> u64 \<times> EvidenceId" where
  "proposal_key a = (u64_max - mc_generation (art_constitution a), art_evidence a)"

definition better_proposal :: "Artifact \<Rightarrow> Artifact \<Rightarrow> bool" where
  "better_proposal c p \<longleftrightarrow>
     mc_generation (art_constitution p) < mc_generation (art_constitution c) \<or>
     mc_generation (art_constitution p) = mc_generation (art_constitution c) \<and>
     art_evidence c < art_evidence p"

definition operative_proposal :: "Artifact list \<Rightarrow> Artifact option" where
  "operative_proposal proposals = select_best better_proposal proposals"

definition declare_from_proposals ::
  "(bytes \<Rightarrow> Digest) \<Rightarrow> Artifact list \<Rightarrow> MembershipFacts \<Rightarrow> MembershipFacts" where
  "declare_from_proposals H proposals f =
     (case sort_key proposal_key proposals of
        [] \<Rightarrow> f
      | chosen # others \<Rightarrow>
          let conflicts = map (\<lambda>other.
                \<lparr>cr_grant = \<lparr>sg_scope = [], sg_verb = Verb_Observe\<rparr>,
                 cr_kind = Conflict_ConflictingIdentity,
                 cr_claimants = [art_issuer chosen, art_issuer other],
                 cr_detail = ''two proposals declare different constitutions for the same '' @
                             ''member and generation''\<rparr>)
                (filter (\<lambda>other. constitution_digest H (art_constitution other) \<noteq>
                                  constitution_digest H (art_constitution chosen))
                   (chosen # others));
              identity = declaration_identity H (ab_declaration (ar_body chosen))
          in f\<lparr>mf_declaration := ab_declaration (ar_body chosen),
               mf_conflicts := mf_conflicts f @ conflicts,
               mf_admitted_identity := identity, mf_current_identity := identity\<rparr>)"

definition matching_acceptance :: "MemberId \<Rightarrow> Digest \<Rightarrow> Artifact list \<Rightarrow> Artifact option" where
  "matching_acceptance member proposed acceptances =
     select_best (\<lambda>c b. art_evidence c < art_evidence b)
       (filter (\<lambda>a. art_issuer a = member \<and> mi_constitution (art_declared a) = proposed) acceptances)"

definition weigh_acceptance :: "(bytes \<Rightarrow> Digest) \<Rightarrow> MemberId \<Rightarrow> Digest \<Rightarrow> Artifact list \<Rightarrow>
    MembershipFacts \<Rightarrow> MembershipFacts" where
  "weigh_acceptance H member proposed acceptances f =
     (let stale = filter (\<lambda>a. art_issuer a = member \<and> mi_constitution (art_declared a) \<noteq> proposed)
                    acceptances;
          f = foldl (\<lambda>f _. add_reason Reason_IdentityConstitutionStale
                ''an acceptance echoes a different constitution than the proposal'' f) f stale
      in case matching_acceptance member proposed acceptances of
           Some acceptance \<Rightarrow>
             let identity = declaration_identity H (ab_declaration (ar_body acceptance))
             in add_contribution (make_contribution H acceptance Role_Candidate identity True)
                  (f\<lparr>mf_has_acceptance := True, mf_acceptance_matches_declaration := True,
                     mf_current_identity := identity\<rparr>)
         | None \<Rightarrow>
             if acceptances \<noteq> [] then
               add_reason Reason_EvidenceIncomplete
                 ''no acceptance matches the proposed constitution''
                 (f\<lparr>mf_has_acceptance := False\<rparr>)
             else f)"

text \<open>The endorsements that attest the proposed constitution, from third parties.\<close>

definition attesting :: "MemberId \<Rightarrow> MemberId \<Rightarrow> Digest \<Rightarrow> Artifact list \<Rightarrow> Artifact list" where
  "attesting member proposer proposed endorsements =
     filter (\<lambda>a. \<not> (art_issuer a = member \<or> art_issuer a = proposer) \<and>
                 mi_constitution (art_declared a) = proposed) endorsements"

definition weigh_endorsements :: "(bytes \<Rightarrow> Digest) \<Rightarrow> MemberId \<Rightarrow> MembershipContext \<Rightarrow>
    Artifact \<Rightarrow> Digest \<Rightarrow> Artifact list \<Rightarrow> MembershipFacts \<Rightarrow> MembershipFacts" where
  "weigh_endorsements H member cx proposal proposed endorsements f =
     (let attests = attesting member (art_issuer proposal) proposed endorsements;
          established = (\<lambda>a. art_issuer a \<in> set (mx_established_members cx));
          f = foldl (\<lambda>f a. if established a then f
                else add_reason Reason_MultiPartyEndorserNotActive
                  (''an endorsement from '' @ member_to_string (art_issuer a) @
                   '' was ignored because that member is not established in this federation'') f)
                f attests;
          endorsers = sort_unique (map art_issuer (filter established attests));
          f = f\<lparr>mf_endorsers := endorsers, mf_endorsement_count := length endorsers\<rparr>;
          f = foldl (\<lambda>f a. add_contribution
                (make_contribution H a Role_Endorser (art_declared a) (established a)) f) f attests
      in add_contribution
           (make_contribution H proposal Role_Proposer
              (declaration_identity H (ab_declaration (ar_body proposal))) (established proposal)) f)"

definition weigh_consent :: "(bytes \<Rightarrow> Digest) \<Rightarrow> MemberId \<Rightarrow> MembershipContext \<Rightarrow>
    Artifact list \<Rightarrow> Artifact list \<Rightarrow> Artifact list \<Rightarrow> MembershipFacts \<Rightarrow> MembershipFacts" where
  "weigh_consent H member cx proposals acceptances endorsements f =
     (case operative_proposal proposals of
        None \<Rightarrow> f
      | Some proposal \<Rightarrow>
          let proposed = constitution_digest H (art_constitution proposal)
          in weigh_endorsements H member cx proposal proposed endorsements
               (weigh_acceptance H member proposed acceptances f))"

definition reattestation_key :: "Artifact \<Rightarrow> Epoch \<times> Incarnation \<times> EvidenceId" where
  "reattestation_key a =
     (art_issuer_epoch a, md_incarnation (ab_declaration (ar_body a)), art_evidence a)"

definition apply_reattestation ::
  "(bytes \<Rightarrow> Digest) \<Rightarrow> MemberId \<Rightarrow> Artifact list \<Rightarrow> MembershipFacts \<Rightarrow> MembershipFacts" where
  "apply_reattestation H member reattestations f =
     (let owned = sort_key reattestation_key (filter (\<lambda>a. art_issuer a = member) reattestations)
      in if owned = [] then f
         else let latest = last owned
              in add_contribution
                   (make_contribution H latest Role_Candidate (art_declared latest) True)
                   (f\<lparr>mf_current_identity := art_declared latest,
                      mf_declaration := ab_declaration (ar_body latest)\<rparr>))"

section \<open>Admission\<close>

definition admission_digest_of ::
  "(bytes \<Rightarrow> Digest) \<Rightarrow> Artifact \<Rightarrow> MembershipFacts \<Rightarrow> Digest" where
  "admission_digest_of H proposal f = digest_of H (w_seq
     [w_u64 (mf_lineage f), w_digest (artifact_digest H proposal),
      w_digest (mi_constitution (mf_current_identity f)),
      w_list w_id16 kMaxMembers (mf_endorsers f)])"

text \<open>
  The recorded coordinator decision, once the evidence has been weighed. The code tests the record
  twice, for its reason and for its contribution.
\<close>

definition note_admission_record ::
  "(bytes \<Rightarrow> Digest) \<Rightarrow> bool \<Rightarrow> Artifact option \<Rightarrow> MembershipFacts \<Rightarrow> MembershipFacts" where
  "note_admission_record H valid record f =
     (case record of
        None \<Rightarrow> f
      | Some admission \<Rightarrow>
          let f = (if \<not> valid then
                     add_reason Reason_ArtifactRejected
                       (''admission record rejected: the evidence does not satisfy the '' @
                        ''multi-party rules'')
                       (f\<lparr>mf_rejected_kinds := mf_rejected_kinds f @ [Kind_MembershipAdmission]\<rparr>)
                   else if mi_constitution (art_declared admission) \<noteq>
                           mi_constitution (mf_admitted_identity f) then
                     add_reason Reason_IdentityConstitutionStale
                       (''an admission record names a constitution that has since been '' @
                        ''superseded'') f
                   else f\<lparr>mf_admitted_epoch := ab_epoch (ar_body admission)\<rparr>)
          in if valid then
               add_contribution
                 (make_contribution H admission Role_Coordinator (art_declared admission) True) f
             else f)"

definition weigh_admission :: "(bytes \<Rightarrow> Digest) \<Rightarrow> MemberId \<Rightarrow> MembershipContext \<Rightarrow>
    Artifact list \<Rightarrow> Artifact list \<Rightarrow> MembershipFacts \<Rightarrow> MembershipFacts \<times> bool" where
  "weigh_admission H member cx proposals admissions f =
     (case operative_proposal proposals of
        Some proposal \<Rightarrow>
          let multi = assess_multi_party member (art_issuer proposal)
                (art_issuer proposal \<in> set (mx_established_members cx)) (mf_endorsers f)
                (mx_policy cx) False;
              f = f\<lparr>mf_distinct_parties := mp_distinct_parties multi,
                    mf_reasons := mf_reasons f @ mp_reasons multi\<rparr>;
              f = (if \<not> mf_acceptance_matches_declaration f then
                     add_reason Reason_EvidenceIncomplete
                       ''the candidate has not consented to the proposed constitution'' f
                   else f);
              admission = select_best (\<lambda>c b. art_evidence c < art_evidence b) admissions;
              f = f\<lparr>mf_admission_digest := admission_digest_of H proposal f\<rparr>;
              valid = (mp_satisfied multi \<and> mf_acceptance_matches_declaration f);
              f = (if \<not> valid then
                     add_reason Reason_MembershipProposedInsufficientEvidence
                       (''the evidence does not yet satisfy the multi-party rules for '' @
                        ''admission'') f
                   else f)
          in (note_admission_record H valid admission f, valid)
      | None \<Rightarrow>
          if member \<in> set (mx_bootstrap_members cx) then
            (add_contribution
               \<lparr>cb_member = member, cb_role = Role_Candidate,
                cb_generation = mc_generation (md_constitution (mf_declaration f)),
                cb_incarnation = md_incarnation (mf_declaration f),
                cb_constitution = constitution_digest H (md_constitution (mf_declaration f)),
                cb_evidence = 0, cb_epoch = 1, cb_identity_current = True,
                cb_note = ''genesis founder''\<rparr>
               (add_reason Reason_MultiPartyBootstrapGenesis
                  ''membership established by the genesis record (single-party bootstrap)''
                  (f\<lparr>mf_distinct_parties := 1\<rparr>)), True)
          else (f, False))"

section \<open>Fences and activation\<close>

definition fence_step :: "MemberId \<Rightarrow> bool \<times> Epoch \<times> ReasonCode \<Rightarrow> Artifact \<Rightarrow>
    bool \<times> Epoch \<times> ReasonCode" where
  "fence_step member acc a =
     (case acc of (fenced, fence_epoch, reason) \<Rightarrow>
        if art_issuer a \<noteq> member \<and> art_issuer a \<noteq> 0 then acc
        else if \<not> fenced \<or> fence_epoch < ab_epoch (ar_body a)
        then (True, ab_epoch (ar_body a), ab_fence_reason (ar_body a))
        else acc)"

definition apply_fences ::
  "MemberId \<Rightarrow> Artifact list \<Rightarrow> MembershipFacts \<Rightarrow> MembershipFacts \<times> bool" where
  "apply_fences member fences f =
     (case foldl (fence_step member) (False, 0, mf_fence_reason f) fences of
        (fenced, fence_epoch, reason) \<Rightarrow>
          (f\<lparr>mf_fence_reason := reason, mf_fence_epoch := fence_epoch\<rparr>, fenced))"

definition latest_activation :: "Artifact list \<Rightarrow> Artifact option" where
  "latest_activation activations =
     select_best (\<lambda>c b. ab_epoch (ar_body c) > ab_epoch (ar_body b) \<or>
                        ab_epoch (ar_body c) = ab_epoch (ar_body b) \<and>
                        art_evidence c < art_evidence b) activations"

definition note_superseded :: "Artifact list \<Rightarrow> MembershipFacts \<Rightarrow> MembershipFacts" where
  "note_superseded activations f =
     f\<lparr>mf_superseded_incarnations := sort_unique (mf_superseded_incarnations f @
         filter (\<lambda>i. i \<noteq> mi_incarnation (mf_current_identity f))
           (map (\<lambda>a. mi_incarnation (art_declared a)) activations))\<rparr>"

text \<open>
  The currency loop: every re-attestation of the member overwrites what the activation and the
  earlier re-attestations said, so the last one in list order decides.
\<close>

definition currency_step :: "MemberId \<Rightarrow> Epoch \<Rightarrow> MembershipFacts \<times> bool \<Rightarrow> Artifact \<Rightarrow>
    MembershipFacts \<times> bool" where
  "currency_step member current acc a =
     (if art_issuer a \<noteq> member then acc
      else ((fst acc)\<lparr>mf_activation_epoch := ab_epoch (ar_body a),
                      mf_activation_tick := pv_issued_at (en_issuer (ar_envelope a))\<rparr>,
            ab_epoch (ar_body a) \<ge> current))"

definition weigh_activation :: "MemberId \<Rightarrow> MembershipContext \<Rightarrow> Artifact option \<Rightarrow>
    Artifact list \<Rightarrow> bool \<Rightarrow> MembershipFacts \<Rightarrow> MembershipFacts" where
  "weigh_activation member cx activation reattestations admission_valid f =
     (let (f, current) = (case activation of
            Some a \<Rightarrow> (f\<lparr>mf_activation_epoch := ab_epoch (ar_body a),
                        mf_activation_tick := pv_issued_at (en_issuer (ar_envelope a))\<rparr>,
                      ab_epoch (ar_body a) = mx_current_epoch cx)
          | None \<Rightarrow> (f, True));
          (f, current) = foldl (currency_step member (mx_current_epoch cx)) (f, current)
                           reattestations
      in f\<lparr>mf_activation_matches_identity :=
             (admission_valid \<and>
              mi_constitution (mf_current_identity f) = mi_constitution (mf_admitted_identity f)),
           mf_activation_at_current_epoch := current,
           mf_generation_changed_since_admission :=
             (mi_generation (mf_admitted_identity f) \<noteq> 0 \<and>
              mi_generation (mf_current_identity f) \<noteq> mi_generation (mf_admitted_identity f))\<rparr>)"

section \<open>Lifecycle\<close>

text \<open>The reasons that degrade an otherwise active member.\<close>

definition degradations :: "MembershipContext \<Rightarrow> MembershipFacts \<Rightarrow> Reason list" where
  "degradations cx f =
     (let policy = mx_policy cx; required = mandatory_capabilities policy;
          report = evaluate_compatibility required
                     (mc_capabilities (md_constitution (mf_declaration f)))
      in (if mx_reconciling cx \<and> suspend_global_mutation_while_reconciling policy then
            [make_reason Reason_PartitionReconcilingSuspendsGlobalMutation
               ''the federation is reconciling after a partition''] else []) @
         (if pa_state (mx_partition cx) = Partition_Split \<and>
             suspend_global_mutation_on_partition policy then
            [make_reason Reason_PartitionSplitSuspendsGlobalMutation
               (''the active set is partitioned; global-mutation authority is suspended for '' @
                ''every component'')]
          else if pa_state (mx_partition cx) = Partition_Indeterminate \<and>
                  suspend_global_mutation_on_partition policy then
            [make_reason Reason_PartitionIndeterminateSuspendsGlobalMutation
               (''reachability evidence is incomplete; global-mutation authority is suspended '' @
                ''rather than assumed'')] else []) @
         (if required \<noteq> [] \<and> rp_state report \<noteq> Compat_Satisfied then
            [make_reason Reason_MembershipDegradedObservationGap
               (''mandatory capability evidence is '' @ compatibility_to_string (rp_state report) @
                '': '' @ rp_summary report)] else []))"

definition current_standing ::
  "MembershipContext \<Rightarrow> MembershipFacts \<Rightarrow> MemberLifecycleState \<times> MembershipFacts" where
  "current_standing cx f =
     (let why = degradations cx f; f = f\<lparr>mf_reasons := mf_reasons f @ why\<rparr>
      in if why \<noteq> [] then (Lifecycle_Degraded, f)
         else (Lifecycle_Active, add_reason Reason_MembershipActive
                (''active at epoch '' @ word_to_string (mx_current_epoch cx)) f))"

definition identity_drift ::
  "MembershipContext \<Rightarrow> MembershipFacts \<Rightarrow> MemberLifecycleState \<times> MembershipFacts" where
  "identity_drift cx f =
     (if mf_generation_changed_since_admission f \<and> reconsent_on_generation_change (mx_policy cx)
      then (Lifecycle_Fenced, add_reason Reason_GenerationChangeRequiresReconsent
              (''the member declared generation '' @
               word_to_string (mi_generation (mf_current_identity f)) @
               '' but consented at generation '' @
               word_to_string (mi_generation (mf_admitted_identity f)) @
               ''; fresh consent is required'') f)
      else
        let f = (if mf_generation_changed_since_admission f then
                   add_reason Reason_GenerationChangeAcceptedByPolicy
                     ''policy allows a generation change without fresh consent'' f
                 else f)
        in (Lifecycle_Admitted, add_reason Reason_MembershipRequiresReattestation
              (''the active activation is bound to a different identity; reactivation at the '' @
               ''current epoch is required'') f))"

definition decide_lifecycle :: "MemberId \<Rightarrow> MembershipContext \<Rightarrow> Artifact option \<Rightarrow> bool \<Rightarrow> bool \<Rightarrow>
    MembershipFacts \<Rightarrow> MemberLifecycleState \<times> MembershipFacts" where
  "decide_lifecycle member cx activation fenced admission_valid f =
     (if mf_has_retirement f then
        (Lifecycle_Retired, add_reason Reason_MembershipRetired
           ''a retirement record closed this membership lineage'' f)
      else if mf_has_leave f then
        (Lifecycle_Leaving, add_reason Reason_MembershipLeaving
           (''the member has left; federation authority has ended and no local authority '' @
            ''was affected'') f)
      else if \<not> mf_has_proposal f \<and> member \<notin> set (mx_bootstrap_members cx) then
        (Lifecycle_Absent, add_reason Reason_MembershipAbsent
           ''no proposal exists for this member in the current lineage'' f)
      else if fenced \<and> (case activation of None \<Rightarrow> True
                         | Some a \<Rightarrow> \<not> mf_fence_epoch f < ab_epoch (ar_body a)) then
        (Lifecycle_Fenced, add_reason Reason_MembershipFencedByOrder
           ''a fence is in force and no activation at a later epoch has cleared it'' f)
      else if \<not> admission_valid then
        (Lifecycle_Proposed, add_reason Reason_MembershipProposedInsufficientEvidence
           ''the proposal has not been admitted; no federation authority is held'' f)
      else if activation = None then
        (Lifecycle_Admitted, add_reason Reason_MembershipAdmittedPendingActivation
           ''admitted but not yet activated at the current epoch'' f)
      else if \<not> mf_activation_matches_identity f then identity_drift cx f
      else if \<not> mf_activation_at_current_epoch f then
        (Lifecycle_Degraded, add_reason Reason_MembershipRequiresReattestation
           (''the activation belongs to epoch '' @ word_to_string (mf_activation_epoch f) @
            '', the federation is at epoch '' @ word_to_string (mx_current_epoch cx)) f)
      else current_standing cx f)"

definition evidence_quality ::
  "MembershipContext \<Rightarrow> MemberLifecycleState \<Rightarrow> MembershipFacts \<Rightarrow> EvidenceState" where
  "evidence_quality cx lifecycle f =
     (if mf_conflicts f \<noteq> [] then Evidence_Conflicting
      else if lifecycle = Lifecycle_Absent then Evidence_Unknown
      else if lifecycle = Lifecycle_Proposed then Evidence_Incomplete
      else if pa_state (mx_partition cx) = Partition_Indeterminate then Evidence_Indeterminate
      else Evidence_Known)"

definition latest_delegation :: "MemberId \<Rightarrow> Artifact list \<Rightarrow> Artifact option" where
  "latest_delegation member delegations =
     select_best (\<lambda>c b. art_issuer_epoch b < art_issuer_epoch c \<or>
                        art_issuer_epoch b = art_issuer_epoch c \<and> art_evidence c < art_evidence b)
       (filter (\<lambda>a. art_issuer a = member) delegations)"

definition settle_delegation ::
  "MemberId \<Rightarrow> Artifact list \<Rightarrow> Artifact list \<Rightarrow> MembershipFacts \<Rightarrow> MembershipFacts" where
  "settle_delegation member delegations withdrawals f =
     (let f = (if delegations \<noteq> [] then
                 f\<lparr>mf_delegated_terms := (case latest_delegation member delegations of
                     Some latest \<Rightarrow> ab_delegated_terms (ar_body latest)
                   | None \<Rightarrow> mc_delegated (md_constitution (mf_declaration f)))\<rparr>
               else if mc_delegated (md_constitution (mf_declaration f)) \<noteq> [] then
                 f\<lparr>mf_delegated_terms := mc_delegated (md_constitution (mf_declaration f))\<rparr>
               else f)
      in f\<lparr>mf_withdrawn_grants := canonicalize_grants (mf_withdrawn_grants f @
             concat (map (\<lambda>a. ab_withdrawn_grants (ar_body a))
               (filter (\<lambda>a. art_issuer a = member) withdrawals)))\<rparr>)"

definition derive_membership :: "(bytes \<Rightarrow> Digest) \<Rightarrow> MemberId \<Rightarrow> Artifact list \<Rightarrow>
    MembershipContext \<Rightarrow> MembershipDerivation" where
  "derive_membership H member artifacts cx =
     (let lineage = current_lineage member artifacts;
          of_kind = (\<lambda>kind. collect_kind lineage kind artifacts);
          all_proposals = of_kind Kind_MembershipProposal;
          proposals = sponsored_proposals member all_proposals;
          reattestations = of_kind Kind_MemberReattestation;
          f = collect_facts lineage artifacts (bootstrap_facts H member cx);
          f = set_aside_self_proposals member all_proposals f;
          f = declare_from_proposals H proposals f;
          f = weigh_consent H member cx proposals (of_kind Kind_MembershipAcceptance)
                (of_kind Kind_MembershipEndorsement) f;
          f = apply_reattestation H member reattestations f;
          (f, admission_valid) =
            weigh_admission H member cx proposals (of_kind Kind_MembershipAdmission) f;
          (f, fenced) = apply_fences member (of_kind Kind_MembershipFence) f;
          activation = latest_activation (of_kind Kind_MembershipActivation);
          f = note_superseded (of_kind Kind_MembershipActivation) f;
          f = weigh_activation member cx activation reattestations admission_valid f;
          (lifecycle, f) = decide_lifecycle member cx activation fenced admission_valid f;
          f = f\<lparr>mf_evidence := evidence_quality cx lifecycle f\<rparr>;
          f = settle_delegation member (of_kind Kind_DelegationDeclaration)
                (of_kind Kind_DelegationWithdrawal) f
      in \<lparr>dv_lifecycle = lifecycle, dv_facts = f,
          dv_retained_local_authority =
            canonicalize_grants (mc_retained (md_constitution (mf_declaration f)))\<rparr>)"

section \<open>Frame lemmas\<close>

lemma add_reason_frame [simp]:
  "mf_has_proposal (add_reason c d f) = mf_has_proposal f"
  "mf_has_acceptance (add_reason c d f) = mf_has_acceptance f"
  "mf_has_admission (add_reason c d f) = mf_has_admission f"
  "mf_has_activation (add_reason c d f) = mf_has_activation f"
  "mf_has_leave (add_reason c d f) = mf_has_leave f"
  "mf_has_fence (add_reason c d f) = mf_has_fence f"
  "mf_has_retirement (add_reason c d f) = mf_has_retirement f"
  "mf_has_reattestation (add_reason c d f) = mf_has_reattestation f"
  "mf_bootstrap (add_reason c d f) = mf_bootstrap f"
  "mf_acceptance_matches_declaration (add_reason c d f) = mf_acceptance_matches_declaration f"
  "mf_activation_matches_identity (add_reason c d f) = mf_activation_matches_identity f"
  "mf_activation_at_current_epoch (add_reason c d f) = mf_activation_at_current_epoch f"
  "mf_generation_changed_since_admission (add_reason c d f) = mf_generation_changed_since_admission f"
  "mf_lineage (add_reason c d f) = mf_lineage f"
  "mf_endorsement_count (add_reason c d f) = mf_endorsement_count f"
  "mf_distinct_parties (add_reason c d f) = mf_distinct_parties f"
  "mf_endorsers (add_reason c d f) = mf_endorsers f"
  "mf_declaration (add_reason c d f) = mf_declaration f"
  "mf_current_identity (add_reason c d f) = mf_current_identity f"
  "mf_admitted_identity (add_reason c d f) = mf_admitted_identity f"
  "mf_delegated_terms (add_reason c d f) = mf_delegated_terms f"
  "mf_withdrawn_grants (add_reason c d f) = mf_withdrawn_grants f"
  "mf_contributions (add_reason c d f) = mf_contributions f"
  "mf_conflicts (add_reason c d f) = mf_conflicts f"
  "mf_rejected_kinds (add_reason c d f) = mf_rejected_kinds f"
  "mf_activation_epoch (add_reason c d f) = mf_activation_epoch f"
  "mf_activation_tick (add_reason c d f) = mf_activation_tick f"
  "mf_admitted_epoch (add_reason c d f) = mf_admitted_epoch f"
  "mf_fence_epoch (add_reason c d f) = mf_fence_epoch f"
  "mf_superseded_incarnations (add_reason c d f) = mf_superseded_incarnations f"
  "mf_fence_reason (add_reason c d f) = mf_fence_reason f"
  "mf_admission_digest (add_reason c d f) = mf_admission_digest f"
  "mf_evidence (add_reason c d f) = mf_evidence f"
  "mf_limit_reached (add_reason c d f) = mf_limit_reached f"
  by (simp_all add: add_reason_def)

lemma add_contribution_frame [simp]:
  "mf_has_proposal (add_contribution c f) = mf_has_proposal f"
  "mf_has_acceptance (add_contribution c f) = mf_has_acceptance f"
  "mf_has_admission (add_contribution c f) = mf_has_admission f"
  "mf_has_activation (add_contribution c f) = mf_has_activation f"
  "mf_has_leave (add_contribution c f) = mf_has_leave f"
  "mf_has_fence (add_contribution c f) = mf_has_fence f"
  "mf_has_retirement (add_contribution c f) = mf_has_retirement f"
  "mf_has_reattestation (add_contribution c f) = mf_has_reattestation f"
  "mf_bootstrap (add_contribution c f) = mf_bootstrap f"
  "mf_acceptance_matches_declaration (add_contribution c f) = mf_acceptance_matches_declaration f"
  "mf_activation_matches_identity (add_contribution c f) = mf_activation_matches_identity f"
  "mf_activation_at_current_epoch (add_contribution c f) = mf_activation_at_current_epoch f"
  "mf_generation_changed_since_admission (add_contribution c f) = mf_generation_changed_since_admission f"
  "mf_lineage (add_contribution c f) = mf_lineage f"
  "mf_endorsement_count (add_contribution c f) = mf_endorsement_count f"
  "mf_distinct_parties (add_contribution c f) = mf_distinct_parties f"
  "mf_endorsers (add_contribution c f) = mf_endorsers f"
  "mf_declaration (add_contribution c f) = mf_declaration f"
  "mf_current_identity (add_contribution c f) = mf_current_identity f"
  "mf_admitted_identity (add_contribution c f) = mf_admitted_identity f"
  "mf_delegated_terms (add_contribution c f) = mf_delegated_terms f"
  "mf_withdrawn_grants (add_contribution c f) = mf_withdrawn_grants f"
  "mf_reasons (add_contribution c f) = mf_reasons f"
  "mf_conflicts (add_contribution c f) = mf_conflicts f"
  "mf_rejected_kinds (add_contribution c f) = mf_rejected_kinds f"
  "mf_activation_epoch (add_contribution c f) = mf_activation_epoch f"
  "mf_activation_tick (add_contribution c f) = mf_activation_tick f"
  "mf_admitted_epoch (add_contribution c f) = mf_admitted_epoch f"
  "mf_fence_epoch (add_contribution c f) = mf_fence_epoch f"
  "mf_superseded_incarnations (add_contribution c f) = mf_superseded_incarnations f"
  "mf_fence_reason (add_contribution c f) = mf_fence_reason f"
  "mf_admission_digest (add_contribution c f) = mf_admission_digest f"
  "mf_evidence (add_contribution c f) = mf_evidence f"
  "mf_limit_reached (add_contribution c f) = mf_limit_reached f"
  by (simp_all add: add_contribution_def)

lemma foldl_frame:
  "(\<And>f x. P (g f x) = P f) \<Longrightarrow> P (foldl g f xs) = P f"
  by (induction xs arbitrary: f) simp_all

text \<open>A step that changes only the reasons and the contributions.\<close>

definition same_core :: "MembershipFacts \<Rightarrow> MembershipFacts \<Rightarrow> bool" where
  "same_core f g \<longleftrightarrow> g = f\<lparr>mf_reasons := mf_reasons g, mf_contributions := mf_contributions g\<rparr>"

lemma same_core_refl [simp]: "same_core f f"
  by (simp add: same_core_def)

lemma same_core_trans: "same_core f g \<Longrightarrow> same_core g h \<Longrightarrow> same_core f h"
  by (cases f, cases g, cases h) (simp add: same_core_def)

lemma same_core_add_reason [simp]: "same_core f (add_reason c d f)"
  by (simp add: same_core_def add_reason_def)

lemma same_core_add_contribution [simp]: "same_core f (add_contribution c f)"
  by (simp add: same_core_def add_contribution_def)

lemma same_core_foldl: "(\<And>f x. same_core f (g f x)) \<Longrightarrow> same_core f (foldl g f xs)"
  by (induction xs arbitrary: f) (auto intro: same_core_trans)

lemma same_coreD:
  assumes "same_core f g"
  shows "mf_has_retirement g = mf_has_retirement f"
    "mf_has_leave g = mf_has_leave f"
    "mf_has_proposal g = mf_has_proposal f"
    "mf_endorsers g = mf_endorsers f"
    "mf_acceptance_matches_declaration g = mf_acceptance_matches_declaration f"
    "mf_current_identity g = mf_current_identity f"
    "mf_admitted_identity g = mf_admitted_identity f"
    "mf_declaration g = mf_declaration f"
    "mf_fence_epoch g = mf_fence_epoch f"
    "mf_has_admission g = mf_has_admission f"
    "mf_has_reattestation g = mf_has_reattestation f"
    "mf_bootstrap g = mf_bootstrap f"
    "mf_lineage g = mf_lineage f"
    "mf_conflicts g = mf_conflicts f"
proof -
  obtain rs cs where "g = f\<lparr>mf_reasons := rs, mf_contributions := cs\<rparr>"
    using assms unfolding same_core_def by blast
  then show "mf_has_retirement g = mf_has_retirement f"
    "mf_has_leave g = mf_has_leave f"
    "mf_has_proposal g = mf_has_proposal f"
    "mf_endorsers g = mf_endorsers f"
    "mf_acceptance_matches_declaration g = mf_acceptance_matches_declaration f"
    "mf_current_identity g = mf_current_identity f"
    "mf_admitted_identity g = mf_admitted_identity f"
    "mf_declaration g = mf_declaration f"
    "mf_fence_epoch g = mf_fence_epoch f"
    "mf_has_admission g = mf_has_admission f"
    "mf_has_reattestation g = mf_has_reattestation f"
    "mf_bootstrap g = mf_bootstrap f"
    "mf_lineage g = mf_lineage f"
    "mf_conflicts g = mf_conflicts f"
    by simp_all
qed

section \<open>Selections\<close>

lemma hd_insort_key:
  "hd (insort_key k x ys) = (if ys = [] \<or> k x \<le> k (hd ys) then x else hd ys)"
  by (cases ys) simp_all

lemma select_best_fold:
  fixes k :: "'a \<Rightarrow> 'b::linorder"
  shows "foldl (\<lambda>acc c. case acc of None \<Rightarrow> Some c | Some b \<Rightarrow> if k c < k b then Some c else Some b)
           (Some b) xs = Some (hd (sort_key k (b # xs)))"
proof (induction xs arbitrary: b)
  case Nil
  then show ?case by simp
next
  case (Cons x xs)
  have "hd (sort_key k ((if k x < k b then x else b) # xs)) = hd (sort_key k (b # x # xs))"
    by (cases "sort_key k xs") (auto simp: hd_insort_key not_less)
  with Cons [of "if k x < k b then x else b"] show ?case by (simp split: if_splits)
qed

text \<open>Keeping the best candidate in a pointer is taking the first of the stably sorted list.\<close>

lemma select_best_sort:
  fixes k :: "'a \<Rightarrow> 'b::linorder"
  shows "select_best (\<lambda>c b. k c < k b) xs = (if xs = [] then None else Some (hd (sort_key k xs)))"
  by (cases xs) (simp_all add: select_best_def select_best_fold)

lemma better_proposal_key: "better_proposal c p \<longleftrightarrow> proposal_key c < proposal_key p"
proof -
  have "u64_max - x < u64_max - y \<longleftrightarrow> y < x" for x y :: u64
    using unat_u64_less [of x] unat_u64_less [of y]
    by (auto simp: word_less_nat_alt unat_u64_max_minus)
  moreover have "u64_max - x \<le> u64_max - y \<longleftrightarrow> y \<le> x" for x y :: u64
    by (simp add: linorder_not_less [symmetric] calculation)
  ultimately show ?thesis
    by (auto simp: better_proposal_def proposal_key_def less_le_not_le [of _ _])
qed

lemma operative_proposal_sort:
  "operative_proposal ps = (if ps = [] then None else Some (hd (sort_key proposal_key ps)))"
proof -
  have "better_proposal = (\<lambda>c p. proposal_key c < proposal_key p)"
    by (intro ext) (rule better_proposal_key)
  then show ?thesis unfolding operative_proposal_def using select_best_sort [of proposal_key ps]
    by simp
qed

lemma select_best_mem: "select_best better xs = Some x \<Longrightarrow> x \<in> set xs"
proof -
  have "foldl (\<lambda>acc c. case acc of None \<Rightarrow> Some c | Some b \<Rightarrow> if better c b then Some c else Some b)
      acc xs = Some x \<Longrightarrow> x \<in> set xs \<or> acc = Some x" for acc
    by (induction xs arbitrary: acc) (fastforce split: option.splits if_splits)+
  then show "select_best better xs = Some x \<Longrightarrow> x \<in> set xs" by (auto simp: select_best_def)
qed

lemma select_best_None_iff: "select_best better xs = None \<longleftrightarrow> xs = []"
proof -
  have "foldl (\<lambda>acc c. case acc of None \<Rightarrow> Some c | Some b \<Rightarrow> if better c b then Some c else Some b)
      (Some b) ys \<noteq> None" for b ys
    by (induction ys arbitrary: b) simp_all
  then show ?thesis by (cases xs) (simp_all add: select_best_def)
qed

lemma operative_proposal_mem: "operative_proposal ps = Some p \<Longrightarrow> p \<in> set ps"
  unfolding operative_proposal_def by (rule select_best_mem)

lemma operative_proposal_None_iff [simp]: "operative_proposal ps = None \<longleftrightarrow> ps = []"
  by (simp add: operative_proposal_def select_best_None_iff)

section \<open>What each step settles\<close>

lemma set_aside_core: "same_core f (set_aside_self_proposals member ps f)"
  unfolding set_aside_self_proposals_def by (rule same_core_foldl) simp

lemmas set_aside_simps [simp] = same_coreD [OF set_aside_core]

lemma collect_facts_simps [simp]:
  "mf_has_retirement (collect_facts ln arts f) \<longleftrightarrow>
     collect_kind ln Kind_MembershipRetirement arts \<noteq> []"
  "mf_has_leave (collect_facts ln arts f) \<longleftrightarrow> collect_kind ln Kind_MembershipLeave arts \<noteq> []"
  "mf_has_proposal (collect_facts ln arts f) \<longleftrightarrow> collect_kind ln Kind_MembershipProposal arts \<noteq> []"
  "mf_has_reattestation (collect_facts ln arts f) \<longleftrightarrow>
     collect_kind ln Kind_MemberReattestation arts \<noteq> []"
  "mf_acceptance_matches_declaration (collect_facts ln arts f) =
     mf_acceptance_matches_declaration f"
  "mf_current_identity (collect_facts ln arts f) = mf_current_identity f"
  "mf_admitted_identity (collect_facts ln arts f) = mf_admitted_identity f"
  "mf_declaration (collect_facts ln arts f) = mf_declaration f"
  "mf_endorsers (collect_facts ln arts f) = mf_endorsers f"
  by (simp_all add: collect_facts_def Let_def)

lemma bootstrap_facts_simps [simp]:
  "\<not> mf_acceptance_matches_declaration (bootstrap_facts H member cx)"
  "mf_endorsers (bootstrap_facts H member cx) = []"
  "mf_admitted_identity (bootstrap_facts H member cx) =
     mf_current_identity (bootstrap_facts H member cx)"
  by (simp_all add: bootstrap_facts_def empty_facts_def split: option.split)

lemma declare_simps [simp]:
  "mf_has_retirement (declare_from_proposals H ps f) = mf_has_retirement f"
  "mf_has_leave (declare_from_proposals H ps f) = mf_has_leave f"
  "mf_has_proposal (declare_from_proposals H ps f) = mf_has_proposal f"
  "mf_has_reattestation (declare_from_proposals H ps f) = mf_has_reattestation f"
  "mf_acceptance_matches_declaration (declare_from_proposals H ps f) =
     mf_acceptance_matches_declaration f"
  "mf_endorsers (declare_from_proposals H ps f) = mf_endorsers f"
  by (simp_all add: declare_from_proposals_def Let_def split: list.split)

lemma declare_identities:
  "mf_admitted_identity (declare_from_proposals H ps f) =
     (case operative_proposal ps of None \<Rightarrow> mf_admitted_identity f
      | Some p \<Rightarrow> declaration_identity H (ab_declaration (ar_body p)))"
  "mf_current_identity (declare_from_proposals H ps f) =
     (case operative_proposal ps of None \<Rightarrow> mf_current_identity f
      | Some p \<Rightarrow> declaration_identity H (ab_declaration (ar_body p)))"
  by (cases "sort_key proposal_key ps";
      simp add: declare_from_proposals_def operative_proposal_sort Let_def;
      metis length_0_conv length_sort list.distinct(1))+

lemma weigh_acceptance_simps [simp]:
  "mf_has_retirement (weigh_acceptance H m d as f) = mf_has_retirement f"
  "mf_has_leave (weigh_acceptance H m d as f) = mf_has_leave f"
  "mf_has_proposal (weigh_acceptance H m d as f) = mf_has_proposal f"
  "mf_has_reattestation (weigh_acceptance H m d as f) = mf_has_reattestation f"
  "mf_endorsers (weigh_acceptance H m d as f) = mf_endorsers f"
  "mf_admitted_identity (weigh_acceptance H m d as f) = mf_admitted_identity f"
  "mf_acceptance_matches_declaration (weigh_acceptance H m d as f) \<longleftrightarrow>
     matching_acceptance m d as \<noteq> None \<or> mf_acceptance_matches_declaration f"
  "mf_current_identity (weigh_acceptance H m d as f) =
     (case matching_acceptance m d as of None \<Rightarrow> mf_current_identity f
      | Some a \<Rightarrow> declaration_identity H (ab_declaration (ar_body a)))"
proof -
  let ?g = "foldl (\<lambda>f _. add_reason Reason_IdentityConstitutionStale
      ''an acceptance echoes a different constitution than the proposal'' f) f
      (filter (\<lambda>a. art_issuer a = m \<and> mi_constitution (art_declared a) \<noteq> d) as)"
  have "same_core f ?g" by (rule same_core_foldl) simp
  note core = same_coreD [OF this]
  show "mf_has_retirement (weigh_acceptance H m d as f) = mf_has_retirement f"
    "mf_has_leave (weigh_acceptance H m d as f) = mf_has_leave f"
    "mf_has_proposal (weigh_acceptance H m d as f) = mf_has_proposal f"
    "mf_has_reattestation (weigh_acceptance H m d as f) = mf_has_reattestation f"
    "mf_endorsers (weigh_acceptance H m d as f) = mf_endorsers f"
    "mf_admitted_identity (weigh_acceptance H m d as f) = mf_admitted_identity f"
    "mf_acceptance_matches_declaration (weigh_acceptance H m d as f) \<longleftrightarrow>
     matching_acceptance m d as \<noteq> None \<or> mf_acceptance_matches_declaration f"
    "mf_current_identity (weigh_acceptance H m d as f) =
     (case matching_acceptance m d as of None \<Rightarrow> mf_current_identity f
      | Some a \<Rightarrow> declaration_identity H (ab_declaration (ar_body a)))"
    unfolding weigh_acceptance_def Let_def by (simp_all add: core split: option.split)
qed

lemma weigh_endorsements_simps [simp]:
  "mf_has_retirement (weigh_endorsements H m cx p d es f) = mf_has_retirement f"
  "mf_has_leave (weigh_endorsements H m cx p d es f) = mf_has_leave f"
  "mf_has_proposal (weigh_endorsements H m cx p d es f) = mf_has_proposal f"
  "mf_has_reattestation (weigh_endorsements H m cx p d es f) = mf_has_reattestation f"
  "mf_admitted_identity (weigh_endorsements H m cx p d es f) = mf_admitted_identity f"
  "mf_current_identity (weigh_endorsements H m cx p d es f) = mf_current_identity f"
  "mf_acceptance_matches_declaration (weigh_endorsements H m cx p d es f) =
     mf_acceptance_matches_declaration f"
  "mf_endorsers (weigh_endorsements H m cx p d es f) =
     sort_unique (map art_issuer (filter (\<lambda>a. art_issuer a \<in> set (mx_established_members cx))
       (attesting m (art_issuer p) d es)))"
proof -
  let ?est = "\<lambda>a. art_issuer a \<in> set (mx_established_members cx)"
  let ?att = "attesting m (art_issuer p) d es"
  let ?g = "foldl (\<lambda>f a. if ?est a then f
      else add_reason Reason_MultiPartyEndorserNotActive
        (''an endorsement from '' @ member_to_string (art_issuer a) @
         '' was ignored because that member is not established in this federation'') f) f ?att"
  have "same_core f ?g" by (rule same_core_foldl) simp
  note first = same_coreD [OF this]
  have "same_core h (foldl (\<lambda>f a. add_contribution (make_contribution H a Role_Endorser
      (art_declared a) (art_issuer a \<in> set (mx_established_members cx))) f) h xs)" for h xs
    by (rule same_core_foldl) simp
  note second = same_coreD [OF this]
  show "mf_has_retirement (weigh_endorsements H m cx p d es f) = mf_has_retirement f"
    "mf_has_leave (weigh_endorsements H m cx p d es f) = mf_has_leave f"
    "mf_has_proposal (weigh_endorsements H m cx p d es f) = mf_has_proposal f"
    "mf_has_reattestation (weigh_endorsements H m cx p d es f) = mf_has_reattestation f"
    "mf_admitted_identity (weigh_endorsements H m cx p d es f) = mf_admitted_identity f"
    "mf_current_identity (weigh_endorsements H m cx p d es f) = mf_current_identity f"
    "mf_acceptance_matches_declaration (weigh_endorsements H m cx p d es f) =
     mf_acceptance_matches_declaration f"
    "mf_endorsers (weigh_endorsements H m cx p d es f) =
     sort_unique (map art_issuer (filter (\<lambda>a. art_issuer a \<in> set (mx_established_members cx))
       (attesting m (art_issuer p) d es)))"
    unfolding weigh_endorsements_def Let_def by (simp_all add: first second)
qed

lemma reattestation_simps [simp]:
  "mf_has_retirement (apply_reattestation H m rs f) = mf_has_retirement f"
  "mf_has_leave (apply_reattestation H m rs f) = mf_has_leave f"
  "mf_has_proposal (apply_reattestation H m rs f) = mf_has_proposal f"
  "mf_has_reattestation (apply_reattestation H m rs f) = mf_has_reattestation f"
  "mf_admitted_identity (apply_reattestation H m rs f) = mf_admitted_identity f"
  "mf_endorsers (apply_reattestation H m rs f) = mf_endorsers f"
  "mf_acceptance_matches_declaration (apply_reattestation H m rs f) =
     mf_acceptance_matches_declaration f"
  by (simp_all add: apply_reattestation_def Let_def)

text \<open>The endorsers that count: established third parties attesting the proposed constitution.\<close>

definition established_endorsers :: "(bytes \<Rightarrow> Digest) \<Rightarrow> MemberId \<Rightarrow> MemberId list \<Rightarrow> Artifact \<Rightarrow>
    Artifact list \<Rightarrow> MemberId list" where
  "established_endorsers H m established p es =
     sort_unique (map art_issuer (filter (\<lambda>a. art_issuer a \<in> set established)
       (attesting m (art_issuer p) (constitution_digest H (art_constitution p)) es)))"

definition consenting :: "(bytes \<Rightarrow> Digest) \<Rightarrow> MemberId \<Rightarrow> Artifact \<Rightarrow> Artifact list \<Rightarrow> bool" where
  "consenting H m p as \<longleftrightarrow>
     matching_acceptance m (constitution_digest H (art_constitution p)) as \<noteq> None"

lemma weigh_consent_simps [simp]:
  "mf_has_retirement (weigh_consent H m cx ps as es f) = mf_has_retirement f"
  "mf_has_leave (weigh_consent H m cx ps as es f) = mf_has_leave f"
  "mf_has_proposal (weigh_consent H m cx ps as es f) = mf_has_proposal f"
  "mf_has_reattestation (weigh_consent H m cx ps as es f) = mf_has_reattestation f"
  "mf_admitted_identity (weigh_consent H m cx ps as es f) = mf_admitted_identity f"
  by (simp_all add: weigh_consent_def Let_def split: option.split)

lemma weigh_consent_results:
  assumes "operative_proposal ps = Some p"
  shows "mf_endorsers (weigh_consent H m cx ps as es f) =
           established_endorsers H m (mx_established_members cx) p es"
    and "mf_acceptance_matches_declaration (weigh_consent H m cx ps as es f) \<longleftrightarrow>
           consenting H m p as \<or> mf_acceptance_matches_declaration f"
  using assms
  by (simp_all add: weigh_consent_def Let_def established_endorsers_def consenting_def)

text \<open>Admission as a function of the evidence and of the established members.\<close>

definition admission_warranted :: "(bytes \<Rightarrow> Digest) \<Rightarrow> MemberId \<Rightarrow> MemberId list \<Rightarrow>
    FederationPolicy \<Rightarrow> Artifact list \<Rightarrow> bool" where
  "admission_warranted H m established policy arts =
     (let ln = current_lineage m arts;
          ps = sponsored_proposals m (collect_kind ln Kind_MembershipProposal arts)
      in case operative_proposal ps of
           None \<Rightarrow> False
         | Some p \<Rightarrow>
             let es = established_endorsers H m established p
                        (collect_kind ln Kind_MembershipEndorsement arts)
             in art_issuer p \<in> set established \<and>
                consenting H m p (collect_kind ln Kind_MembershipAcceptance arts) \<and>
                required_distinct_parties policy \<le> length (admission_parties m (art_issuer p) es) \<and>
                required_endorsements policy \<le> length (counted_endorsers m (art_issuer p) es))"

lemma assess_multi_party_satisfied_iff:
  "mp_satisfied (assess_multi_party c p active es policy False) \<longleftrightarrow>
     p \<noteq> c \<and> active \<and> required_distinct_parties policy \<le> length (admission_parties c p es) \<and>
     required_endorsements policy \<le> length (counted_endorsers c p es)"
  by (auto simp: assess_multi_party_def Let_def)

lemma note_record_simps [simp]:
  "mf_has_retirement (note_admission_record H v r f) = mf_has_retirement f"
  "mf_has_leave (note_admission_record H v r f) = mf_has_leave f"
  "mf_has_proposal (note_admission_record H v r f) = mf_has_proposal f"
  "mf_has_reattestation (note_admission_record H v r f) = mf_has_reattestation f"
  "mf_admitted_identity (note_admission_record H v r f) = mf_admitted_identity f"
  "mf_current_identity (note_admission_record H v r f) = mf_current_identity f"
  by (simp_all add: note_admission_record_def Let_def split: option.split)

lemma weigh_admission_frame [simp]:
  "mf_has_retirement (fst (weigh_admission H m cx ps adms f)) = mf_has_retirement f"
  "mf_has_leave (fst (weigh_admission H m cx ps adms f)) = mf_has_leave f"
  "mf_has_proposal (fst (weigh_admission H m cx ps adms f)) = mf_has_proposal f"
  "mf_has_reattestation (fst (weigh_admission H m cx ps adms f)) = mf_has_reattestation f"
  "mf_admitted_identity (fst (weigh_admission H m cx ps adms f)) = mf_admitted_identity f"
  "mf_current_identity (fst (weigh_admission H m cx ps adms f)) = mf_current_identity f"
  by (simp_all add: weigh_admission_def Let_def split: option.split)

lemma weigh_admission_valid_Some:
  assumes "operative_proposal ps = Some p"
  shows "snd (weigh_admission H m cx ps adms f) \<longleftrightarrow>
    mp_satisfied (assess_multi_party m (art_issuer p)
      (art_issuer p \<in> set (mx_established_members cx)) (mf_endorsers f) (mx_policy cx) False) \<and>
    mf_acceptance_matches_declaration f"
  using assms by (simp add: weigh_admission_def Let_def)

lemma operative_proposal_Nil [simp]: "operative_proposal [] = None"
  by simp

lemma weigh_admission_valid_Nil:
  "snd (weigh_admission H m cx [] adms f) \<longleftrightarrow> m \<in> set (mx_bootstrap_members cx)"
  unfolding weigh_admission_def operative_proposal_Nil by simp

lemma apply_fences_simps [simp]:
  "mf_has_retirement (fst (apply_fences m fs f)) = mf_has_retirement f"
  "mf_has_leave (fst (apply_fences m fs f)) = mf_has_leave f"
  "mf_has_proposal (fst (apply_fences m fs f)) = mf_has_proposal f"
  "mf_has_reattestation (fst (apply_fences m fs f)) = mf_has_reattestation f"
  "mf_admitted_identity (fst (apply_fences m fs f)) = mf_admitted_identity f"
  "mf_current_identity (fst (apply_fences m fs f)) = mf_current_identity f"
  by (simp_all add: apply_fences_def split: prod.split)

lemma note_superseded_simps [simp]:
  "mf_has_retirement (note_superseded as f) = mf_has_retirement f"
  "mf_has_leave (note_superseded as f) = mf_has_leave f"
  "mf_has_proposal (note_superseded as f) = mf_has_proposal f"
  "mf_has_reattestation (note_superseded as f) = mf_has_reattestation f"
  "mf_admitted_identity (note_superseded as f) = mf_admitted_identity f"
  "mf_current_identity (note_superseded as f) = mf_current_identity f"
  "mf_fence_epoch (note_superseded as f) = mf_fence_epoch f"
  by (simp_all add: note_superseded_def)

lemma currency_frame:
  "mf_has_retirement (fst (foldl (currency_step m e) acc rs)) = mf_has_retirement (fst acc)"
  "mf_has_leave (fst (foldl (currency_step m e) acc rs)) = mf_has_leave (fst acc)"
  "mf_has_proposal (fst (foldl (currency_step m e) acc rs)) = mf_has_proposal (fst acc)"
  "mf_has_reattestation (fst (foldl (currency_step m e) acc rs)) = mf_has_reattestation (fst acc)"
  "mf_admitted_identity (fst (foldl (currency_step m e) acc rs)) = mf_admitted_identity (fst acc)"
  "mf_current_identity (fst (foldl (currency_step m e) acc rs)) = mf_current_identity (fst acc)"
  "mf_fence_epoch (fst (foldl (currency_step m e) acc rs)) = mf_fence_epoch (fst acc)"
  by (induction rs arbitrary: acc) (simp_all add: currency_step_def)

lemma weigh_activation_simps [simp]:
  "mf_has_retirement (weigh_activation m cx act rs v f) = mf_has_retirement f"
  "mf_has_leave (weigh_activation m cx act rs v f) = mf_has_leave f"
  "mf_has_proposal (weigh_activation m cx act rs v f) = mf_has_proposal f"
  "mf_has_reattestation (weigh_activation m cx act rs v f) = mf_has_reattestation f"
  "mf_admitted_identity (weigh_activation m cx act rs v f) = mf_admitted_identity f"
  "mf_current_identity (weigh_activation m cx act rs v f) = mf_current_identity f"
  "mf_fence_epoch (weigh_activation m cx act rs v f) = mf_fence_epoch f"
  "mf_activation_matches_identity (weigh_activation m cx act rs v f) \<longleftrightarrow>
     v \<and> mi_constitution (mf_current_identity f) = mi_constitution (mf_admitted_identity f)"
  "mf_generation_changed_since_admission (weigh_activation m cx act rs v f) \<longleftrightarrow>
     mi_generation (mf_admitted_identity f) \<noteq> 0 \<and>
     mi_generation (mf_current_identity f) \<noteq> mi_generation (mf_admitted_identity f)"
  by (cases act; simp add: weigh_activation_def Let_def currency_frame case_prod_unfold)+

definition established_lifecycle :: "MemberLifecycleState \<Rightarrow> bool" where
  "established_lifecycle l \<longleftrightarrow>
     l = Lifecycle_Active \<or> l = Lifecycle_Degraded \<or> l = Lifecycle_Admitted"

definition fence_in_force :: "bool \<Rightarrow> Epoch \<Rightarrow> Artifact option \<Rightarrow> bool" where
  "fence_in_force fenced fence_epoch activation \<longleftrightarrow>
     fenced \<and> (case activation of None \<Rightarrow> True
               | Some a \<Rightarrow> \<not> fence_epoch < ab_epoch (ar_body a))"

lemma decide_established:
  "established_lifecycle (fst (decide_lifecycle m cx act fenced valid f)) \<longleftrightarrow>
     \<not> mf_has_retirement f \<and> \<not> mf_has_leave f \<and>
     (mf_has_proposal f \<or> m \<in> set (mx_bootstrap_members cx)) \<and>
     \<not> fence_in_force fenced (mf_fence_epoch f) act \<and> valid \<and>
     (act = None \<or> mf_activation_matches_identity f \<or>
      \<not> (mf_generation_changed_since_admission f \<and> reconsent_on_generation_change (mx_policy cx)))"
  by (auto simp: decide_lifecycle_def identity_drift_def current_standing_def Let_def
      established_lifecycle_def fence_in_force_def)

text \<open>The facts the member's evidence gives before admission is weighed.\<close>

definition evidence_facts ::
  "(bytes \<Rightarrow> Digest) \<Rightarrow> MemberId \<Rightarrow> Artifact list \<Rightarrow> MembershipContext \<Rightarrow> MembershipFacts" where
  "evidence_facts H m arts cx =
     (let ln = current_lineage m arts;
          all_proposals = collect_kind ln Kind_MembershipProposal arts;
          ps = sponsored_proposals m all_proposals
      in apply_reattestation H m (collect_kind ln Kind_MemberReattestation arts)
           (weigh_consent H m cx ps (collect_kind ln Kind_MembershipAcceptance arts)
              (collect_kind ln Kind_MembershipEndorsement arts)
              (declare_from_proposals H ps (set_aside_self_proposals m all_proposals
                 (collect_facts ln arts (bootstrap_facts H m cx))))))"

definition admission_valid :: "(bytes \<Rightarrow> Digest) \<Rightarrow> MemberId \<Rightarrow> Artifact list \<Rightarrow> MembershipContext \<Rightarrow> bool" where
  "admission_valid H m arts cx =
     (let ln = current_lineage m arts in
      snd (weigh_admission H m cx
             (sponsored_proposals m (collect_kind ln Kind_MembershipProposal arts))
             (collect_kind ln Kind_MembershipAdmission arts) (evidence_facts H m arts cx)))"

definition current_fence :: "MemberId \<Rightarrow> Artifact list \<Rightarrow> bool \<times> Epoch \<times> ReasonCode" where
  "current_fence m arts = foldl (fence_step m) (False, 0, Reason_EvidenceUnknown)
     (collect_kind (current_lineage m arts) Kind_MembershipFence arts)"

definition current_activation :: "MemberId \<Rightarrow> Artifact list \<Rightarrow> Artifact option" where
  "current_activation m arts =
     latest_activation (collect_kind (current_lineage m arts) Kind_MembershipActivation arts)"

lemma fence_fold_reason_irrelevant:
  "fst (foldl (fence_step m) (b, e, r) fs) = fst (foldl (fence_step m) (b, e, r') fs) \<and>
   fst (snd (foldl (fence_step m) (b, e, r) fs)) = fst (snd (foldl (fence_step m) (b, e, r') fs))"
  by (induction fs arbitrary: b e r r') (auto simp: fence_step_def)

lemma apply_fences_fence:
  "snd (apply_fences m fs f) = fst (foldl (fence_step m) (False, 0, Reason_EvidenceUnknown) fs)"
  "mf_fence_epoch (fst (apply_fences m fs f)) =
     fst (snd (foldl (fence_step m) (False, 0, Reason_EvidenceUnknown) fs))"
  using fence_fold_reason_irrelevant [of m False 0 "mf_fence_reason f" fs Reason_EvidenceUnknown]
  by (simp_all add: apply_fences_def case_prod_unfold)

abbreviation sponsored_in_lineage :: "MemberId \<Rightarrow> Artifact list \<Rightarrow> Artifact list" where
  "sponsored_in_lineage m arts \<equiv>
     sponsored_proposals m (collect_kind (current_lineage m arts) Kind_MembershipProposal arts)"

lemma weigh_consent_current:
  "mf_current_identity (weigh_consent H m cx ps as es f) =
     (case operative_proposal ps of None \<Rightarrow> mf_current_identity f
      | Some p \<Rightarrow>
          (case matching_acceptance m (constitution_digest H (art_constitution p)) as of
             None \<Rightarrow> mf_current_identity f
           | Some a \<Rightarrow> declaration_identity H (ab_declaration (ar_body a))))"
  by (simp add: weigh_consent_def Let_def split: option.split)

lemma reattestation_current:
  "mf_current_identity f = mf_current_identity g \<Longrightarrow>
   mf_current_identity (apply_reattestation H m rs f) =
   mf_current_identity (apply_reattestation H m rs g)"
  by (simp add: apply_reattestation_def Let_def)

lemma evidence_facts_frame:
  "mf_has_retirement (evidence_facts H m arts cx) \<longleftrightarrow>
     collect_kind (current_lineage m arts) Kind_MembershipRetirement arts \<noteq> []"
  "mf_has_leave (evidence_facts H m arts cx) \<longleftrightarrow>
     collect_kind (current_lineage m arts) Kind_MembershipLeave arts \<noteq> []"
  "mf_has_proposal (evidence_facts H m arts cx) \<longleftrightarrow>
     collect_kind (current_lineage m arts) Kind_MembershipProposal arts \<noteq> []"
  "mf_has_reattestation (evidence_facts H m arts cx) \<longleftrightarrow>
     collect_kind (current_lineage m arts) Kind_MemberReattestation arts \<noteq> []"
  by (simp_all add: evidence_facts_def Let_def)

lemma bootstrap_facts_established [simp]:
  "bootstrap_facts H m (cx\<lparr>mx_established_members := E\<rparr>) = bootstrap_facts H m cx"
  by (simp add: bootstrap_facts_def)

lemma evidence_identities_established [simp]:
  "mf_admitted_identity (evidence_facts H m arts (cx\<lparr>mx_established_members := E\<rparr>)) =
     mf_admitted_identity (evidence_facts H m arts cx)"
  "mf_current_identity (evidence_facts H m arts (cx\<lparr>mx_established_members := E\<rparr>)) =
     mf_current_identity (evidence_facts H m arts cx)"
  unfolding evidence_facts_def Let_def
  by (simp, intro reattestation_current, simp add: weigh_consent_current)

lemma admission_valid_iff:
  "admission_valid H m arts cx \<longleftrightarrow>
     (if sponsored_in_lineage m arts = [] then m \<in> set (mx_bootstrap_members cx)
      else admission_warranted H m (mx_established_members cx) (mx_policy cx) arts)"
proof (cases "operative_proposal (sponsored_in_lineage m arts)")
  case None
  then have "sponsored_in_lineage m arts = []" by simp
  then show ?thesis by (simp add: admission_valid_def Let_def weigh_admission_valid_Nil)
next
  case (Some p)
  then have ne: "sponsored_in_lineage m arts \<noteq> []" by auto
  have other: "art_issuer p \<noteq> m"
    using operative_proposal_mem [OF Some] by (simp add: sponsored_proposals_def)
  show ?thesis
    using ne other
    unfolding admission_valid_def admission_warranted_def Let_def
      weigh_admission_valid_Some [OF Some] assess_multi_party_satisfied_iff
    by (auto simp: Some evidence_facts_def Let_def weigh_consent_results [OF Some])
qed

lemma derive_lifecycle_eq:
  "dv_lifecycle (derive_membership H m arts cx) =
     fst (decide_lifecycle m cx (current_activation m arts) (fst (current_fence m arts))
       (admission_valid H m arts cx)
       (weigh_activation m cx (current_activation m arts)
          (collect_kind (current_lineage m arts) Kind_MemberReattestation arts)
          (admission_valid H m arts cx)
          (note_superseded (collect_kind (current_lineage m arts) Kind_MembershipActivation arts)
            (fst (apply_fences m (collect_kind (current_lineage m arts) Kind_MembershipFence arts)
               (fst (weigh_admission H m cx (sponsored_in_lineage m arts)
                  (collect_kind (current_lineage m arts) Kind_MembershipAdmission arts)
                  (evidence_facts H m arts cx))))))))"
  unfolding derive_membership_def Let_def case_prod_unfold MembershipDerivation.select_convs
    apply_fences_fence(1) current_fence_def [symmetric] current_activation_def [symmetric]
  by (simp only: evidence_facts_def [symmetric, unfolded Let_def]
      admission_valid_def [symmetric, unfolded Let_def])

text \<open>The part of standing that does not depend on who else is established.\<close>

definition own_standing :: "(bytes \<Rightarrow> Digest) \<Rightarrow> MemberId \<Rightarrow> Artifact list \<Rightarrow> MembershipContext \<Rightarrow> bool" where
  "own_standing H m arts cx =
     (let ln = current_lineage m arts; f = evidence_facts H m arts cx;
          admitted = mf_admitted_identity f; current = mf_current_identity f
      in collect_kind ln Kind_MembershipRetirement arts = [] \<and>
         collect_kind ln Kind_MembershipLeave arts = [] \<and>
         (collect_kind ln Kind_MembershipProposal arts \<noteq> [] \<or> m \<in> set (mx_bootstrap_members cx)) \<and>
         \<not> fence_in_force (fst (current_fence m arts)) (fst (snd (current_fence m arts)))
             (current_activation m arts) \<and>
         (current_activation m arts = None \<or> mi_constitution current = mi_constitution admitted \<or>
          \<not> (mi_generation admitted \<noteq> 0 \<and> mi_generation current \<noteq> mi_generation admitted \<and>
              reconsent_on_generation_change (mx_policy cx))))"

lemma established_iff:
  "established_lifecycle (dv_lifecycle (derive_membership H m arts cx)) \<longleftrightarrow>
     own_standing H m arts cx \<and> admission_valid H m arts cx"
  unfolding derive_lifecycle_eq decide_established own_standing_def Let_def
  by (auto simp: evidence_facts_frame apply_fences_fence current_fence_def)

lemma own_standing_established [simp]:
  "own_standing H m arts (cx\<lparr>mx_established_members := E\<rparr>) = own_standing H m arts cx"
  by (simp add: own_standing_def Let_def)

lemma own_standing_cong:
  assumes "mx_bootstrap_members cx = mx_bootstrap_members cx'"
    and "mx_bootstrap_declarations cx = mx_bootstrap_declarations cx'"
    and "mx_policy cx = mx_policy cx'"
  shows "own_standing H m arts cx = own_standing H m arts cx'"
proof -
  have b: "bootstrap_facts H m cx = bootstrap_facts H m cx'"
    using assms by (simp add: bootstrap_facts_def)
  have "mf_admitted_identity (evidence_facts H m arts cx) =
      mf_admitted_identity (evidence_facts H m arts cx')"
    "mf_current_identity (evidence_facts H m arts cx) =
      mf_current_identity (evidence_facts H m arts cx')"
    unfolding evidence_facts_def Let_def
    by (simp add: b, intro reattestation_current, simp add: weigh_consent_current b)
  with assms show ?thesis by (simp add: own_standing_def Let_def)
qed

text \<open>More established members never lose an admission.\<close>

lemma length_sort_unique_mono: "set xs \<subseteq> set ys \<Longrightarrow> length (sort_unique xs) \<le> length (sort_unique ys)"
  by (simp add: length_sort_unique card_mono)

lemma established_endorsers_mono:
  "set E \<subseteq> set E' \<Longrightarrow>
   set (established_endorsers H m E p es) \<subseteq> set (established_endorsers H m E' p es)"
  by (auto simp: established_endorsers_def)

lemma admission_warranted_mono:
  assumes "set E \<subseteq> set E'" "admission_warranted H m E policy arts"
  shows "admission_warranted H m E' policy arts"
proof (cases "operative_proposal (sponsored_in_lineage m arts)")
  case None
  with assms(2) show ?thesis by (simp add: admission_warranted_def)
next
  case (Some p)
  let ?es = "\<lambda>E. established_endorsers H m E p
    (collect_kind (current_lineage m arts) Kind_MembershipEndorsement arts)"
  have sub: "set (?es E) \<subseteq> set (?es E')" by (rule established_endorsers_mono [OF assms(1)])
  then have "length (admission_parties m (art_issuer p) (?es E))
      \<le> length (admission_parties m (art_issuer p) (?es E'))"
    and "length (counted_endorsers m (art_issuer p) (?es E))
      \<le> length (counted_endorsers m (art_issuer p) (?es E'))"
    unfolding admission_parties_def counted_endorsers_def
    by (intro length_sort_unique_mono; auto)+
  with assms Some show ?thesis by (auto simp: admission_warranted_def Let_def)
qed

lemma admission_valid_mono:
  assumes "set E \<subseteq> set E'" "admission_valid H m arts (cx\<lparr>mx_established_members := E\<rparr>)"
  shows "admission_valid H m arts (cx\<lparr>mx_established_members := E'\<rparr>)"
  using assms admission_warranted_mono [OF assms(1), of H m "mx_policy cx" arts]
  by (simp add: admission_valid_iff split: if_splits)

lemma established_mono:
  assumes "set E \<subseteq> set E'"
    and "established_lifecycle (dv_lifecycle
           (derive_membership H m arts (cx\<lparr>mx_established_members := E\<rparr>)))"
  shows "established_lifecycle (dv_lifecycle
           (derive_membership H m arts (cx\<lparr>mx_established_members := E'\<rparr>)))"
  using assms admission_valid_mono [OF assms(1)] by (simp add: established_iff)

section \<open>Fences\<close>

lemma fence_fold_lower_bound:
  assumes "b \<Longrightarrow> e0 \<le> e" "b"
  shows "fst (foldl (fence_step m) (b, e, r) fs) \<and>
    e0 \<le> fst (snd (foldl (fence_step m) (b, e, r) fs))"
  using assms
proof (induction fs arbitrary: e r)
  case Nil
  then show ?case by simp
next
  case (Cons a fs)
  then have "e0 \<le> ab_epoch (ar_body a)" if "e < ab_epoch (ar_body a)" using that by simp
  with Cons show ?case by (simp add: fence_step_def)
qed

lemma fence_fold_fenced:
  assumes "a \<in> set fs" "art_issuer a = m \<or> art_issuer a = 0"
  shows "fst (foldl (fence_step m) (b, e, r) fs) \<and>
    ab_epoch (ar_body a) \<le> fst (snd (foldl (fence_step m) (b, e, r) fs))"
  using assms(1)
proof (induction fs arbitrary: b e r)
  case Nil
  then show ?case by simp
next
  case (Cons x fs)
  show ?case
  proof (cases "a = x")
    case True
    have "fst (fence_step m (b, e, r) x) \<and>
        ab_epoch (ar_body a) \<le> fst (snd (fence_step m (b, e, r) x))"
      using assms(2) True by (auto simp: fence_step_def)
    then obtain e' r' where "fence_step m (b, e, r) x = (True, e', r')"
      "ab_epoch (ar_body a) \<le> e'"
      by (cases "fence_step m (b, e, r) x") auto
    then show ?thesis using fence_fold_lower_bound [of True "ab_epoch (ar_body a)" e' m r' fs] by simp
  next
    case False
    with Cons show ?thesis by (cases "fence_step m (b, e, r) x") simp
  qed
qed

lemma latest_activation_mem: "latest_activation as = Some a \<Longrightarrow> a \<in> set as"
  unfolding latest_activation_def by (rule select_best_mem)

lemma decide_fenced:
  "fence_in_force fenced (mf_fence_epoch f) act \<Longrightarrow>
   fst (decide_lifecycle m cx act fenced valid f) \<in>
     {Lifecycle_Retired, Lifecycle_Leaving, Lifecycle_Absent, Lifecycle_Fenced}"
  by (auto simp: decide_lifecycle_def fence_in_force_def)

section \<open>Properties\<close>

text \<open>
  C9: no member is established by its own word. A member whose derived lifecycle is admitted,
  active or degraded is a genesis founder without a sponsor, or another, established member proposed
  it, it consented itself to exactly the proposed constitution, and the distinct parties and the
  established third-party endorsers of that constitution reach the numbers the policy requires (at
  least two parties).
\<close>

theorem established_is_multi_party:
  assumes "established_lifecycle (dv_lifecycle (derive_membership H m arts cx))"
    and "sponsored_in_lineage m arts \<noteq> [] \<or> m \<notin> set (mx_bootstrap_members cx)"
  shows "\<exists>p \<in> set arts. \<exists>a \<in> set arts. \<exists>es.
    art_kind p = Kind_MembershipProposal \<and> art_issuer p \<noteq> m \<and>
    art_issuer p \<in> set (mx_established_members cx) \<and>
    art_kind a = Kind_MembershipAcceptance \<and> art_issuer a = m \<and>
    mi_constitution (art_declared a) = constitution_digest H (art_constitution p) \<and>
    (\<forall>e \<in> set es. e \<in> set (mx_established_members cx) \<and> e \<noteq> m \<and> e \<noteq> art_issuer p \<and>
       (\<exists>n \<in> set arts. art_kind n = Kind_MembershipEndorsement \<and> art_issuer n = e \<and>
          mi_constitution (art_declared n) = constitution_digest H (art_constitution p))) \<and>
    required_endorsements (mx_policy cx) \<le> card (set es - {0}) \<and>
    max 2 (required_distinct_parties (mx_policy cx)) \<le> card (({art_issuer p, m} \<union> set es) - {0})"
proof -
  have "admission_warranted H m (mx_established_members cx) (mx_policy cx) arts"
    using assms by (auto simp: established_iff admission_valid_iff split: if_splits)
  then obtain p where p: "operative_proposal (sponsored_in_lineage m arts) = Some p"
    and sponsor: "art_issuer p \<in> set (mx_established_members cx)"
    and consent: "consenting H m p (collect_kind (current_lineage m arts) Kind_MembershipAcceptance arts)"
    and parties: "required_distinct_parties (mx_policy cx) \<le> length (admission_parties m (art_issuer p)
        (established_endorsers H m (mx_established_members cx) p
          (collect_kind (current_lineage m arts) Kind_MembershipEndorsement arts)))"
    and endorsed: "required_endorsements (mx_policy cx) \<le> length (counted_endorsers m (art_issuer p)
        (established_endorsers H m (mx_established_members cx) p
          (collect_kind (current_lineage m arts) Kind_MembershipEndorsement arts)))"
    by (auto simp: admission_warranted_def Let_def split: option.splits)
  let ?d = "constitution_digest H (art_constitution p)"
  let ?es = "established_endorsers H m (mx_established_members cx) p
          (collect_kind (current_lineage m arts) Kind_MembershipEndorsement arts)"
  have pm: "p \<in> set arts" "art_kind p = Kind_MembershipProposal" "art_issuer p \<noteq> m"
    using operative_proposal_mem [OF p] by (auto simp: sponsored_proposals_def collect_kind_def)
  from consent obtain a where "matching_acceptance m ?d
      (collect_kind (current_lineage m arts) Kind_MembershipAcceptance arts) = Some a"
    by (auto simp: consenting_def)
  then have am: "a \<in> set arts" "art_kind a = Kind_MembershipAcceptance" "art_issuer a = m"
    "mi_constitution (art_declared a) = ?d"
    unfolding matching_acceptance_def by (auto dest!: select_best_mem simp: collect_kind_def)
  have es: "\<forall>e \<in> set ?es. e \<in> set (mx_established_members cx) \<and> e \<noteq> m \<and> e \<noteq> art_issuer p \<and>
      (\<exists>n \<in> set arts. art_kind n = Kind_MembershipEndorsement \<and> art_issuer n = e \<and>
         mi_constitution (art_declared n) = ?d)"
    by (auto simp: established_endorsers_def attesting_def collect_kind_def)
  have "set (counted_endorsers m (art_issuer p) ?es) = set ?es - {0}"
    using es by (auto simp: counted_endorsers_def is_nil_def)
  then have ce: "required_endorsements (mx_policy cx) \<le> card (set ?es - {0})"
    using endorsed unfolding counted_endorsers_def length_sort_unique by simp
  have "set (admission_parties m (art_issuer p) ?es) = ({art_issuer p, m} \<union> set ?es) - {0}"
    by (auto simp: admission_parties_def is_nil_def)
  then have "required_distinct_parties (mx_policy cx) \<le> card (({art_issuer p, m} \<union> set ?es) - {0})"
    using parties unfolding admission_parties_def length_sort_unique by simp
  moreover have "2 \<le> required_distinct_parties (mx_policy cx)"
    by (simp add: required_distinct_parties_def Let_def ff_bounds)
  ultimately show ?thesis using pm am es ce sponsor by (intro bexI [of _ p] bexI [of _ a] exI [of _ ?es]) auto
qed

text \<open>
  C24: a fence is sticky. While a fence by the member itself or by the coordinator stands in the
  current lineage, with no activation at a later epoch, the member is retired, leaving, absent or
  fenced: it never holds standing.
\<close>

theorem fence_is_sticky:
  assumes "a \<in> set arts" "art_kind a = Kind_MembershipFence"
    and "ab_lineage (ar_body a) = current_lineage m arts"
    and "art_issuer a = m \<or> art_issuer a = 0"
    and "\<forall>v \<in> set (collect_kind (current_lineage m arts) Kind_MembershipActivation arts).
           ab_epoch (ar_body v) \<le> ab_epoch (ar_body a)"
  shows "dv_lifecycle (derive_membership H m arts cx) \<in>
    {Lifecycle_Retired, Lifecycle_Leaving, Lifecycle_Absent, Lifecycle_Fenced}"
proof -
  have "a \<in> set (collect_kind (current_lineage m arts) Kind_MembershipFence arts)"
    using assms(1-3) by (simp add: collect_kind_def)
  from fence_fold_fenced [OF this assms(4)]
  have fenced: "fst (current_fence m arts)"
    "ab_epoch (ar_body a) \<le> fst (snd (current_fence m arts))"
    by (simp_all add: current_fence_def)
  have "fence_in_force True (fst (snd (current_fence m arts))) (current_activation m arts)"
  proof (cases "current_activation m arts")
    case None
    then show ?thesis by (simp add: fence_in_force_def)
  next
    case (Some v)
    then have "ab_epoch (ar_body v) \<le> ab_epoch (ar_body a)"
      using assms(5) latest_activation_mem unfolding current_activation_def by blast
    with fenced(2) Some show ?thesis by (simp add: fence_in_force_def not_less)
  qed
  then show ?thesis
    using fenced(1) unfolding derive_lifecycle_eq
    by (intro decide_fenced) (simp add: apply_fences_fence current_fence_def)
qed

section \<open>Witnesses\<close>

text \<open>Founder 1 sponsors member 3, which consents.\<close>

definition sample_artifact ::
  "EvidenceId \<Rightarrow> ArtifactKind \<Rightarrow> MemberId \<Rightarrow> ArtifactBody \<Rightarrow> Artifact" where
  "sample_artifact evidence kind issuer body =
     \<lparr>ar_envelope = sample_envelope
        \<lparr>en_evidence := evidence, en_kind := kind,
         en_issuer := \<lparr>pv_node = 8, pv_member = issuer, pv_generation = 1, pv_incarnation = 2,
                       pv_constitution = 5, pv_epoch = 1, pv_issued_at = 5\<rparr>\<rparr>,
      ar_body = body\<rparr>"

definition sample_evidence :: "Artifact list" where
  "sample_evidence =
     [sample_artifact 21 Kind_MembershipProposal 1 sample_body,
      sample_artifact 22 Kind_MembershipAcceptance 3 sample_body]"

definition sample_context :: MembershipContext where
  "sample_context =
     \<lparr>mx_federation = 1, mx_current_epoch = 1, mx_now = 5, mx_policy = default_policy,
      mx_catalog = [],
      mx_partition = empty_assessment\<lparr>pa_state := Partition_Connected\<rparr>, mx_reconciling = False,
      mx_established_members = [1], mx_bootstrap_members = [1], mx_bootstrap_declarations = []\<rparr>"

lemma sample_member_established:
  "established_lifecycle (dv_lifecycle
     (derive_membership toy_hash 3 sample_evidence sample_context))"
proof -
  have "current_activation 3 sample_evidence = None" by code_simp
  moreover have "collect_kind (current_lineage 3 sample_evidence) Kind_MembershipRetirement
      sample_evidence = []" by code_simp
  moreover have "collect_kind (current_lineage 3 sample_evidence) Kind_MembershipLeave
      sample_evidence = []" by code_simp
  moreover have "collect_kind (current_lineage 3 sample_evidence) Kind_MembershipProposal
      sample_evidence \<noteq> []" by code_simp
  moreover have "\<not> fst (current_fence 3 sample_evidence)" by code_simp
  ultimately have "own_standing toy_hash 3 sample_evidence sample_context"
    by (simp add: own_standing_def Let_def fence_in_force_def)
  moreover have "sponsored_in_lineage 3 sample_evidence \<noteq> []" by code_simp
  moreover have "admission_warranted toy_hash 3 [1] default_policy sample_evidence" by code_simp
  ultimately show ?thesis
    by (simp add: established_iff admission_valid_iff) (simp add: sample_context_def)
qed

theorem established_is_multi_party_witness:
  "\<exists>p \<in> set sample_evidence. art_kind p = Kind_MembershipProposal \<and> art_issuer p \<noteq> 3"
proof -
  note sample_member_established
  moreover have "sponsored_in_lineage 3 sample_evidence \<noteq> [] \<or>
      3 \<notin> set (mx_bootstrap_members sample_context)"
    by (simp add: sample_context_def)
  ultimately show ?thesis by (blast dest: established_is_multi_party)
qed

theorem fence_is_sticky_witness:
  "dv_lifecycle (derive_membership toy_hash 3
     (sample_evidence @ [sample_artifact 24 Kind_MembershipFence 3 (sample_body\<lparr>ab_epoch := 1\<rparr>)])
     sample_context) \<in>
   {Lifecycle_Retired, Lifecycle_Leaving, Lifecycle_Absent, Lifecycle_Fenced}"
proof (rule fence_is_sticky)
  let ?f = "sample_artifact 24 Kind_MembershipFence 3 (sample_body\<lparr>ab_epoch := 1\<rparr>)"
  show "?f \<in> set (sample_evidence @ [?f])" by simp
  show "art_kind ?f = Kind_MembershipFence" "art_issuer ?f = 3 \<or> art_issuer ?f = 0"
    by (simp_all add: sample_artifact_def)
  show "ab_lineage (ar_body ?f) = current_lineage 3 (sample_evidence @ [?f])" by code_simp
  show "\<forall>v \<in> set (collect_kind (current_lineage 3 (sample_evidence @ [?f]))
      Kind_MembershipActivation (sample_evidence @ [?f])). ab_epoch (ar_body v) \<le> ab_epoch (ar_body ?f)"
    by code_simp
qed

end
