(* ===== verification/State.thy ===== *)
theory State
  imports Membership
begin

text \<open>
  Derived federation state (\<^verbatim>\<open>state.hpp\<close>, \<^verbatim>\<open>state.cpp\<close>): preparation of the artefacts, genesis,
  policy, epoch and reconciliation, the fixpoint of established members, partition assessment, the
  per-member records, conflict detection over the live claims, effective authority, leases, the
  replay ledger, and the canonical encoding and digest of the state.

  \<^verbatim>\<open>derive_state\<close> is split into one definition per block of the function, in the order of the code.
  A \<^verbatim>\<open>std::map\<close> is a \<open>smap\<close>, sorted by key; the index of artefacts by subject, which is only read by
  look-up, is its look-up function. A comparison that reads one key only (lease views, replay
  entries, member records) is a stable sort by that key. A string that the code reads after moving
  it away is \<open>moved_from\<close>.
\<close>

section \<open>Records\<close>

definition kMaxDerivationRounds :: nat where
  [ff_bounds]: "kMaxDerivationRounds = kMaxMembers + 2"

definition kCanonicalStateVersion :: u32 where "kCanonicalStateVersion = 1"

datatype RecoveryOutcome =
    Recovery_Clean | Recovery_TornTailRecovered | Recovery_CorruptRecord
  | Recovery_UnsupportedRecord | Recovery_InvalidHeader | Recovery_Empty | Recovery_BoundsExceeded

record RecoveryDiagnostic =
  rd_outcome :: RecoveryOutcome
  rd_offset :: u64
  rd_detail :: string

record ReplayEntry =
  re_request :: RequestId
  re_decision :: Digest
  re_decided_at :: Tick

record LeaseView =
  lv_id :: LeaseId
  lv_holder :: MemberId
  lv_holder_incarnation :: Incarnation
  lv_holder_generation :: Generation
  lv_scopes :: "ScopeGrant list"
  lv_issued_epoch :: Epoch
  lv_not_after :: Tick
  lv_state :: LeaseState
  lv_reason :: ReasonCode
  lv_revoked :: bool

record MemberState =
  mb_member :: MemberId
  mb_domain :: FabricDomainId
  mb_lifecycle :: MemberLifecycleState
  mb_lineage :: Lineage
  mb_lineage_id :: LineageId
  mb_bootstrap :: bool
  mb_partition_state :: PartitionState
  mb_declaration :: MemberDeclaration
  mb_current_identity :: MemberIdentity
  mb_admitted_identity :: MemberIdentity
  mb_admitted_identity_current :: bool
  mb_activation_current :: bool
  mb_contributing_parties :: "Contribution list"
  mb_reasons :: "Reason list"
  mb_conflicts :: "ConflictRecord list"
  mb_rejected_kinds :: "ArtifactKind list"
  mb_retained_local_authority :: "ScopeGrant list"
  mb_delegated_terms :: "DelegationTerms list"
  mb_withdrawn_grants :: "ScopeGrant list"
  mb_federation_authority :: "ScopeGrant list"
  mb_withheld_grants :: "ScopeGrant list"
  mb_withheld_global_mutation :: "ScopeGrant list"
  mb_fenced_incarnations :: "Incarnation list"
  mb_lease_ids :: "LeaseId list"
  mb_admission_digest :: Digest
  mb_activated_epoch :: Epoch
  mb_activated_at :: Tick
  mb_admitted_epoch :: Epoch
  mb_evidence :: EvidenceState
  mb_limit_reached :: bool

record FederationState =
  fs_federation :: FederationId
  fs_coordinator :: NodeId
  fs_coordinator_incarnation :: Incarnation
  fs_epoch :: Epoch
  fs_reconciling :: bool
  fs_policy_id :: PolicyId
  fs_policy_generation :: Generation
  fs_policy_digest :: Digest
  fs_logical_time :: Tick
  fs_genesis_digest :: Digest
  fs_description :: string
  fs_artifact_count :: nat
  fs_rejected_artifact_count :: nat
  fs_duplicate_artifact_count :: nat
  fs_members :: "MemberState list"
  fs_leases :: "LeaseView list"
  fs_conflicts :: "ConflictRecord list"
  fs_replay_ledger :: "ReplayEntry list"
  fs_partition :: PartitionAssessment
  fs_global_reasons :: "Reason list"
  fs_recovery :: "RecoveryDiagnostic list"

text \<open>The two pointers of the inputs are options; a null pointer is \<open>None\<close>.\<close>

record DerivationInputs =
  di_federation :: FederationId
  di_coordinator :: NodeId
  di_coordinator_incarnation :: Incarnation
  di_logical_time :: Tick
  di_policy :: "FederationPolicy option"
  di_catalog :: "ScopeCatalog option"
  di_artifacts :: "Artifact list"
  di_observations :: "MemberObservation list"
  di_leases :: "AuthorityLease list"
  di_replay_ledger :: "ReplayEntry list"
  di_recovery :: "RecoveryDiagnostic list"

record DerivationResult =
  dr_state :: FederationState
  dr_rejected :: "Reason list"

record GrantClaim =
  gc_member :: MemberId
  gc_terms :: DelegationTerms

definition terms_equivalent :: "DelegationTerms \<Rightarrow> DelegationTerms \<Rightarrow> bool" where
  "terms_equivalent a b \<longleftrightarrow> dt_mode a = dt_mode b \<and> dt_weight a = dt_weight b \<and>
     dt_not_after a = dt_not_after b \<and> dt_constraint a = dt_constraint b"

definition find_member :: "FederationState \<Rightarrow> MemberId \<Rightarrow> MemberState option" where
  "find_member st m = find (\<lambda>c. mb_member c = m) (fs_members st)"

definition active_member_count :: "FederationState \<Rightarrow> nat" where
  "active_member_count st = length (filter (\<lambda>m. mb_lifecycle m = Lifecycle_Active \<or>
     mb_lifecycle m = Lifecycle_Degraded) (fs_members st))"

definition has_replay :: "FederationState \<Rightarrow> RequestId \<Rightarrow> bool" where
  "has_replay st request \<longleftrightarrow> (\<exists>e \<in> set (fs_replay_ledger st). re_request e = request)"

definition unique_ledger :: "ReplayEntry list \<Rightarrow> ReplayEntry list" where
  "unique_ledger es = remdups_adj (sort_key re_request es)"

section \<open>Canonical encoding\<close>

primrec lease_state_wire :: "LeaseState \<Rightarrow> u8" where
  "lease_state_wire Lease_Valid = 0"
| "lease_state_wire Lease_Unknown = 1"
| "lease_state_wire Lease_Expired = 2"
| "lease_state_wire Lease_Revoked = 3"
| "lease_state_wire Lease_StaleIssuer = 4"
| "lease_state_wire Lease_EpochMismatch = 5"
| "lease_state_wire Lease_HolderMismatch = 6"
| "lease_state_wire Lease_ScopeNotCovered = 7"

definition encode_member_state :: "MemberState \<Rightarrow> bytes result" where
  "encode_member_state m = w_seq
     [w_id16 (mb_member m), w_id16 (mb_domain m), w_u8 (lifecycle_wire (mb_lifecycle m)),
      w_u64 (mb_lineage m), w_id16 (mb_lineage_id m), w_bool (mb_bootstrap m),
      w_u8 (partition_wire (mb_partition_state m)), encode_identity (mb_current_identity m),
      encode_identity (mb_admitted_identity m), w_bool (mb_admitted_identity_current m),
      w_bool (mb_activation_current m),
      encode_grants (mb_retained_local_authority m) kMaxScopesPerMember,
      encode_terms (mb_delegated_terms m) kMaxDelegationTermsPerMember,
      encode_grants (mb_withdrawn_grants m) kMaxScopesPerMember,
      encode_grants (mb_federation_authority m) kMaxScopesPerMember,
      encode_grants (mb_withheld_grants m) kMaxScopesPerMember,
      encode_grants (mb_withheld_global_mutation m) kMaxScopesPerMember,
      w_list w_u64 kMaxMembers (sort_unique (mb_fenced_incarnations m)),
      w_list w_id16 kMaxLeasesPerMember (sort_unique (mb_lease_ids m)),
      w_digest (mb_admission_digest m), w_u64 (mb_activated_epoch m), w_u64 (mb_admitted_epoch m),
      w_u8 (evidence_wire (mb_evidence m)),
      w_list encode_reason kMaxReasonsPerDecision (sort_unique (mb_reasons m)),
      w_list (\<lambda>k. w_u16 (kind_wire k)) kMaxArtifactsPerMember
        (remdups_adj (sort_key kind_wire (mb_rejected_kinds m)))]"

definition encode_lease_view :: "LeaseView \<Rightarrow> bytes result" where
  "encode_lease_view l = w_seq
     [w_id16 (lv_id l), w_id16 (lv_holder l), w_u64 (lv_holder_incarnation l),
      w_u64 (lv_holder_generation l), encode_grants (lv_scopes l) kMaxScopesPerLease,
      w_u64 (lv_issued_epoch l), w_u64 (lv_not_after l), w_u8 (lease_state_wire (lv_state l)),
      w_bool (lv_revoked l)]"

definition encode_replay_entry :: "ReplayEntry \<Rightarrow> bytes result" where
  "encode_replay_entry e = w_seq
     [w_id16 (re_request e), w_digest (re_decision e), w_u64 (re_decided_at e)]"

definition encode_federation_state :: "FederationState \<Rightarrow> bytes result" where
  "encode_federation_state s = w_seq
     [w_u32 kCanonicalStateVersion, w_id16 (fs_federation s), w_id16 (fs_coordinator s),
      w_u64 (fs_coordinator_incarnation s), w_u64 (fs_epoch s), w_bool (fs_reconciling s),
      w_identifier (fs_policy_id s), w_u64 (fs_policy_generation s), w_digest (fs_policy_digest s),
      w_u64 (fs_logical_time s), w_digest (fs_genesis_digest s),
      w_text (fs_description s) kMaxTextLength,
      w_list encode_member_state kMaxMembers (sort_key mb_member (fs_members s)),
      w_list encode_lease_view kMaxLeases (sort_key lv_id (fs_leases s)),
      encode_conflicts (fs_conflicts s) kMaxConflicts,
      w_list encode_replay_entry kMaxReplayEntries (unique_ledger (fs_replay_ledger s)),
      w_u8 (partition_wire (pa_state (fs_partition s))),
      w_list (\<lambda>members. w_list w_id16 kMaxMembers (sort members)) kMaxMembers
        (sort (pa_components (fs_partition s))),
      w_list encode_reason kMaxReasonsPerDecision (sort_unique (fs_global_reasons s))]"

definition state_digest :: "(bytes \<Rightarrow> Digest) \<Rightarrow> FederationState \<Rightarrow> Digest" where
  "state_digest H s = digest_of H (encode_federation_state s)"

section \<open>Preparation\<close>

text \<open>
  What a string holds after it was moved from: unspecified by the language, empty in the standard
  library implementations.
\<close>

definition moved_from :: "string \<Rightarrow> string" where
  "moved_from s = []"

definition empty_grant :: ScopeGrant where
  "empty_grant = \<lparr>sg_scope = [], sg_verb = Verb_Observe\<rparr>"

record PreparedArtifacts =
  pp_accepted :: "Artifact list"
  pp_rejected :: "Reason list"
  pp_duplicates :: nat
  pp_conflicts :: "ConflictRecord list"

record Intake =
  ik_by_id :: "(EvidenceId, Artifact) smap"
  ik_quarantined :: "EvidenceId list"
  ik_rejected :: "Reason list"
  ik_duplicates :: nat
  ik_conflicts :: "ConflictRecord list"

definition empty_intake :: Intake where
  "empty_intake = \<lparr>ik_by_id = [], ik_quarantined = [], ik_rejected = [], ik_duplicates = 0,
                   ik_conflicts = []\<rparr>"

definition intake_step :: "(bytes \<Rightarrow> Digest) \<Rightarrow> Intake \<Rightarrow> Artifact \<Rightarrow> Intake" where
  "intake_step H ik a =
     (case smap_get (ik_by_id ik) (art_evidence a) of
        None \<Rightarrow> ik\<lparr>ik_by_id := smap_put (art_evidence a) a (ik_by_id ik)\<rparr>
      | Some existing \<Rightarrow>
          let ik = ik\<lparr>ik_duplicates := ik_duplicates ik + 1\<rparr> in
          if artifact_digest H existing = artifact_digest H a then
            ik\<lparr>ik_rejected := ik_rejected ik @
                 [make_reason Reason_EvidenceDuplicateIdentical
                    (''evidence '' @ evidence_to_string (art_evidence a) @
                     '' arrived more than once with identical content'')]\<rparr>
          else
            let detail = ''evidence '' @ evidence_to_string (art_evidence a) @
                  '' was presented twice with different content; both copies are quarantined''
            in ik\<lparr>ik_quarantined := ik_quarantined ik @ [art_evidence a],
                  ik_conflicts := ik_conflicts ik @
                    [\<lparr>cr_grant = empty_grant, cr_kind = Conflict_DuplicateEvidence,
                      cr_claimants = [art_issuer existing, art_issuer a], cr_detail = detail\<rparr>],
                  ik_rejected := ik_rejected ik @
                    [make_reason Reason_EvidenceDuplicateConflicting (moved_from detail)]\<rparr>)"

text \<open>The reason an artefact that is not quarantined is refused for, if any.\<close>

definition refusal ::
  "(bytes \<Rightarrow> Digest) \<Rightarrow> ScopeCatalog \<Rightarrow> FederationId \<Rightarrow> Artifact \<Rightarrow> Reason option" where
  "refusal H catalog federation a =
     (if en_federation (ar_envelope a) \<noteq> federation then
        Some (make_reason Reason_FederationIdentityMismatch
          (''evidence '' @ evidence_to_string (art_evidence a) @ '' belongs to federation '' @
           federation_to_string (en_federation (ar_envelope a))))
      else case validate_artifact H catalog a of
        Inl status \<Rightarrow> Some (make_reason Reason_ArtifactMalformed
          (''evidence '' @ evidence_to_string (art_evidence a) @ '': '' @ status_to_string status))
      | Inr _ \<Rightarrow> None)"

definition prepare_artifacts ::
  "(bytes \<Rightarrow> Digest) \<Rightarrow> DerivationInputs \<Rightarrow> ScopeCatalog \<Rightarrow> PreparedArtifacts" where
  "prepare_artifacts H inputs catalog =
     (let ik = foldl (intake_step H) empty_intake (di_artifacts inputs);
          kept = map snd (filter (\<lambda>(k, _). k \<notin> set (ik_quarantined ik)) (ik_by_id ik));
          why = refusal H catalog (di_federation inputs)
      in \<lparr>pp_accepted = sort_key art_evidence (filter (\<lambda>a. why a = None) kept),
          pp_rejected = ik_rejected ik @ List.map_filter why kept,
          pp_duplicates = ik_duplicates ik,
          pp_conflicts = canonicalize_conflicts (ik_conflicts ik)\<rparr>)"

primrec push_rejected :: "Reason list \<Rightarrow> Reason list \<Rightarrow> Reason list" where
  "push_rejected global [] = global"
| "push_rejected global (r # rs) =
     (if length global \<ge> kMaxReasonsPerDecision then
        global @ [make_reason Reason_LimitExceeded
                    ''the rejection list was truncated at the configured bound'']
      else push_rejected (global @ [r]) rs)"

section \<open>Genesis, policy, epoch, reconciliation\<close>

definition genesis_records :: "Artifact list \<Rightarrow> Artifact list" where
  "genesis_records accepted = filter (\<lambda>a. art_kind a = Kind_FederationGenesis) accepted"

definition genesis_of :: "Artifact list \<Rightarrow> Artifact option" where
  "genesis_of accepted = (case genesis_records accepted of [a] \<Rightarrow> Some a | _ \<Rightarrow> None)"

definition apply_genesis ::
  "(bytes \<Rightarrow> Digest) \<Rightarrow> Artifact list \<Rightarrow> FederationState \<Rightarrow> FederationState" where
  "apply_genesis H accepted st =
     (case genesis_records accepted of
        [] \<Rightarrow> st
      | [a] \<Rightarrow> st\<lparr>fs_genesis_digest := artifact_digest H a,
                  fs_description := ge_description (ab_genesis (ar_body a))\<rparr>
      | records \<Rightarrow>
          let detail = ''the federation carries more than one genesis record; the founder '' @
                ''identity is ambiguous and no member is bootstrapped''
          in st\<lparr>fs_conflicts := fs_conflicts st @
                   [\<lparr>cr_grant = empty_grant, cr_kind = Conflict_ConflictingIdentity,
                     cr_claimants = map art_subject records, cr_detail = detail\<rparr>],
                fs_global_reasons := fs_global_reasons st @
                   [make_reason Reason_ArtifactRejected (moved_from detail)]\<rparr>)"

definition newest_policy :: "Artifact list \<Rightarrow> Artifact option" where
  "newest_policy accepted =
     select_best (\<lambda>c b. ab_policy_generation (ar_body b) < ab_policy_generation (ar_body c) \<or>
                        ab_policy_generation (ar_body b) = ab_policy_generation (ar_body c) \<and>
                        art_evidence c < art_evidence b)
       (filter (\<lambda>a. art_kind a = Kind_PolicyUpdate) accepted)"

text \<open>The policy in force and the generation it is recorded under.\<close>

definition policy_in_force ::
  "FederationPolicy \<Rightarrow> Artifact list \<Rightarrow> FederationPolicy \<times> Generation" where
  "policy_in_force fallback accepted =
     (case newest_policy accepted of
        Some a \<Rightarrow> (ab_policy (ar_body a), ab_policy_generation (ar_body a))
      | None \<Rightarrow>
          (case genesis_of accepted of
             Some g \<Rightarrow> (ge_policy (ab_genesis (ar_body g)),
                        fp_generation (ge_policy (ab_genesis (ar_body g))))
           | None \<Rightarrow> (fallback, fp_generation fallback)))"

definition clock_step :: "Epoch \<times> Tick \<Rightarrow> Artifact \<Rightarrow> Epoch \<times> Tick" where
  "clock_step acc a =
     (case acc of (epoch, time) \<Rightarrow>
        (if art_kind a = Kind_EpochAdvance \<and> ab_epoch (ar_body a) > epoch
         then ab_epoch (ar_body a) else epoch,
         if ab_logical_time (ar_body a) > time then ab_logical_time (ar_body a) else time))"

definition partition_advance :: "Artifact \<Rightarrow> bool" where
  "partition_advance a \<longleftrightarrow> art_kind a = Kind_EpochAdvance \<and>
     (ab_reason_code (ar_body a) = Reason_PartitionSplitSuspendsGlobalMutation \<or>
      ab_reason_code (ar_body a) = Reason_PartitionIndeterminateSuspendsGlobalMutation)"

definition recovery_step :: "bool \<times> Epoch \<Rightarrow> Artifact \<Rightarrow> bool \<times> Epoch" where
  "recovery_step acc a =
     (case acc of (needs, epoch) \<Rightarrow>
        if partition_advance a \<and> (\<not> needs \<or> epoch < ab_epoch (ar_body a))
        then (True, ab_epoch (ar_body a)) else (needs, epoch))"

definition recovery_needed :: "Artifact list \<Rightarrow> bool \<times> Epoch" where
  "recovery_needed accepted = foldl recovery_step (False, 0) accepted"

definition reconciliation_recorded :: "Artifact list \<Rightarrow> bool" where
  "reconciliation_recorded accepted =
     (case recovery_needed accepted of (needs, epoch) \<Rightarrow>
        needs \<and> (\<exists>a \<in> set accepted. art_kind a = Kind_ReconciliationComplete \<and>
                   ab_epoch (ar_body a) \<ge> epoch))"

definition bootstrap_members :: "Artifact list \<Rightarrow> MemberId list" where
  "bootstrap_members accepted =
     (case genesis_of accepted of None \<Rightarrow> []
      | Some g \<Rightarrow> [mc_member (md_constitution (ge_founder (ab_genesis (ar_body g))))])"

definition bootstrap_declarations :: "Artifact list \<Rightarrow> MemberDeclaration list" where
  "bootstrap_declarations accepted =
     (case genesis_of accepted of None \<Rightarrow> [] | Some g \<Rightarrow> [ge_founder (ab_genesis (ar_body g))])"

definition artifacts_of :: "Artifact list \<Rightarrow> MemberId \<Rightarrow> Artifact list" where
  "artifacts_of accepted m = filter (\<lambda>a. \<not> is_nil (art_subject a) \<and> art_subject a = m) accepted"

definition member_order :: "Artifact list \<Rightarrow> AuthorityLease list \<Rightarrow> MemberId list" where
  "member_order accepted leases =
     sort_unique (map art_subject (filter (\<lambda>a. \<not> is_nil (art_subject a)) accepted) @
                  bootstrap_members accepted @
                  map (\<lambda>l. mi_member (al_holder l))
                    (filter (\<lambda>l. \<not> is_nil (mi_member (al_holder l))) leases))"

section \<open>Established members\<close>

definition neutral_partition :: PartitionAssessment where
  "neutral_partition = empty_assessment
     \<lparr>pa_state := Partition_Connected, pa_evidence := Evidence_Known,
      pa_summary := ''partition influence withheld during the standing fixpoint''\<rparr>"

type_synonym derivation_map = "(MemberId, MembershipDerivation) smap"

text \<open>
  The context of one round, and one round: derive every member, in ascending order, and collect the
  established ones.
\<close>

definition round_context :: "DerivationInputs \<Rightarrow> ScopeCatalog \<Rightarrow> FederationPolicy \<Rightarrow>
    Artifact list \<Rightarrow> FederationState \<Rightarrow> MemberId list \<Rightarrow> MembershipContext" where
  "round_context inputs catalog policy accepted st active =
     \<lparr>mx_federation = di_federation inputs, mx_current_epoch = fs_epoch st,
      mx_now = fs_logical_time st, mx_policy = policy, mx_catalog = catalog,
      mx_partition = neutral_partition, mx_reconciling = False, mx_established_members = active,
      mx_bootstrap_members = bootstrap_members accepted,
      mx_bootstrap_declarations = bootstrap_declarations accepted\<rparr>"

definition derive_all :: "(bytes \<Rightarrow> Digest) \<Rightarrow> Artifact list \<Rightarrow> MembershipContext \<Rightarrow>
    MemberId list \<Rightarrow> derivation_map" where
  "derive_all H accepted cx order =
     map (\<lambda>m. (m, derive_membership H m (artifacts_of accepted m) cx)) order"

definition established_of :: "derivation_map \<Rightarrow> MemberId list" where
  "established_of ds =
     sort_unique (map fst (filter (\<lambda>(_, d). established_lifecycle (dv_lifecycle d)) ds))"

primrec standing_loop :: "nat \<Rightarrow> (MemberId list \<Rightarrow> derivation_map) \<Rightarrow> MemberId list \<Rightarrow>
    derivation_map \<Rightarrow> MemberId list \<times> derivation_map \<times> bool" where
  "standing_loop 0 derive active ds = (active, ds, False)"
| "standing_loop (Suc rounds) derive active ds =
     (let next_map = derive active; next_established = established_of next_map
      in if next_established = active then (next_established, next_map, True)
         else standing_loop rounds derive next_established next_map)"

section \<open>Partition, reconciliation clearance, member records\<close>

definition active_incarnations :: "derivation_map \<Rightarrow> MemberId list \<Rightarrow> Incarnation list" where
  "active_incarnations ds active =
     map (\<lambda>m. case smap_get ds m of None \<Rightarrow> 0
                | Some d \<Rightarrow> mi_incarnation (mf_current_identity (dv_facts d))) active"

definition assess_state_partition :: "DerivationInputs \<Rightarrow> FederationPolicy \<Rightarrow> derivation_map \<Rightarrow>
    MemberId list \<Rightarrow> FederationState \<Rightarrow> FederationState" where
  "assess_state_partition inputs policy ds active st =
     (let pa = assess_partition active (active_incarnations ds active) (di_observations inputs)
                 (fs_epoch st) (fs_logical_time st) (observation_freshness_ticks policy);
          st = st\<lparr>fs_partition := pa\<rparr>
      in if pa_state pa \<noteq> Partition_Connected then
           st\<lparr>fs_global_reasons := fs_global_reasons st @
                [make_reason (if pa_state pa = Partition_Split
                              then Reason_PartitionSplitSuspendsGlobalMutation
                              else Reason_PartitionIndeterminateSuspendsGlobalMutation)
                   (pa_summary pa)]\<rparr>
         else st)"

definition all_reattested :: "derivation_map \<Rightarrow> MemberId list \<Rightarrow> bool" where
  "all_reattested ds active \<longleftrightarrow>
     (\<forall>m \<in> set active. case smap_get ds m of None \<Rightarrow> False
        | Some d \<Rightarrow> mf_has_reattestation (dv_facts d))"

definition clear_reconciliation :: "Artifact list \<Rightarrow> derivation_map \<Rightarrow> MemberId list \<Rightarrow>
    FederationState \<Rightarrow> FederationState" where
  "clear_reconciliation accepted ds active st =
     (if fs_reconciling st \<and> reconciliation_recorded accepted then
        if all_reattested ds active then st\<lparr>fs_reconciling := False\<rparr>
        else st\<lparr>fs_global_reasons := fs_global_reasons st @
               [make_reason Reason_PartitionReattestationMissing
                  (''a reconciliation record exists but not every active member has '' @
                   ''re-attested'')]\<rparr>
      else st)"

definition member_state_of :: "(bytes \<Rightarrow> Digest) \<Rightarrow> FederationState \<Rightarrow> bool \<Rightarrow> MemberId \<Rightarrow>
    MembershipDerivation \<Rightarrow> MemberState" where
  "member_state_of H st converged m d =
     (let f = dv_facts d;
          reasons = (if dv_lifecycle d = Lifecycle_Active \<and> \<not> converged
                     then mf_reasons f @ [make_reason Reason_EvidenceIndeterminate
                       (''the established-member fixpoint did not converge; this member'' @
                        [CHR 0x27] @ ''s activation is treated as indeterminate'')]
                     else mf_reasons f)
      in \<lparr>mb_member = m, mb_domain = mc_domain (md_constitution (mf_declaration f)),
          mb_lifecycle = dv_lifecycle d, mb_lineage = mf_lineage f,
          mb_lineage_id = ms_lineage_id (make_slot H m (mf_lineage f)),
          mb_bootstrap = mf_bootstrap f, mb_partition_state = pa_state (fs_partition st),
          mb_declaration = mf_declaration f, mb_current_identity = mf_current_identity f,
          mb_admitted_identity = mf_admitted_identity f,
          mb_admitted_identity_current =
            (mi_constitution (mf_admitted_identity f) = mi_constitution (mf_current_identity f)),
          mb_activation_current =
            (mf_activation_matches_identity f \<and> mf_activation_at_current_epoch f),
          mb_contributing_parties = mf_contributions f, mb_reasons = reasons,
          mb_conflicts = mf_conflicts f, mb_rejected_kinds = mf_rejected_kinds f,
          mb_retained_local_authority = dv_retained_local_authority d,
          mb_delegated_terms = mf_delegated_terms f, mb_withdrawn_grants = mf_withdrawn_grants f,
          mb_federation_authority = [], mb_withheld_grants = [], mb_withheld_global_mutation = [],
          mb_fenced_incarnations = mf_superseded_incarnations f, mb_lease_ids = [],
          mb_admission_digest = mf_admission_digest f,
          mb_activated_epoch = (if mf_activation_at_current_epoch f then fs_epoch st else 0),
          mb_activated_at = 0, mb_admitted_epoch = mf_admitted_epoch f,
          mb_evidence = mf_evidence f, mb_limit_reached = False\<rparr>)"

section \<open>Claims and conflicts\<close>

definition live_claims :: "MemberState list \<Rightarrow> GrantClaim list" where
  "live_claims members =
     concat (map (\<lambda>m. map (\<lambda>t. \<lparr>gc_member = mb_member m, gc_terms = t\<rparr>) (mb_delegated_terms m))
       (filter (\<lambda>m. lifecycle_holds_federation_authority (mb_lifecycle m)) members))"

definition claims_by_grant :: "GrantClaim list \<Rightarrow> (ScopeGrant, GrantClaim list) smap" where
  "claims_by_grant claims =
     foldl (\<lambda>m c. smap_update [] (dt_grant (gc_terms c)) (\<lambda>cs. cs @ [c]) m) [] claims"

definition pair_conflict :: "GrantClaim \<Rightarrow> GrantClaim \<Rightarrow> ConflictKind option" where
  "pair_conflict x y =
     (let a = gc_terms x; b = gc_terms y in
      if dt_mode a \<noteq> dt_mode b then Some Conflict_ModeMismatch
      else if dt_mode a = Mode_Exclusive then Some Conflict_OverlappingExclusive
      else if \<not> terms_equivalent a b then Some Conflict_AmbiguousPrecedence
      else None)"

primrec first_conflict :: "GrantClaim \<Rightarrow> GrantClaim list \<Rightarrow> ConflictKind option" where
  "first_conflict x [] = None"
| "first_conflict x (y # ys) =
     (case pair_conflict x y of Some k \<Rightarrow> Some k | None \<Rightarrow> first_conflict x ys)"

primrec group_conflict :: "GrantClaim list \<Rightarrow> ConflictKind option" where
  "group_conflict [] = None"
| "group_conflict (x # xs) =
     (case first_conflict x xs of Some k \<Rightarrow> Some k | None \<Rightarrow> group_conflict xs)"

record ConflictLedger =
  cl_conflicts :: "ConflictRecord list"
  cl_conflicted :: "ScopeGrant list"
  cl_winners :: "(ScopeGrant, MemberId) smap"

definition resolve_group :: "FederationPolicy \<Rightarrow> ConflictLedger \<Rightarrow> ScopeGrant \<times> GrantClaim list \<Rightarrow>
    ConflictLedger" where
  "resolve_group policy cl entry =
     (case entry of (grant, claims) \<Rightarrow>
        if length claims < 2 then cl
        else case group_conflict claims of
          None \<Rightarrow> cl
        | Some kind \<Rightarrow>
            let claimants = sort_unique (map gc_member claims);
                record_of = (\<lambda>kind detail. cl\<lparr>cl_conflicts := cl_conflicts cl @
                    [\<lparr>cr_grant = grant, cr_kind = kind, cr_claimants = claimants,
                      cr_detail = detail\<rparr>],
                    cl_conflicted := cl_conflicted cl @ [grant]\<rparr>)
            in case precedence_for policy grant of
                 Some precedence \<Rightarrow>
                   let matching = filter (\<lambda>m. m \<in> set claimants) precedence
                   in if length matching = 1
                      then cl\<lparr>cl_winners := smap_put grant (hd matching) (cl_winners cl)\<rparr>
                      else record_of Conflict_PrecedenceUnsatisfiable
                             (''configured precedence names '' @ nat_to_string (length matching) @
                              '' of the claimants, so it cannot order them'')
               | None \<Rightarrow>
                   record_of kind
                     (''overlapping delegations of '' @ grant_to_string grant @
                      '' disagree; the grant is withheld from every claimant until a party '' @
                      ''changes its declaration or policy configures precedence''))"

definition resolve_conflicts :: "FederationPolicy \<Rightarrow> GrantClaim list \<Rightarrow> ConflictRecord list \<Rightarrow>
    ConflictLedger" where
  "resolve_conflicts policy claims conflicts =
     foldl (resolve_group policy)
       \<lparr>cl_conflicts = conflicts, cl_conflicted = [], cl_winners = []\<rparr> (claims_by_grant claims)"

section \<open>Effective authority\<close>

record AuthorityLists =
  aa_granted :: "ScopeGrant list"
  aa_withheld :: "ScopeGrant list"
  aa_withheld_global :: "ScopeGrant list"
  aa_reasons :: "Reason list"

definition withhold :: "ScopeGrant \<Rightarrow> Reason list \<Rightarrow> AuthorityLists \<Rightarrow> AuthorityLists" where
  "withhold g why aa = aa\<lparr>aa_withheld := aa_withheld aa @ [g], aa_reasons := aa_reasons aa @ why\<rparr>"

definition global_mutation_suspended :: "FederationPolicy \<Rightarrow> FederationState \<Rightarrow> bool" where
  "global_mutation_suspended policy st \<longleftrightarrow>
     fs_reconciling st \<and> suspend_global_mutation_while_reconciling policy \<or>
     (pa_state (fs_partition st) = Partition_Split \<or>
      pa_state (fs_partition st) = Partition_Indeterminate) \<and>
     suspend_global_mutation_on_partition policy"

definition settle_term :: "ScopeCatalog \<Rightarrow> FederationPolicy \<Rightarrow> FederationState \<Rightarrow> ConflictLedger \<Rightarrow>
    MemberState \<Rightarrow> bool \<Rightarrow> AuthorityLists \<Rightarrow> DelegationTerms \<Rightarrow> AuthorityLists" where
  "settle_term catalog policy st cl m holds aa terms =
     (let g = dt_grant terms; (scope_class, known) = classify catalog (sg_scope g);
          winner = smap_get (cl_winners cl) g;
          won = (case winner of None \<Rightarrow> [] | Some _ \<Rightarrow>
            [make_reason Reason_DelegationPrecedenceConfigured
               (grant_to_string g @
                '' is held by this member under the configured precedence order'')])
      in if \<not> known \<or> scope_class = Class_Local then
           withhold g [make_reason Reason_ScopeUnknownToCatalogue
             (grant_to_string g @ '' is not delegable in this build'')] aa
         else if scope_delegation_forbidden policy (sg_scope g) then
           withhold g [make_reason Reason_ScopeDelegationForbiddenByPolicy
             (''policy forbids delegating '' @ sg_scope g)] aa
         else if (\<exists>c \<in> set (mb_withdrawn_grants m).
                    sg_verb c = sg_verb g \<and> covers (sg_scope c) (sg_scope g)) then
           withhold g [make_reason Reason_DelegationWithdrawn
             (grant_to_string g @ '' was withdrawn by the member'')] aa
         else if dt_not_after terms \<noteq> 0 \<and> fs_logical_time st > dt_not_after terms then
           withhold g [make_reason Reason_DelegationExpired
             (grant_to_string g @ '' expired at tick '' @ word_to_string (dt_not_after terms))] aa
         else if g \<in> set (cl_conflicted cl) then withhold g [] aa
         else if winner \<noteq> None \<and> winner \<noteq> Some (mb_member m) then
           withhold g [make_reason Reason_DelegationPrecedenceConfigured
             (grant_to_string g @ '' is held by '' @ member_to_string (the winner) @
              '' under the configured precedence order'')] aa
         else
           let aa = aa\<lparr>aa_reasons := aa_reasons aa @ won\<rparr>
           in if \<not> holds then withhold g [] aa
              else if scope_class = Class_GlobalMutation \<and> global_mutation_suspended policy st then
                aa\<lparr>aa_withheld_global := aa_withheld_global aa @ [g]\<rparr>
              else if mb_lifecycle m = Lifecycle_Degraded \<and>
                      (sg_verb g = Verb_Mutate \<or> sg_verb g = Verb_Administer) then
                withhold g [] aa
              else aa\<lparr>aa_granted := aa_granted aa @ [g]\<rparr>)"

definition member_holds :: "derivation_map \<Rightarrow> MemberState \<Rightarrow> bool" where
  "member_holds ds m =
     (let needs_reactivation = (case smap_get ds (mb_member m) of None \<Rightarrow> False
            | Some d \<Rightarrow> mf_has_admission (dv_facts d) \<and>
                       \<not> mf_activation_matches_identity (dv_facts d))
      in lifecycle_holds_federation_authority (mb_lifecycle m) \<and>
         \<not> (needs_reactivation \<and> mb_lifecycle m = Lifecycle_Admitted))"

definition settle_authority :: "ScopeCatalog \<Rightarrow> FederationPolicy \<Rightarrow> FederationState \<Rightarrow>
    derivation_map \<Rightarrow> ConflictLedger \<Rightarrow> MemberState \<Rightarrow> MemberState" where
  "settle_authority catalog policy st ds cl m =
     (let aa = foldl (settle_term catalog policy st cl m (member_holds ds m))
                 \<lparr>aa_granted = [], aa_withheld = [], aa_withheld_global = [],
                  aa_reasons = mb_reasons m\<rparr> (mb_delegated_terms m)
      in m\<lparr>mb_reasons := aa_reasons aa,
           mb_federation_authority := canonicalize_grants (aa_granted aa),
           mb_withheld_grants := canonicalize_grants (aa_withheld aa),
           mb_withheld_global_mutation := canonicalize_grants (aa_withheld_global aa)\<rparr>)"

section \<open>Leases, replay ledger, final records\<close>

definition lease_view :: "FederationState \<Rightarrow> AuthorityLease \<Rightarrow> LeaseView" where
  "lease_view st l =
     (let ev = evaluate_lease l (fs_epoch st) (fs_coordinator_incarnation st) (fs_logical_time st)
      in \<lparr>lv_id = al_id l, lv_holder = mi_member (al_holder l),
          lv_holder_incarnation = mi_incarnation (al_holder l),
          lv_holder_generation = mi_generation (al_holder l), lv_scopes = al_scopes l,
          lv_issued_epoch = al_issued_epoch l, lv_not_after = al_not_after l,
          lv_state = le_state ev, lv_reason = le_reason ev, lv_revoked = al_revoked l\<rparr>)"

definition attach_leases :: "LeaseView list \<Rightarrow> MemberState \<Rightarrow> MemberState" where
  "attach_leases leases m =
     m\<lparr>mb_lease_ids := mb_lease_ids m @
         map lv_id (filter (\<lambda>l. lv_holder l = mb_member m) leases)\<rparr>"

definition bound_ledger :: "ReplayEntry list \<Rightarrow> FederationState \<Rightarrow> FederationState" where
  "bound_ledger entries st =
     (let ledger = unique_ledger entries in
      if length ledger > kMaxReplayEntries then
        st\<lparr>fs_replay_ledger := take kMaxReplayEntries ledger,
           fs_global_reasons := fs_global_reasons st @
             [make_reason Reason_LimitExceeded
                ''the replay ledger was truncated to the configured bound'']\<rparr>
      else st\<lparr>fs_replay_ledger := ledger\<rparr>)"

definition finish_member :: "ConflictRecord list \<Rightarrow> MemberState \<Rightarrow> MemberState" where
  "finish_member conflicts m =
     m\<lparr>mb_reasons := sort_unique (mb_reasons m),
       mb_conflicts := canonicalize_conflicts (mb_conflicts m @
         filter (\<lambda>c. mb_member m \<in> set (cr_claimants c)) conflicts),
       mb_fenced_incarnations := sort (mb_fenced_incarnations m),
       mb_lease_ids := sort (mb_lease_ids m)\<rparr>"

section \<open>The derivation\<close>

definition initial_state :: "DerivationInputs \<Rightarrow> PreparedArtifacts \<Rightarrow> FederationState" where
  "initial_state inputs prepared =
     \<lparr>fs_federation = di_federation inputs, fs_coordinator = di_coordinator inputs,
      fs_coordinator_incarnation = di_coordinator_incarnation inputs, fs_epoch = 0,
      fs_reconciling = False, fs_policy_id = [], fs_policy_generation = 0, fs_policy_digest = 0,
      fs_logical_time = di_logical_time inputs, fs_genesis_digest = 0, fs_description = [],
      fs_artifact_count = 0, fs_rejected_artifact_count = 0,
      fs_duplicate_artifact_count = pp_duplicates prepared, fs_members = [], fs_leases = [],
      fs_conflicts = pp_conflicts prepared, fs_replay_ledger = [],
      fs_partition = empty_assessment,
      fs_global_reasons = push_rejected [] (pp_rejected prepared),
      fs_recovery = di_recovery inputs\<rparr>"

text \<open>Genesis, policy, epoch, clock and the start of reconciliation.\<close>

definition federation_frame :: "(bytes \<Rightarrow> Digest) \<Rightarrow> FederationPolicy \<Rightarrow> Artifact list \<Rightarrow>
    FederationState \<Rightarrow> FederationState" where
  "federation_frame H fallback accepted st =
     (let st = apply_genesis H accepted st;
          (policy, generation) = policy_in_force fallback accepted;
          (epoch, time) = foldl clock_step (1, fs_logical_time st) accepted;
          (needs, recovery_epoch) = recovery_needed accepted;
          st = st\<lparr>fs_policy_generation := generation, fs_policy_id := fp_id policy,
                  fs_policy_digest := policy_digest H policy, fs_epoch := epoch,
                  fs_logical_time := time, fs_reconciling := needs\<rparr>
      in if needs then
           st\<lparr>fs_global_reasons := fs_global_reasons st @
                [make_reason Reason_PartitionReconcilingSuspendsGlobalMutation
                   (''the federation advanced to epoch '' @ word_to_string recovery_epoch @
                    '' after a partition and is reconciling'')]\<rparr>
         else st)"

text \<open>Standing fixpoint, partition assessment and reconciliation clearance.\<close>

definition settle_standing :: "(bytes \<Rightarrow> Digest) \<Rightarrow> DerivationInputs \<Rightarrow> ScopeCatalog \<Rightarrow>
    FederationPolicy \<Rightarrow> Artifact list \<Rightarrow> MemberId list \<Rightarrow> FederationState \<Rightarrow>
    FederationState \<times> MemberId list \<times> derivation_map \<times> bool" where
  "settle_standing H inputs catalog policy accepted order st =
     (let (active, ds, converged) = standing_loop kMaxDerivationRounds
            (\<lambda>active. derive_all H accepted
               (round_context inputs catalog policy accepted st active) order) [] [];
          st = (if \<not> converged then
                  st\<lparr>fs_global_reasons := fs_global_reasons st @
                       [make_reason Reason_LimitExceeded
                          (''the established-member fixpoint did not converge within the '' @
                           ''configured bound'')]\<rparr>
                else st);
          st = assess_state_partition inputs policy ds active st;
          st = clear_reconciliation accepted ds active st
      in (st, active, ds, converged))"

text \<open>Final per-member records, conflicts, authority, leases and ledger.\<close>

definition settle_members :: "(bytes \<Rightarrow> Digest) \<Rightarrow> DerivationInputs \<Rightarrow> ScopeCatalog \<Rightarrow>
    FederationPolicy \<Rightarrow> Artifact list \<Rightarrow> MemberId list \<Rightarrow> MemberId list \<Rightarrow> derivation_map \<Rightarrow> bool \<Rightarrow>
    FederationState \<Rightarrow> FederationState" where
  "settle_members H inputs catalog policy accepted order active ds converged st =
     (let cx = (round_context inputs catalog policy accepted st active)
                 \<lparr>mx_partition := fs_partition st, mx_reconciling := fs_reconciling st\<rparr>;
          members = map (\<lambda>(m, d). member_state_of H st converged m d)
                      (derive_all H accepted cx order);
          cl = resolve_conflicts policy (live_claims members) (fs_conflicts st);
          members = map (settle_authority catalog policy st ds cl) members;
          leases = sort_key lv_id (map (lease_view st) (di_leases inputs));
          members = map (attach_leases leases) members;
          st = bound_ledger (di_replay_ledger inputs) (st\<lparr>fs_leases := leases\<rparr>);
          conflicts = canonicalize_conflicts (cl_conflicts cl)
      in st\<lparr>fs_conflicts := conflicts,
            fs_members := map (finish_member conflicts) (sort_key mb_member members),
            fs_global_reasons := sort_unique (fs_global_reasons st)\<rparr>)"

definition derive_state :: "(bytes \<Rightarrow> Digest) \<Rightarrow> DerivationInputs \<Rightarrow> DerivationResult result" where
  "derive_state H inputs =
     (case (di_policy inputs, di_catalog inputs) of
        (None, _) \<Rightarrow> Fail Error_InvalidArgument ''derivation requires a policy''
      | (_, None) \<Rightarrow> Fail Error_InvalidArgument ''derivation requires a scope catalogue''
      | (Some fallback, Some catalog) \<Rightarrow>
          let prepared = prepare_artifacts H inputs catalog; accepted = pp_accepted prepared;
              policy = fst (policy_in_force fallback accepted);
              st = federation_frame H fallback accepted (initial_state inputs prepared);
              order = member_order accepted (di_leases inputs)
          in if length order > kMaxMembers then
               Fail Error_BoundsExceeded ''more members than the configured bound''
             else
               let st = st\<lparr>fs_artifact_count := length accepted,
                           fs_rejected_artifact_count := length (pp_rejected prepared)\<rparr>;
                   (st, active, ds, converged) =
                     settle_standing H inputs catalog policy accepted order st
               in Inr \<lparr>dr_state = settle_members H inputs catalog policy accepted order active ds
                                   converged st,
                       dr_rejected = pp_rejected prepared\<rparr>)"

end
