(* ===== verification/Standing.thy ===== *)
theory Standing
  imports State
begin

text \<open>
  The fixpoint of established members (\<^verbatim>\<open>state.cpp\<close>, \<^verbatim>\<open>derive_state\<close>). The locale
  \<open>increasing_iteration\<close> is what the loop relies on: a monotone step whose results are canonical
  lists over a bounded universe. Inside it the iteration from the empty list is shown to be
  increasing, to become stable after at most as many rounds as the universe has elements, and to
  reach the least fixpoint. It is interpreted on the derivation round of the model: the loop of
  \<^verbatim>\<open>derive_state\<close> always converges within its bound, and the established members are exactly the
  members grounded in the genesis record (the inductive predicate \<open>grounded\<close>).
\<close>

section \<open>Iterating a monotone step\<close>

locale increasing_iteration =
  fixes step :: "'a::linorder list \<Rightarrow> 'a list"
    and universe :: "'a list"
  assumes step_mono: "set xs \<subseteq> set ys \<Longrightarrow> set (step xs) \<subseteq> set (step ys)"
    and step_canonical: "sorted (step xs) \<and> distinct (step xs)"
    and step_within: "set (step xs) \<subseteq> set universe"
begin

definition stage :: "nat \<Rightarrow> 'a list" where
  "stage n = (step ^^ n) []"

lemma stage_simps [simp]: "stage 0 = []" "stage (Suc n) = step (stage n)"
  by (simp_all add: stage_def)

lemma stage_increasing: "set (stage n) \<subseteq> set (stage (Suc n))"
  by (induction n) (simp_all add: step_mono)

lemma stage_canonical: "sorted (stage n) \<and> distinct (stage n)"
  by (cases n) (simp_all add: step_canonical)

lemma stage_stable_iff: "stage (Suc n) = stage n \<longleftrightarrow> set (stage (Suc n)) = set (stage n)"
  using stage_canonical [of n] stage_canonical [of "Suc n"]
  by (metis sorted_distinct_set_unique)

lemma stage_grows:
  assumes "\<And>k. k < n \<Longrightarrow> stage (Suc k) \<noteq> stage k"
  shows "n \<le> card (set (stage n))"
  using assms
proof (induction n)
  case 0
  then show ?case by simp
next
  case (Suc n)
  then have "set (stage n) \<subset> set (stage (Suc n))"
    using stage_increasing [of n] stage_stable_iff [of n] by blast
  then have "card (set (stage n)) < card (set (stage (Suc n)))"
    by (simp add: psubset_card_mono)
  with Suc show ?case by (metis Suc_leI le_less_trans less_SucI)
qed

lemma stage_within: "set (stage n) \<subseteq> set universe"
  using step_within by (cases n) simp_all

lemma stage_stabilises: "\<exists>k \<le> card (set universe). stage (Suc k) = stage k"
proof (rule ccontr)
  assume "\<not> ?thesis"
  then have "Suc (card (set universe)) \<le> card (set (stage (Suc (card (set universe)))))"
    by (intro stage_grows) (simp add: less_Suc_eq_le)
  moreover have "card (set (stage (Suc (card (set universe))))) \<le> card (set universe)"
    by (intro card_mono stage_within) simp
  ultimately show False by simp
qed

lemma stage_least: "set (step ys) \<subseteq> set ys \<Longrightarrow> set (stage n) \<subseteq> set ys"
  by (induction n) (auto dest: step_mono)

end

section \<open>The loop\<close>

lemma standing_loop_stage:
  assumes "\<And>j. j < k \<Longrightarrow> (est ^^ Suc j) a \<noteq> (est ^^ j) a"
    and "(est ^^ Suc k) a = (est ^^ k) a" "k < n"
    and "est = (\<lambda>active. established_of (derive active))"
  shows "standing_loop n derive a ds = ((est ^^ k) a, derive ((est ^^ k) a), True)"
  using assms
proof (induction k arbitrary: n a ds)
  case 0
  then obtain n' where "n = Suc n'" by (cases n) auto
  with 0 show ?case by (simp add: Let_def)
next
  case (Suc k)
  then obtain n' where n: "n = Suc n'" by (cases n) auto
  have shift: "(est ^^ j) (est a) = (est ^^ Suc j) a" for j
    by (metis funpow_simps_right(2) o_apply)
  have "est a \<noteq> a" using Suc.prems(1) [of 0] by simp
  moreover have "standing_loop n' derive (est a) (derive a) =
      ((est ^^ k) (est a), derive ((est ^^ k) (est a)), True)"
  proof (rule Suc.IH)
    fix j assume "j < k"
    then show "(est ^^ Suc j) (est a) \<noteq> (est ^^ j) (est a)"
      using Suc.prems(1) [of "Suc j"] unfolding shift by simp
  next
    show "(est ^^ Suc k) (est a) = (est ^^ k) (est a)" using Suc.prems(2) unfolding shift by simp
  qed (use Suc.prems n in simp_all)
  moreover have "standing_loop (Suc n') derive a ds = standing_loop n' derive (est a) (derive a)"
    using \<open>est a \<noteq> a\<close> by (simp add: Suc.prems(4) Let_def)
  ultimately show ?case unfolding n shift by simp
qed

lemma standing_loop_converges:
  assumes "increasing_iteration (\<lambda>active. established_of (derive active)) universe"
    and "card (set universe) < n"
  shows "\<exists>active. standing_loop n derive [] ds = (active, derive active, True) \<and>
    established_of (derive active) = active \<and>
    (\<forall>ys. set (established_of (derive ys)) \<subseteq> set ys \<longrightarrow> set active \<subseteq> set ys)"
proof -
  let ?est = "\<lambda>active. established_of (derive active)"
  have stage: "increasing_iteration.stage ?est k = (?est ^^ k) []" for k
    by (rule increasing_iteration.stage_def [OF assms(1)])
  define k where "k = (LEAST k. (?est ^^ Suc k) [] = (?est ^^ k) [])"
  obtain k0 where k0: "k0 \<le> card (set universe)" "(?est ^^ Suc k0) [] = (?est ^^ k0) []"
    using increasing_iteration.stage_stabilises [OF assms(1)] unfolding stage by blast
  have stable: "(?est ^^ Suc k) [] = (?est ^^ k) []"
    unfolding k_def by (rule LeastI) (rule k0(2))
  have "k \<le> k0" unfolding k_def by (rule Least_le) (rule k0(2))
  then have "k < n" using k0(1) assms(2) by simp
  have "standing_loop n derive [] ds = ((?est ^^ k) [], derive ((?est ^^ k) []), True)"
  proof (rule standing_loop_stage [OF _ stable \<open>k < n\<close> refl])
    fix j assume "j < k"
    then show "(?est ^^ Suc j) [] \<noteq> (?est ^^ j) []"
      unfolding k_def by (rule not_less_Least)
  qed
  moreover have "set ((?est ^^ k) []) \<subseteq> set ys" if "set (?est ys) \<subseteq> set ys" for ys
    using increasing_iteration.stage_least [OF assms(1) that, of k] unfolding stage .
  ultimately show ?thesis using stable by (intro exI [of _ "(?est ^^ k) []"]) simp
qed

section \<open>The derivation round\<close>

abbreviation round_at :: "(bytes \<Rightarrow> Digest) \<Rightarrow> Artifact list \<Rightarrow> MembershipContext \<Rightarrow> MemberId list \<Rightarrow>
    MemberId list \<Rightarrow> derivation_map" where
  "round_at H accepted cx order active \<equiv>
     derive_all H accepted (cx\<lparr>mx_established_members := active\<rparr>) order"

lemma set_established_of_derive_all:
  "set (established_of (derive_all H accepted cx order)) =
     {m \<in> set order. established_lifecycle
        (dv_lifecycle (derive_membership H m (artifacts_of accepted m) cx))}"
  by (force simp: established_of_def derive_all_def)

interpretation standing: increasing_iteration
  "\<lambda>active. established_of (round_at H accepted cx order active)" order
  for H accepted cx order
proof unfold_locales
  fix xs ys :: "MemberId list"
  assume "set xs \<subseteq> set ys"
  then show "set (established_of (round_at H accepted cx order xs)) \<subseteq>
      set (established_of (round_at H accepted cx order ys))"
    unfolding set_established_of_derive_all by (auto intro: established_mono)
next
  fix xs :: "MemberId list"
  show "sorted (established_of (round_at H accepted cx order xs)) \<and>
      distinct (established_of (round_at H accepted cx order xs))"
    by (simp add: established_of_def)
  show "set (established_of (round_at H accepted cx order xs)) \<subseteq> set order"
    by (simp add: set_established_of_derive_all)
qed

lemma round_loop_converges:
  assumes "length order \<le> kMaxMembers"
  shows "\<exists>active. standing_loop kMaxDerivationRounds (round_at H accepted cx order) [] ds =
      (active, round_at H accepted cx order active, True) \<and>
    established_of (round_at H accepted cx order active) = active \<and>
    (\<forall>ys. set (established_of (round_at H accepted cx order ys)) \<subseteq> set ys \<longrightarrow> set active \<subseteq> set ys)"
proof (rule standing_loop_converges)
  show "increasing_iteration (\<lambda>active. established_of (round_at H accepted cx order active)) order"
    by (rule standing.increasing_iteration_axioms)
  show "card (set order) < kMaxDerivationRounds"
    using assms card_length [of order] by (simp add: kMaxDerivationRounds_def)
qed

section \<open>Groundedness\<close>

text \<open>
  The abstract specification: a member is grounded when its own evidence, together with the standing
  of members that are themselves grounded, establishes it.
\<close>

inductive grounded :: "(bytes \<Rightarrow> Digest) \<Rightarrow> Artifact list \<Rightarrow> MembershipContext \<Rightarrow> MemberId list \<Rightarrow>
    MemberId \<Rightarrow> bool" for H accepted cx order where
  grounded_step: "\<lbrakk>m \<in> set order; \<forall>e \<in> set E. grounded H accepted cx order e;
    established_lifecycle (dv_lifecycle (derive_membership H m (artifacts_of accepted m)
      (cx\<lparr>mx_established_members := E\<rparr>)))\<rbrakk> \<Longrightarrow> grounded H accepted cx order m"

lemma grounded_least:
  assumes "set (established_of (round_at H accepted cx order ys)) \<subseteq> set ys"
    and "grounded H accepted cx order m"
  shows "m \<in> set ys"
  using assms(2)
proof (induction rule: grounded.induct)
  case (grounded_step m E)
  then have "set E \<subseteq> set ys" by blast
  with grounded_step have "m \<in> set (established_of (round_at H accepted cx order ys))"
    by (auto simp: set_established_of_derive_all intro: established_mono)
  with assms(1) show ?case by blast
qed

lemma grounded_iff_fixpoint:
  assumes "established_of (round_at H accepted cx order active) = active"
    and "\<forall>ys. set (established_of (round_at H accepted cx order ys)) \<subseteq> set ys \<longrightarrow>
           set active \<subseteq> set ys"
  shows "m \<in> set active \<longleftrightarrow> grounded H accepted cx order m"
proof
  assume "grounded H accepted cx order m"
  then show "m \<in> set active" using grounded_least assms(1) by (metis order_refl)
next
  define ys where "ys = filter (grounded H accepted cx order) order"
  have "set (established_of (round_at H accepted cx order ys)) \<subseteq> set ys"
    unfolding set_established_of_derive_all ys_def
    by (auto intro: grounded_step [where E = "filter (grounded H accepted cx order) order"])
  with assms(2) have "set active \<subseteq> set ys" by blast
  moreover assume "m \<in> set active"
  ultimately show "grounded H accepted cx order m" by (auto simp: ys_def)
qed

lemma round_context_established:
  "round_context inputs catalog policy accepted st active =
     (round_context inputs catalog policy accepted st [])\<lparr>mx_established_members := active\<rparr>"
  by (simp add: round_context_def)

lemma settle_standing_fixpoint:
  assumes "length order \<le> kMaxMembers"
    and "settle_standing H inputs catalog policy accepted order st = (st', active, ds, converged)"
    and "cx = round_context inputs catalog policy accepted st []"
  shows "converged" "ds = round_at H accepted cx order active"
    "established_of (round_at H accepted cx order active) = active"
    "\<forall>ys. set (established_of (round_at H accepted cx order ys)) \<subseteq> set ys \<longrightarrow> set active \<subseteq> set ys"
    "st' = clear_reconciliation accepted ds active (assess_state_partition inputs policy ds active st)"
proof -
  have ctx: "(\<lambda>active. derive_all H accepted (round_context inputs catalog policy accepted st active)
      order) = round_at H accepted cx order"
    by (intro ext) (simp add: assms(3) round_context_def)
  obtain a where a: "standing_loop kMaxDerivationRounds (round_at H accepted cx order) [] [] =
      (a, round_at H accepted cx order a, True)"
    "established_of (round_at H accepted cx order a) = a"
    "\<forall>ys. set (established_of (round_at H accepted cx order ys)) \<subseteq> set ys \<longrightarrow> set a \<subseteq> set ys"
    using round_loop_converges [OF assms(1)] by blast
  have "active = a" "ds = round_at H accepted cx order a" "converged"
    "st' = clear_reconciliation accepted ds active (assess_state_partition inputs policy ds active st)"
    using assms(2) a(1) unfolding settle_standing_def ctx by (auto simp: Let_def)
  with a(2,3) show "converged" "ds = round_at H accepted cx order active"
    "established_of (round_at H accepted cx order active) = active"
    "\<forall>ys. set (established_of (round_at H accepted cx order ys)) \<subseteq> set ys \<longrightarrow> set active \<subseteq> set ys"
    "st' = clear_reconciliation accepted ds active (assess_state_partition inputs policy ds active st)"
    by simp_all
qed

lemma grounded_needs_founder:
  "grounded H accepted cx order m \<Longrightarrow> mx_bootstrap_members cx \<noteq> []"
proof (induction rule: grounded.induct)
  case (grounded_step m E)
  show ?case
  proof
    assume none: "mx_bootstrap_members cx = []"
    then have "admission_warranted H m E (mx_policy cx) (artifacts_of accepted m)"
      using grounded_step.hyps by (simp add: established_iff admission_valid_iff split: if_splits)
    then have "\<exists>e. e \<in> set E"
      by (auto simp: admission_warranted_def Let_def split: option.splits)
    then show False using grounded_step.IH none by blast
  qed
qed

section \<open>Properties\<close>

text \<open>
  C7: the fixpoint of established members always converges within the round bound: whatever the
  artefacts, for at most the bounded number of members, the loop stops at a stable set, so that the
  non-convergence branch of the derivation is never taken. The established members it reports are
  exactly the members grounded in the evidence, by induction from the genesis record, and the
  derivations it hands on are those under that set.
\<close>

theorem standing_fixpoint_converges:
  assumes "length order \<le> kMaxMembers"
    and "settle_standing H inputs catalog policy accepted order st = (st', active, ds, converged)"
  shows "converged \<and>
    ds = derive_all H accepted (round_context inputs catalog policy accepted st active) order \<and>
    (\<forall>m. m \<in> set active \<longleftrightarrow>
       grounded H accepted (round_context inputs catalog policy accepted st []) order m)"
  using settle_standing_fixpoint [OF assms refl] grounded_iff_fixpoint
    round_context_established [of inputs catalog policy accepted st active]
  by metis

text \<open>
  Authority starts at the genesis record. With no genesis record, or with several that disagree,
  no member is established, however many proposals, consents and endorsements refer to each other.
\<close>

theorem no_genesis_no_standing:
  assumes "length order \<le> kMaxMembers" "genesis_of accepted = None"
    and "settle_standing H inputs catalog policy accepted order st = (st', active, ds, converged)"
  shows "active = []"
proof -
  have "mx_bootstrap_members (round_context inputs catalog policy accepted st []) = []"
    using assms(2) by (simp add: round_context_def bootstrap_members_def)
  then have "m \<notin> set active" for m
    using settle_standing_fixpoint [OF assms(1,3) refl] grounded_iff_fixpoint grounded_needs_founder
    by metis
  then show ?thesis by (cases active) auto
qed

section \<open>Witnesses\<close>

definition sample_inputs :: DerivationInputs where
  "sample_inputs =
     \<lparr>di_federation = 1, di_coordinator = 8, di_coordinator_incarnation = 1, di_logical_time = 5,
      di_policy = Some default_policy, di_catalog = Some builtin, di_artifacts = sample_evidence,
      di_observations = [], di_leases = [], di_replay_ledger = [], di_recovery = []\<rparr>"

abbreviation sample_standing ::
  "FederationState \<times> MemberId list \<times> derivation_map \<times> bool" where
  "sample_standing \<equiv> settle_standing toy_hash sample_inputs builtin default_policy sample_evidence
     [1, 3] (initial_state sample_inputs (prepare_artifacts toy_hash sample_inputs builtin))"

lemma sample_order_bounded: "length [1, 3 :: MemberId] \<le> kMaxMembers"
  by (simp add: ff_bounds)

theorem standing_fixpoint_converges_witness: "snd (snd (snd sample_standing))"
proof -
  obtain st' active ds converged where eq: "sample_standing = (st', active, ds, converged)"
    by (cases sample_standing) blast
  from standing_fixpoint_converges [OF sample_order_bounded eq] show ?thesis unfolding eq by simp
qed

theorem no_genesis_no_standing_witness: "fst (snd sample_standing) = []"
proof -
  have none: "genesis_of sample_evidence = None" by code_simp
  obtain st' active ds converged where eq: "sample_standing = (st', active, ds, converged)"
    by (cases sample_standing) blast
  from no_genesis_no_standing [OF sample_order_bounded none eq] show ?thesis unfolding eq by simp
qed

end
