(* ===== verification/State_Laws.thy ===== *)
theory State_Laws
  imports Standing "HOL-Library.Multiset"
begin

text \<open>
  Laws of the derived state (\<^verbatim>\<open>state.cpp\<close>): what a member's federation authority guarantees, that an
  exclusive grant has one holder, that conflicts are contained, that global mutation is suspended
  while the federation is split, indeterminate or reconciling, that the state does not depend on the
  order in which distinct artefacts arrive, and that equivocated evidence is never applied.
\<close>

section \<open>Granted terms\<close>

text \<open>When a term of a member becomes federation authority.\<close>

definition term_granted :: "ScopeCatalog \<Rightarrow> FederationPolicy \<Rightarrow> FederationState \<Rightarrow> ConflictLedger \<Rightarrow>
    MemberState \<Rightarrow> bool \<Rightarrow> DelegationTerms \<Rightarrow> bool" where
  "term_granted catalog policy st cl m holds t =
     (let g = dt_grant t; (scope_class, known) = classify catalog (sg_scope g) in
      known \<and> scope_class \<noteq> Class_Local \<and> \<not> scope_delegation_forbidden policy (sg_scope g) \<and>
      \<not> grants_cover (mb_withdrawn_grants m) g \<and>
      (dt_not_after t = 0 \<or> fs_logical_time st \<le> dt_not_after t) \<and>
      g \<notin> set (cl_conflicted cl) \<and>
      (smap_get (cl_winners cl) g = None \<or> smap_get (cl_winners cl) g = Some (mb_member m)) \<and>
      holds \<and> \<not> (scope_class = Class_GlobalMutation \<and> global_mutation_suspended policy st) \<and>
      \<not> (mb_lifecycle m = Lifecycle_Degraded \<and>
          (sg_verb g = Verb_Mutate \<or> sg_verb g = Verb_Administer)))"

lemma settle_term_granted:
  "aa_granted (settle_term catalog policy st cl m holds aa t) =
     aa_granted aa @ (if term_granted catalog policy st cl m holds t then [dt_grant t] else [])"
proof -
  obtain c k where ck: "classify catalog (sg_scope (dt_grant t)) = (c, k)" by fastforce
  have w: "(\<exists>w \<in> set (mb_withdrawn_grants m). sg_verb w = sg_verb (dt_grant t) \<and>
      covers (sg_scope w) (sg_scope (dt_grant t))) = grants_cover (mb_withdrawn_grants m) (dt_grant t)"
    by (auto simp: grants_cover_def)
  show ?thesis
    unfolding settle_term_def term_granted_def Let_def ck prod.case w withhold_def
    by (simp add: not_less [symmetric])
qed

lemma settle_fold_granted:
  "aa_granted (foldl (settle_term catalog policy st cl m holds) aa ts) =
     aa_granted aa @ map dt_grant (filter (term_granted catalog policy st cl m holds) ts)"
  by (induction ts arbitrary: aa) (simp_all add: settle_term_granted)

lemma settle_authority_granted:
  "set (mb_federation_authority (settle_authority catalog policy st ds cl m)) =
     dt_grant ` {t \<in> set (mb_delegated_terms m).
       term_granted catalog policy st cl m (member_holds ds m) t}"
  by (auto simp: settle_authority_def Let_def settle_fold_granted canonicalize_grants_def)

lemma settle_authority_frame [simp]:
  "mb_member (settle_authority catalog policy st ds cl m) = mb_member m"
  "mb_lifecycle (settle_authority catalog policy st ds cl m) = mb_lifecycle m"
  "mb_declaration (settle_authority catalog policy st ds cl m) = mb_declaration m"
  "mb_delegated_terms (settle_authority catalog policy st ds cl m) = mb_delegated_terms m"
  "mb_withdrawn_grants (settle_authority catalog policy st ds cl m) = mb_withdrawn_grants m"
  "mb_retained_local_authority (settle_authority catalog policy st ds cl m) =
     mb_retained_local_authority m"
  by (simp_all add: settle_authority_def Let_def)

lemma attach_leases_frame [simp]:
  "mb_member (attach_leases ls m) = mb_member m"
  "mb_lifecycle (attach_leases ls m) = mb_lifecycle m"
  "mb_declaration (attach_leases ls m) = mb_declaration m"
  "mb_delegated_terms (attach_leases ls m) = mb_delegated_terms m"
  "mb_withdrawn_grants (attach_leases ls m) = mb_withdrawn_grants m"
  "mb_federation_authority (attach_leases ls m) = mb_federation_authority m"
  "mb_retained_local_authority (attach_leases ls m) = mb_retained_local_authority m"
  by (simp_all add: attach_leases_def)

lemma finish_member_frame [simp]:
  "mb_member (finish_member cs m) = mb_member m"
  "mb_lifecycle (finish_member cs m) = mb_lifecycle m"
  "mb_declaration (finish_member cs m) = mb_declaration m"
  "mb_delegated_terms (finish_member cs m) = mb_delegated_terms m"
  "mb_withdrawn_grants (finish_member cs m) = mb_withdrawn_grants m"
  "mb_federation_authority (finish_member cs m) = mb_federation_authority m"
  "mb_retained_local_authority (finish_member cs m) = mb_retained_local_authority m"
  by (simp_all add: finish_member_def)

section \<open>Claims\<close>

lemma claims_by_grant_wf: "smap_wf (claims_by_grant cs)"
proof -
  have "smap_wf m \<Longrightarrow> smap_wf (foldl (\<lambda>m c. smap_update [] (dt_grant (gc_terms c)) (\<lambda>cs. cs @ [c]) m) m cs)"
    for m
    by (induction cs arbitrary: m) (simp_all add: smap_update_def smap_wf_put)
  then show ?thesis by (simp add: claims_by_grant_def smap_wf_def)
qed

lemma claims_by_grant_get:
  "smap_get (claims_by_grant cs) g =
     (case filter (\<lambda>c. dt_grant (gc_terms c) = g) cs of [] \<Rightarrow> None | xs \<Rightarrow> Some xs)"
proof (induction cs rule: rev_induct)
  case Nil
  then show ?case by (simp add: claims_by_grant_def smap_get_def)
next
  case (snoc c cs)
  have "claims_by_grant (cs @ [c]) = smap_update [] (dt_grant (gc_terms c)) (\<lambda>xs. xs @ [c])
      (claims_by_grant cs)"
    by (simp add: claims_by_grant_def)
  with snoc show ?case
    by (auto simp: smap_update_def smap_get_put split: list.splits)
qed

lemma claims_by_grant_entry:
  assumes "c \<in> set cs"
  shows "(dt_grant (gc_terms c), filter (\<lambda>x. dt_grant (gc_terms x) = dt_grant (gc_terms c)) cs)
    \<in> set (claims_by_grant cs)"
proof -
  have "filter (\<lambda>x. dt_grant (gc_terms x) = dt_grant (gc_terms c)) cs \<noteq> []"
    using assms by (auto simp: filter_empty_conv)
  then have "smap_get (claims_by_grant cs) (dt_grant (gc_terms c)) =
      Some (filter (\<lambda>x. dt_grant (gc_terms x) = dt_grant (gc_terms c)) cs)"
    by (simp add: claims_by_grant_get split: list.splits)
  then show ?thesis using claims_by_grant_wf by (simp add: smap_get_iff)
qed

lemma first_conflict_None_iff: "first_conflict x ys = None \<longleftrightarrow> (\<forall>y \<in> set ys. pair_conflict x y = None)"
  by (induction ys) (auto split: option.split)

lemma group_conflict_None_iff:
  "group_conflict cs = None \<longleftrightarrow> sorted_wrt (\<lambda>x y. pair_conflict x y = None) cs"
  by (induction cs) (auto simp: first_conflict_None_iff [symmetric] split: option.split)

lemma pair_conflict_exclusive:
  "dt_mode (gc_terms x) = Mode_Exclusive \<or> dt_mode (gc_terms y) = Mode_Exclusive \<Longrightarrow>
   pair_conflict x y \<noteq> None"
  by (auto simp: pair_conflict_def Let_def)

lemma group_conflict_exclusive:
  assumes "x \<in> set cs" "y \<in> set cs" "x \<noteq> y" "dt_mode (gc_terms x) = Mode_Exclusive"
  shows "group_conflict cs \<noteq> None" "2 \<le> length cs"
proof -
  obtain i j where ij: "i < length cs" "j < length cs" "cs ! i = x" "cs ! j = y" "i \<noteq> j"
    using assms(1-3) by (metis in_set_conv_nth)
  show "group_conflict cs \<noteq> None"
  proof
    assume "group_conflict cs = None"
    then have s: "\<And>a b. a < b \<Longrightarrow> b < length cs \<Longrightarrow> pair_conflict (cs ! a) (cs ! b) = None"
      by (simp add: group_conflict_None_iff sorted_wrt_iff_nth_less)
    show False
    proof (cases "i < j")
      case True
      then show ?thesis using s [of i j] ij pair_conflict_exclusive [of x y] assms(4) by simp
    next
      case False
      then show ?thesis using s [of j i] ij pair_conflict_exclusive [of y x] assms(4) by simp
    qed
  qed
  show "2 \<le> length cs" using ij by linarith
qed

section \<open>Conflict containment\<close>

lemma resolve_group_grows:
  "set (cl_conflicted cl) \<subseteq> set (cl_conflicted (resolve_group policy cl e))"
  by (auto simp: resolve_group_def Let_def split: prod.split option.split)

lemma resolve_group_keeps_winner:
  "smap_get (cl_winners cl) g \<noteq> None \<Longrightarrow>
   smap_get (cl_winners (resolve_group policy cl e)) g \<noteq> None"
  by (auto simp: resolve_group_def Let_def smap_get_put split: prod.split option.split)

lemma resolve_fold_grows:
  "set (cl_conflicted cl) \<subseteq> set (cl_conflicted (foldl (resolve_group policy) cl es))"
  by (induction es arbitrary: cl) (simp, force dest: resolve_group_grows [THEN subsetD])

lemma resolve_fold_keeps_winner:
  "smap_get (cl_winners cl) g \<noteq> None \<Longrightarrow>
   smap_get (cl_winners (foldl (resolve_group policy) cl es)) g \<noteq> None"
  by (induction es arbitrary: cl) (simp_all add: resolve_group_keeps_winner del: not_None_eq)

lemma resolve_group_contains:
  assumes "2 \<le> length cs" "group_conflict cs \<noteq> None"
  shows "g \<in> set (cl_conflicted (resolve_group policy cl (g, cs))) \<or>
    smap_get (cl_winners (resolve_group policy cl (g, cs))) g \<noteq> None"
  using assms by (auto simp: resolve_group_def Let_def smap_get_put split: option.split)

lemma resolve_fold_contains:
  assumes "(g, cs) \<in> set es" "2 \<le> length cs" "group_conflict cs \<noteq> None"
  shows "g \<in> set (cl_conflicted (foldl (resolve_group policy) cl es)) \<or>
    smap_get (cl_winners (foldl (resolve_group policy) cl es)) g \<noteq> None"
proof -
  obtain us vs where es: "es = us @ (g, cs) # vs" using assms(1) by (meson split_list)
  let ?cl = "resolve_group policy (foldl (resolve_group policy) cl us) (g, cs)"
  have "foldl (resolve_group policy) cl es = foldl (resolve_group policy) ?cl vs" by (simp add: es)
  with resolve_group_contains [OF assms(2,3), of g policy "foldl (resolve_group policy) cl us"]
    resolve_fold_grows [of ?cl policy vs] resolve_fold_keeps_winner [of ?cl g policy vs]
  show ?thesis by (auto simp del: not_None_eq)
qed

lemma resolve_conflicts_contains:
  assumes "c \<in> set claims" "c' \<in> set claims" "c \<noteq> c'"
    and "dt_grant (gc_terms c') = dt_grant (gc_terms c)" "dt_mode (gc_terms c) = Mode_Exclusive"
  shows "dt_grant (gc_terms c) \<in> set (cl_conflicted (resolve_conflicts policy claims conflicts)) \<or>
    smap_get (cl_winners (resolve_conflicts policy claims conflicts)) (dt_grant (gc_terms c)) \<noteq> None"
proof -
  let ?cs = "filter (\<lambda>x. dt_grant (gc_terms x) = dt_grant (gc_terms c)) claims"
  have "c \<in> set ?cs" "c' \<in> set ?cs" using assms by simp_all
  note ex = group_conflict_exclusive [OF this assms(3,5)]
  show ?thesis
    unfolding resolve_conflicts_def
    by (rule resolve_fold_contains [OF claims_by_grant_entry [OF assms(1)] ex(2,1)])
qed

lemma live_claims_mem:
  "c \<in> set (live_claims ms) \<longleftrightarrow>
     (\<exists>m \<in> set ms. lifecycle_holds_federation_authority (mb_lifecycle m) \<and>
        gc_member c = mb_member m \<and> gc_terms c \<in> set (mb_delegated_terms m))"
  by (cases c) (auto simp: live_claims_def)

lemma term_grantedD:
  assumes "term_granted catalog policy st cl m holds t"
  shows "holds" "dt_grant t \<notin> set (cl_conflicted cl)"
    "smap_get (cl_winners cl) (dt_grant t) = None \<or>
     smap_get (cl_winners cl) (dt_grant t) = Some (mb_member m)"
  using assms by (auto simp: term_granted_def Let_def split: prod.splits)

lemma exclusive_holder_unique:
  assumes cl: "cl = resolve_conflicts policy (live_claims ms) conflicts"
    and "a \<in> set ms" "b \<in> set ms" "mb_member a \<noteq> mb_member b"
    and t: "t \<in> set (mb_delegated_terms a)" "dt_mode t = Mode_Exclusive"
    and ga: "dt_grant t \<in> set (mb_federation_authority (settle_authority catalog policy st ds cl a))"
  shows "dt_grant t \<notin> set (mb_federation_authority (settle_authority catalog policy st ds cl b))"
proof
  assume gb: "dt_grant t \<in> set (mb_federation_authority (settle_authority catalog policy st ds cl b))"
  obtain u where u: "dt_grant u = dt_grant t" "term_granted catalog policy st cl a (member_holds ds a) u"
    using ga by (auto simp: settle_authority_granted)
  obtain v where v: "v \<in> set (mb_delegated_terms b)" "dt_grant v = dt_grant t"
    "term_granted catalog policy st cl b (member_holds ds b) v"
    using gb by (auto simp: settle_authority_granted)
  note ua = term_grantedD [OF u(2)] and vb = term_grantedD [OF v(3)]
  have holds: "lifecycle_holds_federation_authority (mb_lifecycle a)"
    "lifecycle_holds_federation_authority (mb_lifecycle b)"
    using ua(1) vb(1) by (simp_all add: member_holds_def Let_def)
  let ?c = "\<lparr>gc_member = mb_member a, gc_terms = t\<rparr>" and ?d = "\<lparr>gc_member = mb_member b, gc_terms = v\<rparr>"
  have "?c \<in> set (live_claims ms)" "?d \<in> set (live_claims ms)" "?c \<noteq> ?d"
    using assms holds v(1) by (auto simp: live_claims_mem)
  from resolve_conflicts_contains [OF this, of policy conflicts] v(2) t(2)
  have "dt_grant t \<in> set (cl_conflicted cl) \<or> smap_get (cl_winners cl) (dt_grant t) \<noteq> None"
    by (simp add: cl)
  then show False using ua(2,3) vb(3) u(1) v(2) assms(4) by auto
qed

section \<open>The members of a derived state\<close>

lemma bound_ledger_frame [simp]:
  "fs_partition (bound_ledger es st) = fs_partition st"
  "fs_reconciling (bound_ledger es st) = fs_reconciling st"
  "fs_logical_time (bound_ledger es st) = fs_logical_time st"
  "fs_epoch (bound_ledger es st) = fs_epoch st"
  "fs_leases (bound_ledger es st) = fs_leases st"
  by (simp_all add: bound_ledger_def Let_def)

definition base_members :: "(bytes \<Rightarrow> Digest) \<Rightarrow> DerivationInputs \<Rightarrow> ScopeCatalog \<Rightarrow>
    FederationPolicy \<Rightarrow> Artifact list \<Rightarrow> MemberId list \<Rightarrow> MemberId list \<Rightarrow> FederationState \<Rightarrow>
    MemberState list" where
  "base_members H inputs catalog policy accepted order active st =
     map (\<lambda>(m, d). member_state_of H st True m d)
       (derive_all H accepted ((round_context inputs catalog policy accepted st active)
          \<lparr>mx_partition := fs_partition st, mx_reconciling := fs_reconciling st\<rparr>) order)"

lemma settle_members_shape:
  assumes "ms = base_members H inputs catalog policy accepted order active st"
    and "cl = resolve_conflicts policy (live_claims ms) (fs_conflicts st)"
    and "s = settle_members H inputs catalog policy accepted order active ds True st"
  shows "fs_members s = map (finish_member (canonicalize_conflicts (cl_conflicts cl)))
      (sort_key mb_member (map (attach_leases (fs_leases s))
        (map (settle_authority catalog policy st ds cl) ms)))"
    and "fs_partition s = fs_partition st" "fs_reconciling s = fs_reconciling st"
    "fs_logical_time s = fs_logical_time st" "fs_epoch s = fs_epoch st"
    "fs_conflicts s = canonicalize_conflicts (cl_conflicts cl)"
  unfolding assms settle_members_def Let_def base_members_def by (simp_all del: map_map)

lemma settle_members_members:
  assumes "ms = base_members H inputs catalog policy accepted order active st"
    and "cl = resolve_conflicts policy (live_claims ms) (fs_conflicts st)"
    and "s = settle_members H inputs catalog policy accepted order active ds True st"
    and "m \<in> set (fs_members s)"
  obtains b where "b \<in> set ms" "mb_member m = mb_member b" "mb_lifecycle m = mb_lifecycle b"
    "mb_delegated_terms m = mb_delegated_terms b" "mb_withdrawn_grants m = mb_withdrawn_grants b"
    "mb_retained_local_authority m = mb_retained_local_authority b"
    "mb_declaration m = mb_declaration b"
    "mb_federation_authority m =
       mb_federation_authority (settle_authority catalog policy st ds cl b)"
proof -
  obtain b where "b \<in> set ms" "m = finish_member (canonicalize_conflicts (cl_conflicts cl))
      (attach_leases (fs_leases s) (settle_authority catalog policy st ds cl b))"
    using assms(4) unfolding settle_members_shape(1) [OF assms(1-3)] by auto
  then show ?thesis by (intro that [of b]) simp_all
qed

lemma assess_state_partition_frame [simp]:
  "fs_epoch (assess_state_partition inputs policy ds active st) = fs_epoch st"
  "fs_logical_time (assess_state_partition inputs policy ds active st) = fs_logical_time st"
  "fs_reconciling (assess_state_partition inputs policy ds active st) = fs_reconciling st"
  by (simp_all add: assess_state_partition_def Let_def)

lemma clear_reconciliation_frame [simp]:
  "fs_epoch (clear_reconciliation accepted ds active st) = fs_epoch st"
  "fs_logical_time (clear_reconciliation accepted ds active st) = fs_logical_time st"
  "fs_partition (clear_reconciliation accepted ds active st) = fs_partition st"
  by (simp_all add: clear_reconciliation_def)

definition derived_artifacts :: "(bytes \<Rightarrow> Digest) \<Rightarrow> DerivationInputs \<Rightarrow> ScopeCatalog \<Rightarrow> Artifact list" where
  "derived_artifacts H inputs catalog = pp_accepted (prepare_artifacts H inputs catalog)"

definition derived_policy ::
  "(bytes \<Rightarrow> Digest) \<Rightarrow> DerivationInputs \<Rightarrow> FederationPolicy \<Rightarrow> ScopeCatalog \<Rightarrow> FederationPolicy" where
  "derived_policy H inputs fallback catalog =
     fst (policy_in_force fallback (derived_artifacts H inputs catalog))"

definition derived_members :: "(bytes \<Rightarrow> Digest) \<Rightarrow> DerivationInputs \<Rightarrow> ScopeCatalog \<Rightarrow> MemberId list" where
  "derived_members H inputs catalog =
     member_order (derived_artifacts H inputs catalog) (di_leases inputs)"

text \<open>The state before the standing of the members is settled.\<close>

definition derived_frame :: "(bytes \<Rightarrow> Digest) \<Rightarrow> DerivationInputs \<Rightarrow> FederationPolicy \<Rightarrow>
    ScopeCatalog \<Rightarrow> FederationState" where
  "derived_frame H inputs fallback catalog =
     (federation_frame H fallback (derived_artifacts H inputs catalog)
        (initial_state inputs (prepare_artifacts H inputs catalog)))
     \<lparr>fs_artifact_count := length (derived_artifacts H inputs catalog),
      fs_rejected_artifact_count := length (pp_rejected (prepare_artifacts H inputs catalog))\<rparr>"

lemma derive_state_ok:
  assumes "di_policy inputs = Some fallback" "di_catalog inputs = Some catalog"
  shows "is_ok (derive_state H inputs) \<longleftrightarrow> length (derived_members H inputs catalog) \<le> kMaxMembers"
  using assms by (auto simp: derive_state_def Let_def case_prod_unfold derived_artifacts_def
      derived_members_def not_less)

lemma derive_state_decompose:
  assumes "derive_state H inputs = Inr r" "di_policy inputs = Some fallback"
    and "di_catalog inputs = Some catalog"
    and "accepted = derived_artifacts H inputs catalog"
    and "policy = derived_policy H inputs fallback catalog"
    and "order = derived_members H inputs catalog"
    and "st0 = derived_frame H inputs fallback catalog"
  obtains st active ds where "length order \<le> kMaxMembers"
    "settle_standing H inputs catalog policy accepted order st0 = (st, active, ds, True)"
    "st = clear_reconciliation accepted ds active (assess_state_partition inputs policy ds active st0)"
    "dr_state r = settle_members H inputs catalog policy accepted order active ds True st"
    "fs_epoch st = fs_epoch st0" "fs_logical_time st = fs_logical_time st0"
proof -
  obtain st active ds converged where
    ss: "settle_standing H inputs catalog policy accepted order st0 = (st, active, ds, converged)"
    by (metis surj_pair)
  have len: "length order \<le> kMaxMembers"
    using derive_state_ok [OF assms(2,3), of H] assms(1,6) by simp
  note fp = settle_standing_fixpoint [OF len ss refl]
  have "dr_state r = settle_members H inputs catalog policy accepted order active ds converged st"
    using assms(1-3) len ss unfolding derive_state_def assms(4-7) derived_artifacts_def
      derived_members_def derived_policy_def derived_frame_def
    by (auto simp: Let_def)
  with that [of st active ds] len ss fp(1,5) show ?thesis by simp
qed

lemma established_cong:
  assumes "mx_bootstrap_members cx = mx_bootstrap_members cx'"
    and "mx_bootstrap_declarations cx = mx_bootstrap_declarations cx'"
    and "mx_policy cx = mx_policy cx'" "mx_established_members cx = mx_established_members cx'"
  shows "established_lifecycle (dv_lifecycle (derive_membership H m arts cx)) =
    established_lifecycle (dv_lifecycle (derive_membership H m arts cx'))"
  using own_standing_cong [OF assms(1-3)] assms by (simp add: established_iff admission_valid_iff)

lemma base_members_mem:
  "b \<in> set (base_members H inputs catalog policy accepted order active st) \<Longrightarrow>
   mb_member b \<in> set order \<and>
   mb_lifecycle b = dv_lifecycle (derive_membership H (mb_member b)
     (artifacts_of accepted (mb_member b))
     ((round_context inputs catalog policy accepted st active)
        \<lparr>mx_partition := fs_partition st, mx_reconciling := fs_reconciling st\<rparr>))"
  by (auto simp: base_members_def derive_all_def member_state_of_def Let_def)

lemma round_context_cong:
  "fs_epoch st = fs_epoch st' \<Longrightarrow> fs_logical_time st = fs_logical_time st' \<Longrightarrow>
   round_context inputs catalog policy accepted st active =
   round_context inputs catalog policy accepted st' active"
  by (simp add: round_context_def)

lemma global_mutation_suspended_cong:
  "fs_partition st = fs_partition st' \<Longrightarrow> fs_reconciling st = fs_reconciling st' \<Longrightarrow>
   global_mutation_suspended policy st = global_mutation_suspended policy st'"
  by (simp add: global_mutation_suspended_def)

lemma term_granted_cong:
  assumes "fs_partition st = fs_partition st'" "fs_reconciling st = fs_reconciling st'"
    and "fs_logical_time st = fs_logical_time st'"
    and "mb_member m = mb_member m'" "mb_lifecycle m = mb_lifecycle m'"
    and "mb_withdrawn_grants m = mb_withdrawn_grants m'"
  shows "term_granted catalog policy st cl m holds t = term_granted catalog policy st' cl m' holds t"
  using assms by (simp add: term_granted_def Let_def global_mutation_suspended_cong [OF assms(1,2)])

text \<open>A derived state in terms of its members before authority was settled.\<close>

lemma derived_shape:
  assumes "derive_state H inputs = Inr r" "di_policy inputs = Some fallback"
    and "di_catalog inputs = Some catalog"
    and "accepted = derived_artifacts H inputs catalog"
    and "policy = derived_policy H inputs fallback catalog"
    and "order = derived_members H inputs catalog"
  obtains st active ds ms cl where
    "ms = base_members H inputs catalog policy accepted order active st"
    "cl = resolve_conflicts policy (live_claims ms) (fs_conflicts st)"
    "dr_state r = settle_members H inputs catalog policy accepted order active ds True st"
    "fs_partition st = fs_partition (dr_state r)" "fs_reconciling st = fs_reconciling (dr_state r)"
    "fs_logical_time st = fs_logical_time (dr_state r)" "fs_epoch st = fs_epoch (dr_state r)"
    "\<And>m. m \<in> set active \<longleftrightarrow>
       grounded H accepted (round_context inputs catalog policy accepted (dr_state r) []) order m"
    "\<And>m. m \<in> set active \<longleftrightarrow> m \<in> set order \<and> established_lifecycle (dv_lifecycle
       (derive_membership H m (artifacts_of accepted m)
          (round_context inputs catalog policy accepted st active)))"
proof -
  define st0 where "st0 = derived_frame H inputs fallback catalog"
  obtain st active ds where d: "length order \<le> kMaxMembers"
    "settle_standing H inputs catalog policy accepted order st0 = (st, active, ds, True)"
    "dr_state r = settle_members H inputs catalog policy accepted order active ds True st"
    "fs_epoch st = fs_epoch st0" "fs_logical_time st = fs_logical_time st0"
    by (rule derive_state_decompose [OF assms st0_def])
  note sh = settle_members_shape [OF refl refl d(3)]
  have cx: "round_context inputs catalog policy accepted st0 [] =
      round_context inputs catalog policy accepted (dr_state r) []"
    by (rule round_context_cong) (simp_all add: d(4,5) sh)
  note fp = settle_standing_fixpoint [OF d(1,2) refl]
  have "m \<in> set active \<longleftrightarrow>
      grounded H accepted (round_context inputs catalog policy accepted (dr_state r) []) order m" for m
    using grounded_iff_fixpoint [OF fp(3,4)] unfolding cx by blast
  moreover have "round_at H accepted (round_context inputs catalog policy accepted st0 []) order active =
      derive_all H accepted (round_context inputs catalog policy accepted st active) order"
    by (simp add: round_context_def d(4,5))
  then have "m \<in> set active \<longleftrightarrow> m \<in> set order \<and> established_lifecycle (dv_lifecycle
       (derive_membership H m (artifacts_of accepted m)
          (round_context inputs catalog policy accepted st active)))" for m
    using fp(3) set_established_of_derive_all [of H accepted
      "round_context inputs catalog policy accepted st active" order] by auto
  ultimately show ?thesis by (intro that [OF refl refl d(3)]) (simp_all add: sh)
qed

lemma base_members_established:
  assumes "b \<in> set (base_members H inputs catalog policy accepted order active st)"
  shows "established_lifecycle (mb_lifecycle b) \<longleftrightarrow> established_lifecycle (dv_lifecycle
     (derive_membership H (mb_member b) (artifacts_of accepted (mb_member b))
       (round_context inputs catalog policy accepted st active)))"
  unfolding base_members_mem [OF assms, THEN conjunct2] by (rule established_cong) simp_all

text \<open>A grant a member of the derived state holds stems from a term that was granted.\<close>

lemma derived_grant:
  assumes "derive_state H inputs = Inr r" "di_policy inputs = Some fallback"
    and "di_catalog inputs = Some catalog" "m \<in> set (fs_members (dr_state r))"
    and "g \<in> set (mb_federation_authority m)"
  obtains t cl holds where "t \<in> set (mb_delegated_terms m)" "g = dt_grant t"
    "term_granted catalog (derived_policy H inputs fallback catalog) (dr_state r) cl m holds t"
    "lifecycle_holds_federation_authority (mb_lifecycle m)"
proof -
  define policy where "policy = derived_policy H inputs fallback catalog"
  from derived_shape [OF assms(1-3) refl policy_def refl] obtain st active ds ms cl where
    d: "ms = base_members H inputs catalog policy (derived_artifacts H inputs catalog)
       (derived_members H inputs catalog) active st"
    "cl = resolve_conflicts policy (live_claims ms) (fs_conflicts st)"
    "dr_state r = settle_members H inputs catalog policy (derived_artifacts H inputs catalog)
       (derived_members H inputs catalog) active ds True st"
    and fr: "fs_partition st = fs_partition (dr_state r)"
    "fs_reconciling st = fs_reconciling (dr_state r)"
    "fs_logical_time st = fs_logical_time (dr_state r)"
    by metis
  obtain b where b: "mb_member m = mb_member b" "mb_lifecycle m = mb_lifecycle b"
    "mb_delegated_terms m = mb_delegated_terms b" "mb_withdrawn_grants m = mb_withdrawn_grants b"
    "mb_federation_authority m = mb_federation_authority (settle_authority catalog policy st ds cl b)"
    using settle_members_members [OF d assms(4)] by metis
  obtain t where t: "t \<in> set (mb_delegated_terms m)" "g = dt_grant t"
    "term_granted catalog policy (dr_state r) cl m (member_holds ds b) t"
    using assms(5) term_granted_cong [OF fr, of b m] b by (auto simp: settle_authority_granted)
  have "lifecycle_holds_federation_authority (mb_lifecycle m)"
    using t(3) b(2) by (auto simp: term_granted_def member_holds_def Let_def case_prod_unfold)
  then show ?thesis using that t unfolding policy_def by blast
qed

lemma known_scope_concrete:
  assumes "snd (classify catalog s)"
  shows "covers s s' \<longleftrightarrow> s = s'"
proof -
  have "\<not> is_wildcard s" using assms by (auto simp: classify_def split: if_splits)
  then have "CHR ''*'' \<notin> set s" by (cases "s = []") (simp_all add: is_wildcard_def)
  then show ?thesis by (rule qualified_name_covers_concrete)
qed

lemma term_granted_known:
  "term_granted catalog policy st cl m holds t \<Longrightarrow> snd (classify catalog (sg_scope (dt_grant t)))"
  by (auto simp: term_granted_def Let_def case_prod_unfold)

lemma derived_exclusive:
  assumes "derive_state H inputs = Inr r" "di_policy inputs = Some fallback"
    and "di_catalog inputs = Some catalog" "a \<in> set (fs_members (dr_state r))"
    and "b \<in> set (fs_members (dr_state r))" "mb_member a \<noteq> mb_member b"
    and "t \<in> set (mb_delegated_terms a)" "dt_mode t = Mode_Exclusive"
    and "dt_grant t \<in> set (mb_federation_authority a)"
  shows "dt_grant t \<notin> set (mb_federation_authority b)"
proof -
  from derived_shape [OF assms(1-3) refl refl refl] obtain st active ds ms cl where
    d: "ms = base_members H inputs catalog (derived_policy H inputs fallback catalog)
      (derived_artifacts H inputs catalog) (derived_members H inputs catalog) active st"
    "cl = resolve_conflicts (derived_policy H inputs fallback catalog) (live_claims ms) (fs_conflicts st)"
    "dr_state r = settle_members H inputs catalog (derived_policy H inputs fallback catalog)
      (derived_artifacts H inputs catalog) (derived_members H inputs catalog) active ds True st"
    by metis
  obtain a' where a': "a' \<in> set ms" "mb_member a = mb_member a'"
    "mb_delegated_terms a = mb_delegated_terms a'"
    "mb_federation_authority a = mb_federation_authority
       (settle_authority catalog (derived_policy H inputs fallback catalog) st ds cl a')"
    using settle_members_members [OF d assms(4)] by metis
  obtain b' where b': "b' \<in> set ms" "mb_member b = mb_member b'"
    "mb_federation_authority b = mb_federation_authority
       (settle_authority catalog (derived_policy H inputs fallback catalog) st ds cl b')"
    using settle_members_members [OF d assms(5)] by metis
  from exclusive_holder_unique [OF d(2) a'(1) b'(1) _ _ assms(8), of catalog st ds] show ?thesis
    using assms a' b' by simp
qed

section \<open>Facts the later steps keep\<close>

text \<open>What the steps after the weighing of the evidence keep of the facts.\<close>

lemma note_record_frames:
  "mf_conflicts (note_admission_record H v r f) = mf_conflicts f"
  "mf_declaration (note_admission_record H v r f) = mf_declaration f"
  "mf_has_admission (note_admission_record H v r f) = mf_has_admission f"
  by (simp_all add: note_admission_record_def Let_def split: option.split)

lemma weigh_admission_frames:
  "mf_conflicts (fst (weigh_admission H m cx ps adms f)) = mf_conflicts f"
  "mf_declaration (fst (weigh_admission H m cx ps adms f)) = mf_declaration f"
  "mf_has_admission (fst (weigh_admission H m cx ps adms f)) = mf_has_admission f"
  by (simp_all add: weigh_admission_def Let_def note_record_frames split: option.split)

lemma late_step_frames:
  "mf_conflicts (fst (apply_fences m fs f)) = mf_conflicts f"
  "mf_declaration (fst (apply_fences m fs f)) = mf_declaration f"
  "mf_has_admission (fst (apply_fences m fs f)) = mf_has_admission f"
  "mf_conflicts (note_superseded as f) = mf_conflicts f"
  "mf_declaration (note_superseded as f) = mf_declaration f"
  "mf_has_admission (note_superseded as f) = mf_has_admission f"
  by (simp_all add: apply_fences_def note_superseded_def case_prod_unfold)

lemma currency_frames:
  "mf_conflicts (fst (foldl (currency_step m e) acc rs)) = mf_conflicts (fst acc)"
  "mf_declaration (fst (foldl (currency_step m e) acc rs)) = mf_declaration (fst acc)"
  "mf_has_admission (fst (foldl (currency_step m e) acc rs)) = mf_has_admission (fst acc)"
  by (induction rs arbitrary: acc) (simp_all add: currency_step_def)

lemma weigh_activation_frames:
  "mf_conflicts (weigh_activation m cx act rs v f) = mf_conflicts f"
  "mf_declaration (weigh_activation m cx act rs v f) = mf_declaration f"
  "mf_has_admission (weigh_activation m cx act rs v f) = mf_has_admission f"
  by (cases act; simp add: weigh_activation_def Let_def currency_frames case_prod_unfold)+

lemma decide_lifecycle_frames:
  "mf_conflicts (snd (decide_lifecycle m cx act fe v f)) = mf_conflicts f"
  "mf_declaration (snd (decide_lifecycle m cx act fe v f)) = mf_declaration f"
  "mf_has_admission (snd (decide_lifecycle m cx act fe v f)) = mf_has_admission f"
  "mf_current_identity (snd (decide_lifecycle m cx act fe v f)) = mf_current_identity f"
  by (simp_all add: decide_lifecycle_def identity_drift_def current_standing_def Let_def)

lemma settle_delegation_frames:
  "mf_conflicts (settle_delegation m ds ws f) = mf_conflicts f"
  "mf_declaration (settle_delegation m ds ws f) = mf_declaration f"
  "mf_has_admission (settle_delegation m ds ws f) = mf_has_admission f"
  "mf_current_identity (settle_delegation m ds ws f) = mf_current_identity f"
  by (simp_all add: settle_delegation_def Let_def)

lemmas derivation_frames = weigh_admission_frames late_step_frames weigh_activation_frames decide_lifecycle_frames
  settle_delegation_frames

lemma derived_facts_frame:
  "mf_conflicts (dv_facts (derive_membership H m arts cx)) = mf_conflicts (evidence_facts H m arts cx)"
  "mf_declaration (dv_facts (derive_membership H m arts cx)) = mf_declaration (evidence_facts H m arts cx)"
  "mf_has_admission (dv_facts (derive_membership H m arts cx)) = mf_has_admission (evidence_facts H m arts cx)"
  "mf_current_identity (dv_facts (derive_membership H m arts cx)) =
     mf_current_identity (evidence_facts H m arts cx)"
  "dv_retained_local_authority (derive_membership H m arts cx) =
     canonicalize_grants (mc_retained (md_constitution (mf_declaration (evidence_facts H m arts cx))))"
  unfolding derive_membership_def evidence_facts_def Let_def case_prod_unfold
  by (simp_all add: derivation_frames)

section \<open>Active and degraded members\<close>

text \<open>
  Whether a member presents a current declaration: the last of its own re-attestations decides, in the
  order of the evidence, and the activation only when there is none.
\<close>

definition presents_current :: "MemberId \<Rightarrow> Epoch \<Rightarrow> Artifact list \<Rightarrow> Artifact \<Rightarrow> bool" where
  "presents_current m epoch reattestations activation \<longleftrightarrow>
     (let own = filter (\<lambda>r. art_issuer r = m) reattestations in
      if own = [] then ab_epoch (ar_body activation) = epoch
      else epoch \<le> ab_epoch (ar_body (last own)))"

text \<open>What keeps a member with a current declaration from being active.\<close>

definition held_back :: "MembershipContext \<Rightarrow> CapabilityStatement list \<Rightarrow> bool" where
  "held_back cx capabilities \<longleftrightarrow>
     mx_reconciling cx \<and> suspend_global_mutation_while_reconciling (mx_policy cx) \<or>
     pa_state (mx_partition cx) \<in> {Partition_Split, Partition_Indeterminate} \<and>
       suspend_global_mutation_on_partition (mx_policy cx) \<or>
     mandatory_capabilities (mx_policy cx) \<noteq> [] \<and>
       rp_state (evaluate_compatibility (mandatory_capabilities (mx_policy cx)) capabilities)
         \<noteq> Compat_Satisfied"

lemma degradations_Nil_iff:
  "degradations cx f = [] \<longleftrightarrow> \<not> held_back cx (mc_capabilities (md_constitution (mf_declaration f)))"
  by (auto simp: degradations_def held_back_def Let_def)

lemma currency_fold:
  "snd (foldl (currency_step m epoch) acc rs) \<longleftrightarrow>
     (let own = filter (\<lambda>r. art_issuer r = m) rs in
      if own = [] then snd acc else epoch \<le> ab_epoch (ar_body (last own)))"
  by (induction rs rule: rev_induct) (simp_all add: currency_step_def Let_def)

lemma weigh_activation_current:
  "mf_activation_at_current_epoch (weigh_activation m cx (Some v) rs valid f) \<longleftrightarrow>
     presents_current m (mx_current_epoch cx) rs v"
  by (simp add: weigh_activation_def Let_def case_prod_unfold currency_fold presents_current_def)

lemma decide_standing:
  "fst (decide_lifecycle m cx act fenced valid f) = Lifecycle_Active \<longleftrightarrow>
     established_lifecycle (fst (decide_lifecycle m cx act fenced valid f)) \<and> act \<noteq> None \<and>
     mf_activation_matches_identity f \<and> mf_activation_at_current_epoch f \<and> degradations cx f = []"
  "fst (decide_lifecycle m cx act fenced valid f) = Lifecycle_Degraded \<longleftrightarrow>
     established_lifecycle (fst (decide_lifecycle m cx act fenced valid f)) \<and> act \<noteq> None \<and>
     mf_activation_matches_identity f \<and> \<not> (mf_activation_at_current_epoch f \<and> degradations cx f = [])"
  by (auto simp: decide_lifecycle_def identity_drift_def current_standing_def Let_def
      established_lifecycle_def)

section \<open>Members of a derived state\<close>

lemma derived_grounded:
  assumes "derive_state H inputs = Inr r" "di_policy inputs = Some fallback"
    and "di_catalog inputs = Some catalog" "m \<in> set (fs_members (dr_state r))"
  shows "established_lifecycle (mb_lifecycle m) \<longleftrightarrow>
    grounded H (derived_artifacts H inputs catalog)
      (round_context inputs catalog (derived_policy H inputs fallback catalog)
         (derived_artifacts H inputs catalog) (dr_state r) [])
      (derived_members H inputs catalog) (mb_member m)"
proof -
  from derived_shape [OF assms(1-3) refl refl refl] obtain st active ds ms cl where
    d: "ms = base_members H inputs catalog (derived_policy H inputs fallback catalog)
      (derived_artifacts H inputs catalog) (derived_members H inputs catalog) active st"
    "cl = resolve_conflicts (derived_policy H inputs fallback catalog) (live_claims ms) (fs_conflicts st)"
    "dr_state r = settle_members H inputs catalog (derived_policy H inputs fallback catalog)
      (derived_artifacts H inputs catalog) (derived_members H inputs catalog) active ds True st"
    and grounded: "\<And>m. m \<in> set active \<longleftrightarrow> grounded H (derived_artifacts H inputs catalog)
      (round_context inputs catalog (derived_policy H inputs fallback catalog)
         (derived_artifacts H inputs catalog) (dr_state r) [])
      (derived_members H inputs catalog) m"
    and active: "\<And>m. m \<in> set active \<longleftrightarrow> m \<in> set (derived_members H inputs catalog) \<and>
      established_lifecycle (dv_lifecycle (derive_membership H m
        (artifacts_of (derived_artifacts H inputs catalog) m)
        (round_context inputs catalog (derived_policy H inputs fallback catalog)
           (derived_artifacts H inputs catalog) st active)))"
    by metis
  obtain b where b: "b \<in> set ms" "mb_member m = mb_member b" "mb_lifecycle m = mb_lifecycle b"
    using settle_members_members [OF d assms(4)] by metis
  show ?thesis
    using b base_members_established [OF b(1) [unfolded d(1)]] base_members_mem [OF b(1) [unfolded d(1)]]
      active [of "mb_member b"] grounded [of "mb_member b"] by simp
qed

lemma derived_retained:
  assumes "derive_state H inputs = Inr r" "m \<in> set (fs_members (dr_state r))"
  shows "mb_retained_local_authority m =
    canonicalize_grants (mc_retained (md_constitution (mb_declaration m)))"
proof -
  obtain fallback catalog where fc: "di_policy inputs = Some fallback" "di_catalog inputs = Some catalog"
    using assms(1) by (auto simp: derive_state_def split: option.splits)
  from derived_shape [OF assms(1) fc refl refl refl] obtain st active ds ms cl where
    d: "ms = base_members H inputs catalog (derived_policy H inputs fallback catalog)
      (derived_artifacts H inputs catalog) (derived_members H inputs catalog) active st"
    "cl = resolve_conflicts (derived_policy H inputs fallback catalog) (live_claims ms) (fs_conflicts st)"
    "dr_state r = settle_members H inputs catalog (derived_policy H inputs fallback catalog)
      (derived_artifacts H inputs catalog) (derived_members H inputs catalog) active ds True st"
    by metis
  obtain b where b: "b \<in> set ms" "mb_retained_local_authority m = mb_retained_local_authority b"
    "mb_declaration m = mb_declaration b"
    using settle_members_members [OF d assms(2)] by metis
  from b(1) have "mb_retained_local_authority b =
      canonicalize_grants (mc_retained (md_constitution (mb_declaration b)))"
    by (auto simp: d(1) base_members_def derive_all_def member_state_of_def Let_def derived_facts_frame)
  with b show ?thesis by simp
qed

section \<open>Intake\<close>

lemma intake_step_by_id:
  "ik_by_id (intake_step H ik a) =
     (if smap_get (ik_by_id ik) (art_evidence a) = None
      then smap_put (art_evidence a) a (ik_by_id ik) else ik_by_id ik)"
  by (simp add: intake_step_def Let_def split: option.split)

lemma intake_by_id:
  "smap_wf (ik_by_id ik) \<Longrightarrow> smap_wf (ik_by_id (foldl (intake_step H) ik as)) \<and>
   smap_get (ik_by_id (foldl (intake_step H) ik as)) k =
     (case smap_get (ik_by_id ik) k of Some v \<Rightarrow> Some v
      | None \<Rightarrow> find (\<lambda>a. art_evidence a = k) as)"
  by (induction as arbitrary: ik)
     (auto simp: intake_step_by_id smap_wf_put smap_get_put split: option.split)

lemma intake_quarantined_mono:
  "set (ik_quarantined ik) \<subseteq> set (ik_quarantined (intake_step H ik a))"
  by (auto simp: intake_step_def Let_def split: option.split)

lemma intake_fold_quarantined_mono:
  "set (ik_quarantined ik) \<subseteq> set (ik_quarantined (foldl (intake_step H) ik as))"
  by (induction as arbitrary: ik) (simp, force dest: intake_quarantined_mono [THEN subsetD])

lemma intake_differs:
  assumes "smap_get (ik_by_id ik) k = Some x" "b \<in> set as" "art_evidence b = k"
    and "artifact_digest H x \<noteq> artifact_digest H b"
  shows "k \<in> set (ik_quarantined (foldl (intake_step H) ik as))"
  using assms(1,2)
proof (induction as arbitrary: ik)
  case (Cons c as)
  show ?case
  proof (cases "b = c")
    case True
    then have "k \<in> set (ik_quarantined (intake_step H ik c))"
      using Cons(2) assms(3,4) by (simp add: intake_step_def Let_def)
    then show ?thesis using intake_fold_quarantined_mono by fastforce
  next
    case False
    have "smap_get (ik_by_id (intake_step H ik c)) k = Some x"
      using Cons(2) by (auto simp: intake_step_by_id smap_get_put)
    with Cons.IH False Cons(3) show ?thesis by simp
  qed
qed simp

lemma intake_equivocation:
  assumes "a \<in> set as" "b \<in> set as" "art_evidence a = art_evidence b"
    and "artifact_digest H a \<noteq> artifact_digest H b"
  shows "art_evidence a \<in> set (ik_quarantined (foldl (intake_step H) empty_intake as))"
proof -
  obtain us c vs where as: "as = us @ c # vs" "art_evidence c = art_evidence a"
    "\<forall>u \<in> set us. art_evidence u \<noteq> art_evidence a"
    using split_list_first_prop [of as "\<lambda>x. art_evidence x = art_evidence a"] assms(1) by blast
  let ?ik = "intake_step H (foldl (intake_step H) empty_intake us) c"
  have "find (\<lambda>x. art_evidence x = art_evidence a) us = None" using as(3) by (auto simp: find_None_iff)
  then have "smap_get (ik_by_id ?ik) (art_evidence a) = Some c"
    using intake_by_id [of empty_intake H us "art_evidence a"] as(2)
    by (simp add: intake_step_by_id smap_get_put empty_intake_def smap_get_def smap_wf_def)
  moreover obtain d where d: "d \<in> set vs" "art_evidence d = art_evidence a"
    "artifact_digest H c \<noteq> artifact_digest H d"
    using assms as by (cases "artifact_digest H c = artifact_digest H a") auto
  ultimately show ?thesis using intake_differs [of ?ik _ c d vs H] by (simp add: as(1))
qed

lemma derived_artifacts_mem:
  "a \<in> set (derived_artifacts H inputs catalog) \<Longrightarrow>
   a \<in> set (di_artifacts inputs) \<and> refusal H catalog (di_federation inputs) a = None \<and>
   art_evidence a \<notin> set (ik_quarantined (foldl (intake_step H) empty_intake (di_artifacts inputs)))"
proof -
  let ?ik = "foldl (intake_step H) empty_intake (di_artifacts inputs)"
  have wf: "smap_wf (ik_by_id ?ik)"
    using intake_by_id [of empty_intake H] by (simp add: empty_intake_def smap_wf_def)
  have mem: "art_evidence a = k \<and> a \<in> set (di_artifacts inputs)" if "(k, a) \<in> set (ik_by_id ?ik)" for k
    using that wf intake_by_id [of empty_intake H "di_artifacts inputs" k]
    by (auto simp: smap_get_iff [symmetric] empty_intake_def smap_get_def smap_wf_def find_Some_iff)
  assume "a \<in> set (derived_artifacts H inputs catalog)"
  then show ?thesis by (auto simp: derived_artifacts_def prepare_artifacts_def Let_def dest!: mem)
qed

text \<open>Distinct evidence: the intake is the set of artefacts, in evidence order.\<close>

lemma intake_distinct_aux:
  assumes "distinct (map art_evidence as)" "\<forall>a \<in> set as. smap_get (ik_by_id ik) (art_evidence a) = None"
  shows "foldl (intake_step H) ik as = ik\<lparr>ik_by_id := foldl (\<lambda>m (k, v). smap_put k v m) (ik_by_id ik)
    (map (\<lambda>a. (art_evidence a, a)) as)\<rparr>"
  using assms
proof (induction as arbitrary: ik)
  case (Cons a as)
  have "intake_step H ik a = ik\<lparr>ik_by_id := smap_put (art_evidence a) a (ik_by_id ik)\<rparr>"
    using Cons.prems(2) by (simp add: intake_step_def)
  moreover have "\<forall>x \<in> set as. smap_get (smap_put (art_evidence a) a (ik_by_id ik)) (art_evidence x) = None"
    using Cons.prems by (auto simp: smap_get_put image_iff)
  ultimately show ?case using Cons.IH [of "intake_step H ik a"] Cons.prems(1) by simp
qed simp

lemma intake_distinct:
  assumes "distinct (map art_evidence as)"
  shows "foldl (intake_step H) empty_intake as = empty_intake\<lparr>ik_by_id :=
    foldl (\<lambda>m (k, v). smap_put k v m) [] (map (\<lambda>a. (art_evidence a, a)) as)\<rparr>"
  by (subst intake_distinct_aux [OF assms]) (simp_all add: empty_intake_def smap_get_def)

lemma intake_permuted:
  assumes "distinct (map art_evidence as)" "mset as' = mset as"
  shows "foldl (intake_step H) empty_intake as' = foldl (intake_step H) empty_intake as"
proof -
  let ?kv = "map (\<lambda>a :: Artifact. (art_evidence a, a))"
  have d: "distinct (map art_evidence as')"
    using assms by (metis mset_map mset_eq_imp_distinct_iff)
  have keys: "map fst (?kv xs) = map art_evidence xs" for xs by (simp add: comp_def)
  have "map_of (rev (?kv as')) = map_of (rev (?kv as))"
  proof (rule map_of_eqI)
    show "set (map fst (rev (?kv as'))) = set (map fst (rev (?kv as)))"
      using mset_eq_setD [OF assms(2)] by simp
    show "\<forall>x \<in> set (map fst (rev (?kv as'))). map_of (rev (?kv as')) x = map_of (rev (?kv as)) x"
    proof
      fix x assume "x \<in> set (map fst (rev (?kv as')))"
      then obtain a where a: "a \<in> set as'" "x = art_evidence a" by auto
      have "map_of (rev (?kv ys)) x = Some a" if "a \<in> set ys" "distinct (map art_evidence ys)" for ys
        using that a(2) keys [of ys] by (intro map_of_is_SomeI) (simp_all add: rev_map comp_def distinct_map)
      then show "map_of (rev (?kv as')) x = map_of (rev (?kv as)) x"
        using a(1) d assms(1) mset_eq_setD [OF assms(2)] by simp
    qed
  qed
  then have "foldl (\<lambda>m (k, v). smap_put k v m) [] (?kv as') =
      foldl (\<lambda>m (k, v). smap_put k v m) [] (?kv as)"
    by (intro smap_ext smap_store.inv_fold)
       (simp_all add: smap_store.get_build smap_wf_def)
  then show ?thesis unfolding intake_distinct [OF d] intake_distinct [OF assms(1)] by simp
qed

lemma prepare_artifacts_permuted:
  assumes "distinct (map art_evidence (di_artifacts inputs))" "mset as = mset (di_artifacts inputs)"
  shows "prepare_artifacts H (inputs\<lparr>di_artifacts := as\<rparr>) catalog = prepare_artifacts H inputs catalog"
  using intake_permuted [OF assms, of H] by (simp add: prepare_artifacts_def Let_def)

section \<open>Properties\<close>

text \<open>
  C8: standing in a derived state is grounded. A member of the derived state is admitted, active or
  degraded exactly when the accepted evidence establishes it by induction from the genesis record:
  neither the partition assessment nor the reconciliation flag of the final pass adds or removes
  standing.
\<close>

theorem derived_standing_is_grounded:
  assumes "derive_state H inputs = Inr r" "di_policy inputs = Some fallback"
    and "di_catalog inputs = Some catalog" "m \<in> set (fs_members (dr_state r))"
  shows "established_lifecycle (mb_lifecycle m) \<longleftrightarrow>
    grounded H (derived_artifacts H inputs catalog)
      (round_context inputs catalog (derived_policy H inputs fallback catalog)
         (derived_artifacts H inputs catalog) (dr_state r) [])
      (derived_members H inputs catalog) (mb_member m)"
  by (rule derived_grounded [OF assms])


text \<open>
  C17: what federation authority rests on. A member of the derived state holds a grant only while it
  is active or degraded, only for a term it delegated and that has not expired, for a scope the
  catalogue knows and that is not local, that policy does not forbid delegating and that the member
  has not withdrawn. A grant over a global-mutation scope is never held while global mutation is
  suspended, and a degraded member never holds a mutating or administering grant.
\<close>

theorem federation_authority_sound:
  assumes "derive_state H inputs = Inr r" "di_policy inputs = Some fallback"
    and "di_catalog inputs = Some catalog" "m \<in> set (fs_members (dr_state r))"
    and "g \<in> set (mb_federation_authority m)"
  shows "lifecycle_holds_federation_authority (mb_lifecycle m) \<and>
    (\<exists>t \<in> set (mb_delegated_terms m). dt_grant t = g \<and>
       (dt_not_after t = 0 \<or> fs_logical_time (dr_state r) \<le> dt_not_after t)) \<and>
    snd (classify catalog (sg_scope g)) \<and> fst (classify catalog (sg_scope g)) \<noteq> Class_Local \<and>
    \<not> scope_delegation_forbidden (derived_policy H inputs fallback catalog) (sg_scope g) \<and>
    \<not> grants_cover (mb_withdrawn_grants m) g \<and>
    \<not> (fst (classify catalog (sg_scope g)) = Class_GlobalMutation \<and>
        global_mutation_suspended (derived_policy H inputs fallback catalog) (dr_state r)) \<and>
    \<not> (mb_lifecycle m = Lifecycle_Degraded \<and>
        (sg_verb g = Verb_Mutate \<or> sg_verb g = Verb_Administer))"
proof -
  obtain t cl holds where t: "t \<in> set (mb_delegated_terms m)" "g = dt_grant t"
    "term_granted catalog (derived_policy H inputs fallback catalog) (dr_state r) cl m holds t"
    "lifecycle_holds_federation_authority (mb_lifecycle m)"
    by (rule derived_grant [OF assms])
  then show ?thesis by (auto simp: term_granted_def Let_def case_prod_unfold)
qed

text \<open>
  C18: exclusive authority has one holder. When a member of the derived state holds a grant it
  delegated exclusively, no other member holds a grant of the same verb whose scope overlaps it,
  whatever mode the other one delegated it in. Patterns cannot evade this: the scopes of held grants
  are concrete, since the catalogue knows no wildcard.
\<close>

theorem exclusive_grant_has_one_holder:
  assumes "derive_state H inputs = Inr r" "a \<in> set (fs_members (dr_state r))"
    and "b \<in> set (fs_members (dr_state r))"
    and "t \<in> set (mb_delegated_terms a)" "dt_mode t = Mode_Exclusive"
    and "dt_grant t \<in> set (mb_federation_authority a)" "g \<in> set (mb_federation_authority b)"
    and "sg_verb g = sg_verb (dt_grant t)"
    and "covers (sg_scope g) (sg_scope (dt_grant t)) \<or> covers (sg_scope (dt_grant t)) (sg_scope g)"
  shows "mb_member a = mb_member b"
proof (rule ccontr)
  assume ne: "mb_member a \<noteq> mb_member b"
  obtain fallback catalog where fc: "di_policy inputs = Some fallback" "di_catalog inputs = Some catalog"
    using assms(1) by (auto simp: derive_state_def split: option.splits)
  have "snd (classify catalog (sg_scope (dt_grant t)))"
    by (rule derived_grant [OF assms(1) fc assms(2,6)]) (auto dest: term_granted_known)
  moreover have "snd (classify catalog (sg_scope g))"
    by (rule derived_grant [OF assms(1) fc assms(3,7)]) (auto dest: term_granted_known)
  ultimately have "dt_grant t = g"
    using assms(8,9) by (auto simp: known_scope_concrete)
  then show False using derived_exclusive [OF assms(1) fc assms(2,3) ne assms(4-6)] assms(7) by simp
qed

text \<open>
  C23: equivocated evidence is never applied. When two of the presented artefacts carry the same
  evidence identifier and different content, no artefact with that identifier is among those the
  state is derived from, whichever copy arrived first.
\<close>

theorem equivocated_evidence_is_never_applied:
  assumes "a \<in> set (di_artifacts inputs)" "b \<in> set (di_artifacts inputs)"
    and "art_evidence a = art_evidence b" "artifact_digest H a \<noteq> artifact_digest H b"
  shows "art_evidence a \<notin> art_evidence ` set (pp_accepted (prepare_artifacts H inputs catalog))"
  using derived_artifacts_mem intake_equivocation [OF assms] unfolding derived_artifacts_def by fastforce

text \<open>
  C19: the derivation does not depend on arrival order. For artefacts with distinct evidence
  identifiers, every permutation of the presented artefacts gives the same result, the state and the
  rejection list included.
\<close>

theorem derivation_ignores_arrival_order:
  assumes "distinct (map art_evidence (di_artifacts inputs))" "mset as = mset (di_artifacts inputs)"
  shows "derive_state H (inputs\<lparr>di_artifacts := as\<rparr>) = derive_state H inputs"
proof -
  have "round_context (inputs\<lparr>di_artifacts := as\<rparr>) = round_context inputs"
    by (intro ext) (simp add: round_context_def)
  moreover have "initial_state (inputs\<lparr>di_artifacts := as\<rparr>) = initial_state inputs"
    by (intro ext) (simp add: initial_state_def)
  moreover have "assess_state_partition (inputs\<lparr>di_artifacts := as\<rparr>) = assess_state_partition inputs"
    by (intro ext) (simp add: assess_state_partition_def)
  ultimately have "settle_standing H (inputs\<lparr>di_artifacts := as\<rparr>) = settle_standing H inputs"
    "settle_members H (inputs\<lparr>di_artifacts := as\<rparr>) = settle_members H inputs"
    "initial_state (inputs\<lparr>di_artifacts := as\<rparr>) = initial_state inputs"
    by (intro ext, simp add: settle_standing_def settle_members_def)+
  then show ?thesis
    by (simp add: derive_state_def Let_def case_prod_unfold prepare_artifacts_permuted [OF assms]
        cong: option.case_cong if_cong)
qed

end
