(* ===== verification/Founding.thy ===== *)
theory Founding
  imports State_Laws
begin

text \<open>
  A founded federation: the genesis record of member 3 and its activation, the state derived from
  them, and the instances of the state's laws on it.
\<close>

section \<open>The evidence\<close>

definition founder_declaration :: MemberDeclaration where
  "founder_declaration = \<lparr>md_constitution = sample_constitution 3, md_incarnation = 2, md_node = 8,
                          md_declared_at = 5\<rparr>"

definition founding_policy :: FederationPolicy where
  "founding_policy = \<lparr>fp_id = ''p'', fp_generation = 1, fp_rules = [], fp_description = []\<rparr>"

definition genesis_body :: ArtifactBody where
  "genesis_body = empty_body
     \<lparr>ab_genesis := \<lparr>ge_federation = 1, ge_coordinator = 8, ge_founder = founder_declaration,
        ge_founder_grants = [], ge_policy = founding_policy, ge_description = ''f'',
        ge_created_at = 5\<rparr>\<rparr>"

definition activation_body :: ArtifactBody where
  "activation_body = empty_body
     \<lparr>ab_declared_identity := declaration_identity toy_hash founder_declaration, ab_epoch := 1\<rparr>"

definition founding_genesis :: Artifact where
  "founding_genesis = make_artifact toy_hash
     (sample_envelope\<lparr>en_evidence := 11, en_kind := Kind_FederationGenesis\<rparr>) genesis_body"

definition founding_activation :: Artifact where
  "founding_activation = make_artifact toy_hash
     (sample_envelope\<lparr>en_evidence := 12, en_kind := Kind_MembershipActivation\<rparr>) activation_body"

definition founding_inputs :: DerivationInputs where
  "founding_inputs = sample_inputs\<lparr>di_artifacts := [founding_genesis, founding_activation]\<rparr>"

lemma genesis_body_canonical:
  "canonicalize_body genesis_body = genesis_body"
  by code_simp

lemma activation_body_canonical: "canonicalize_body activation_body = activation_body"
  by code_simp

lemma founding_fields [simp]:
  "art_evidence founding_genesis = 11" "art_evidence founding_activation = 12"
  "art_kind founding_genesis = Kind_FederationGenesis"
  "art_kind founding_activation = Kind_MembershipActivation"
  "art_subject founding_genesis = 3" "art_subject founding_activation = 3"
  "art_issuer founding_genesis = 3" "art_issuer founding_activation = 3"
  "en_federation (ar_envelope founding_genesis) = 1"
  "en_federation (ar_envelope founding_activation) = 1"
  "ar_body founding_genesis = genesis_body" "ar_body founding_activation = activation_body"
  by (simp_all add: founding_genesis_def founding_activation_def make_artifact_def Let_def
      sample_envelope_def genesis_body_canonical activation_body_canonical)

lemma founding_bodies [simp]:
  "ab_lineage genesis_body = 0" "ab_lineage activation_body = 0"
  "ab_epoch genesis_body = 0" "ab_epoch activation_body = 1"
  "ab_logical_time genesis_body = 0" "ab_logical_time activation_body = 0"
  "ab_genesis genesis_body = \<lparr>ge_federation = 1, ge_coordinator = 8,
     ge_founder = founder_declaration, ge_founder_grants = [], ge_policy = founding_policy,
     ge_description = ''f'', ge_created_at = 5\<rparr>"
  "ab_declared_identity activation_body = declaration_identity toy_hash founder_declaration"
  by (simp_all add: genesis_body_def activation_body_def empty_body_def)

lemma founder_fields [simp]:
  "md_constitution founder_declaration = sample_constitution 3"
  "md_incarnation founder_declaration = 2"
  "mc_member (sample_constitution 3) = 3"
  "mi_member (declaration_identity toy_hash founder_declaration) = 3"
  by (simp_all add: founder_declaration_def sample_constitution_def declaration_identity_def)

lemma genesis_encodes:
  "is_ok (encode_body genesis_body) \<and> toy_hash (projr (encode_body genesis_body)) \<noteq> 0"
  by code_simp

lemma activation_encodes:
  "is_ok (encode_body activation_body) \<and> toy_hash (projr (encode_body activation_body)) \<noteq> 0"
  by code_simp

lemma made_verifies:
  assumes "is_ok (encode_body b) \<and> toy_hash (projr (encode_body b)) \<noteq> 0" "canonicalize_body b = b"
  shows "verify_digest toy_hash (make_artifact toy_hash e b) = success"
  using assms by (cases "encode_body b")
    (simp_all add: verify_digest_ok_iff make_artifact_def body_digest_def digest_of_def)

lemma founding_genesis_valid: "validate_artifact toy_hash builtin founding_genesis = success"
proof -
  have "verify_digest toy_hash founding_genesis = success"
    unfolding founding_genesis_def by (rule made_verifies [OF genesis_encodes genesis_body_canonical])
  moreover have "validate_envelope (ar_envelope founding_genesis) = success"
    by (simp add: validate_envelope_ok_iff founding_genesis_def make_artifact_def sample_envelope_def
        artifact_kind_is_coordinator_issued_def)
  moreover have "validate_policy founding_policy = success" by code_simp
  then have "validate_kind toy_hash builtin (ar_envelope founding_genesis) genesis_body = success"
    using sample_constitution_valid by (simp add: validate_kind_def validate_genesis_def require_def and_then_def)
  ultimately show ?thesis by (simp add: validate_artifact_ok_iff)
qed

lemma founding_activation_valid: "validate_artifact toy_hash builtin founding_activation = success"
proof -
  have "verify_digest toy_hash founding_activation = success"
    unfolding founding_activation_def
    by (rule made_verifies [OF activation_encodes activation_body_canonical])
  moreover have "validate_envelope (ar_envelope founding_activation) = success"
    by (simp add: validate_envelope_ok_iff founding_activation_def make_artifact_def
        sample_envelope_def artifact_kind_is_coordinator_issued_def)
  moreover have "validate_kind toy_hash builtin (ar_envelope founding_activation) activation_body = success"
    by (simp add: validate_kind_def)
  ultimately show ?thesis by (simp add: validate_artifact_ok_iff)
qed

lemma founding_intake:
  "foldl (intake_step toy_hash) empty_intake (di_artifacts founding_inputs) =
     empty_intake\<lparr>ik_by_id := [(11, founding_genesis), (12, founding_activation)]\<rparr>"
proof -
  have "di_artifacts founding_inputs = [founding_genesis, founding_activation]"
    by (simp add: founding_inputs_def)
  then show ?thesis by (simp only:) (subst intake_distinct; simp)
qed

lemma founding_prepared:
  "pp_accepted (prepare_artifacts toy_hash founding_inputs builtin) =
     [founding_genesis, founding_activation]"
  "pp_conflicts (prepare_artifacts toy_hash founding_inputs builtin) = []"
proof -
  have fed: "di_federation founding_inputs = 1" by (simp add: founding_inputs_def sample_inputs_def)
  have refused: "refusal toy_hash builtin 1 founding_genesis = None"
    "refusal toy_hash builtin 1 founding_activation = None"
    by (simp_all add: refusal_def founding_genesis_valid founding_activation_valid)
  show "pp_accepted (prepare_artifacts toy_hash founding_inputs builtin) =
      [founding_genesis, founding_activation]"
    unfolding prepare_artifacts_def Let_def founding_intake PreparedArtifacts.select_convs fed
    by (simp only: empty_intake_def Intake.simps list.simps filter.simps) (simp add: refused)
  show "pp_conflicts (prepare_artifacts toy_hash founding_inputs builtin) = []"
    unfolding prepare_artifacts_def Let_def founding_intake PreparedArtifacts.select_convs
    by (simp add: empty_intake_def canonicalize_conflicts_def)
qed

lemma founding_accepted:
  "derived_artifacts toy_hash founding_inputs builtin = [founding_genesis, founding_activation]"
  by (simp add: derived_artifacts_def founding_prepared)

section \<open>The derivation of the founder\<close>

lemma founder_kinds:
  "current_lineage 3 [founding_genesis, founding_activation] = 0"
  "collect_kind 0 k [founding_genesis, founding_activation] =
     (if k = Kind_FederationGenesis then [founding_genesis]
      else if k = Kind_MembershipActivation then [founding_activation] else [])"
  by (simp_all add: current_lineage_def collect_kind_def)

lemma founder_artifacts:
  "artifacts_of [founding_genesis, founding_activation] 3 = [founding_genesis, founding_activation]"
  by (simp add: artifacts_of_def is_nil_def)

lemma founding_policy_plain: "mandatory_capabilities founding_policy = []"
  by code_simp

lemmas derivation_steps = case_prod_unfold sponsored_proposals_def set_aside_self_proposals_def
  declare_from_proposals_def weigh_consent_def apply_reattestation_def collect_facts_def
  founder_kinds bootstrap_facts_def empty_facts_def

lemma founder_evidence:
  assumes "mx_bootstrap_members cx = [3]" "mx_bootstrap_declarations cx = [founder_declaration]"
  shows "mf_conflicts (evidence_facts toy_hash 3 [founding_genesis, founding_activation] cx) = []"
    "\<not> mf_has_admission (evidence_facts toy_hash 3 [founding_genesis, founding_activation] cx)"
    "mf_current_identity (evidence_facts toy_hash 3 [founding_genesis, founding_activation] cx) =
       declaration_identity toy_hash founder_declaration"
  using assms unfolding evidence_facts_def Let_def founder_kinds
  by (simp_all add: derivation_steps)

lemma founder_derivation:
  assumes "mx_bootstrap_members cx = [3]" "mx_bootstrap_declarations cx = [founder_declaration]"
    and "mx_current_epoch cx = 1" "mx_policy cx = founding_policy" "\<not> mx_reconciling cx"
    and "pa_state (mx_partition cx) = Partition_Connected"
    and d: "d = derive_membership toy_hash 3 [founding_genesis, founding_activation] cx"
  shows "dv_lifecycle d = Lifecycle_Active"
    "mf_delegated_terms (dv_facts d) = mc_delegated (sample_constitution 3)"
    "mf_withdrawn_grants (dv_facts d) = []" "\<not> mf_has_admission (dv_facts d)"
    "mf_current_identity (dv_facts d) = declaration_identity toy_hash founder_declaration"
    "mf_conflicts (dv_facts d) = []"
proof -
  show "\<not> mf_has_admission (dv_facts d)" "mf_conflicts (dv_facts d) = []"
    "mf_current_identity (dv_facts d) = declaration_identity toy_hash founder_declaration"
    by (simp_all add: d derived_facts_frame founder_evidence [OF assms(1,2)])
  note steps = derivation_steps weigh_admission_def apply_fences_def latest_activation_def
    select_best_def weigh_activation_def decide_lifecycle_def current_standing_def
    degradations_def founding_policy_plain note_superseded_def settle_delegation_def
    canonicalize_grants_def
  show "dv_lifecycle d = Lifecycle_Active"
    using assms(1-6) unfolding d derive_membership_def Let_def founder_kinds by (simp add: steps)
  show "mf_delegated_terms (dv_facts d) = mc_delegated (sample_constitution 3)"
    using assms(1-6) unfolding d derive_membership_def Let_def founder_kinds by (simp add: steps)
  show "mf_withdrawn_grants (dv_facts d) = []"
    using assms(1-6) unfolding d derive_membership_def Let_def founder_kinds by (simp add: steps)
qed

section \<open>The derived state\<close>

lemma founding_inputs_fields [simp]:
  "di_policy founding_inputs = Some default_policy" "di_catalog founding_inputs = Some builtin"
  "di_leases founding_inputs = []" "di_observations founding_inputs = []"
  "di_logical_time founding_inputs = 5" "di_federation founding_inputs = 1"
  by (simp_all add: founding_inputs_def sample_inputs_def)

lemma founding_policy_in_force:
  "derived_policy toy_hash founding_inputs default_policy builtin = founding_policy"
  by (simp add: derived_policy_def founding_accepted policy_in_force_def newest_policy_def
      select_best_def genesis_of_def genesis_records_def)

lemma founding_bootstrap:
  "bootstrap_members [founding_genesis, founding_activation] = [3]"
  "bootstrap_declarations [founding_genesis, founding_activation] = [founder_declaration]"
  by (simp_all add: bootstrap_members_def bootstrap_declarations_def genesis_of_def genesis_records_def)

lemma founding_order: "derived_members toy_hash founding_inputs builtin = [3]"
  by (simp add: derived_members_def founding_accepted member_order_def founding_bootstrap is_nil_def
      sort_unique_def)

lemma founding_frame:
  "fs_epoch (derived_frame toy_hash founding_inputs default_policy builtin) = 1"
  "\<not> fs_reconciling (derived_frame toy_hash founding_inputs default_policy builtin)"
  by (simp_all add: derived_frame_def federation_frame_def Let_def case_prod_unfold founding_accepted
      clock_step_def recovery_needed_def recovery_step_def partition_advance_def)

lemma founder_delegates:
  "mc_delegated (sample_constitution 3) = [sample_term ''federation.epoch.advance'']"
  by (simp add: sample_constitution_def)

lemma founding_scope:
  "classify builtin (sg_scope (dt_grant (sample_term ''federation.epoch.advance''))) =
     (Class_GlobalMutation, True)"
  "\<not> scope_delegation_forbidden founding_policy
     (sg_scope (dt_grant (sample_term ''federation.epoch.advance'')))"
  "dt_not_after (sample_term ''federation.epoch.advance'') = 0"
  "dt_mode (sample_term ''federation.epoch.advance'') = Mode_Exclusive"
  by code_simp+

lemma founding_frame_rest:
  "fs_federation (derived_frame toy_hash founding_inputs default_policy builtin) = 1"
  "fs_conflicts (derived_frame toy_hash founding_inputs default_policy builtin) = []"
  using founding_prepared
  by (simp_all add: derived_frame_def federation_frame_def Let_def case_prod_unfold founding_accepted
      apply_genesis_def genesis_records_def initial_state_def recovery_needed_def recovery_step_def
      partition_advance_def)

lemma founding_state:
  obtains r m where "derive_state toy_hash founding_inputs = Inr r" "m \<in> set (fs_members (dr_state r))"
    "mb_member m = 3" "mb_lifecycle m = Lifecycle_Active"
    "mb_delegated_terms m = [sample_term ''federation.epoch.advance'']"
    "dt_grant (sample_term ''federation.epoch.advance'') \<in> set (mb_federation_authority m)"
    "mb_current_identity m = declaration_identity toy_hash founder_declaration" "mb_conflicts m = []"
    "fs_members (dr_state r) = [m]" "fs_epoch (dr_state r) = 1" "fs_federation (dr_state r) = 1"
    "fs_replay_ledger (dr_state r) = []"
proof -
  let ?arts = "[founding_genesis, founding_activation]" and ?t = "sample_term ''federation.epoch.advance''"
  have "is_ok (derive_state toy_hash founding_inputs)"
    by (simp add: derive_state_ok [OF founding_inputs_fields(1,2)] founding_order ff_bounds)
  then obtain r where r: "derive_state toy_hash founding_inputs = Inr r"
    by (auto simp: is_ok_iff)
  define st0 where "st0 = derived_frame toy_hash founding_inputs default_policy builtin"
  from derive_state_decompose [OF r founding_inputs_fields(1,2) founding_accepted [symmetric]
      founding_policy_in_force [symmetric] founding_order [symmetric] st0_def]
  obtain st active ds where len: "length [3 :: MemberId] \<le> kMaxMembers"
    and ss: "settle_standing toy_hash founding_inputs builtin founding_policy ?arts [3] st0 =
      (st, active, ds, True)"
    and st: "st = clear_reconciliation ?arts ds active
      (assess_state_partition founding_inputs founding_policy ds active st0)"
    and sm: "dr_state r = settle_members toy_hash founding_inputs builtin founding_policy ?arts [3]
      active ds True st" and ep: "fs_epoch st = fs_epoch st0"
    by metis
  let ?d = "\<lambda>cx. derive_membership toy_hash 3 ?arts cx"
  note fp = settle_standing_fixpoint [OF len ss refl]
  have d: "dv_lifecycle (?d cx) = Lifecycle_Active"
    "mf_delegated_terms (dv_facts (?d cx)) = [?t]" "mf_withdrawn_grants (dv_facts (?d cx)) = []"
    "\<not> mf_has_admission (dv_facts (?d cx))"
    "mf_current_identity (dv_facts (?d cx)) = declaration_identity toy_hash founder_declaration"
    "mf_conflicts (dv_facts (?d cx)) = []"
    if "cx = round_context founding_inputs builtin founding_policy ?arts st' a
      \<lparr>mx_partition := p, mx_reconciling := False\<rparr>" "pa_state p = Partition_Connected"
      "fs_epoch st' = 1" for cx st' a p
    using founder_derivation [of cx] that
    by (simp_all add: round_context_def founding_bootstrap founder_delegates)
  have e0: "fs_epoch st0 = 1" "\<not> fs_reconciling st0" using founding_frame by (simp_all add: st0_def)
  have "dv_lifecycle (?d (round_context founding_inputs builtin founding_policy ?arts st0 active)) =
      Lifecycle_Active"
    by (rule d(1) [OF _ _ e0(1), where p = neutral_partition])
      (simp_all add: round_context_def neutral_partition_def)
  then have set: "set (established_of (derive_all toy_hash ?arts
      (round_context founding_inputs builtin founding_policy ?arts st0 active) [3])) = {3}"
    unfolding set_established_of_derive_all
    by (auto simp: founder_artifacts established_lifecycle_def)
  have act: "active = [3]"
  proof (rule sorted_distinct_set_unique)
    show "set active = set [3]" "sorted active" "distinct active"
      using set unfolding round_context_established [of _ _ _ _ st0 active] fp(3) by simp_all
      (subst fp(3) [symmetric], simp add: established_of_def)+
  qed simp_all
  have part: "pa_state (fs_partition st) = Partition_Connected" "\<not> fs_reconciling st"
    using e0 by (simp_all add: st act clear_reconciliation_def assess_state_partition_def
        active_incarnations_def assess_partition_def Let_def sort_unique_def)
  define cx where "cx = (round_context founding_inputs builtin founding_policy ?arts st active)
    \<lparr>mx_partition := fs_partition st, mx_reconciling := fs_reconciling st\<rparr>"
  define b where "b = member_state_of toy_hash st True 3 (?d cx)"
  have b: "mb_member b = 3" "mb_lifecycle b = Lifecycle_Active" "mb_delegated_terms b = [?t]"
    "mb_withdrawn_grants b = []" "mb_conflicts b = []"
    "mb_current_identity b = declaration_identity toy_hash founder_declaration"
    using d [OF _ part(1), of cx st active] e0(1) ep part(2)
    by (simp_all add: b_def cx_def member_state_of_def Let_def)
  have ms: "base_members toy_hash founding_inputs builtin founding_policy ?arts [3] active st = [b]"
    by (simp add: base_members_def derive_all_def founder_artifacts b_def cx_def)
  have "live_claims [b] = [\<lparr>gc_member = 3, gc_terms = ?t\<rparr>]"
    by (simp add: live_claims_def b lifecycle_holds_federation_authority_def)
  then have cl: "cl_conflicted (resolve_conflicts founding_policy (live_claims [b]) (fs_conflicts st)) = []"
    "cl_winners (resolve_conflicts founding_policy (live_claims [b]) (fs_conflicts st)) = []"
    by (simp_all add: resolve_conflicts_def claims_by_grant_def smap_update_def smap_get_def
        resolve_group_def)
  define m where "m = finish_member (canonicalize_conflicts (cl_conflicts (resolve_conflicts
      founding_policy (live_claims [b]) (fs_conflicts st))))
    (attach_leases (fs_leases (dr_state r)) (settle_authority builtin founding_policy st ds
      (resolve_conflicts founding_policy (live_claims [b]) (fs_conflicts st)) b))"
  have mem: "fs_members (dr_state r) = [m]"
    unfolding settle_members_shape(1) [OF ms [symmetric] refl sm] m_def by simp
  have rest: "fs_conflicts st = []" "fs_federation st = 1"
    using founding_frame_rest by (simp_all add: st st0_def clear_reconciliation_def
        assess_state_partition_def Let_def)
  have "live_claims [b] = [\<lparr>gc_member = 3, gc_terms = ?t\<rparr>]"
    by (simp add: live_claims_def b lifecycle_holds_federation_authority_def)
  then have conflicts: "cl_conflicts (resolve_conflicts founding_policy (live_claims [b]) (fs_conflicts st)) = []"
    by (simp add: resolve_conflicts_def claims_by_grant_def smap_update_def smap_get_def
        resolve_group_def rest)
  have late: "fs_federation (dr_state r) = 1" "fs_replay_ledger (dr_state r) = []"
    "fs_epoch (dr_state r) = 1"
    using rest e0 ep by (simp_all add: sm settle_members_def Let_def bound_ledger_def unique_ledger_def
        ff_bounds founding_inputs_def sample_inputs_def)
  have "term_granted builtin founding_policy st (resolve_conflicts founding_policy
      (live_claims [b]) (fs_conflicts st)) b (member_holds ds b) ?t"
    by (simp add: term_granted_def Let_def founding_scope cl b part global_mutation_suspended_def
        member_holds_def lifecycle_holds_federation_authority_def smap_get_def grants_cover_def)
  then have "dt_grant ?t \<in> set (mb_federation_authority m)"
    by (simp add: m_def settle_authority_granted b)
  moreover have "mb_conflicts m = []"
    by (simp add: m_def finish_member_def settle_authority_def Let_def attach_leases_def b conflicts
        canonicalize_conflicts_def)
  moreover have "mb_current_identity m = declaration_identity toy_hash founder_declaration"
    by (simp add: m_def finish_member_def settle_authority_def Let_def attach_leases_def b)
  ultimately show ?thesis using that [OF r] mem late by (simp add: m_def b)
qed

section \<open>Witnesses\<close>

theorem derived_standing_is_grounded_witness:
  "\<exists>r. derive_state toy_hash founding_inputs = Inr r \<and>
     grounded toy_hash (derived_artifacts toy_hash founding_inputs builtin)
       (round_context founding_inputs builtin
          (derived_policy toy_hash founding_inputs default_policy builtin)
          (derived_artifacts toy_hash founding_inputs builtin) (dr_state r) [])
       (derived_members toy_hash founding_inputs builtin) 3"
proof -
  obtain r m where "derive_state toy_hash founding_inputs = Inr r" "m \<in> set (fs_members (dr_state r))"
    "mb_member m = 3" "mb_lifecycle m = Lifecycle_Active"
    by (rule founding_state)
  with derived_standing_is_grounded [OF this(1) founding_inputs_fields(1,2) this(2)] show ?thesis
    by (simp add: established_lifecycle_def)
qed

theorem federation_authority_sound_witness:
  "\<exists>r. derive_state toy_hash founding_inputs = Inr r \<and> \<not> global_mutation_suspended
     (derived_policy toy_hash founding_inputs default_policy builtin) (dr_state r)"
proof -
  obtain r m where "derive_state toy_hash founding_inputs = Inr r" "m \<in> set (fs_members (dr_state r))"
    "dt_grant (sample_term ''federation.epoch.advance'') \<in> set (mb_federation_authority m)"
    by (rule founding_state)
  with federation_authority_sound [OF this(1) founding_inputs_fields(1,2) this(2,3)] show ?thesis
    by (simp add: founding_scope)
qed

theorem exclusive_grant_has_one_holder_witness:
  "\<exists>r. derive_state toy_hash founding_inputs = Inr r \<and>
     (\<forall>b \<in> set (fs_members (dr_state r)).
        dt_grant (sample_term ''federation.epoch.advance'') \<in> set (mb_federation_authority b) \<longrightarrow>
        mb_member b = 3)"
proof -
  let ?t = "sample_term ''federation.epoch.advance''"
  obtain r m where r: "derive_state toy_hash founding_inputs = Inr r"
    and m: "m \<in> set (fs_members (dr_state r))" "mb_member m = 3" "mb_delegated_terms m = [?t]"
      "dt_grant ?t \<in> set (mb_federation_authority m)"
    by (rule founding_state)
  have "mb_member b = 3"
    if "b \<in> set (fs_members (dr_state r))" "dt_grant ?t \<in> set (mb_federation_authority b)" for b
    using exclusive_grant_has_one_holder [OF r m(1) that(1) _ founding_scope(4) m(4) that(2)] m by simp
  with r show ?thesis by blast
qed

text \<open>Two artefacts with one identifier and different text.\<close>

definition equivocated :: "Artifact list" where
  "equivocated = [\<lparr>ar_envelope = sample_envelope, ar_body = empty_body\<rparr>,
                  \<lparr>ar_envelope = sample_envelope, ar_body = empty_body\<lparr>ab_reason_text := ''x''\<rparr>\<rparr>]"

lemma equivocated_differ:
  "artifact_digest toy_hash (equivocated ! 0) \<noteq> artifact_digest toy_hash (equivocated ! 1)"
  by code_simp

theorem equivocated_evidence_is_never_applied_witness:
  "77 \<notin> art_evidence ` set (pp_accepted
     (prepare_artifacts toy_hash (sample_inputs\<lparr>di_artifacts := equivocated\<rparr>) builtin))"
proof -
  have ids: "art_evidence (equivocated ! 0) = 77" "art_evidence (equivocated ! 1) = 77"
    "equivocated ! 0 \<in> set equivocated" "equivocated ! 1 \<in> set equivocated"
    by (simp_all add: equivocated_def sample_envelope_def)
  let ?in = "sample_inputs\<lparr>di_artifacts := equivocated\<rparr>"
  have "di_artifacts (x\<lparr>di_artifacts := as\<rparr>) = as" for x as by simp
  then have mem: "equivocated ! 0 \<in> set (di_artifacts ?in)" "equivocated ! 1 \<in> set (di_artifacts ?in)"
    using ids(3,4) by simp_all
  show ?thesis
    using equivocated_evidence_is_never_applied [OF mem _ equivocated_differ, of builtin]
    unfolding ids(1,2) by blast
qed

theorem derivation_ignores_arrival_order_witness:
  "derive_state toy_hash (founding_inputs\<lparr>di_artifacts := [founding_activation, founding_genesis]\<rparr>) =
   derive_state toy_hash founding_inputs"
  by (rule derivation_ignores_arrival_order) (simp_all add: founding_inputs_def)

end
