(* ===== verification/Authority.thy ===== *)
theory Authority
  imports State
begin

text \<open>
  The authority evaluator (\<^verbatim>\<open>authority.hpp\<close>, \<^verbatim>\<open>authority.cpp\<close>): requests and decisions with their
  codecs, the evaluation of a federation request in the eleven steps of the code, and the evaluation
  of local authority. An early \<^verbatim>\<open>return finish(...)\<close> is \<open>Inl\<close> of the finished decision; a step that
  lets the evaluation go on is \<open>Inr\<close> of the decision so far. The lemmas characterise the requests
  that are granted.
\<close>

section \<open>Requests and decisions\<close>

record AuthorityRequest =
  rq_id :: RequestId
  rq_federation :: FederationId
  rq_epoch_seen :: Epoch
  rq_actor :: MemberIdentity
  rq_requested :: ScopeGrant
  rq_lease :: LeaseId
  rq_issued_at :: Tick
  rq_constraint :: ConstraintToken

record AuthorityDecision =
  ad_request :: RequestId
  ad_outcome :: Outcome
  ad_federation :: FederationId
  ad_epoch_seen :: Epoch
  ad_epoch_current :: Epoch
  ad_requested :: ScopeGrant
  ad_actor_declared :: MemberIdentity
  ad_actor_current :: MemberIdentity
  ad_lifecycle :: MemberLifecycleState
  ad_effective_authority :: "ScopeGrant list"
  ad_explanation :: Explanation
  ad_decided_at :: Tick

definition encode_request :: "AuthorityRequest \<Rightarrow> bytes result" where
  "encode_request r = w_seq
     [w_id16 (rq_id r), w_id16 (rq_federation r), w_u64 (rq_epoch_seen r),
      encode_identity (rq_actor r), encode_grant (rq_requested r), w_id16 (rq_lease r),
      w_u64 (rq_issued_at r), w_identifier (rq_constraint r)]"

definition decode_request :: "AuthorityRequest reader" where
  "decode_request =
     rbind r_id16 (\<lambda>rid.
     rbind r_id16 (\<lambda>federation.
     rbind r_u64 (\<lambda>epoch.
     rbind decode_identity (\<lambda>actor.
     rbind decode_grant (\<lambda>requested.
     rbind r_id16 (\<lambda>lease.
     rbind r_u64 (\<lambda>issued_at.
     rbind r_identifier (\<lambda>constr.
     rbind (r_lift (optional_name parse_constraint ''request constraint is malformed'' constr))
       (\<lambda>constr.
     r_return \<lparr>rq_id = rid, rq_federation = federation, rq_epoch_seen = epoch, rq_actor = actor,
               rq_requested = requested, rq_lease = lease, rq_issued_at = issued_at,
               rq_constraint = constr\<rparr>)))))))))"

definition request_digest :: "(bytes \<Rightarrow> Digest) \<Rightarrow> AuthorityRequest \<Rightarrow> Digest" where
  "request_digest H r = digest_of H (encode_request r)"

definition authority_request_to_string :: "AuthorityRequest \<Rightarrow> string" where
  "authority_request_to_string r =
     request_to_string (rq_id r) @ '' actor='' @ identity_to_string (rq_actor r) @ '' grant='' @
     grant_to_string (rq_requested r) @ '' epoch_seen='' @ word_to_string (rq_epoch_seen r) @
     (if \<not> is_nil (rq_lease r) then '' lease='' @ lease_to_string (rq_lease r) else [])"

definition encode_decision :: "AuthorityDecision \<Rightarrow> bytes result" where
  "encode_decision d = w_seq
     [w_id16 (ad_request d), w_u8 (outcome_wire (ad_outcome d)), w_id16 (ad_federation d),
      w_u64 (ad_epoch_seen d), w_u64 (ad_epoch_current d), encode_grant (ad_requested d),
      encode_identity (ad_actor_declared d), encode_identity (ad_actor_current d),
      w_u8 (lifecycle_wire (ad_lifecycle d)),
      encode_grants (ad_effective_authority d) kMaxEffectiveGrantsPerDecision,
      encode_explanation (ad_explanation d), w_u64 (ad_decided_at d)]"

definition lifecycle_from_wire :: "u8 \<Rightarrow> MemberLifecycleState result" where
  "lifecycle_from_wire v =
     (if v > lifecycle_wire Lifecycle_Retired then
        Fail Error_InvalidArgument ''lifecycle state is out of range''
      else Inr ([Lifecycle_Absent, Lifecycle_Proposed, Lifecycle_Admitted, Lifecycle_Active,
                 Lifecycle_Degraded, Lifecycle_Fenced, Lifecycle_Leaving, Lifecycle_Retired]
                ! unat v))"

definition decode_decision :: "AuthorityDecision reader" where
  "decode_decision =
     rbind r_id16 (\<lambda>request.
     rbind r_u8 (\<lambda>outcome.
     rbind (r_lift (outcome_from_wire ''decision outcome is out of range'' outcome)) (\<lambda>outcome.
     rbind r_id16 (\<lambda>federation.
     rbind r_u64 (\<lambda>epoch_seen.
     rbind r_u64 (\<lambda>epoch_current.
     rbind decode_grant (\<lambda>requested.
     rbind decode_identity (\<lambda>declared.
     rbind decode_identity (\<lambda>current.
     rbind r_u8 (\<lambda>lifecycle.
     rbind (r_lift (lifecycle_from_wire lifecycle)) (\<lambda>lifecycle.
     rbind (decode_grants kMaxEffectiveGrantsPerDecision) (\<lambda>effective.
     rbind decode_explanation (\<lambda>explanation.
     rbind r_u64 (\<lambda>decided_at.
     r_return \<lparr>ad_request = request, ad_outcome = outcome, ad_federation = federation,
               ad_epoch_seen = epoch_seen, ad_epoch_current = epoch_current,
               ad_requested = requested, ad_actor_declared = declared,
               ad_actor_current = current, ad_lifecycle = lifecycle,
               ad_effective_authority = effective, ad_explanation = explanation,
               ad_decided_at = decided_at\<rparr>))))))))))))))"

definition decision_digest :: "(bytes \<Rightarrow> Digest) \<Rightarrow> AuthorityDecision \<Rightarrow> Digest" where
  "decision_digest H d = digest_of H (encode_decision d)"

definition decision_to_string :: "(bytes \<Rightarrow> Digest) \<Rightarrow> AuthorityDecision \<Rightarrow> string" where
  "decision_to_string H d =
     outcome_to_string (ad_outcome d) @ '' request='' @ request_to_string (ad_request d) @
     '' grant='' @ grant_to_string (ad_requested d) @ '' lifecycle='' @
     lifecycle_to_string (ad_lifecycle d) @ '' epoch='' @ word_to_string (ad_epoch_current d) @
     (if ad_effective_authority d \<noteq> []
      then '' effective=['' @ render_grants (ad_effective_authority d) @ '']'' else []) @
     '' digest='' @ take 16 (digest_to_hex (decision_digest H d))"

section \<open>Codec contracts\<close>

lemma lifecycle_from_wire_wire [codec_rt]: "lifecycle_from_wire (lifecycle_wire s) = Inr s"
  by (cases s) (simp_all add: lifecycle_from_wire_def)

definition request_wf :: "AuthorityRequest \<Rightarrow> bool" where
  "request_wf r \<longleftrightarrow> grant_wf (rq_requested r) \<and> name_invariant parse_constraint (rq_constraint r)"

interpretation request_codec: codec encode_request decode_request request_wf
proof
  fix x :: AuthorityRequest and rest
  assume "is_ok (encode_request x)" "request_wf x"
  then show "decode_request (projr (encode_request x) @ rest) = Inr (x, rest)"
    by (cases x) (simp add: encode_request_def decode_request_def request_wf_def
        is_ok_w_seq projr_w_seq codec_rt)
qed

definition decision_wf :: "AuthorityDecision \<Rightarrow> bool" where
  "decision_wf d \<longleftrightarrow> grant_wf (ad_requested d) \<and>
     (\<forall>g \<in> set (ad_effective_authority d). grant_wf g) \<and> explanation_wf (ad_explanation d)"

lemmas decode_explanation_rt [codec_rt] = explanation_codec.roundtrip

interpretation decision_codec: codec encode_decision decode_decision decision_wf
proof
  fix x :: AuthorityDecision and rest
  assume "is_ok (encode_decision x)" "decision_wf x"
  then show "decode_decision (projr (encode_decision x) @ rest) = Inr (x, rest)"
    by (cases x) (simp add: encode_decision_def decode_decision_def decision_wf_def
        is_ok_w_seq projr_w_seq codec_rt)
qed

section \<open>Building a decision\<close>

type_synonym verdict = "AuthorityDecision + AuthorityDecision"

definition proceed :: "verdict \<Rightarrow> (AuthorityDecision \<Rightarrow> verdict) \<Rightarrow> verdict" where
  "proceed v k = (case v of Inl d \<Rightarrow> Inl d | Inr d \<Rightarrow> k d)"

definition remark :: "ReasonCode \<Rightarrow> string \<Rightarrow> AuthorityDecision \<Rightarrow> AuthorityDecision" where
  "remark code detail d = d\<lparr>ad_explanation := ex_add code detail (ad_explanation d)\<rparr>"

definition finish :: "Outcome \<Rightarrow> EvidenceState \<Rightarrow> string \<Rightarrow> AuthorityDecision \<Rightarrow> verdict" where
  "finish outcome evidence summary d =
     Inl (d\<lparr>ad_outcome := outcome,
            ad_explanation := canonicalize_explanation ((ad_explanation d)
              \<lparr>ex_outcome := outcome, ex_evidence := evidence, ex_summary := summary\<rparr>)\<rparr>)"

definition actor_contribution :: "(bytes \<Rightarrow> Digest) \<Rightarrow> AuthorityRequest \<Rightarrow> bool \<Rightarrow> Contribution" where
  "actor_contribution H r current =
     \<lparr>cb_member = mi_member (rq_actor r), cb_role = Role_Actor,
      cb_generation = mi_generation (rq_actor r), cb_incarnation = mi_incarnation (rq_actor r),
      cb_constitution = mi_constitution (rq_actor r), cb_evidence = request_digest H r,
      cb_epoch = rq_epoch_seen r, cb_identity_current = current, cb_note = []\<rparr>"

definition empty_decision :: AuthorityDecision where
  "empty_decision =
     \<lparr>ad_request = 0, ad_outcome = Outcome_Unknown, ad_federation = 0, ad_epoch_seen = 0,
      ad_epoch_current = 0, ad_requested = empty_grant, ad_actor_declared = empty_identity,
      ad_actor_current = empty_identity, ad_lifecycle = Lifecycle_Absent,
      ad_effective_authority = [], ad_explanation = empty_explanation, ad_decided_at = 0\<rparr>"

definition opening_decision ::
  "(bytes \<Rightarrow> Digest) \<Rightarrow> AuthorityRequest \<Rightarrow> FederationState \<Rightarrow> AuthorityDecision" where
  "opening_decision H r st = empty_decision
     \<lparr>ad_request := rq_id r, ad_federation := rq_federation r, ad_epoch_seen := rq_epoch_seen r,
      ad_epoch_current := fs_epoch st, ad_requested := rq_requested r,
      ad_actor_declared := rq_actor r, ad_decided_at := fs_logical_time st,
      ad_explanation := empty_explanation
        \<lparr>ex_considered_grants := [rq_requested r],
         ex_contributions := [actor_contribution H r False]\<rparr>\<rparr>"

definition withholding_reason :: "FederationState \<Rightarrow> ScopeGrant \<Rightarrow> ReasonCode" where
  "withholding_reason st grant =
     (if fs_reconciling st then Reason_PartitionReconcilingSuspendsGlobalMutation
      else if pa_state (fs_partition st) = Partition_Split then
        Reason_PartitionSplitSuspendsGlobalMutation
      else if pa_state (fs_partition st) = Partition_Indeterminate then
        Reason_PartitionIndeterminateSuspendsGlobalMutation
      else Reason_MembershipDegradedObservationGap)"

section \<open>The steps of the evaluation\<close>

text \<open>Steps 1 to 3: the federation, the replay fence, the epoch.\<close>

definition check_federation :: "AuthorityRequest \<Rightarrow> FederationState \<Rightarrow> AuthorityDecision \<Rightarrow> verdict" where
  "check_federation r st d =
     (if rq_federation r \<noteq> fs_federation st then
        finish Outcome_Refused Evidence_Invalid
          ''the request names a federation this coordinator does not serve''
          (remark Reason_FederationIdentityMismatch
             (''request names '' @ federation_to_string (rq_federation r) @
              '', this coordinator serves '' @ federation_to_string (fs_federation st)) d)
      else Inr d)"

definition check_replay :: "AuthorityRequest \<Rightarrow> FederationState \<Rightarrow> AuthorityDecision \<Rightarrow> verdict" where
  "check_replay r st d =
     (if has_replay st (rq_id r) then
        finish Outcome_Replayed Evidence_Known
          ''the request identifier is already in the replay ledger''
          (remark Reason_RequestReplayed
             (''request '' @ request_to_string (rq_id r) @
              '' was already decided; a repeated identifier never grants fresh authority'') d)
      else Inr (remark Reason_RequestFresh ''request identifier has not been decided before'' d))"

definition check_epoch :: "AuthorityRequest \<Rightarrow> FederationState \<Rightarrow> AuthorityDecision \<Rightarrow> verdict" where
  "check_epoch r st d =
     (if rq_epoch_seen r > fs_epoch st then
        finish Outcome_Refused Evidence_Stale
          ''the requester has seen a later epoch than this coordinator''
          (remark Reason_EpochAheadOfCoordinator
             (''request was made at epoch '' @ word_to_string (rq_epoch_seen r) @
              '', this coordinator is at epoch '' @ word_to_string (fs_epoch st) @
              ''; authority is not granted on an epoch the coordinator cannot see'') d)
      else if rq_epoch_seen r < fs_epoch st then
        finish Outcome_Stale Evidence_Stale ''the request belongs to a previous epoch''
          (remark Reason_EpochStale
             (''request was made at epoch '' @ word_to_string (rq_epoch_seen r) @
              '', current epoch is '' @ word_to_string (fs_epoch st)) d)
      else Inr (remark Reason_EpochMatches
             (''epoch '' @ word_to_string (fs_epoch st) @ '' matches'') d))"

text \<open>Step 4: local authority is decided locally.\<close>

definition check_scope :: "AuthorityRequest \<Rightarrow> ScopeCatalog \<Rightarrow> AuthorityDecision \<Rightarrow> verdict" where
  "check_scope r catalog d =
     (let g = rq_requested r; (scope_class, known) = classify catalog (sg_scope g) in
      if known \<and> scope_class = Class_Local then
        let d = remark Reason_ScopeLocalAuthorityAlwaysGranted
              (grant_to_string g @
               '' is local authority; the federation neither grants nor removes it'') d;
            d = d\<lparr>ad_effective_authority := ad_effective_authority d @ [g],
                  ad_explanation := (ad_explanation d)
                    \<lparr>ex_effective_grants := ex_effective_grants (ad_explanation d) @ [g]\<rparr>\<rparr>
        in finish Outcome_Granted Evidence_Known
             ''local authority; the federation has no standing over it'' d
      else if \<not> known then
        finish Outcome_Unsupported Evidence_Unknown
          ''the requested scope is not modelled by this build''
          (remark Reason_ScopeUnknownToCatalogue
             (''scope '' @ sg_scope g @
              '' is not in the federation scope catalogue of this build'') d)
      else Inr d)"

text \<open>Step 5: what the state knows about the member.\<close>

definition adopt_member :: "MemberState \<Rightarrow> AuthorityDecision \<Rightarrow> AuthorityDecision" where
  "adopt_member m d =
     d\<lparr>ad_actor_current := mb_current_identity m, ad_lifecycle := mb_lifecycle m,
       ad_effective_authority := mb_federation_authority m,
       ad_explanation := (ad_explanation d)
         \<lparr>ex_contributions := map (\<lambda>c. c\<lparr>cb_identity_current :=
              (cb_member c = mb_member m \<and>
               cb_constitution c = mi_constitution (mb_current_identity m))\<rparr>)
              (ex_contributions (ad_explanation d) @ mb_contributing_parties m),
          ex_conflicts := ex_conflicts (ad_explanation d) @ mb_conflicts m,
          ex_reasons := ex_reasons (ad_explanation d) @ mb_reasons m\<rparr>\<rparr>"

text \<open>Step 6: the lifecycle.\<close>

definition check_lifecycle :: "MemberState \<Rightarrow> AuthorityDecision \<Rightarrow> verdict" where
  "check_lifecycle m d = (case mb_lifecycle m of
     Lifecycle_Absent \<Rightarrow>
       finish Outcome_Unknown Evidence_Unknown ''the member has no membership evidence at all'' d
   | Lifecycle_Proposed \<Rightarrow>
       finish Outcome_Incomplete Evidence_Incomplete ''the member is proposed but not admitted'' d
   | Lifecycle_Admitted \<Rightarrow>
       finish Outcome_Incomplete Evidence_Incomplete
         ''the member is admitted but not active at the current epoch'' d
   | Lifecycle_Retired \<Rightarrow>
       finish Outcome_Refused (mb_evidence m) ''the membership lineage has been retired'' d
   | Lifecycle_Leaving \<Rightarrow>
       finish Outcome_Fenced (mb_evidence m) ''the member has left the federation''
         (remark Reason_MembershipLeaving
            (''the member has left; every federation-derived grant ended and local '' @
             ''authority was untouched'') d)
   | Lifecycle_Fenced \<Rightarrow>
       finish Outcome_Fenced (mb_evidence m) ''federation authority is fenced for this member''
         (remark Reason_MembershipFencedByOrder ''a fence is in force for this member'' d)
   | Lifecycle_Active \<Rightarrow> Inr d
   | Lifecycle_Degraded \<Rightarrow> Inr d)"

text \<open>Step 7: the exact identity.\<close>

definition note_mismatch :: "MemberIdentity \<Rightarrow> MemberIdentity \<Rightarrow> IdentityMismatch \<Rightarrow>
    AuthorityDecision \<Rightarrow> AuthorityDecision" where
  "note_mismatch actor current mismatch d = (case mismatch of
     Mismatch_Generation \<Rightarrow> remark Reason_IdentityGenerationStale
       (''presented generation '' @ word_to_string (mi_generation actor) @
        '', current generation '' @ word_to_string (mi_generation current)) d
   | Mismatch_Constitution \<Rightarrow> remark Reason_IdentityConstitutionStale
       (''presented constitution '' @ take 16 (digest_to_hex (mi_constitution actor)) @
        '', current constitution '' @ take 16 (digest_to_hex (mi_constitution current))) d
   | Mismatch_Incarnation \<Rightarrow> remark Reason_IdentityIncarnationStale
       (''presented incarnation '' @ word_to_string (mi_incarnation actor) @
        '', current incarnation '' @ word_to_string (mi_incarnation current)) d
   | Mismatch_Node \<Rightarrow> remark Reason_IdentityIncarnationStale
       (''presented node '' @ node_to_string (mi_node actor) @
        '' is not the node recorded for the current incarnation'') d
   | _ \<Rightarrow> d)"

definition check_identity :: "AuthorityRequest \<Rightarrow> MemberState \<Rightarrow> AuthorityDecision \<Rightarrow> verdict" where
  "check_identity r m d =
     (let held = lifecycle_holds_federation_authority (mb_lifecycle m);
          mismatch = compare_identities (mb_current_identity m) (rq_actor r)
      in if mismatch = Mismatch_None then
           Inr (remark Reason_IdentityMatches ''generation, incarnation and digest match'' d)
         else if mismatch = Mismatch_Member \<or> mismatch = Mismatch_Domain then
           finish Outcome_Refused Evidence_Invalid
             ''the presented identity names a different member''
             (remark Reason_IdentityMemberUnknown
                ''presented member/domain does not match the recorded member'' d)
         else
           finish (if held then Outcome_Fenced else Outcome_Stale) Evidence_Stale
             (if held then
                ''the presented identity no longer matches the authority that was granted; '' @
                ''the authority is fenced''
              else ''the presented identity is superseded'')
             (note_mismatch (rq_actor r) (mb_current_identity m) mismatch d))"

text \<open>Step 8: the delegation.\<close>

definition refuse_undelegated :: "AuthorityRequest \<Rightarrow> FederationState \<Rightarrow> FederationPolicy \<Rightarrow>
    MemberState \<Rightarrow> AuthorityDecision \<Rightarrow> verdict" where
  "refuse_undelegated r st policy m d =
     (let g = rq_requested r in
      if (\<exists>w \<in> set (mb_withdrawn_grants m).
            sg_verb w = sg_verb g \<and> covers (sg_scope w) (sg_scope g)) then
        finish Outcome_Refused Evidence_Known
          ''the member withdrew this grant; withdrawal is not restored implicitly''
          (remark Reason_DelegationWithdrawn (''the member withdrew '' @ grant_to_string g) d)
      else if scope_delegation_forbidden policy (sg_scope g) then
        finish Outcome_Refused Evidence_Known ''federation policy forbids this delegation''
          (remark Reason_ScopeDelegationForbiddenByPolicy
             (''policy forbids delegating '' @ sg_scope g) d)
      else if g \<in> set (mb_withheld_global_mutation m) then
        finish Outcome_Fenced Evidence_Stale
          ''global-mutation authority is suspended by the current partition state''
          (remark (withholding_reason st g)
             (''global-mutation authority over '' @ grant_to_string g @ '' is suspended'') d)
      else if g \<in> set (mb_withheld_grants m) then
        finish Outcome_Degraded Evidence_Indeterminate
          ''the grant is withheld while the federation is degraded''
          (remark Reason_MembershipDegradedObservationGap
             ''the grant is delegated but currently withheld from this member'' d)
      else if (\<exists>t \<in> set (mb_delegated_terms m). sg_verb (dt_grant t) = sg_verb g \<and>
                 covers (sg_scope (dt_grant t)) (sg_scope g)) then
        finish Outcome_Refused Evidence_Known
          ''the member delegated the scope but not for this verb''
          (remark Reason_ScopeVerbNotDelegated
             (grant_to_string g @ '' is delegated for other verbs but not for this one'') d)
      else
        finish Outcome_Refused Evidence_Known
          ''the member never delegated this grant to the federation''
          (remark Reason_ScopeNotDelegated
             (''the member never delegated '' @ grant_to_string g @
              ''; the authority remains local to the member'') d))"

definition check_delegation :: "AuthorityRequest \<Rightarrow> FederationState \<Rightarrow> FederationPolicy \<Rightarrow>
    MemberState \<Rightarrow> AuthorityDecision \<Rightarrow> verdict" where
  "check_delegation r st policy m d =
     (let g = rq_requested r in
      case find (\<lambda>c. sg_verb (cr_grant c) = sg_verb g \<and> covers (sg_scope (cr_grant c)) (sg_scope g))
             (mb_conflicts m) of
        Some c \<Rightarrow>
          finish Outcome_Conflicting Evidence_Conflicting
            ''overlapping delegations conflict; the grant is contained, not awarded''
            (remark Reason_DelegationConflictContained
               (''overlapping delegations disagree about '' @ grant_to_string (cr_grant c) @
                ''; no party is granted the grant while the disagreement stands'') d)
      | None \<Rightarrow>
          if \<not> grants_cover (mb_federation_authority m) g then refuse_undelegated r st policy m d
          else Inr (remark Reason_ScopeCoveredByDelegation
                 (grant_to_string g @ '' is covered by the member'' @ [CHR 0x27] @
                  ''s delegation'') d))"

text \<open>Step 9: the lease.\<close>

definition lease_bound_to :: "LeaseView \<Rightarrow> MemberIdentity \<Rightarrow> bool" where
  "lease_bound_to v actor \<longleftrightarrow> lv_holder v = mi_member actor \<and>
     lv_holder_incarnation v = mi_incarnation actor \<and>
     lv_holder_generation v = mi_generation actor"

definition check_lease :: "AuthorityRequest \<Rightarrow> FederationState \<Rightarrow> FederationPolicy \<Rightarrow>
    AuthorityDecision \<Rightarrow> verdict" where
  "check_lease r st policy d =
     (let g = rq_requested r in
      if \<not> lease_required policy g then Inr d
      else
        let d = remark Reason_LeaseRequiredByPolicy
              (''policy requires a lease for '' @ grant_to_string g) d
        in if is_nil (rq_lease r) then
             finish Outcome_Refused Evidence_Incomplete
               ''a lease is required for this grant and none was presented''
               (remark Reason_LeaseMissing ''no lease was presented'' d)
           else case find (\<lambda>v. lv_id v = rq_lease r) (fs_leases st) of
             None \<Rightarrow>
               finish Outcome_Refused Evidence_Unknown
                 ''the presented lease is unknown to this coordinator''
                 (remark Reason_LeaseMissing
                    (''lease '' @ lease_to_string (rq_lease r) @
                     '' is not known to this coordinator'') d)
           | Some v \<Rightarrow>
               if \<not> lease_bound_to v (rq_actor r) then
                 finish Outcome_Fenced Evidence_Stale
                   ''the lease is bound to a different member identity''
                   (remark Reason_LeaseHolderMismatch
                      (''lease '' @ lease_to_string (lv_id v) @ '' is bound to '' @
                       member_to_string (lv_holder v) @ '' incarnation '' @
                       word_to_string (lv_holder_incarnation v) @ '' generation '' @
                       word_to_string (lv_holder_generation v)) d)
               else if lv_state v \<noteq> Lease_Valid then
                 finish (if lv_state v = Lease_Revoked then Outcome_Fenced
                         else if lv_state v = Lease_ScopeNotCovered then Outcome_Refused
                         else Outcome_Stale)
                   Evidence_Stale
                   (''the presented lease is '' @ lease_state_to_string (lv_state v))
                   (remark (lv_reason v)
                      (''lease '' @ lease_to_string (lv_id v) @ '' is '' @
                       lease_state_to_string (lv_state v)) d)
               else if \<not> grants_cover (lv_scopes v) g then
                 finish Outcome_Refused Evidence_Known
                   ''the lease does not cover the requested grant''
                   (remark Reason_LeaseScopeNotCovered
                      (''lease '' @ lease_to_string (lv_id v) @ '' does not cover '' @
                       grant_to_string g) d)
               else Inr (remark Reason_LeaseValid
                      (''lease '' @ lease_to_string (lv_id v) @ '' is valid'') d))"

text \<open>Steps 10 and 11: the partition and the degraded member.\<close>

definition check_partition :: "AuthorityRequest \<Rightarrow> FederationState \<Rightarrow> FederationPolicy \<Rightarrow>
    ScopeClass \<Rightarrow> AuthorityDecision \<Rightarrow> verdict" where
  "check_partition r st policy scope_class d =
     (if scope_class \<noteq> Class_GlobalMutation then Inr d
      else if fs_reconciling st \<and> suspend_global_mutation_while_reconciling policy then
        finish Outcome_Fenced Evidence_Stale
          ''global-mutation authority is suspended while reconciling''
          (remark Reason_PartitionReconcilingSuspendsGlobalMutation
             ''the federation is reconciling after a partition'' d)
      else if pa_state (fs_partition st) = Partition_Split \<and>
              suspend_global_mutation_on_partition policy then
        finish Outcome_Fenced Evidence_Stale
          ''global-mutation authority is suspended by the observed partition''
          (remark Reason_PartitionSplitSuspendsGlobalMutation
             (''the active set is split into '' @
              nat_to_string (length (pa_components (fs_partition st))) @
              '' component(s); no side keeps global-mutation authority'') d)
      else if pa_state (fs_partition st) = Partition_Indeterminate \<and>
              suspend_global_mutation_on_partition policy then
        finish Outcome_Fenced Evidence_Indeterminate
          (''global-mutation authority is suspended because partition evidence is '' @
           ''incomplete'')
          (remark Reason_PartitionIndeterminateSuspendsGlobalMutation
             (''reachability evidence is incomplete: '' @ pa_summary (fs_partition st)) d)
      else Inr (remark Reason_PartitionConnected ''the active set is mutually reachable'' d))"

definition check_degraded :: "AuthorityRequest \<Rightarrow> MemberState \<Rightarrow> AuthorityDecision \<Rightarrow> verdict" where
  "check_degraded r m d =
     (if mb_lifecycle m = Lifecycle_Degraded \<and>
         (sg_verb (rq_requested r) = Verb_Mutate \<or> sg_verb (rq_requested r) = Verb_Administer) then
        finish Outcome_Degraded Evidence_Indeterminate
          ''the member is degraded: observation is permitted, mutation is withheld''
          (remark Reason_MembershipDegradedObservationGap
             (''the member is degraded; mutating authority is withheld while observation '' @
              ''remains permitted'') d)
      else Inr d)"

section \<open>The evaluation\<close>

text \<open>Steps 6 to 11, for a member the state holds.\<close>

definition evaluate_member :: "AuthorityRequest \<Rightarrow> FederationState \<Rightarrow> FederationPolicy \<Rightarrow>
    ScopeCatalog \<Rightarrow> MemberState \<Rightarrow> AuthorityDecision \<Rightarrow> verdict" where
  "evaluate_member r st policy catalog m d =
     proceed (check_lifecycle m d) (\<lambda>d.
     proceed (check_identity r m d) (\<lambda>d.
     proceed (check_delegation r st policy m d) (\<lambda>d.
     proceed (check_lease r st policy d) (\<lambda>d.
     proceed (check_partition r st policy (fst (classify catalog (sg_scope (rq_requested r)))) d) (\<lambda>d.
     proceed (check_degraded r m d) (\<lambda>d.
     finish Outcome_Granted (mb_evidence m)
       (''authority granted for '' @ grant_to_string (rq_requested r) @ '' at epoch '' @
        word_to_string (fs_epoch st))
       (d\<lparr>ad_explanation := (ad_explanation d)\<lparr>ex_effective_grants :=
            ex_effective_grants (ad_explanation d) @ [rq_requested r]\<rparr>\<rparr>)))))))"

definition evaluate_steps :: "AuthorityRequest \<Rightarrow> FederationState \<Rightarrow> FederationPolicy \<Rightarrow>
    ScopeCatalog \<Rightarrow> AuthorityDecision \<Rightarrow> verdict" where
  "evaluate_steps r st policy catalog d =
     proceed (check_federation r st d) (\<lambda>d.
     proceed (check_replay r st d) (\<lambda>d.
     proceed (check_epoch r st d) (\<lambda>d.
     proceed (check_scope r catalog d) (\<lambda>d.
       case find_member st (mi_member (rq_actor r)) of
         None \<Rightarrow>
           finish Outcome_Unknown Evidence_Unknown
             ''the federation holds no evidence about the requesting member''
             (remark Reason_IdentityMemberUnknown
                (''no evidence about member '' @ member_to_string (mi_member (rq_actor r)) @
                 '' exists in this federation'') d)
       | Some m \<Rightarrow> evaluate_member r st policy catalog m (adopt_member m d)))))"

definition evaluate_authority :: "(bytes \<Rightarrow> Digest) \<Rightarrow> AuthorityRequest \<Rightarrow> FederationState \<Rightarrow>
    FederationPolicy \<Rightarrow> ScopeCatalog \<Rightarrow> AuthorityDecision" where
  "evaluate_authority H r st policy catalog =
     (case evaluate_steps r st policy catalog (opening_decision H r st) of Inl d \<Rightarrow> d | Inr d \<Rightarrow> d)"

text \<open>Local authority is decided from the member's own constitution.\<close>

definition evaluate_local_authority :: "(bytes \<Rightarrow> Digest) \<Rightarrow> MemberConstitution \<Rightarrow> ScopeGrant \<Rightarrow>
    Tick \<Rightarrow> AuthorityDecision" where
  "evaluate_local_authority H c g now =
     (let actor = \<lparr>cb_member = mc_member c, cb_role = Role_Actor, cb_generation = mc_generation c,
            cb_incarnation = 0, cb_constitution = constitution_digest H c, cb_evidence = 0,
            cb_epoch = 0, cb_identity_current = True, cb_note = ''local authority''\<rparr>;
          retained = grants_cover (mc_retained c) g;
          outcome = (if retained then Outcome_Granted else Outcome_Refused);
          e = empty_explanation\<lparr>ex_contributions := [actor], ex_considered_grants := [g],
                ex_outcome := outcome, ex_evidence := Evidence_Known\<rparr>;
          e = (if retained then
                 (ex_add Reason_ScopeLocalAuthorityAlwaysGranted
                    (''the member retains '' @ grant_to_string g @
                     ''; the federation has no standing over local authority'') e)
                   \<lparr>ex_effective_grants := [g]\<rparr>
               else ex_add Reason_ScopeRetainedLocalAuthority
                 (grant_to_string g @ '' is not part of the member'' @ [CHR 0x27] @
                  ''s retained local authority; '' @
                  ''federation authority must be requested from the coordinator'') e);
          e = e\<lparr>ex_summary := ''local authority evaluation for '' @ grant_to_string g\<rparr>
      in empty_decision
           \<lparr>ad_requested := g, ad_decided_at := now,
            ad_actor_current := empty_identity
              \<lparr>mi_domain := mc_domain c, mi_member := mc_member c,
               mi_generation := mc_generation c, mi_constitution := constitution_digest H c\<rparr>,
            ad_lifecycle := Lifecycle_Active, ad_outcome := outcome,
            ad_effective_authority := (if retained then [g] else []),
            ad_explanation := canonicalize_explanation e\<rparr>)"

section \<open>When a request is granted\<close>

definition verdict_granted :: "verdict \<Rightarrow> bool" where
  "verdict_granted v = (case v of Inl d \<Rightarrow> ad_outcome d = Outcome_Granted | Inr _ \<Rightarrow> False)"

lemma verdict_granted_finish [simp]:
  "verdict_granted (finish outcome evidence summary d) \<longleftrightarrow> outcome = Outcome_Granted"
  "verdict_granted (proceed (finish outcome evidence summary d) k) \<longleftrightarrow> outcome = Outcome_Granted"
  by (simp_all add: verdict_granted_def proceed_def finish_def)

lemma verdict_granted_proceed [simp]: "proceed (Inr d) k = k d"
  by (simp add: proceed_def)

definition lease_satisfied :: "AuthorityRequest \<Rightarrow> FederationState \<Rightarrow> FederationPolicy \<Rightarrow> bool" where
  "lease_satisfied r st policy \<longleftrightarrow> \<not> lease_required policy (rq_requested r) \<or>
     rq_lease r \<noteq> 0 \<and> (\<exists>v. find (\<lambda>v. lv_id v = rq_lease r) (fs_leases st) = Some v \<and>
       lease_bound_to v (rq_actor r) \<and> lv_state v = Lease_Valid \<and>
       grants_cover (lv_scopes v) (rq_requested r))"

definition member_may_exercise :: "AuthorityRequest \<Rightarrow> FederationState \<Rightarrow> FederationPolicy \<Rightarrow>
    ScopeClass \<Rightarrow> MemberState \<Rightarrow> bool" where
  "member_may_exercise r st policy scope_class m \<longleftrightarrow>
     lifecycle_holds_federation_authority (mb_lifecycle m) \<and>
     compare_identities (mb_current_identity m) (rq_actor r) = Mismatch_None \<and>
     \<not> (\<exists>c \<in> set (mb_conflicts m). sg_verb (cr_grant c) = sg_verb (rq_requested r) \<and>
          covers (sg_scope (cr_grant c)) (sg_scope (rq_requested r))) \<and>
     grants_cover (mb_federation_authority m) (rq_requested r) \<and>
     lease_satisfied r st policy \<and>
     \<not> (scope_class = Class_GlobalMutation \<and> global_mutation_suspended policy st) \<and>
     \<not> (mb_lifecycle m = Lifecycle_Degraded \<and>
        (sg_verb (rq_requested r) = Verb_Mutate \<or> sg_verb (rq_requested r) = Verb_Administer))"

lemma granted_checks:
  "verdict_granted (proceed (check_federation r st d) k) \<longleftrightarrow>
     rq_federation r = fs_federation st \<and> verdict_granted (k d)"
  "verdict_granted (proceed (check_replay r st d) k) \<longleftrightarrow> \<not> has_replay st (rq_id r) \<and> verdict_granted
     (k (remark Reason_RequestFresh ''request identifier has not been decided before'' d))"
  "verdict_granted (proceed (check_epoch r st d) k) \<longleftrightarrow> rq_epoch_seen r = fs_epoch st \<and> verdict_granted
     (k (remark Reason_EpochMatches (''epoch '' @ word_to_string (fs_epoch st) @ '' matches'') d))"
  by (auto simp: check_federation_def check_replay_def check_epoch_def)

lemma granted_scope:
  "verdict_granted (proceed (check_scope r catalog d) k) \<longleftrightarrow>
     snd (classify catalog (sg_scope (rq_requested r))) \<and>
     (fst (classify catalog (sg_scope (rq_requested r))) = Class_Local \<or> verdict_granted (k d))"
  by (auto simp: check_scope_def Let_def case_prod_unfold)

lemma granted_lifecycle:
  "verdict_granted (proceed (check_lifecycle m d) k) \<longleftrightarrow>
     lifecycle_holds_federation_authority (mb_lifecycle m) \<and> verdict_granted (k d)"
  by (cases "mb_lifecycle m") (simp_all add: check_lifecycle_def lifecycle_holds_federation_authority_def)

lemma granted_identity:
  "verdict_granted (proceed (check_identity r m d) k) \<longleftrightarrow>
     compare_identities (mb_current_identity m) (rq_actor r) = Mismatch_None \<and>
     verdict_granted (k (remark Reason_IdentityMatches ''generation, incarnation and digest match'' d))"
  by (auto simp: check_identity_def Let_def)

lemma refuse_undelegated_refuses:
  "\<not> verdict_granted (proceed (refuse_undelegated r st policy m d) k)"
  by (auto simp: refuse_undelegated_def Let_def)

lemma granted_delegation:
  "verdict_granted (proceed (check_delegation r st policy m d) k) \<longleftrightarrow>
     \<not> (\<exists>c \<in> set (mb_conflicts m). sg_verb (cr_grant c) = sg_verb (rq_requested r) \<and>
          covers (sg_scope (cr_grant c)) (sg_scope (rq_requested r))) \<and>
     grants_cover (mb_federation_authority m) (rq_requested r) \<and> verdict_granted
       (k (remark Reason_ScopeCoveredByDelegation (grant_to_string (rq_requested r) @
         '' is covered by the member'' @ [CHR 0x27] @ ''s delegation'') d))"
proof (cases "find (\<lambda>c. sg_verb (cr_grant c) = sg_verb (rq_requested r) \<and>
    covers (sg_scope (cr_grant c)) (sg_scope (rq_requested r))) (mb_conflicts m)")
  case None
  then have "\<not> (\<exists>c \<in> set (mb_conflicts m). sg_verb (cr_grant c) = sg_verb (rq_requested r) \<and>
      covers (sg_scope (cr_grant c)) (sg_scope (rq_requested r)))"
    by (auto simp: find_None_iff)
  with None refuse_undelegated_refuses [of r st policy m d k] show ?thesis
    by (simp add: check_delegation_def Let_def)
next
  case (Some c)
  then have "\<exists>c \<in> set (mb_conflicts m). sg_verb (cr_grant c) = sg_verb (rq_requested r) \<and>
      covers (sg_scope (cr_grant c)) (sg_scope (rq_requested r))"
    by (auto simp: find_Some_iff)
  with Some show ?thesis by (simp add: check_delegation_def Let_def)
qed

lemma granted_lease:
  assumes "\<And>d d'. verdict_granted (k d) = verdict_granted (k d')"
  shows "verdict_granted (proceed (check_lease r st policy d) k) \<longleftrightarrow>
     lease_satisfied r st policy \<and> verdict_granted (k d)"
  by (cases "find (\<lambda>v. lv_id v = rq_lease r) (fs_leases st)")
     (auto simp: check_lease_def Let_def lease_satisfied_def is_nil_def intro: assms [THEN iffD1])

lemma granted_partition:
  assumes "\<And>d d'. verdict_granted (k d) = verdict_granted (k d')"
  shows "verdict_granted (proceed (check_partition r st policy c d) k) \<longleftrightarrow>
     \<not> (c = Class_GlobalMutation \<and> global_mutation_suspended policy st) \<and> verdict_granted (k d)"
  by (auto simp: check_partition_def global_mutation_suspended_def intro: assms [THEN iffD1])

lemma granted_degraded:
  "verdict_granted (proceed (check_degraded r m d) k) \<longleftrightarrow>
     \<not> (mb_lifecycle m = Lifecycle_Degraded \<and>
        (sg_verb (rq_requested r) = Verb_Mutate \<or> sg_verb (rq_requested r) = Verb_Administer)) \<and>
     verdict_granted (k d)"
  by (auto simp: check_degraded_def)

lemma granted_member:
  "verdict_granted (evaluate_member r st policy catalog m d) \<longleftrightarrow>
     member_may_exercise r st policy (fst (classify catalog (sg_scope (rq_requested r)))) m"
  unfolding evaluate_member_def granted_lifecycle granted_identity granted_delegation
  by (subst granted_lease) (auto simp: granted_partition granted_degraded member_may_exercise_def)

lemma granted_steps:
  "verdict_granted (evaluate_steps r st policy catalog d) \<longleftrightarrow>
     rq_federation r = fs_federation st \<and> \<not> has_replay st (rq_id r) \<and>
     rq_epoch_seen r = fs_epoch st \<and> snd (classify catalog (sg_scope (rq_requested r))) \<and>
     (fst (classify catalog (sg_scope (rq_requested r))) = Class_Local \<or>
      (\<exists>m. find_member st (mi_member (rq_actor r)) = Some m \<and>
        member_may_exercise r st policy (fst (classify catalog (sg_scope (rq_requested r)))) m))"
  unfolding evaluate_steps_def granted_checks granted_scope
  by (auto simp: granted_member split: option.split)

section \<open>Every evaluation is decided and explained\<close>

text \<open>What every decision keeps of the request, and what \<open>finish\<close> leaves behind.\<close>

definition answers :: "AuthorityRequest \<Rightarrow> FederationState \<Rightarrow> AuthorityDecision \<Rightarrow> bool" where
  "answers r st d \<longleftrightarrow> ad_request d = rq_id r \<and> ad_federation d = rq_federation r \<and>
     ad_epoch_seen d = rq_epoch_seen r \<and> ad_epoch_current d = fs_epoch st \<and>
     ad_requested d = rq_requested r \<and> ad_actor_declared d = rq_actor r \<and>
     ad_decided_at d = fs_logical_time st"

definition explained :: "AuthorityDecision \<Rightarrow> bool" where
  "explained d \<longleftrightarrow> ex_outcome (ad_explanation d) = ad_outcome d \<and>
     canonicalize_explanation (ad_explanation d) = ad_explanation d"

definition settled :: "AuthorityRequest \<Rightarrow> FederationState \<Rightarrow> verdict \<Rightarrow> bool" where
  "settled r st v = (case v of Inl d \<Rightarrow> answers r st d \<and> explained d | Inr d \<Rightarrow> answers r st d)"

lemma answers_simps [simp]:
  "answers r st (remark c t d) = answers r st d"
  "answers r st (adopt_member m d) = answers r st d"
  "answers r st (note_mismatch a b mm d) = answers r st d"
  "answers r st (ad_explanation_update f d) = answers r st d"
  "answers r st (ad_effective_authority_update h d) = answers r st d"
  by (simp_all add: answers_def remark_def adopt_member_def note_mismatch_def
      split: IdentityMismatch.split)

lemma settled_simps [simp]:
  "settled r st (finish outcome evidence summary d) \<longleftrightarrow> answers r st d"
  "settled r st (Inr d) \<longleftrightarrow> answers r st d"
  by (simp_all add: settled_def finish_def explained_def answers_def)
     (simp_all add: canonicalize_explanation_def)

lemma settled_checks:
  assumes "answers r st d"
  shows "settled r st (check_federation r st d)" "settled r st (check_replay r st d)"
    "settled r st (check_epoch r st d)" "settled r st (check_scope r catalog d)"
    "settled r st (check_lifecycle m d)" "settled r st (check_identity r m d)"
    "settled r st (check_delegation r st policy m d)" "settled r st (check_lease r st policy d)"
    "settled r st (check_partition r st policy c d)" "settled r st (check_degraded r m d)"
  using assms
  by (simp_all add: check_federation_def check_replay_def check_epoch_def check_scope_def
      check_lifecycle_def check_identity_def check_delegation_def refuse_undelegated_def
      check_lease_def check_partition_def check_degraded_def Let_def case_prod_unfold
      split: option.split MemberLifecycleState.split)

lemma settled_proceed:
  "settled r st v \<Longrightarrow> (\<And>d. answers r st d \<Longrightarrow> settled r st (k d)) \<Longrightarrow> settled r st (proceed v k)"
  by (cases v) (simp_all add: proceed_def settled_def)

lemma settled_member: "answers r st d \<Longrightarrow> settled r st (evaluate_member r st policy catalog m d)"
  unfolding evaluate_member_def by (intro settled_proceed settled_checks) simp_all

lemma settled_steps: "answers r st d \<Longrightarrow> settled r st (evaluate_steps r st policy catalog d)"
  unfolding evaluate_steps_def
  by (intro settled_proceed settled_checks) (simp_all add: settled_member split: option.split)

lemma isl_finish [simp]: "isl (finish outcome evidence summary d)"
  by (simp add: finish_def)

lemma isl_proceed: "(\<And>d. isl (k d)) \<Longrightarrow> isl (proceed v k)"
  by (cases v) (simp_all add: proceed_def)

lemma isl_steps: "isl (evaluate_steps r st policy catalog d)"
  unfolding evaluate_steps_def evaluate_member_def
  by (intro isl_proceed) (auto intro!: isl_proceed split: option.split)

lemma evaluate_authority_steps:
  "evaluate_steps r st policy catalog (opening_decision H r st) =
     Inl (evaluate_authority H r st policy catalog)"
  using isl_steps [of r st policy catalog "opening_decision H r st"]
  by (auto simp: evaluate_authority_def split: sum.splits)

lemma granted_authority_iff:
  "ad_outcome (evaluate_authority H r st policy catalog) = Outcome_Granted \<longleftrightarrow>
     verdict_granted (evaluate_steps r st policy catalog (opening_decision H r st))"
  by (simp add: evaluate_authority_steps verdict_granted_def)

section \<open>Properties\<close>

text \<open>
  C16: when authority is granted. The evaluator grants a request exactly when it names this federation
  and the current epoch under a request identifier that was never decided, the catalogue knows the
  scope, and the scope is local or the acting member may exercise it: it is active or degraded, its
  presented identity is the recorded one, no conflict covers the grant, its federation authority
  covers it, a required lease is valid and bound to it, global mutation is not suspended for a
  global scope, and a degraded member asks for no mutating or administering verb.
\<close>

theorem granted_iff:
  "ad_outcome (evaluate_authority H r st policy catalog) = Outcome_Granted \<longleftrightarrow>
     rq_federation r = fs_federation st \<and> \<not> has_replay st (rq_id r) \<and>
     rq_epoch_seen r = fs_epoch st \<and> snd (classify catalog (sg_scope (rq_requested r))) \<and>
     (fst (classify catalog (sg_scope (rq_requested r))) = Class_Local \<or>
      (\<exists>m. find_member st (mi_member (rq_actor r)) = Some m \<and>
        member_may_exercise r st policy (fst (classify catalog (sg_scope (rq_requested r)))) m))"
  unfolding granted_authority_iff by (rule granted_steps)

text \<open>
  Every evaluation ends in a decision that answers its request and is explained: it repeats the
  request's identifier, federation, epoch, grant and actor, carries the state's epoch and tick, and
  its explanation is canonical and names the same outcome.
\<close>

theorem evaluation_answers_and_explains:
  "answers r st (evaluate_authority H r st policy catalog) \<and>
   explained (evaluate_authority H r st policy catalog)"
proof -
  have "answers r st (opening_decision H r st)" by (simp add: answers_def opening_decision_def)
  from settled_steps [OF this, of policy catalog] show ?thesis
    by (simp add: evaluate_authority_steps settled_def)
qed

text \<open>
  A grant delegated for other verbs only is reported as never delegated. When no term of the
  member has the requested verb, the refusal says that the grant was never delegated, even though
  other terms cover the requested scope; the reason \<open>SCOPE_VERB_NOT_DELEGATED\<close>, which the code words for
  this very case, is not reachable here.
\<close>

theorem other_verb_reported_as_never_delegated:
  assumes "\<forall>t \<in> set (mb_delegated_terms m). sg_verb (dt_grant t) \<noteq> sg_verb (rq_requested r)"
    and "mb_withdrawn_grants m = []" "\<not> scope_delegation_forbidden policy (sg_scope (rq_requested r))"
    and "rq_requested r \<notin> set (mb_withheld_global_mutation m)"
    and "rq_requested r \<notin> set (mb_withheld_grants m)"
  shows "refuse_undelegated r st policy m d = finish Outcome_Refused Evidence_Known
    ''the member never delegated this grant to the federation''
    (remark Reason_ScopeNotDelegated (''the member never delegated '' @
       grant_to_string (rq_requested r) @ ''; the authority remains local to the member'') d)"
proof -
  have "\<not> (\<exists>t \<in> set (mb_delegated_terms m). sg_verb (dt_grant t) = sg_verb (rq_requested r) \<and>
      covers (sg_scope (dt_grant t)) (sg_scope (rq_requested r)))"
    using assms(1) by auto
  then show ?thesis using assms(2-5) unfolding refuse_undelegated_def Let_def by auto
qed

section \<open>Witnesses\<close>

definition sample_state :: FederationState where
  "sample_state =
     initial_state \<lparr>di_federation = 1, di_coordinator = 8, di_coordinator_incarnation = 1,
        di_logical_time = 5, di_policy = None, di_catalog = None, di_artifacts = [],
        di_observations = [], di_leases = [], di_replay_ledger = [], di_recovery = []\<rparr>
        \<lparr>pp_accepted = [], pp_rejected = [], pp_duplicates = 0, pp_conflicts = []\<rparr>"

definition sample_member_state :: MemberState where
  "sample_member_state = member_state_of toy_hash sample_state True 3
     \<lparr>dv_lifecycle = Lifecycle_Active,
      dv_facts = empty_facts\<lparr>mf_delegated_terms := [sample_term ''federation.epoch.advance'']\<rparr>,
      dv_retained_local_authority = []\<rparr>"

definition sample_request :: AuthorityRequest where
  "sample_request =
     \<lparr>rq_id = 1, rq_federation = 1, rq_epoch_seen = 1, rq_actor = empty_identity,
      rq_requested = \<lparr>sg_scope = ''federation.epoch.advance'', sg_verb = Verb_Observe\<rparr>,
      rq_lease = 0, rq_issued_at = 1, rq_constraint = []\<rparr>"

theorem other_verb_reported_as_never_delegated_witness:
  "\<exists>d. refuse_undelegated sample_request sample_state empty_policy sample_member_state empty_decision =
     Inl d \<and> ad_outcome d = Outcome_Refused"
proof -
  have terms: "mb_delegated_terms sample_member_state = [sample_term ''federation.epoch.advance'']"
    "mb_withdrawn_grants sample_member_state = []" "mb_withheld_grants sample_member_state = []"
    "mb_withheld_global_mutation sample_member_state = []"
    by (simp_all add: sample_member_state_def member_state_of_def empty_facts_def)
  have "\<not> scope_delegation_forbidden empty_policy (sg_scope (rq_requested sample_request))"
    by code_simp
  then show ?thesis
    by (subst other_verb_reported_as_never_delegated)
      (simp_all add: terms sample_request_def sample_term_def finish_def)
qed

end
