(* ===== verification/Files.thy ===== *)
theory Files
  imports Codec
begin

text \<open>
  The file operations the journal needs (\<^verbatim>\<open>FileOps\<close> in \<^verbatim>\<open>journal.cpp\<close>, the POSIX branch). The
  directory holds the journal and its temporary sibling. A disk carries, besides the contents, the
  fate of the operating system calls to come: each operation consumes one event, and an operation
  that meets \<open>Io_Fault k\<close> fails with the error text of the code. A write that fails may have written
  a part: its first \<open>k\<close> bytes reach the file. When the list of events is exhausted, every further
  call succeeds.

  Offsets and sizes are natural numbers; a loop over \<^verbatim>\<open>pread\<close> or \<^verbatim>\<open>pwrite\<close> is one event. The effect
  of a successful system call on the bytes is that of POSIX: a write past the end fills the gap with
  zeros, a truncation to a larger size too, and \<^verbatim>\<open>rename\<close> replaces its target.
\<close>

datatype FileName = Journal_File | Temporary_File

datatype IoEvent = Io_Done | Io_Fault nat

record disk =
  dk_files :: "FileName \<Rightarrow> bytes option"
  dk_events :: "IoEvent list"

record FileHandle =
  fh_file :: FileName
  fh_read_only :: bool

type_synonym 'a io = "(string + 'a) \<times> disk"

definition next_event :: "disk \<Rightarrow> IoEvent \<times> disk" where
  "next_event d =
     (case dk_events d of [] \<Rightarrow> (Io_Done, d) | e # es \<Rightarrow> (e, d\<lparr>dk_events := es\<rparr>))"

definition contents :: "FileName \<Rightarrow> disk \<Rightarrow> bytes" where
  "contents f d = (case dk_files d f of None \<Rightarrow> [] | Some bs \<Rightarrow> bs)"

definition set_contents :: "FileName \<Rightarrow> bytes \<Rightarrow> disk \<Rightarrow> disk" where
  "set_contents f bs d = d\<lparr>dk_files := (dk_files d)(f \<mapsto> bs)\<rparr>"

text \<open>The pattern \<^verbatim>\<open>if (!FileOps::op(...)) { ... } ...\<close>.\<close>

definition io_case :: "'a io \<Rightarrow> (string \<Rightarrow> disk \<Rightarrow> 'b) \<Rightarrow> ('a \<Rightarrow> disk \<Rightarrow> 'b) \<Rightarrow> 'b" where
  "io_case r failed finished =
     (case r of (Inl e, d) \<Rightarrow> failed e d | (Inr v, d) \<Rightarrow> finished v d)"

definition splice :: "nat \<Rightarrow> bytes \<Rightarrow> bytes \<Rightarrow> bytes" where
  "splice off data bs =
     take off bs @ replicate (off - length bs) 0 @ data @ drop (off + length data) bs"

definition file_open :: "FileName \<Rightarrow> bool \<Rightarrow> bool \<Rightarrow> bool \<Rightarrow> disk \<Rightarrow> FileHandle io" where
  "file_open f read_only create truncate_existing d =
     (case next_event d of
        (Io_Fault k, d') \<Rightarrow> (Inl ''open failed'', d')
      | (Io_Done, d') \<Rightarrow>
          let h = \<lparr>fh_file = f, fh_read_only = read_only\<rparr> in
          if truncate_existing then (Inr h, set_contents f [] d')
          else if dk_files d' f \<noteq> None then (Inr h, d')
          else if create then (Inr h, set_contents f [] d')
          else (Inl ''open failed'', d'))"

definition file_size_of :: "FileHandle \<Rightarrow> disk \<Rightarrow> nat io" where
  "file_size_of h d =
     (case next_event d of
        (Io_Fault k, d') \<Rightarrow> (Inl ''fstat failed'', d')
      | (Io_Done, d') \<Rightarrow> (Inr (length (contents (fh_file h) d')), d'))"

definition file_read_at :: "FileHandle \<Rightarrow> nat \<Rightarrow> nat \<Rightarrow> disk \<Rightarrow> bytes io" where
  "file_read_at h off n d =
     (case next_event d of
        (Io_Fault k, d') \<Rightarrow> (Inl ''read failed'', d')
      | (Io_Done, d') \<Rightarrow>
          let bs = contents (fh_file h) d' in
          if off + n > length bs then (Inl ''unexpected end of file'', d')
          else (Inr (take n (drop off bs)), d'))"

definition file_write_at :: "FileHandle \<Rightarrow> nat \<Rightarrow> bytes \<Rightarrow> disk \<Rightarrow> unit io" where
  "file_write_at h off data d =
     (if fh_read_only h then (Inl ''write failed'', snd (next_event d))
      else case next_event d of
        (Io_Fault k, d') \<Rightarrow>
          (Inl ''write failed'',
           set_contents (fh_file h) (splice off (take k data) (contents (fh_file h) d')) d')
      | (Io_Done, d') \<Rightarrow>
          (Inr (), set_contents (fh_file h) (splice off data (contents (fh_file h) d')) d'))"

definition file_flush :: "FileHandle \<Rightarrow> disk \<Rightarrow> unit io" where
  "file_flush h d =
     (case next_event d of
        (Io_Fault k, d') \<Rightarrow> (Inl ''fsync failed'', d')
      | (Io_Done, d') \<Rightarrow> (Inr (), d'))"

definition file_truncate :: "FileHandle \<Rightarrow> nat \<Rightarrow> disk \<Rightarrow> unit io" where
  "file_truncate h n d =
     (if fh_read_only h then (Inl ''truncate failed'', snd (next_event d))
      else case next_event d of
        (Io_Fault k, d') \<Rightarrow> (Inl ''truncate failed'', d')
      | (Io_Done, d') \<Rightarrow>
          (Inr (), set_contents (fh_file h)
             (let bs = contents (fh_file h) d' in take n bs @ replicate (n - length bs) 0) d'))"

definition replace_file :: "FileName \<Rightarrow> FileName \<Rightarrow> disk \<Rightarrow> unit io" where
  "replace_file source target d =
     (case next_event d of
        (Io_Fault k, d') \<Rightarrow> (Inl ''rename failed'', d')
      | (Io_Done, d') \<Rightarrow>
          (case dk_files d' source of
             None \<Rightarrow> (Inl ''rename failed'', d')
           | Some bs \<Rightarrow>
               (Inr (), d'\<lparr>dk_files := (dk_files d')(target \<mapsto> bs, source := None)\<rparr>)))"

definition remove_file :: "FileName \<Rightarrow> disk \<Rightarrow> disk" where
  "remove_file f d = d\<lparr>dk_files := (dk_files d)(f := None)\<rparr>"

section \<open>A quiet disk\<close>

text \<open>On a disk with no event left, every operation has its intended effect.\<close>

named_theorems quiet_simps \<open>file operations on a disk with no pending event\<close>

definition quiet :: "disk \<Rightarrow> bool" where
  "quiet d \<longleftrightarrow> dk_events d = []"

lemma next_event_quiet [quiet_simps]: "quiet d \<Longrightarrow> next_event d = (Io_Done, d)"
  by (simp add: quiet_def next_event_def)

lemma quiet_set_contents [simp]: "quiet (set_contents f bs d) = quiet d"
  by (simp add: quiet_def set_contents_def)

lemma contents_set_contents [simp]:
  "contents f (set_contents g bs d) = (if f = g then bs else contents f d)"
  by (simp add: contents_def set_contents_def)

lemma dk_files_set_contents [simp]:
  "dk_files (set_contents f bs d) = (dk_files d)(f \<mapsto> bs)"
  by (simp add: set_contents_def)

lemma set_contents_twice [simp]: "set_contents f bs (set_contents f cs d) = set_contents f bs d"
  by (simp add: set_contents_def)

lemma set_contents_id: "dk_files d f = Some bs \<Longrightarrow> set_contents f bs d = d"
  by (simp add: set_contents_def map_upd_triv)

lemma contents_Some: "dk_files d f = Some bs \<Longrightarrow> contents f d = bs"
  by (simp add: contents_def)

lemma file_size_quiet [quiet_simps]:
  "quiet d \<Longrightarrow> file_size_of h d = (Inr (length (contents (fh_file h) d)), d)"
  by (simp add: file_size_of_def quiet_simps)

lemma file_read_quiet [quiet_simps]:
  "quiet d \<Longrightarrow> off + n \<le> length (contents (fh_file h) d) \<Longrightarrow>
   file_read_at h off n d = (Inr (take n (drop off (contents (fh_file h) d))), d)"
  by (simp add: file_read_at_def quiet_simps)

lemma file_write_quiet [quiet_simps]:
  "quiet d \<Longrightarrow> \<not> fh_read_only h \<Longrightarrow>
   file_write_at h off data d =
     (Inr (), set_contents (fh_file h) (splice off data (contents (fh_file h) d)) d)"
  by (simp add: file_write_at_def quiet_simps)

lemma file_flush_quiet [quiet_simps]: "quiet d \<Longrightarrow> file_flush h d = (Inr (), d)"
  by (simp add: file_flush_def quiet_simps)

lemma file_truncate_quiet [quiet_simps]:
  "quiet d \<Longrightarrow> \<not> fh_read_only h \<Longrightarrow> n \<le> length (contents (fh_file h) d) \<Longrightarrow>
   file_truncate h n d = (Inr (), set_contents (fh_file h) (take n (contents (fh_file h) d)) d)"
  by (simp add: file_truncate_def quiet_simps)

lemma file_open_quiet [quiet_simps]:
  "quiet d \<Longrightarrow> file_open f ro create False d =
     (if dk_files d f \<noteq> None then (Inr \<lparr>fh_file = f, fh_read_only = ro\<rparr>, d)
      else if create then (Inr \<lparr>fh_file = f, fh_read_only = ro\<rparr>, set_contents f [] d)
      else (Inl ''open failed'', d))"
  "quiet d \<Longrightarrow> file_open f ro create True d =
     (Inr \<lparr>fh_file = f, fh_read_only = ro\<rparr>, set_contents f [] d)"
  by (auto simp: file_open_def quiet_simps)

lemma io_case_simps [simp]:
  "io_case (Inl e, d) f g = f e d"
  "io_case (Inr v, d) f g = g v d"
  by (simp_all add: io_case_def)

lemma splice_at_end [simp]: "splice (length bs) data bs = bs @ data"
  by (simp add: splice_def)

lemma take_splice: "off \<le> length bs \<Longrightarrow> take off (splice off data bs) = take off bs"
  by (simp add: splice_def)

lemma length_splice: "length (splice off data bs) = max (length bs) (off + length data)"
  by (simp add: splice_def)

text \<open>A read changes nothing but the events, and never the disk's files.\<close>

lemma next_event_files [simp]: "next_event d = (e, d') \<Longrightarrow> dk_files d' = dk_files d"
  by (auto simp: next_event_def split: list.splits)

lemma file_read_files: "file_read_at h off n d = (r, d') \<Longrightarrow> dk_files d' = dk_files d"
  by (auto simp: file_read_at_def Let_def split: prod.splits IoEvent.splits if_splits)

lemma file_read_Inr:
  "file_read_at h off n d = (Inr bs, d') \<Longrightarrow>
     off + n \<le> length (contents (fh_file h) d) \<and> bs = take n (drop off (contents (fh_file h) d))"
  by (auto simp: file_read_at_def Let_def contents_def split: prod.splits IoEvent.splits if_splits)

end
