(* ===== verification/Journal.thy ===== *)
theory Journal
  imports Files State
begin

text \<open>
  The journal (\<^verbatim>\<open>journal.hpp\<close>, \<^verbatim>\<open>journal.cpp\<close>): a versioned, digest-protected, bounded, append-only
  file. A definition per operation, over the disk of \<^verbatim>\<open>Files.thy\<close>; \<open>H\<close> is the digest function
  (SHA-256 in the program). The laws of the journal are in \<^verbatim>\<open>Journal_Laws.thy\<close>.

  The handle is \<open>None\<close> once released. The 16-bit fields of a record are copied in the byte order of
  the machine, little-endian here.
\<close>

section \<open>Records\<close>

definition kMaxArtifacts :: nat where [ff_bounds]: "kMaxArtifacts = 65536"
definition kMaxJournalBytes :: u64 where "kMaxJournalBytes = 2147483648"
definition kMagic :: string where "kMagic = ''FFEDJRNL''"
definition kRecordTrailerMagicValue :: u32 where "kRecordTrailerMagicValue = 0x4a4e4452"
definition kRecordVersion :: u16 where "kRecordVersion = 1"
definition kJournalFormatVersion :: u32 where "kJournalFormatVersion = 1"
definition kJournalHeaderBytes :: nat where "kJournalHeaderBytes = 16 + 32"
definition kJournalRecordHeaderBytes :: nat where "kJournalRecordHeaderBytes = 4 + 2 + 2 + 8"

text \<open>
  The scoped enumeration has a fixed underlying type, so an object of it can hold any 16-bit value;
  \<open>Journal_Unlisted\<close> are the values that name no enumerator.
\<close>

datatype JournalRecordType =
    Journal_FederationIdentity | Journal_FederationGenesis | Journal_Policy | Journal_Artifact
  | Journal_Lease | Journal_LeaseRevocation | Journal_RequestDecision
  | Journal_PartitionObservation | Journal_TickHighWater | Journal_CoordinatorIncarnation
  | Journal_EpochState | Journal_Unlisted u16

definition journal_types :: "JournalRecordType list" where
  "journal_types =
     [Journal_FederationIdentity, Journal_FederationGenesis, Journal_Policy, Journal_Artifact,
      Journal_Lease, Journal_LeaseRevocation, Journal_RequestDecision,
      Journal_PartitionObservation, Journal_TickHighWater, Journal_CoordinatorIncarnation,
      Journal_EpochState]"

definition journal_type_wire :: "JournalRecordType \<Rightarrow> u16" where
  "journal_type_wire t = (case t of
     Journal_FederationIdentity \<Rightarrow> 1 | Journal_FederationGenesis \<Rightarrow> 2 | Journal_Policy \<Rightarrow> 3
   | Journal_Artifact \<Rightarrow> 4 | Journal_Lease \<Rightarrow> 5 | Journal_LeaseRevocation \<Rightarrow> 6
   | Journal_RequestDecision \<Rightarrow> 7 | Journal_PartitionObservation \<Rightarrow> 8
   | Journal_TickHighWater \<Rightarrow> 9 | Journal_CoordinatorIncarnation \<Rightarrow> 10
   | Journal_EpochState \<Rightarrow> 11 | Journal_Unlisted v \<Rightarrow> v)"

definition journal_type_of_wire :: "u16 \<Rightarrow> JournalRecordType" where
  "journal_type_of_wire v =
     (if 1 \<le> v \<and> v \<le> 11 then journal_types ! (unat v - 1) else Journal_Unlisted v)"

definition journal_type_to_string :: "JournalRecordType \<Rightarrow> string" where
  "journal_type_to_string t = (case t of
     Journal_FederationIdentity \<Rightarrow> ''federation-identity''
   | Journal_FederationGenesis \<Rightarrow> ''federation-genesis'' | Journal_Policy \<Rightarrow> ''policy''
   | Journal_Artifact \<Rightarrow> ''artifact'' | Journal_Lease \<Rightarrow> ''lease''
   | Journal_LeaseRevocation \<Rightarrow> ''lease-revocation''
   | Journal_RequestDecision \<Rightarrow> ''request-decision''
   | Journal_PartitionObservation \<Rightarrow> ''partition-observation''
   | Journal_TickHighWater \<Rightarrow> ''tick-high-water''
   | Journal_CoordinatorIncarnation \<Rightarrow> ''coordinator-incarnation''
   | Journal_EpochState \<Rightarrow> ''epoch-state'' | Journal_Unlisted v \<Rightarrow> ''unknown'')"

definition parse_journal_record_type :: "string \<Rightarrow> JournalRecordType option" where
  "parse_journal_record_type str =
     List.find (\<lambda>t. journal_type_to_string t = str) (map journal_type_of_wire [1, 2, 3, 4, 5, 6, 7,
       8, 9, 10, 11])"

definition recovery_outcome_to_string :: "RecoveryOutcome \<Rightarrow> string" where
  "recovery_outcome_to_string r = (case r of
     Recovery_Clean \<Rightarrow> ''CLEAN'' | Recovery_TornTailRecovered \<Rightarrow> ''TORN_TAIL_RECOVERED''
   | Recovery_CorruptRecord \<Rightarrow> ''CORRUPT_RECORD''
   | Recovery_UnsupportedRecord \<Rightarrow> ''UNSUPPORTED_RECORD''
   | Recovery_InvalidHeader \<Rightarrow> ''INVALID_HEADER'' | Recovery_Empty \<Rightarrow> ''EMPTY''
   | Recovery_BoundsExceeded \<Rightarrow> ''BOUNDS_EXCEEDED'')"

datatype JournalOpenMode = Open_ReadOnlyExisting | Open_OpenOrCreateReadWrite | Open_CreateTruncating

record JournalRecovery =
  jv_outcome :: RecoveryOutcome
  jv_good_bytes :: nat
  jv_file_bytes :: nat
  jv_record_count :: nat
  jv_writable :: bool
  jv_detail :: string
  jv_diagnostics :: "RecoveryDiagnostic list"

definition fresh_recovery :: JournalRecovery where
  "fresh_recovery =
     \<lparr>jv_outcome = Recovery_Empty, jv_good_bytes = 0, jv_file_bytes = 0, jv_record_count = 0,
      jv_writable = True, jv_detail = [], jv_diagnostics = []\<rparr>"

record JournalOptions =
  jo_max_bytes :: u64
  jo_max_records :: nat
  jo_max_payload_bytes :: u32
  jo_truncate_torn_tail :: bool

definition default_journal_options :: JournalOptions where
  "default_journal_options =
     \<lparr>jo_max_bytes = kMaxJournalBytes, jo_max_records = kMaxArtifacts * 4,
      jo_max_payload_bytes = word_of_nat kMaxJournalRecordBytes, jo_truncate_torn_tail = True\<rparr>"

record JournalRecord =
  jr_type :: JournalRecordType
  jr_sequence :: u64
  jr_payload :: bytes

definition payload_digest :: "(bytes \<Rightarrow> Digest) \<Rightarrow> JournalRecord \<Rightarrow> Digest" where
  "payload_digest H r = H (jr_payload r)"

record Journal =
  jl_handle :: "FileHandle option"
  jl_options :: JournalOptions
  jl_recovery :: JournalRecovery
  jl_size_bytes :: nat
  jl_next_sequence :: u64

definition jl_writable :: "Journal \<Rightarrow> bool" where
  "jl_writable j \<longleftrightarrow> jl_handle j \<noteq> None \<and> jv_writable (jl_recovery j)"

definition jl_is_open :: "Journal \<Rightarrow> bool" where
  "jl_is_open j \<longleftrightarrow> jl_handle j \<noteq> None"

definition journal_release :: "Journal \<Rightarrow> Journal" where
  "journal_release j = j\<lparr>jl_handle := None\<rparr>"

section \<open>Frames\<close>

definition header_front :: bytes where
  "header_front =
     map byte_of_char kMagic @ store_u32_le kJournalFormatVersion @ store_u32_le 0"

definition make_header_bytes :: "(bytes \<Rightarrow> Digest) \<Rightarrow> bytes" where
  "make_header_bytes H = header_front @ digest_bytes (H header_front)"

definition record_front :: "JournalRecord \<Rightarrow> bytes" where
  "record_front r =
     store_u32_le (word_of_nat (length (jr_payload r))) @
     le_bytes 2 (journal_type_wire (jr_type r)) @ le_bytes 2 kRecordVersion @
     store_u64_le (jr_sequence r) @ jr_payload r"

definition make_record_bytes :: "(bytes \<Rightarrow> Digest) \<Rightarrow> JournalRecord \<Rightarrow> bytes" where
  "make_record_bytes H r =
     record_front r @ digest_bytes (H (record_front r)) @ store_u32_le kRecordTrailerMagicValue"

section \<open>The record scan\<close>

record ScanState =
  ss_offset :: nat
  ss_records :: nat
  ss_previous :: u64
  ss_outcome :: RecoveryOutcome
  ss_writable :: bool
  ss_good_bytes :: nat
  ss_detail :: string
  ss_diagnostics :: "RecoveryDiagnostic list"

definition scan_start :: "bool \<Rightarrow> ScanState" where
  "scan_start read_only =
     \<lparr>ss_offset = kJournalHeaderBytes, ss_records = 0, ss_previous = 0,
      ss_outcome = Recovery_Empty, ss_writable = \<not> read_only,
      ss_good_bytes = kJournalHeaderBytes, ss_detail = ''no records'', ss_diagnostics = []\<rparr>"

text \<open>The blocks that end the loop: outcome, detail and one diagnostic at the current offset.\<close>

definition scan_stop :: "RecoveryOutcome \<Rightarrow> bool \<Rightarrow> string \<Rightarrow> ScanState \<Rightarrow> ScanState" where
  "scan_stop outcome keep_writable detail st =
     st\<lparr>ss_outcome := outcome, ss_writable := (ss_writable st \<and> keep_writable),
        ss_detail := detail,
        ss_diagnostics := ss_diagnostics st @
          [\<lparr>rd_outcome = outcome, rd_offset = word_of_nat (ss_offset st), rd_detail = detail\<rparr>]\<rparr>"

definition torn_tail :: "string \<Rightarrow> ScanState \<Rightarrow> ScanState" where
  "torn_tail detail st = scan_stop Recovery_TornTailRecovered True detail st"

definition refuse_record :: "RecoveryOutcome \<Rightarrow> string \<Rightarrow> ScanState \<Rightarrow> ScanState" where
  "refuse_record outcome detail st = scan_stop outcome False detail st"

text \<open>The checks on the bytes of one complete record; \<open>True\<close>: the scan goes on.\<close>

definition verify_record ::
  "(bytes \<Rightarrow> Digest) \<Rightarrow> bytes \<Rightarrow> nat \<Rightarrow> ScanState \<Rightarrow> ScanState \<times> bool" where
  "verify_record H bs payload_length st =
     (let digest_offset = kJournalRecordHeaderBytes + payload_length;
          trailer = load_u32_le (drop (digest_offset + 32) bs);
          stored = from_be (take 32 (drop digest_offset bs));
          computed = H (take digest_offset bs);
          type_value = from_le (take 2 (drop 4 bs)) :: u16;
          record_version = from_le (take 2 (drop 6 bs)) :: u16;
          sequence = load_u64_le (drop 8 bs) in
      if trailer \<noteq> kRecordTrailerMagicValue then
        (refuse_record Recovery_CorruptRecord ''record trailer magic does not match'' st, False)
      else if stored \<noteq> computed then
        (refuse_record Recovery_CorruptRecord ''record digest does not match its content'' st, False)
      else if type_value < 1 \<or> type_value > 11 then
        (refuse_record Recovery_UnsupportedRecord
           ''record type is not implemented by this build'' st, False)
      else if record_version > kRecordVersion then
        (refuse_record Recovery_UnsupportedRecord
           (''record version '' @ word_to_string record_version @
            '' is newer than this build implements'') st, False)
      else if ss_records st \<noteq> 0 \<and> sequence \<le> ss_previous st then
        (refuse_record Recovery_CorruptRecord
           ''record sequence is not strictly increasing'' st, False)
      else
        (st\<lparr>ss_previous := sequence, ss_records := Suc (ss_records st),
            ss_offset := ss_offset st + (kJournalRecordHeaderBytes + payload_length + 32 + 4),
            ss_good_bytes := ss_offset st + (kJournalRecordHeaderBytes + payload_length + 32 + 4),
            ss_outcome := Recovery_Clean, ss_detail := ''all records verified''\<rparr>, True))"

definition scan_record ::
  "(bytes \<Rightarrow> Digest) \<Rightarrow> JournalOptions \<Rightarrow> FileHandle \<Rightarrow> nat \<Rightarrow> ScanState \<Rightarrow> disk \<Rightarrow>
   (ScanState \<times> bool) result \<times> disk" where
  "scan_record H options h file_size st d =
     (if ss_records st \<ge> jo_max_records options then
        (Inr (refuse_record Recovery_BoundsExceeded
                ''journal holds more records than the configured bound'' st, False), d)
      else if file_size - ss_offset st < kJournalRecordHeaderBytes then
        (Inr (torn_tail ''trailing bytes are shorter than a record header'' st, False), d)
      else io_case (file_read_at h (ss_offset st) kJournalRecordHeaderBytes d)
        (\<lambda>e d. (Fail Error_IoError (''journal record header cannot be read: '' @ e), d))
        (\<lambda>header_bytes d.
           let payload_length = load_u32_le header_bytes in
           if payload_length > jo_max_payload_bytes options then
             (Inr (refuse_record Recovery_BoundsExceeded
                     ''record declares a payload larger than the configured bound'' st, False), d)
           else
             let total_bytes = unat payload_length + kJournalRecordHeaderBytes + 32 + 4 in
             if file_size - ss_offset st < total_bytes then
               (Inr (torn_tail ''final record is incomplete'' st, False), d)
             else io_case (file_read_at h (ss_offset st) total_bytes d)
               (\<lambda>e d. (Fail Error_IoError (''journal record cannot be read: '' @ e), d))
               (\<lambda>record_bytes d.
                  (Inr (verify_record H record_bytes (unat payload_length) st), d))))"

lemma verify_record_advances:
  "verify_record H bs n st = (st', True) \<Longrightarrow>
     ss_offset st' = ss_offset st + (kJournalRecordHeaderBytes + n + 32 + 4)"
  by (auto simp: verify_record_def Let_def split: if_splits)

lemma scan_record_advances:
  "scan_record H options h file_size st d = (Inr (st', True), d') \<Longrightarrow> ss_offset st < ss_offset st'"
  by (auto simp: scan_record_def io_case_def Let_def kJournalRecordHeaderBytes_def
      dest!: verify_record_advances split: if_splits prod.splits sum.splits)

function scan_loop ::
  "(bytes \<Rightarrow> Digest) \<Rightarrow> JournalOptions \<Rightarrow> FileHandle \<Rightarrow> nat \<Rightarrow> ScanState \<Rightarrow> disk \<Rightarrow>
   ScanState result \<times> disk" where
  "scan_loop H options h file_size st d =
     (if ss_offset st < file_size then
        (case scan_record H options h file_size st d of
           (Inl s, d') \<Rightarrow> (Inl s, d')
         | (Inr (st', continue), d') \<Rightarrow>
             if continue then scan_loop H options h file_size st' d' else (Inr st', d'))
      else (Inr st, d))"
  by pat_completeness auto
termination
  by (relation "measure (\<lambda>(H, options, h, file_size, st, d). file_size - ss_offset st)")
    (auto simp: diff_less_mono2 dest!: sym [of _ "scan_record _ _ _ _ _ _"]
      dest: scan_record_advances)

declare scan_loop.simps [simp del]

section \<open>Opening\<close>

definition journal_fresh :: "FileHandle \<Rightarrow> JournalOptions \<Rightarrow> nat \<Rightarrow> Journal" where
  "journal_fresh h options file_size =
     \<lparr>jl_handle = Some h, jl_options = options,
      jl_recovery = fresh_recovery
        \<lparr>jv_outcome := Recovery_Empty, jv_good_bytes := kJournalHeaderBytes,
         jv_file_bytes := file_size, jv_writable := \<not> fh_read_only h,
         jv_detail := ''fresh journal''\<rparr>,
      jl_size_bytes = kJournalHeaderBytes, jl_next_sequence = 1\<rparr>"

text \<open>The journals that are returned before the scan: nothing of the file is interpreted.\<close>

definition journal_unreadable ::
  "FileHandle \<Rightarrow> JournalOptions \<Rightarrow> nat \<Rightarrow> RecoveryOutcome \<Rightarrow> u64 \<Rightarrow> string \<Rightarrow> Journal" where
  "journal_unreadable h options file_size outcome offset detail =
     \<lparr>jl_handle = Some h, jl_options = options,
      jl_recovery = fresh_recovery
        \<lparr>jv_outcome := outcome, jv_file_bytes := file_size, jv_writable := False,
         jv_detail := detail,
         jv_diagnostics := [\<lparr>rd_outcome = outcome, rd_offset = offset, rd_detail = detail\<rparr>]\<rparr>,
      jl_size_bytes = 0, jl_next_sequence = 1\<rparr>"

definition open_fresh ::
  "(bytes \<Rightarrow> Digest) \<Rightarrow> FileHandle \<Rightarrow> JournalOptions \<Rightarrow> nat \<Rightarrow> disk \<Rightarrow> Journal result \<times> disk" where
  "open_fresh H h options file_size d =
     (let failed = (\<lambda>e d. (Fail Error_IoError (''journal header cannot be written: '' @ e), d)) in
      io_case (file_truncate h 0 d) failed (\<lambda>_ d.
      io_case (file_write_at h 0 (make_header_bytes H) d) failed (\<lambda>_ d.
      io_case (file_flush h d) failed (\<lambda>_ d. (Inr (journal_fresh h options file_size), d)))))"

definition header_ok :: "(bytes \<Rightarrow> Digest) \<Rightarrow> bytes \<Rightarrow> bool" where
  "header_ok H header \<longleftrightarrow>
     take 8 header = map byte_of_char kMagic \<and>
     from_be (take 32 (drop 16 header)) = H (take 16 header)"

text \<open>The end of \<^verbatim>\<open>open\<close>: the result of the scan is recorded and a torn tail is cut off.\<close>

definition finish_open ::
  "FileHandle \<Rightarrow> JournalOptions \<Rightarrow> nat \<Rightarrow> ScanState \<Rightarrow> disk \<Rightarrow> Journal result \<times> disk" where
  "finish_open h options file_size st d =
     (let recovery =
            \<lparr>jv_outcome = ss_outcome st, jv_good_bytes = ss_good_bytes st,
             jv_file_bytes = file_size, jv_record_count = ss_records st,
             jv_writable = ss_writable st, jv_detail = ss_detail st,
             jv_diagnostics = ss_diagnostics st\<rparr>;
          j = \<lparr>jl_handle = Some h, jl_options = options, jl_recovery = recovery,
               jl_size_bytes = file_size, jl_next_sequence = ss_previous st + 1\<rparr>;
          failed = (\<lambda>e d.
            (Inr (j\<lparr>jl_recovery := recovery
               \<lparr>jv_writable := False,
                jv_detail := ss_detail st @ ''; the tail could not be discarded: '' @ e\<rparr>\<rparr>), d))
      in
      if ss_outcome st = Recovery_TornTailRecovered \<and> ss_writable st \<and>
         jo_truncate_torn_tail options then
        io_case (file_truncate h (ss_good_bytes st) d) failed (\<lambda>_ d.
        io_case (file_flush h d) failed (\<lambda>_ d.
          (Inr (j\<lparr>jl_size_bytes := ss_good_bytes st,
                  jl_recovery := recovery
                    \<lparr>jv_detail := ss_detail st @ ''; the incomplete tail was discarded''\<rparr>\<rparr>), d)))
      else if ss_outcome st = Recovery_TornTailRecovered then
        (Inr (j\<lparr>jl_recovery := recovery
           \<lparr>jv_writable := False,
            jv_detail := ss_detail st @ ''; automatic truncation is disabled''\<rparr>\<rparr>), d)
      else (Inr j, d))"

definition open_existing ::
  "(bytes \<Rightarrow> Digest) \<Rightarrow> FileHandle \<Rightarrow> JournalOptions \<Rightarrow> nat \<Rightarrow> disk \<Rightarrow> Journal result \<times> disk" where
  "open_existing H h options file_size d =
     (if file_size < kJournalHeaderBytes then
        (Inr (journal_unreadable h options file_size Recovery_InvalidHeader 0
           ''file is shorter than the journal header''), d)
      else io_case (file_read_at h 0 kJournalHeaderBytes d)
        (\<lambda>e d. (Fail Error_IoError (''journal header cannot be read: '' @ e), d))
        (\<lambda>header d.
           if \<not> header_ok H header then
             (Inr (journal_unreadable h options file_size Recovery_InvalidHeader 0
                ''journal header magic or digest does not match''), d)
           else
             let format_version = load_u32_le (drop 8 header) in
             if format_version \<noteq> kJournalFormatVersion then
               (Inr (journal_unreadable h options file_size Recovery_UnsupportedRecord 8
                  (''journal format version '' @ word_to_string format_version @
                   '' is not implemented by this build'')), d)
             else
               (case scan_loop H options h file_size (scan_start (fh_read_only h)) d of
                  (Inl s, d) \<Rightarrow> (Inl s, d)
                | (Inr st, d) \<Rightarrow> finish_open h options file_size st d)))"

definition journal_open ::
  "(bytes \<Rightarrow> Digest) \<Rightarrow> JournalOpenMode \<Rightarrow> JournalOptions \<Rightarrow> disk \<Rightarrow> Journal result \<times> disk" where
  "journal_open H mode options d =
     (let read_only = (mode = Open_ReadOnlyExisting);
          truncate_existing = (mode = Open_CreateTruncating) in
      io_case (file_open Journal_File read_only (\<not> read_only) truncate_existing d)
        (\<lambda>e d. (Fail (if mode = Open_ReadOnlyExisting then Error_NotFound else Error_IoError)
                  (''journal cannot be opened: '' @ e), d))
        (\<lambda>h d.
           io_case (file_size_of h d)
             (\<lambda>e d. (Fail Error_IoError (''journal size cannot be read: '' @ e), d))
             (\<lambda>file_size d.
                if truncate_existing \<or> file_size = 0 then open_fresh H h options file_size d
                else open_existing H h options file_size d)))"

section \<open>Appending, loading, compacting\<close>

text \<open>Checked addition of 64-bit file sizes.\<close>

definition size_add :: "nat \<Rightarrow> nat \<Rightarrow> nat option" where
  "size_add a b = (if a + b < 18446744073709551616 then Some (a + b) else None)"

definition journal_append ::
  "(bytes \<Rightarrow> Digest) \<Rightarrow> JournalRecordType \<Rightarrow> bytes \<Rightarrow> Journal \<Rightarrow> disk \<Rightarrow>
   check \<times> Journal \<times> disk" where
  "journal_append H ty payload j d =
     (case jl_handle j of
        None \<Rightarrow> (Fail Error_NotInitialized ''journal is not open'', j, d)
      | Some h \<Rightarrow>
        if \<not> jv_writable (jl_recovery j) then
          (Fail Error_Refused (''journal is not writable: '' @ jv_detail (jl_recovery j)), j, d)
        else if length payload > unat (jo_max_payload_bytes (jl_options j)) then
          (Fail Error_BoundsExceeded ''record payload exceeds the configured bound'', j, d)
        else
          let stored = \<lparr>jr_type = ty, jr_sequence = jl_next_sequence j, jr_payload = payload\<rparr>;
              bs = make_record_bytes H stored;
              full = Fail Error_CapacityExceeded
                (''appending would exceed the configured journal size bound; compact the '' @
                 ''journal before writing more'') in
          case size_add (jl_size_bytes j) (length bs) of
            None \<Rightarrow> (full, j, d)
          | Some total_bytes \<Rightarrow>
            if total_bytes > unat (jo_max_bytes (jl_options j)) then (full, j, d)
            else io_case (file_write_at h (jl_size_bytes j) bs d)
              (\<lambda>e d. (Fail Error_IoError (''journal append failed: '' @ e), j, d)) (\<lambda>_ d.
            io_case (file_flush h d)
              (\<lambda>e d. (Fail Error_IoError (''journal flush failed: '' @ e), j, d)) (\<lambda>_ d.
              let j' = j\<lparr>jl_size_bytes := total_bytes\<rparr> in
              case checked_inc_u64 (jl_next_sequence j) of
                None \<Rightarrow> (Fail Error_Overflow ''journal sequence is exhausted'', j', d)
              | Some n \<Rightarrow> (success, j'\<lparr>jl_next_sequence := n\<rparr>, d))))"

definition journal_flush :: "Journal \<Rightarrow> disk \<Rightarrow> check \<times> disk" where
  "journal_flush j d =
     (case jl_handle j of
        None \<Rightarrow> (Fail Error_NotInitialized ''journal is not open'', d)
      | Some h \<Rightarrow> io_case (file_flush h d)
          (\<lambda>e d. (Fail Error_IoError (''journal flush failed: '' @ e), d)) (\<lambda>_ d. (success, d)))"

text \<open>One turn of the loop of \<^verbatim>\<open>load\<close>: the record at the offset, and its length on disk.\<close>

definition load_record ::
  "nat \<Rightarrow> FileHandle \<Rightarrow> nat \<Rightarrow> nat \<Rightarrow> disk \<Rightarrow> (JournalRecord \<times> nat) result \<times> disk" where
  "load_record max_payload_bytes h limit offset d =
     io_case (file_read_at h offset kJournalRecordHeaderBytes d)
       (\<lambda>e d. (Fail Error_IoError (''journal record header cannot be read: '' @ e), d))
       (\<lambda>header_bytes d.
          let payload_length = unat (load_u32_le header_bytes) in
          if payload_length > max_payload_bytes then
            (Fail Error_BoundsExceeded ''record payload exceeds the load bound'', d)
          else
            let total_bytes = payload_length + kJournalRecordHeaderBytes + 32 + 4 in
            if limit - offset < total_bytes then
              (Fail Error_Truncated ''journal record extends past the recovered prefix'', d)
            else io_case (file_read_at h offset total_bytes d)
              (\<lambda>e d. (Fail Error_IoError (''journal record cannot be read: '' @ e), d))
              (\<lambda>bs d.
                 (Inr (\<lparr>jr_type = journal_type_of_wire (from_le (take 2 (drop 4 bs))),
                        jr_sequence = load_u64_le (drop 8 bs),
                        jr_payload = take payload_length (drop kJournalRecordHeaderBytes bs)\<rparr>,
                       total_bytes), d)))"

lemma load_record_advances:
  "load_record m h limit offset d = (Inr (r, total_bytes), d') \<Longrightarrow> 0 < total_bytes"
  by (auto simp: load_record_def io_case_def Let_def kJournalRecordHeaderBytes_def
      split: if_splits prod.splits sum.splits)

function load_loop ::
  "nat \<Rightarrow> nat \<Rightarrow> FileHandle \<Rightarrow> nat \<Rightarrow> nat \<Rightarrow> JournalRecord list \<Rightarrow> disk \<Rightarrow>
   JournalRecord list result \<times> disk" where
  "load_loop max_records max_payload_bytes h limit offset records d =
     (if offset < limit then
        (if length records \<ge> max_records then
           (Fail Error_BoundsExceeded ''journal holds more records than the bound'', d)
         else case load_record max_payload_bytes h limit offset d of
           (Inl s, d') \<Rightarrow> (Inl s, d')
         | (Inr (r, total_bytes), d') \<Rightarrow>
             load_loop max_records max_payload_bytes h limit (offset + total_bytes) (records @ [r]) d')
      else (Inr records, d))"
  by pat_completeness auto
termination
  by (relation "measure (\<lambda>(m, n, h, limit, offset, records, d). limit - offset)")
    (auto dest!: sym [of _ "load_record _ _ _ _ _"] dest: load_record_advances)

declare load_loop.simps [simp del]

definition journal_load ::
  "nat \<Rightarrow> nat \<Rightarrow> Journal \<Rightarrow> disk \<Rightarrow> JournalRecord list result \<times> disk" where
  "journal_load max_records max_payload_bytes j d =
     (case jl_handle j of
        None \<Rightarrow> (Fail Error_NotInitialized ''journal is not open'', d)
      | Some h \<Rightarrow> load_loop max_records max_payload_bytes h (jv_good_bytes (jl_recovery j))
                    kJournalHeaderBytes [] d)"

text \<open>The loop that writes the compacted records; the result is the offset reached.\<close>

primrec compact_loop ::
  "(bytes \<Rightarrow> Digest) \<Rightarrow> u64 \<Rightarrow> FileHandle \<Rightarrow> JournalRecord list \<Rightarrow> nat \<Rightarrow> u64 \<Rightarrow> disk \<Rightarrow> nat io" where
  "compact_loop H max_bytes out [] offset sequence d = (Inr offset, d)"
| "compact_loop H max_bytes out (r # rs) offset sequence d =
     (let bs = make_record_bytes H (r\<lparr>jr_sequence := sequence\<rparr>);
          full = ''compacted journal would exceed the configured size bound'' in
      case size_add offset (length bs) of
        None \<Rightarrow> (Inl full, d)
      | Some projected \<Rightarrow>
          if projected > unat max_bytes then (Inl full, d)
          else io_case (file_write_at out offset bs d)
            (\<lambda>e d. (Inl e, d))
            (\<lambda>_ d. compact_loop H max_bytes out rs (offset + length bs) (sequence + 1) d))"

definition write_compacted ::
  "(bytes \<Rightarrow> Digest) \<Rightarrow> u64 \<Rightarrow> FileHandle \<Rightarrow> JournalRecord list \<Rightarrow> disk \<Rightarrow> unit io" where
  "write_compacted H max_bytes out records d =
     io_case (file_write_at out 0 (make_header_bytes H) d) (\<lambda>e d. (Inl e, d)) (\<lambda>_ d.
     io_case (compact_loop H max_bytes out records (length (make_header_bytes H)) 1 d)
       (\<lambda>e d. (Inl e, d)) (\<lambda>_ d.
     file_flush out d))"

definition journal_compact ::
  "(bytes \<Rightarrow> Digest) \<Rightarrow> JournalRecord list \<Rightarrow> Journal \<Rightarrow> disk \<Rightarrow> check \<times> Journal \<times> disk" where
  "journal_compact H records j d =
     (if jl_handle j = None then
        (Fail Error_NotInitialized ''journal is not open'', j, d)
      else if length records > jo_max_records (jl_options j) then
        (Fail Error_BoundsExceeded ''compacted journal would exceed the record bound'', j, d)
      else io_case (file_open Temporary_File False True True d)
        (\<lambda>e d. (Fail Error_IoError (''compaction target cannot be created: '' @ e), j, d))
        (\<lambda>out d.
           io_case (write_compacted H (jo_max_bytes (jl_options j)) out records d)
             (\<lambda>e d. (Fail Error_IoError (''journal compaction failed: '' @ e), j,
                     remove_file Temporary_File d))
             (\<lambda>_ d.
                let j' = journal_release j in
                io_case (replace_file Temporary_File Journal_File d)
                  (\<lambda>e d. (Fail Error_IoError
                            (''compacted journal cannot replace the original: '' @ e), j', d))
                  (\<lambda>_ d.
                     (case journal_open H Open_OpenOrCreateReadWrite (jl_options j) d of
                        (Inl s, d) \<Rightarrow> (Inl s, j', d)
                      | (Inr j'', d) \<Rightarrow> (success, j'', d))))))"

definition journal_close :: "Journal \<Rightarrow> disk \<Rightarrow> check \<times> Journal \<times> disk" where
  "journal_close j d =
     (case jl_handle j of
        None \<Rightarrow> (success, j, d)
      | Some h \<Rightarrow> io_case (file_flush h d)
          (\<lambda>e d. (Fail Error_IoError (''journal flush on close failed: '' @ e), journal_release j, d))
          (\<lambda>_ d. (success, journal_release j, d)))"

end
