(* ===== verification/Journal_Recovery.thy ===== *)
theory Journal_Recovery
  imports Journal_Laws
begin

text \<open>
  Compaction and recovery of the journal under arbitrary faults: a compaction leaves either the old
  or the new history, a history recovered from any file consists of digest-sealed records, and a
  write that fails half-way can make a later, successful append unreadable.
\<close>

section \<open>Reading under faults\<close>

lemma restarted_eq: "dk_files d' = dk_files d \<Longrightarrow> restarted d' = restarted d"
  by (cases d; cases d') (simp add: restarted_def)

lemma file_read_calm:
  "file_read_at h off n d = (Inr bs, d') \<Longrightarrow>
     file_read_at h off n (restarted d) = (Inr bs, restarted d)"
  using file_read_Inr [of h off n d bs d'] by (simp add: file_read_quiet)

lemma file_size_calm:
  "file_size_of h d = (Inr n, d') \<Longrightarrow> n = length (contents (fh_file h) d)"
  by (auto simp: file_size_of_def contents_def split: prod.splits IoEvent.splits)

lemma file_size_files: "file_size_of h d = (r, d') \<Longrightarrow> dk_files d' = dk_files d"
  by (auto simp: file_size_of_def split: prod.splits IoEvent.splits)

text \<open>A read that may fail, continued by code that only reads.\<close>

lemma scan_record_calm:
  assumes "scan_record H options h n st d = (r, d')"
  shows "dk_files d' = dk_files d \<and>
    (\<forall>x. r = Inr x \<longrightarrow> scan_record H options h n st (restarted d) = (Inr x, restarted d))"
proof -
  let ?k = kJournalRecordHeaderBytes
  obtain r1 d1 where one: "file_read_at h (ss_offset st) ?k d = (r1, d1)" by fastforce
  note files1 = file_read_files [OF one]
  show ?thesis
  proof (cases r1)
    case (Inl e)
    with assms one files1 show ?thesis by (auto simp: scan_record_def split: if_splits)
  next
    case (Inr b)
    let ?total = "unat (load_u32_le b) + ?k + 32 + 4"
    obtain r2 d2 where two: "file_read_at h (ss_offset st) ?total d1 = (r2, d2)" by fastforce
    note files2 = file_read_files [OF two]
    note calm1 = file_read_calm [OF one [unfolded Inr]]
    show ?thesis
    proof (cases r2)
      case (Inl e)
      with assms one two Inr files1 files2 calm1 show ?thesis
        by (auto simp: scan_record_def Let_def split: if_splits)
    next
      case (Inr b2)
      have "file_read_at h (ss_offset st) ?total (restarted d) = (Inr b2, restarted d)"
        using file_read_calm [OF two [unfolded Inr]] restarted_eq [OF files1] by simp
      with assms one two \<open>r1 = Inr b\<close> Inr files1 files2 calm1 show ?thesis
        by (auto simp: scan_record_def Let_def split: if_splits)
    qed
  qed
qed

lemma scan_loop_calm:
  "scan_loop H options h n st d = (r, d') \<Longrightarrow>
     dk_files d' = dk_files d \<and>
     (\<forall>x. r = Inr x \<longrightarrow> scan_loop H options h n st (restarted d) = (Inr x, restarted d))"
proof (induction H options h n st d arbitrary: r d' rule: scan_loop.induct)
  case (1 H options h n st d)
  show ?case
  proof (cases "ss_offset st < n")
    case False
    with 1(2) show ?thesis by (auto simp: scan_loop.simps [of H options h n st])
  next
    case True
    obtain r1 d1 where one: "scan_record H options h n st d = (r1, d1)" by fastforce
    note calm = scan_record_calm [OF one]
    show ?thesis
    proof (cases r1)
      case (Inl s)
      with 1(2) True one calm show ?thesis by (auto simp: scan_loop.simps [of H options h n st])
    next
      case (Inr p)
      obtain st' go where p: "p = (st', go)" by (cases p)
      show ?thesis
      proof (cases go)
        case False
        with 1(2) True one calm Inr p show ?thesis
          by (auto simp: scan_loop.simps [of H options h n st])
      next
        case cont: True
        with 1(2) True one Inr p have "scan_loop H options h n st' d1 = (r, d')"
          by (simp add: scan_loop.simps [of H options h n st])
        from 1(1) [OF True _ _ _ _ this] one Inr p cont
        have "dk_files d' = dk_files d1 \<and>
            (\<forall>x. r = Inr x \<longrightarrow> scan_loop H options h n st' (restarted d1) = (Inr x, restarted d1))"
          by auto
        with calm Inr p cont True restarted_eq [of d1 d] show ?thesis
          by (auto simp: scan_loop.simps [of H options h n st "restarted d"])
      qed
    qed
  qed
qed

text \<open>Opening a good history reads it, and changes nothing, whatever calls fail.\<close>

lemma open_existing_under_faults:
  assumes "dk_files d Journal_File = Some (journal_file H rs)" "good_history options rs"
    and "h = \<lparr>fh_file = Journal_File, fh_read_only = ro\<rparr>"
    and "open_existing H h options (length (journal_file H rs)) d = (r, d')"
  shows "dk_files d' = dk_files d \<and>
    (\<forall>j. r = Inr j \<longrightarrow>
       open_existing H h options (length (journal_file H rs)) (restarted d) = (Inr j, restarted d))"
proof -
  let ?n = "length (journal_file H rs)"
  have size: "\<not> ?n < kJournalHeaderBytes" by (simp add: length_journal_file)
  have ro: "fh_read_only h = ro" using assms(3) by simp
  obtain r1 d1 where one: "file_read_at h 0 kJournalHeaderBytes d = (r1, d1)" by fastforce
  note files1 = file_read_files [OF one]
  show ?thesis
  proof (cases r1)
    case (Inl e)
    with assms(4) one size files1 show ?thesis by (auto simp: open_existing_def)
  next
    case (Inr b)
    have b: "b = make_header_bytes H"
      using file_read_Inr [OF one [unfolded Inr]] assms(1,3)
      by (simp add: contents_def journal_file_def)
    obtain r2 d2 where two: "scan_loop H options h ?n (scan_start ro) d1 = (r2, d2)" by fastforce
    note calm = scan_loop_calm [OF two]
    have scan: "open_existing H h options ?n d = (case scan_loop H options h ?n (scan_start ro) d1 of
        (Inl s, d) \<Rightarrow> (Inl s, d) | (Inr st, d) \<Rightarrow> finish_open h options ?n st d)"
      using size one Inr b
      by (simp add: open_existing_def header_fields kJournalFormatVersion_def ro)
    have scan': "open_existing H h options ?n (restarted d) =
      (case scan_loop H options h ?n (scan_start ro) (restarted d) of
        (Inl s, d) \<Rightarrow> (Inl s, d) | (Inr st, d) \<Rightarrow> finish_open h options ?n st d)"
      using size file_read_calm [OF one [unfolded Inr]] b
      by (simp add: open_existing_def header_fields kJournalFormatVersion_def ro)
    show ?thesis
    proof (cases r2)
      case (Inl s)
      with assms(4) scan two calm files1 show ?thesis by auto
    next
      case (Inr st)
      have restart: "restarted d1 = restarted d" using files1 by (rule restarted_eq)
      with calm Inr have st_eq: "scan_loop H options h ?n (scan_start ro) (restarted d) =
          (Inr st, restarted d)" by simp
      have "scan_loop H options h ?n (scan_start ro) (restarted d) = (Inr (scan_of ro rs), restarted d)"
        using scan_loop_records [of "restarted d" h "make_header_bytes H" H rs "[]" "scan_start ro"]
          assms(1,2,3)
        by (simp add: contents_def journal_file_def good_history_def scan_start_def
            increasing_from_def scan_of_def scan_loop_end foldl_scanned length_encode_records)
      with st_eq have "ss_outcome st \<noteq> Recovery_TornTailRecovered" by (auto split: if_splits)
      then obtain j0 where fin: "\<And>e. finish_open h options ?n st e = (Inr j0, e)"
        by (simp add: finish_open_def Let_def)
      from assms(4) scan two Inr have "r = Inr j0" "d' = d2" by (simp_all add: fin)
      moreover have "open_existing H h options ?n (restarted d) = (Inr j0, restarted d)"
        using scan' st_eq by (simp add: fin)
      ultimately show ?thesis using calm files1 by simp
    qed
  qed
qed

lemma file_open_existing:
  "file_open f ro create False d = (r, d') \<Longrightarrow> dk_files d f = Some bs \<Longrightarrow>
     dk_files d' = dk_files d \<and>
     (\<forall>h. r = Inr h \<longrightarrow> h = \<lparr>fh_file = f, fh_read_only = ro\<rparr>)"
  by (auto simp: file_open_def Let_def split: prod.splits IoEvent.splits if_splits)

lemma reopen_under_faults:
  assumes "dk_files d Journal_File = Some (journal_file H rs)" "good_history options rs"
    and "journal_open H Open_OpenOrCreateReadWrite options d = (r, d')"
  shows "dk_files d' = dk_files d \<and> (\<forall>j. r = Inr j \<longrightarrow> journal_at H rs j \<and> jl_options j = options)"
proof -
  let ?h = "\<lparr>fh_file = Journal_File, fh_read_only = False\<rparr>"
  let ?n = "length (journal_file H rs)"
  obtain r1 d1 where one: "file_open Journal_File False True False d = (r1, d1)" by fastforce
  note opened = file_open_existing [OF one assms(1)]
  obtain r2 d2 where two: "file_size_of ?h d1 = (r2, d2)" by fastforce
  note files2 = file_size_files [OF two]
  obtain r3 d3 where three: "open_existing H ?h options ?n d2 = (r3, d3)" by fastforce
  have on_disk: "dk_files d2 Journal_File = Some (journal_file H rs)"
    using opened files2 assms(1) by simp
  note existing = open_existing_under_faults [OF on_disk assms(2) refl three]
  show ?thesis
  proof (cases "\<exists>e. r1 = Inl e \<or> r2 = Inl e")
    case True
    with assms(3) one two opened files2 show ?thesis
      by (auto simp: journal_open_def io_case_def split: sum.splits)
  next
    case False
    then have ok: "r1 = Inr ?h" "r2 = Inr ?n"
      using opened file_size_calm [of ?h d1 _ d2] two assms(1)
      by (cases r1; cases r2; auto simp: contents_def)+
    have "?n \<noteq> 0" by (simp add: length_journal_file kJournalHeaderBytes_def)
    then have run: "journal_open H Open_OpenOrCreateReadWrite options e =
        open_existing H ?h options ?n e'"
      if "file_open Journal_File False True False e = (Inr ?h, e0)"
        "file_size_of ?h e0 = (Inr ?n, e')" for e e0 e'
      using that by (simp add: journal_open_def)
    have now: "r = r3" "d' = d3" using assms(3) run [of d d1 d2] one two three ok by simp_all
    have "journal_at H rs j \<and> jl_options j = options" if "r = Inr j" for j
    proof -
      obtain j0 where j0: "journal_open H Open_OpenOrCreateReadWrite options (restarted d2) =
            (Inr j0, restarted d2)" "journal_at H rs j0" "jl_options j0 = options"
        using open_journal_file [of "restarted d2" H rs options Open_OpenOrCreateReadWrite]
          on_disk assms(2) by auto
      have "open_existing H ?h options ?n (restarted d2) = (Inr j, restarted d2)"
        using existing that now by simp
      moreover have "journal_open H Open_OpenOrCreateReadWrite options (restarted d2) =
          open_existing H ?h options ?n (restarted d2)"
        using on_disk
        by (intro run [of "restarted d2" "restarted d2" "restarted d2"])
          (simp_all add: file_open_quiet file_size_quiet contents_Some)
      ultimately show ?thesis using j0 by simp
    qed
    with now existing opened files2 show ?thesis by simp
  qed
qed

section \<open>Compaction\<close>

primrec renumber :: "u64 \<Rightarrow> JournalRecord list \<Rightarrow> JournalRecord list" where
  "renumber n [] = []"
| "renumber n (r # rs) = r\<lparr>jr_sequence := n\<rparr> # renumber (n + 1) rs"

lemma length_renumber [simp]: "length (renumber n rs) = length rs"
  by (induction rs arbitrary: n) simp_all

lemma renumber_content:
  "map jr_payload (renumber n rs) = map jr_payload rs"
  "map jr_type (renumber n rs) = map jr_type rs"
  by (induction rs arbitrary: n) simp_all

lemma good_record_sequence [simp]:
  "good_record options (r\<lparr>jr_sequence := n\<rparr>) = good_record options r"
  by (simp add: good_record_def)

lemma renumber_good:
  "\<forall>r \<in> set rs. good_record options r \<Longrightarrow> \<forall>r \<in> set (renumber n rs). good_record options r"
  by (induction rs arbitrary: n) simp_all

lemma renumber_increasing:
  "unat n + length rs \<le> 18446744073709551616 \<Longrightarrow>
     sorted_wrt (<) (map jr_sequence (renumber n rs)) \<and>
     (\<forall>r \<in> set (renumber n rs). n \<le> jr_sequence r)"
proof (induction rs arbitrary: n)
  case Nil
  then show ?case by simp
next
  case (Cons r rs)
  show ?case
  proof (cases "rs = []")
    case True
    then show ?thesis by simp
  next
    case False
    then have "1 \<le> length rs" by (cases rs) simp_all
    with Cons.prems have n: "unat (n + 1) = unat n + 1"
      by (simp add: unat_word_ariths)
    then have "n < n + 1" by (simp add: word_less_nat_alt)
    with Cons.IH [of "n + 1"] Cons.prems n show ?thesis by fastforce
  qed
qed

lemma renumber_good_history:
  assumes "\<forall>r \<in> set rs. good_record options r" "length rs \<le> jo_max_records options"
    and "length rs < 18446744073709551616"
  shows "good_history options (renumber 1 rs)"
  using renumber_good [OF assms(1)] renumber_increasing [of 1 rs] assms(2,3)
  by (simp add: good_history_def)

lemma file_write_frame:
  "file_write_at h off data d = (r, d') \<Longrightarrow> f \<noteq> fh_file h \<Longrightarrow> dk_files d' f = dk_files d f"
proof -
  assume w: "file_write_at h off data d = (r, d')" and other: "f \<noteq> fh_file h"
  obtain e d0 where e: "next_event d = (e, d0)" by (cases "next_event d")
  then have "dk_files d0 = dk_files d" by simp
  with w other e show ?thesis
    by (cases e; cases "fh_read_only h") (auto simp: file_write_at_def)
qed

lemma compact_loop_writes:
  assumes "compact_loop H max_bytes out rs (length bs) n d = (res, d')"
    and "dk_files d (fh_file out) = Some bs"
  shows "(f \<noteq> fh_file out \<longrightarrow> dk_files d' f = dk_files d f) \<and>
    (\<forall>k. res = Inr k \<longrightarrow> dk_files d' (fh_file out) = Some (bs @ encode_records H (renumber n rs)))"
  using assms
proof (induction rs arbitrary: bs n d)
  case Nil
  then show ?case by simp
next
  case (Cons r rs)
  let ?data = "make_record_bytes H (r\<lparr>jr_sequence := n\<rparr>)"
  obtain r1 d1 where w: "file_write_at out (length bs) ?data d = (r1, d1)" by fastforce
  note frame = file_write_frame [OF w, of f]
  show ?case
  proof (cases "size_add (length bs) (length ?data)")
    case None
    with Cons.prems show ?thesis by (auto simp: Let_def)
  next
    case (Some projected)
    show ?thesis
    proof (cases "projected > unat max_bytes")
      case True
      with Cons.prems Some show ?thesis by (auto simp: Let_def)
    next
      case False
      show ?thesis
      proof (cases r1)
        case (Inl e)
        with Cons.prems w frame Some False show ?thesis by (auto simp: Let_def)
      next
        case (Inr u)
        with file_write_end [OF Cons.prems(2) refl w]
        have "dk_files d1 (fh_file out) = Some (bs @ ?data)" by auto
        moreover have "compact_loop H max_bytes out rs (length (bs @ ?data)) (n + 1) d1 = (res, d')"
          using Cons.prems(1) w Inr Some False by (simp add: Let_def)
        ultimately show ?thesis using Cons.IH [of "bs @ ?data" "n + 1" d1] frame by simp
      qed
    qed
  qed
qed

lemma write_compacted_writes:
  assumes "write_compacted H max_bytes out records d = (res, d')" "dk_files d (fh_file out) = Some []"
  shows "(f \<noteq> fh_file out \<longrightarrow> dk_files d' f = dk_files d f) \<and>
    (res = Inr () \<longrightarrow> dk_files d' (fh_file out) = Some (journal_file H (renumber 1 records)))"
proof -
  let ?head = "make_header_bytes H"
  obtain r1 d1 where one: "file_write_at out 0 ?head d = (r1, d1)" by fastforce
  obtain r2 d2 where two: "compact_loop H max_bytes out records (length ?head) 1 d1 = (r2, d2)"
    by fastforce
  obtain r3 d3 where three: "file_flush out d2 = (r3, d3)" by fastforce
  show ?thesis
  proof (cases r1)
    case (Inl e)
    with assms one file_write_frame [OF one] show ?thesis by (auto simp: write_compacted_def)
  next
    case (Inr u)
    with file_write_end [OF assms(2) _ one] have "dk_files d1 (fh_file out) = Some ?head" by auto
    note body = compact_loop_writes [OF two this, of f]
    show ?thesis
      using assms(1) one two three Inr body file_write_frame [OF one] file_flush_files [OF three]
      by (cases r2; cases r3) (auto simp: write_compacted_def journal_file_def)
  qed
qed

lemma replace_file_atomic:
  "replace_file source target d = (r, d') \<Longrightarrow> dk_files d source = Some new \<Longrightarrow> source \<noteq> target \<Longrightarrow>
     dk_files d' target = (if r = Inr () then Some new else dk_files d target)"
  by (auto simp: replace_file_def split: prod.splits IoEvent.splits if_splits)

lemma file_open_truncating:
  "file_open f ro create True d = (r, d') \<Longrightarrow>
     (g \<noteq> f \<longrightarrow> dk_files d' g = dk_files d g) \<and>
     (\<forall>h. r = Inr h \<longrightarrow> h = \<lparr>fh_file = f, fh_read_only = ro\<rparr> \<and> dk_files d' f = Some [])"
  by (auto simp: file_open_def Let_def split: prod.splits IoEvent.splits if_splits)

text \<open>
  C21: a compaction is atomic. Whatever the operating system calls of a compaction do, the journal
  file afterwards is either the old file, byte for byte, or the complete journal of the given
  records under the new sequence numbers 1, 2, 3, ...; a compaction that reports success left the
  new journal, open and ready for appending.
\<close>

theorem compaction_atomic:
  assumes "dk_files d Journal_File = Some old" "length records < 18446744073709551616"
    and "\<forall>r \<in> set records. good_record (jl_options j) r"
    and "journal_compact H records j d = (c, j', d')"
  shows "dk_files d' Journal_File \<in> {Some old, Some (journal_file H (renumber 1 records))} \<and>
    (c = success \<longrightarrow>
       dk_files d' Journal_File = Some (journal_file H (renumber 1 records)) \<and>
       journal_at H (renumber 1 records) j' \<and> jl_options j' = jl_options j)"
proof (cases "jl_handle j = None \<or> length records > jo_max_records (jl_options j)")
  case True
  with assms(1,4) show ?thesis by (auto simp: journal_compact_def split: if_splits)
next
  case False
  then obtain h0 where live: "jl_handle j = Some h0"
      "\<not> length records > jo_max_records (jl_options j)" by auto
  let ?new = "journal_file H (renumber 1 records)"
  let ?out = "\<lparr>fh_file = Temporary_File, fh_read_only = False\<rparr>"
  have history: "good_history (jl_options j) (renumber 1 records)"
    using renumber_good_history [OF assms(3) _ assms(2)] live(2) by simp
  obtain r1 d1 where one: "file_open Temporary_File False True True d = (r1, d1)" by fastforce
  obtain r2 d2 where two: "write_compacted H (jo_max_bytes (jl_options j)) ?out records d1 = (r2, d2)"
    by fastforce
  obtain r3 d3 where three: "replace_file Temporary_File Journal_File d2 = (r3, d3)" by fastforce
  obtain r4 d4 where four: "journal_open H Open_OpenOrCreateReadWrite (jl_options j) d3 = (r4, d4)"
    by fastforce
  note opened = file_open_truncating [OF one, of Journal_File]
  show ?thesis
  proof (cases r1)
    case (Inl e)
    with assms(1,4) live one opened show ?thesis by (auto simp: journal_compact_def)
  next
    case (Inr out)
    with opened have h: "out = ?out" "dk_files d1 (fh_file ?out) = Some []" by simp_all
    note wrote = write_compacted_writes [OF two h(2), of Journal_File]
    show ?thesis
    proof (cases r2)
      case (Inl e)
      with assms(4) live one two Inr [unfolded h]
      have "c \<noteq> success \<and> d' = remove_file Temporary_File d2"
        by (auto simp add: journal_compact_def)
      moreover have "dk_files d2 Journal_File = Some old" using wrote opened assms(1) by simp
      ultimately show ?thesis by (simp add: remove_file_def)
    next
      case ok2: (Inr u)
      have at3: "dk_files d3 Journal_File = (if r3 = Inr () then Some ?new else Some old)"
        using replace_file_atomic [OF three, of ?new] wrote ok2 opened assms(1) by simp
      show ?thesis
      proof (cases r3)
        case (Inl e)
        with assms(4) live one two three Inr [unfolded h] ok2 have "c \<noteq> success \<and> d' = d3"
          by (auto simp add: journal_compact_def)
        with at3 Inl show ?thesis by simp
      next
        case ok3: (Inr v)
        with at3 have "dk_files d3 Journal_File = Some ?new" by simp
        note again = reopen_under_faults [OF this history four]
        have "(c, j', d') = (case r4 of Inl s \<Rightarrow> (Inl s, journal_release j, d4)
            | Inr j'' \<Rightarrow> (success, j'', d4))"
          using assms(4) live one two three four Inr [unfolded h] ok2 ok3
          by (cases r4) (simp_all add: journal_compact_def)
        with again \<open>dk_files d3 Journal_File = Some ?new\<close> show ?thesis
          by (cases r4) simp_all
      qed
    qed
  qed
qed

section \<open>What is recovered from an arbitrary file\<close>

text \<open>A complete record as the scan accepts it: any version up to the implemented one.\<close>

definition sealed :: "(bytes \<Rightarrow> Digest) \<Rightarrow> u16 \<Rightarrow> JournalRecord \<Rightarrow> bytes" where
  "sealed H v r =
     (let front = store_u32_le (word_of_nat (length (jr_payload r))) @
            le_bytes 2 (journal_type_wire (jr_type r)) @ le_bytes 2 v @
            store_u64_le (jr_sequence r) @ jr_payload r in
      front @ digest_bytes (H front) @ store_u32_le kRecordTrailerMagicValue)"

lemma length_sealed [simp]: "length (sealed H v r) = record_size r"
  by (simp add: sealed_def Let_def record_size_def kJournalRecordHeaderBytes_def)

lemma make_record_bytes_sealed: "make_record_bytes H r = sealed H kRecordVersion r"
  by (simp add: make_record_bytes_def record_front_def sealed_def)

lemma split_record:
  assumes "length bs = n + kJournalRecordHeaderBytes + 32 + 4"
  shows "bs = (take 4 bs @ take 2 (drop 4 bs) @ take 2 (drop 6 bs) @ take 8 (drop 8 bs) @
      take n (drop kJournalRecordHeaderBytes bs)) @
    take 32 (drop (kJournalRecordHeaderBytes + n) bs) @
    take 4 (drop (kJournalRecordHeaderBytes + n + 32) bs)"
proof -
  have first: "bs = take a bs @ drop a bs" for a by simp
  have "drop (kJournalRecordHeaderBytes + n + 32) bs =
      take 4 (drop (kJournalRecordHeaderBytes + n + 32) bs)"
    using assms by simp
  with first [of 4] drop_split [of 4 bs 2] drop_split [of 6 bs 2] drop_split [of 8 bs 8]
    drop_split [of 16 bs n] drop_split [of "16 + n" bs 32]
  show ?thesis by (simp add: kJournalRecordHeaderBytes_def)
qed

definition record_read :: "bytes \<Rightarrow> nat \<Rightarrow> JournalRecord" where
  "record_read bs n =
     \<lparr>jr_type = journal_type_of_wire (from_le (take 2 (drop 4 bs))),
      jr_sequence = load_u64_le (drop 8 bs),
      jr_payload = take n (drop kJournalRecordHeaderBytes bs)\<rparr>"

lemma journal_type_wire_inverse: "journal_type_wire (journal_type_of_wire v) = v"
proof (cases "1 \<le> v \<and> v \<le> 11")
  case True
  then have "v = word_of_nat (unat v)" "1 \<le> unat v" "unat v \<le> 11"
    by (simp_all add: word_le_nat_alt)
  then obtain n where n: "v = word_of_nat n" "1 \<le> n" "n \<le> 11" by blast
  then have "n \<in> {1, 2, 3, 4, 5, 6, 7, 8, 9, 10, 11}" by (simp, arith)
  then show ?thesis
    using n(1) by (elim insertE emptyE)
      (simp_all add: journal_type_of_wire_def journal_types_def journal_type_wire_def)
next
  case False
  then show ?thesis by (auto simp: journal_type_of_wire_def journal_type_wire_def)
qed

lemma journal_type_of_wire_listed:
  "\<not> (v < 1 \<or> v > 11) \<Longrightarrow> journal_type_of_wire v \<in> set journal_types"
proof -
  assume v: "\<not> (v < 1 \<or> v > 11)"
  then have "unat v - 1 < length journal_types"
    by (simp add: journal_types_def not_less word_le_nat_alt) arith
  then have "journal_types ! (unat v - 1) \<in> set journal_types" by (rule nth_mem)
  moreover from v have "1 \<le> v \<and> v \<le> 11" by (metis linorder_not_less)
  ultimately show ?thesis by (simp add: journal_type_of_wire_def)
qed

lemma verify_record_sealed:
  assumes "verify_record H bs (unat w) st = (st', True)"
    and "length bs = unat w + kJournalRecordHeaderBytes + 32 + 4"
    and "w = load_u32_le bs" "r = record_read bs (unat w)"
  shows "\<exists>v \<le> kRecordVersion. bs = sealed H v r" "jr_type r \<in> set journal_types"
    "ss_records st \<noteq> 0 \<longrightarrow> ss_previous st < jr_sequence r" "st' = scanned st r"
proof -
  let ?n = "unat w"
  let ?v = "from_le (take 2 (drop 6 bs)) :: u16"
  let ?front = "take (kJournalRecordHeaderBytes + ?n) bs"
  from assms(1) have checks:
      "load_u32_le (drop (kJournalRecordHeaderBytes + ?n + 32) bs) = kRecordTrailerMagicValue"
      "from_be (take 32 (drop (kJournalRecordHeaderBytes + ?n) bs)) = H ?front"
      "\<not> ((from_le (take 2 (drop 4 bs)) :: u16) < 1 \<or> (from_le (take 2 (drop 4 bs)) :: u16) > 11)"
      "\<not> ?v > kRecordVersion" "\<not> (ss_records st \<noteq> 0 \<and> load_u64_le (drop 8 bs) \<le> ss_previous st)"
    by (auto simp: verify_record_def Let_def split: if_splits)
  have payload: "length (jr_payload r) = ?n" using assms(2,4) by (simp add: record_read_def)
  show "jr_type r \<in> set journal_types"
    using checks(3) assms(4) by (simp add: record_read_def journal_type_of_wire_listed)
  show "ss_records st \<noteq> 0 \<longrightarrow> ss_previous st < jr_sequence r"
    using checks(5) assms(4) by (auto simp: record_read_def)
  show "st' = scanned st r"
    using assms(1) payload assms(4)
    by (auto simp: verify_record_def Let_def scanned_def record_size_def record_read_def
        add.commute add.left_commute split: if_splits)
  have "store_u32_le (word_of_nat ?n :: u32) = take 4 bs"
    using assms(2,3) store_load_u32 [of bs] by (simp add: kJournalRecordHeaderBytes_def)
  moreover have "le_bytes 2 (journal_type_wire (jr_type r)) = take 2 (drop 4 bs)"
    using assms(2,4) by (simp add: record_read_def journal_type_wire_inverse le_bytes_from_le_n
        kJournalRecordHeaderBytes_def)
  moreover have "le_bytes 2 ?v = take 2 (drop 6 bs)"
    using assms(2) by (simp add: le_bytes_from_le_n kJournalRecordHeaderBytes_def)
  moreover have "store_u64_le (jr_sequence r) = take 8 (drop 8 bs)"
    using assms(2,4) by (simp add: record_read_def store_load_u64 kJournalRecordHeaderBytes_def)
  moreover have "jr_payload r = take ?n (drop kJournalRecordHeaderBytes bs)"
    using assms(4) by (simp add: record_read_def)
  ultimately have front: "store_u32_le (word_of_nat (length (jr_payload r)) :: u32) @
      le_bytes 2 (journal_type_wire (jr_type r)) @ le_bytes 2 ?v @ store_u64_le (jr_sequence r) @
      jr_payload r = take 4 bs @ take 2 (drop 4 bs) @ take 2 (drop 6 bs) @ take 8 (drop 8 bs) @
      take ?n (drop kJournalRecordHeaderBytes bs)" (is "?own = ?parts")
    unfolding payload by simp
  have len: "length ?parts = kJournalRecordHeaderBytes + ?n"
    using assms(2) by (simp add: kJournalRecordHeaderBytes_def)
  note parts = split_record [OF assms(2)]
  have whole: "take (length ?parts) bs = ?parts"
    by (subst (2) parts) (simp only: append_eq_conv_conj [THEN iffD1] take_append length_append
        append_Nil2 diff_self_eq_0 take0 take_all_iff [THEN iffD2] order_refl)
  have front_bs: "?front = ?own" using whole unfolding len front .
  have seal: "take 32 (drop (kJournalRecordHeaderBytes + ?n) bs) = digest_bytes (H ?own)"
    unfolding front_bs [symmetric] checks(2) [symmetric]
    using assms(2) be_bytes_from_be [where ?'a = 256,
        of "take 32 (drop (kJournalRecordHeaderBytes + ?n) bs)"] by simp
  have trailer: "take 4 (drop (kJournalRecordHeaderBytes + ?n + 32) bs) =
      store_u32_le kRecordTrailerMagicValue"
    using assms(2) store_load_u32 [of "drop (kJournalRecordHeaderBytes + ?n + 32) bs"] checks(1)
    by simp
  have "bs = sealed H ?v r"
    unfolding sealed_def Let_def using parts unfolding seal trailer front by simp
  with checks(4) show "\<exists>v \<le> kRecordVersion. bs = sealed H v r" by (auto simp: not_less)
qed

definition encode_sealed :: "(bytes \<Rightarrow> Digest) \<Rightarrow> (u16 \<times> JournalRecord) list \<Rightarrow> bytes" where
  "encode_sealed H vrs = concat (map (\<lambda>(v, r). sealed H v r) vrs)"

lemma encode_sealed_simps [simp]:
  "encode_sealed H [] = []"
  "encode_sealed H ((v, r) # vrs) = sealed H v r @ encode_sealed H vrs"
  by (simp_all add: encode_sealed_def)

text \<open>A scan that ends before the end of the file.\<close>

definition stopped :: "ScanState \<Rightarrow> ScanState \<Rightarrow> bool" where
  "stopped st st' \<longleftrightarrow>
     ss_good_bytes st' = ss_good_bytes st \<and> ss_records st' = ss_records st \<and>
     ss_previous st' = ss_previous st \<and>
     (ss_writable st' \<longrightarrow> ss_writable st \<and> ss_outcome st' = Recovery_TornTailRecovered) \<and>
     ss_outcome st' \<notin> {Recovery_Clean, Recovery_Empty}"

lemma stopped_simps [simp]:
  "stopped st (torn_tail detail st)"
  "outcome \<notin> {Recovery_Clean, Recovery_Empty} \<Longrightarrow> stopped st (refuse_record outcome detail st)"
  by (simp_all add: stopped_def torn_tail_def refuse_record_def scan_stop_def)

lemma verify_record_stopped: "verify_record H bs n st = (st', False) \<Longrightarrow> stopped st st'"
  by (auto simp: verify_record_def Let_def split: if_splits)

lemma scan_record_cases:
  assumes "scan_record H options h n st d = (Inr (st', go), d')" "quiet d"
    and "n = length (contents (fh_file h) d)" "ss_offset st \<le> n"
  shows "d' = d \<and>
    (if go then
       (\<exists>v r. v \<le> kRecordVersion \<and> jr_type r \<in> set journal_types \<and>
          length (jr_payload r) \<le> unat (jo_max_payload_bytes options) \<and>
          (ss_records st \<noteq> 0 \<longrightarrow> ss_previous st < jr_sequence r) \<and>
          ss_records st < jo_max_records options \<and> st' = scanned st r \<and>
          take (ss_offset st') (contents (fh_file h) d) =
            take (ss_offset st) (contents (fh_file h) d) @ sealed H v r \<and> ss_offset st' \<le> n)
     else stopped st st')"
proof -
  let ?k = kJournalRecordHeaderBytes
  let ?bs = "contents (fh_file h) d"
  let ?rest = "drop (ss_offset st) ?bs"
  let ?w = "load_u32_le (take ?k ?rest)"
  let ?total = "unat ?w + ?k + 32 + 4"
  show ?thesis
  proof (cases "ss_records st < jo_max_records options \<and> ?k \<le> length ?rest \<and>
      \<not> ?w > jo_max_payload_bytes options \<and> ?total \<le> length ?rest")
    case True
    have pre: "?bs = take (ss_offset st) ?bs @ ?rest" "ss_offset st = length (take (ss_offset st) ?bs)"
      using assms(3,4) by simp_all
    have "scan_record H options h (length ?bs) st d =
        (Inr (verify_record H (take ?total ?rest) (unat ?w) st), d)"
      using True by (intro scan_record_complete [OF assms(2) pre _ refl]) auto
    from this [folded assms(3), unfolded assms(1)]
    have verified: "verify_record H (take ?total ?rest) (unat ?w) st = (st', go)" "d' = d"
      by (simp_all only: prod.inject sum.inject)
    show ?thesis
    proof (cases go)
      case False
      with verified show ?thesis by (simp add: verify_record_stopped)
    next
      case go: True
      let ?r = "record_read (take ?total ?rest) (unat ?w)"
      have len: "length (take ?total ?rest) = ?total" using True by simp
      have w: "?w = load_u32_le (take ?total ?rest)"
        by (simp add: load_u32_le_def kJournalRecordHeaderBytes_def min_def)
      from go have "go = True" by simp
      note ok = verify_record_sealed [OF verified(1) [unfolded this] len w refl]
      have size: "record_size ?r = ?total" "length (jr_payload ?r) = unat ?w"
        using len by (simp_all add: record_size_def record_read_def)
      then have off: "ss_offset st' = ss_offset st + ?total" using ok(4) by (simp add: scanned_def)
      have "take (ss_offset st') ?bs = take (ss_offset st) ?bs @ take ?total ?rest"
        unfolding off by (rule take_add)
      moreover have "ss_offset st' \<le> n" 
      proof -
        have "?total \<le> length ?rest" using True by blast
        then show ?thesis using assms(3,4) unfolding off length_drop by linarith
      qed
      moreover have "length (jr_payload ?r) \<le> unat (jo_max_payload_bytes options)"
        using True size by (simp add: word_less_nat_alt)
      moreover obtain v where "v \<le> kRecordVersion" "take ?total ?rest = sealed H v ?r"
        using ok(1) by blast
      ultimately show ?thesis
        unfolding if_P [OF go] using ok(2-4) True verified(2) 
        by (intro conjI exI [of _ v] exI [of _ ?r]) (simp_all only: simp_thms)
    qed
  next
    case False
    have reads: "file_read_at h (ss_offset st) m d = (Inr (take m ?rest), d)" if "m \<le> length ?rest" for m
      using that assms(2,3,4) by (intro file_read_quiet) auto
    from False assms(1,3) reads [of ?k] show ?thesis
      by (auto simp: scan_record_def Let_def split: if_splits)
  qed
qed

lemma scan_loop_history:
  assumes "quiet d" "n = length (contents (fh_file h) d)"
    and "ss_offset st \<le> n" "ss_good_bytes st = ss_offset st"
    and "ss_outcome st \<in> {Recovery_Clean, Recovery_Empty}"
    and "scan_loop H options h n st d = (Inr st', d')"
  shows "d' = d \<and> ss_good_bytes st' \<le> n \<and>
    (ss_outcome st' \<in> {Recovery_Clean, Recovery_Empty} \<longrightarrow> ss_good_bytes st' = n) \<and>
    (ss_writable st' \<longrightarrow> ss_writable st \<and>
       ss_outcome st' \<in> {Recovery_Clean, Recovery_Empty, Recovery_TornTailRecovered}) \<and>
    (\<exists>vrs. take (ss_good_bytes st') (contents (fh_file h) d) =
              take (ss_offset st) (contents (fh_file h) d) @ encode_sealed H vrs \<and>
            (\<forall>(v, r) \<in> set vrs. v \<le> kRecordVersion \<and> good_record options r) \<and>
            increasing_from st (map snd vrs) \<and>
            ss_records st' = ss_records st + length vrs \<and>
            (vrs \<noteq> [] \<longrightarrow> ss_records st' \<le> jo_max_records options))"
  using assms
proof (induction H options h n st d arbitrary: st' d' rule: scan_loop.induct)
  case (1 H options h n st d)
  let ?bs = "contents (fh_file h) d"
  show ?case
  proof (cases "ss_offset st < n")
    case False
    with "1.prems"(3,6) scan_loop_end [of st n H options h d] have "st' = st" "d' = d" by simp_all
    with "1.prems"(2-5) False show ?thesis
      by (auto simp: increasing_from_def intro!: exI [of _ "[]"])
  next
    case True
    then obtain p d1 where one: "scan_record H options h n st d = (Inr p, d1)"
      using "1.prems"(6)
      by (auto simp: scan_loop.simps [of H options h n st d] split: prod.splits sum.splits)
    obtain st1 go where p: "p = (st1, go)" by (cases p)
    note step = scan_record_cases [OF one [unfolded p] "1.prems"(1,2,3)]
    show ?thesis
    proof (cases go)
      case False
      with "1.prems"(6) True one p have "st' = st1" "d' = d1"
        by (simp_all add: scan_loop.simps [of H options h n st d])
      with step False "1.prems"(3,4) show ?thesis
        by (auto simp: stopped_def increasing_from_def intro!: exI [of _ "[]"])
    next
      case go: True
      with step obtain v r where v: "v \<le> kRecordVersion" "jr_type r \<in> set journal_types"
          "length (jr_payload r) \<le> unat (jo_max_payload_bytes options)"
          "ss_records st \<noteq> 0 \<longrightarrow> ss_previous st < jr_sequence r"
          "ss_records st < jo_max_records options" "st1 = scanned st r" "d1 = d"
          "take (ss_offset st1) ?bs = take (ss_offset st) ?bs @ sealed H v r" "ss_offset st1 \<le> n"
        by auto
      have "scan_loop H options h n st1 d = (Inr st', d')"
        using "1.prems"(6) True one p go v(7) by (simp add: scan_loop.simps [of H options h n st d])
      from "1.IH" [OF True one [symmetric] refl p [symmetric] go, unfolded v(7), OF "1.prems"(1,2) v(9) _ _ this]
      obtain vrs where ih: "d' = d" "ss_good_bytes st' \<le> n"
          "ss_outcome st' \<in> {Recovery_Clean, Recovery_Empty} \<longrightarrow> ss_good_bytes st' = n"
          "ss_writable st' \<longrightarrow> ss_writable st1 \<and>
             ss_outcome st' \<in> {Recovery_Clean, Recovery_Empty, Recovery_TornTailRecovered}"
          "take (ss_good_bytes st') ?bs = take (ss_offset st1) ?bs @ encode_sealed H vrs"
          "\<forall>(v, r) \<in> set vrs. v \<le> kRecordVersion \<and> good_record options r"
          "increasing_from st1 (map snd vrs)" "ss_records st' = ss_records st1 + length vrs"
          "vrs \<noteq> [] \<longrightarrow> ss_records st' \<le> jo_max_records options"
        using v(6) by (auto simp: scanned_def)
      have "increasing_from st (map snd ((v, r) # vrs))"
        using ih(7) v(4,6) by (auto simp: increasing_from_def scanned_def dest: order.strict_trans)
      then show ?thesis
        using ih(1-6,8,9) v
        by (intro conjI exI [of _ "(v, r) # vrs"]) (auto simp: good_record_def scanned_def)
    qed
  qed
qed

lemma load_record_sealed:
  assumes "quiet d" "contents (fh_file h) d = pre @ sealed H v r @ rest"
    and "good_record options r" "length (jr_payload r) \<le> max_payload"
    and "length pre + record_size r \<le> limit"
  shows "load_record max_payload h limit (length pre) d = (Inr (r, record_size r), d)"
proof -
  let ?k = kJournalRecordHeaderBytes
  let ?w = "word_of_nat (length (jr_payload r)) :: u32"
  have size: "unat ?w = length (jr_payload r)" using assms(3) by (rule unat_payload_length)
  have fields: "load_u32_le (take ?k (sealed H v r @ rest)) = ?w"
      "from_le (take 2 (drop 4 (sealed H v r))) = journal_type_wire (jr_type r)"
      "load_u64_le (drop 8 (sealed H v r)) = jr_sequence r"
      "take (length (jr_payload r)) (drop ?k (sealed H v r)) = jr_payload r"
    by (simp_all add: sealed_def Let_def kJournalRecordHeaderBytes_def from_le_le_bytes)
  have r1: "file_read_at h (length pre) ?k d = (Inr (take ?k (sealed H v r @ rest)), d)"
    using assms(1,2) by (simp add: file_read_quiet record_size_def)
  have r2: "file_read_at h (length pre) (record_size r) d = (Inr (sealed H v r), d)"
    using assms(1,2) by (simp add: file_read_quiet)
  have total: "length (jr_payload r) + ?k + 32 + 4 = record_size r"
    by (simp add: record_size_def)
  show ?thesis
    unfolding load_record_def r1 io_case_simps Let_def fields(1) size total r2
    using assms(3,4,5)
    by (simp add: fields(2-4) journal_type_of_wire_inverse good_record_def leD)
qed

lemma load_loop_sealed:
  assumes "quiet d" "contents (fh_file h) d = pre @ encode_sealed H vrs @ rest"
    and "\<forall>(v, r) \<in> set vrs. good_record options r \<and> length (jr_payload r) \<le> max_payload"
    and "length acc + length vrs \<le> max_records"
    and "limit = length pre + length (encode_sealed H vrs)"
  shows "load_loop max_records max_payload h limit (length pre) acc d = (Inr (acc @ map snd vrs), d)"
  using assms(2-)
proof (induction vrs arbitrary: pre acc)
  case Nil
  then show ?case by (subst load_loop.simps) simp
next
  case (Cons vr vrs)
  obtain v r where vr: "vr = (v, r)" by (cases vr)
  have "load_record max_payload h limit (length pre) d = (Inr (r, record_size r), d)"
    using Cons.prems vr
    by (intro load_record_sealed [OF assms(1), where rest = "encode_sealed H vrs @ rest"]) auto
  then have "load_loop max_records max_payload h limit (length pre) acc d =
      load_loop max_records max_payload h limit (length (pre @ sealed H v r)) (acc @ [r]) d"
    using Cons.prems vr by (subst load_loop.simps) simp
  also have "\<dots> = (Inr ((acc @ [r]) @ map snd vrs), d)"
    using Cons.prems vr by (intro Cons.IH) auto
  finally show ?case using vr by simp
qed

lemma open_quiet_scans:
  assumes "quiet d" "dk_files d Journal_File = Some bs" "bs \<noteq> []" "mode \<noteq> Open_CreateTruncating"
    and "journal_open H mode options d = (Inr j, d')" "jv_good_bytes (jl_recovery j) \<noteq> 0"
    and "h = \<lparr>fh_file = Journal_File, fh_read_only = (mode = Open_ReadOnlyExisting)\<rparr>"
  obtains st d1 where "kJournalHeaderBytes \<le> length bs" "header_ok H (take kJournalHeaderBytes bs)"
    and "scan_loop H options h (length bs) (scan_start (fh_read_only h)) d = (Inr st, d1)"
    and "finish_open h options (length bs) st d1 = (Inr j, d')"
proof -
  have on_disk: "contents Journal_File d = bs" using assms(2) by (rule contents_Some)
  have "file_open Journal_File (mode = Open_ReadOnlyExisting) (mode \<noteq> Open_ReadOnlyExisting) False d =
      (Inr h, d)"
    using assms(1,2,7) by (simp add: quiet_simps)
  moreover have "file_size_of h d = (Inr (length bs), d)"
    using assms(1,7) on_disk by (simp add: file_size_quiet)
  ultimately have existing: "open_existing H h options (length bs) d = (Inr j, d')"
    using assms(3,4,5) by (simp add: journal_open_def)
  have unreadable: "jv_good_bytes (jl_recovery (journal_unreadable h options n r k e)) = 0" for n r k e
    by (simp add: journal_unreadable_def fresh_recovery_def)
  have long: "kJournalHeaderBytes \<le> length bs"
  proof (rule ccontr)
    assume "\<not> kJournalHeaderBytes \<le> length bs"
    with existing have "j = journal_unreadable h options (length bs) Recovery_InvalidHeader 0
        ''file is shorter than the journal header''" by (simp add: open_existing_def)
    with assms(6) unreadable show False by simp
  qed
  then have read: "file_read_at h 0 kJournalHeaderBytes d = (Inr (take kJournalHeaderBytes bs), d)"
    using assms(1,7) on_disk by (simp add: file_read_quiet)
  have ok: "header_ok H (take kJournalHeaderBytes bs)"
  proof (rule ccontr)
    assume "\<not> header_ok H (take kJournalHeaderBytes bs)"
    with existing long read have "j = journal_unreadable h options (length bs) Recovery_InvalidHeader 0
        ''journal header magic or digest does not match''" by (simp add: open_existing_def)
    with assms(6) unreadable show False by simp
  qed
  have "load_u32_le (drop 8 (take kJournalHeaderBytes bs)) = kJournalFormatVersion"
  proof (rule ccontr)
    assume version: "load_u32_le (drop 8 (take kJournalHeaderBytes bs)) \<noteq> kJournalFormatVersion"
    have "\<exists>r k e. j = journal_unreadable h options (length bs) r k e"
      using existing long read ok version unfolding open_existing_def Let_def read io_case_simps
      by (auto simp: not_less simp del: drop_take)
    with assms(6) unreadable show False by auto
  qed
  with existing long read ok have "(case scan_loop H options h (length bs) (scan_start (fh_read_only h)) d of
      (Inl s, d) \<Rightarrow> (Inl s, d) | (Inr st, d) \<Rightarrow> finish_open h options (length bs) st d) = (Inr j, d')"
    unfolding open_existing_def Let_def read io_case_simps by (simp add: not_less del: drop_take)
  then show thesis using that long ok by (auto split: prod.splits sum.splits)
qed

lemma finish_open_recovery:
  assumes "quiet d" "finish_open h options n st d = (Inr j, d')" "dk_files d (fh_file h) = Some bs"
    and "n = length bs" "ss_good_bytes st \<le> n" "ss_writable st \<longrightarrow> \<not> fh_read_only h"
    and "ss_outcome st \<in> {Recovery_Clean, Recovery_Empty} \<longrightarrow> ss_good_bytes st = n"
    and "ss_writable st \<longrightarrow> ss_outcome st \<in> {Recovery_Clean, Recovery_Empty, Recovery_TornTailRecovered}"
  shows "jl_handle j = Some h" "jv_good_bytes (jl_recovery j) = ss_good_bytes st"
    "jv_record_count (jl_recovery j) = ss_records st" "quiet d'"
    "dk_files d' (fh_file h) \<in> {Some bs, Some (take (ss_good_bytes st) bs)}"
    "jl_writable j \<Longrightarrow> dk_files d' (fh_file h) = Some (take (ss_good_bytes st) bs) \<and>
       jl_size_bytes j = ss_good_bytes st"
proof -
  have "jl_handle j = Some h \<and> jv_good_bytes (jl_recovery j) = ss_good_bytes st \<and>
      jv_record_count (jl_recovery j) = ss_records st \<and> quiet d' \<and>
      dk_files d' (fh_file h) \<in> {Some bs, Some (take (ss_good_bytes st) bs)} \<and>
      (jl_writable j \<longrightarrow> dk_files d' (fh_file h) = Some (take (ss_good_bytes st) bs) \<and>
         jl_size_bytes j = ss_good_bytes st)"
  proof (cases "ss_outcome st = Recovery_TornTailRecovered \<and> ss_writable st \<and>
      jo_truncate_torn_tail options")
    case True
    then have cut: "file_truncate h (ss_good_bytes st) d =
        (Inr (), set_contents (fh_file h) (take (ss_good_bytes st) bs) d)"
      using assms(1,3,4,5,6) by (simp add: file_truncate_quiet contents_Some)
    with True assms(1,2) show ?thesis
      by (auto simp: finish_open_def Let_def file_flush_quiet)
  next
    case False
    with assms(1,2,3,4,7,8) show ?thesis
      by (auto simp: finish_open_def Let_def jl_writable_def split: if_splits)
  qed
  then show "jl_handle j = Some h" "jv_good_bytes (jl_recovery j) = ss_good_bytes st"
    "jv_record_count (jl_recovery j) = ss_records st" "quiet d'"
    "dk_files d' (fh_file h) \<in> {Some bs, Some (take (ss_good_bytes st) bs)}"
    "jl_writable j \<Longrightarrow> dk_files d' (fh_file h) = Some (take (ss_good_bytes st) bs) \<and>
       jl_size_bytes j = ss_good_bytes st"
    by blast+
qed

text \<open>
  C20: recovery is conservative. Whatever bytes the journal file holds, the history a process
  recovers from it consists of complete records, each sealed by the digest of its header and
  payload, of an implemented type and version and of a payload within the bound, with strictly
  increasing sequence numbers, and \<^verbatim>\<open>load\<close> returns exactly those records. A journal that is writable
  after opening holds these records and nothing after them, and the next append goes right behind
  them.
\<close>

theorem recovered_history_is_sealed:
  assumes "quiet d" "dk_files d Journal_File = Some bs" "bs \<noteq> []" "mode \<noteq> Open_CreateTruncating"
    and "journal_open H mode options d = (Inr j, d')" "jv_good_bytes (jl_recovery j) \<noteq> 0"
  shows "\<exists>head vrs. take (jv_good_bytes (jl_recovery j)) bs = head @ encode_sealed H vrs \<and>
    length head = kJournalHeaderBytes \<and> header_ok H head \<and>
    (\<forall>(v, r) \<in> set vrs. v \<le> kRecordVersion \<and> good_record options r) \<and>
    sorted_wrt (<) (map (jr_sequence \<circ> snd) vrs) \<and>
    length vrs = jv_record_count (jl_recovery j) \<and>
    journal_load (jo_max_records options) (unat (jo_max_payload_bytes options)) j d' =
      (Inr (map snd vrs), d') \<and>
    (jl_writable j \<longrightarrow> dk_files d' Journal_File = Some (head @ encode_sealed H vrs) \<and>
       jl_size_bytes j = length (head @ encode_sealed H vrs))"
proof -
  let ?h = "\<lparr>fh_file = Journal_File, fh_read_only = (mode = Open_ReadOnlyExisting)\<rparr>"
  let ?head = "take kJournalHeaderBytes bs"
  from open_quiet_scans [OF assms refl] obtain st d1 where
    long: "kJournalHeaderBytes \<le> length bs" and ok: "header_ok H ?head"
    and scan: "scan_loop H options ?h (length bs) (scan_start (fh_read_only ?h)) d = (Inr st, d1)"
    and fin: "finish_open ?h options (length bs) st d1 = (Inr j, d')" by blast
  have on_disk: "contents (fh_file ?h) d = bs" using assms(2) by (simp add: contents_Some)
  note history = scan_loop_history [OF assms(1) _ _ _ _ scan, unfolded on_disk, simplified
      scan_start_def ScanState.simps, OF refl long refl]
  then obtain vrs where vrs: "d1 = d" "take (ss_good_bytes st) bs = ?head @ encode_sealed H vrs"
      "ss_good_bytes st \<le> length bs"
      "\<forall>(v, r) \<in> set vrs. v \<le> kRecordVersion \<and> good_record options r"
      "sorted_wrt (<) (map jr_sequence (map snd vrs))" "ss_records st = length vrs"
      "vrs \<noteq> [] \<longrightarrow> length vrs \<le> jo_max_records options"
      "ss_outcome st \<in> {Recovery_Clean, Recovery_Empty} \<longrightarrow> ss_good_bytes st = length bs"
      "ss_writable st \<longrightarrow> ss_outcome st \<in> {Recovery_Clean, Recovery_Empty, Recovery_TornTailRecovered}"
      "ss_writable st \<longrightarrow> \<not> fh_read_only ?h"
    by (auto simp: increasing_from_def)
  have file_h: "dk_files d (fh_file ?h) = Some bs" using assms(2) by simp
  note final = finish_open_recovery [OF assms(1) fin [unfolded vrs(1)] file_h refl vrs(3,10,8,9)]
  have len: "ss_good_bytes st = length (?head @ encode_sealed H vrs)"
    unfolding vrs(2) [symmetric] using vrs(3) by simp
  have split: "bs = ?head @ encode_sealed H vrs @ drop (ss_good_bytes st) bs"
    using append_take_drop_id [of "ss_good_bytes st" bs] vrs(2) by simp
  have "\<exists>rest. contents (fh_file ?h) d' = ?head @ encode_sealed H vrs @ rest"
  proof (cases "dk_files d' (fh_file ?h) = Some bs")
    case True
    with split show ?thesis by (auto simp: contents_Some)
  next
    case False
    with final(5) have "contents (fh_file ?h) d' = take (ss_good_bytes st) bs"
      by (auto simp: contents_Some)
    then show ?thesis using vrs(2) by (intro exI [of _ "[]"]) simp
  qed
  then obtain rest where "contents (fh_file ?h) d' = ?head @ encode_sealed H vrs @ rest" by blast
  moreover have head_len: "length ?head = kJournalHeaderBytes" using long by simp
  ultimately have "load_loop (jo_max_records options) (unat (jo_max_payload_bytes options)) ?h
      (ss_good_bytes st) (length ?head) [] d' = (Inr ([] @ map snd vrs), d')"
    using vrs(4,7) len
    by (intro load_loop_sealed [OF final(4)]) (auto simp: good_record_def split: if_splits)
  then have "journal_load (jo_max_records options) (unat (jo_max_payload_bytes options)) j d' =
      (Inr (map snd vrs), d')"
    using final(1,2) unfolding head_len by (simp add: journal_load_def)
  then show ?thesis
    using final vrs ok long len by (intro exI [of _ ?head] exI [of _ vrs]) auto
qed

section \<open>An append after a failed append\<close>

text \<open>
  A failed append leaves its bytes behind the good prefix, and the next append overwrites only as
  many of them as it is long: \<^verbatim>\<open>append\<close> does not truncate.
\<close>

definition faulty :: "nat \<Rightarrow> disk \<Rightarrow> disk" where
  "faulty k d = d\<lparr>dk_events := [Io_Fault k]\<rparr>"

lemma append_fault:
  assumes "journal_at H rs j" "dk_files d Journal_File = Some (journal_file H rs)"
    and "length payload \<le> unat (jo_max_payload_bytes (jl_options j))"
    and "jl_size_bytes j + record_size (next_record ty payload j) < 18446744073709551616"
    and "jl_size_bytes j + record_size (next_record ty payload j) \<le> unat (jo_max_bytes (jl_options j))"
  shows "journal_append H ty payload j (faulty k d) =
    (Fail Error_IoError ''journal append failed: write failed'', j,
     set_contents Journal_File
       (journal_file H rs @ take k (make_record_bytes H (next_record ty payload j))) (restarted d))"
proof -
  let ?h = "\<lparr>fh_file = Journal_File, fh_read_only = False\<rparr>"
  let ?r = "next_record ty payload j"
  have at: "jl_handle j = Some ?h" "jv_writable (jl_recovery j)"
      "jl_size_bytes j = length (journal_file H rs)"
    using assms(1) by (auto simp: journal_at_def)
  have files: "contents Journal_File (restarted d) = journal_file H rs"
    using assms(2) by (simp add: contents_Some)
  have "file_write_at ?h (length (journal_file H rs)) (make_record_bytes H ?r) (faulty k d) =
      (Inl ''write failed'',
       set_contents Journal_File (journal_file H rs @ take k (make_record_bytes H ?r)) (restarted d))"
    using files by (simp add: file_write_at_def faulty_def next_event_def restarted_def [symmetric])
  then show ?thesis
    using at assms(3,4,5)
    by (simp add: journal_append_def Let_def next_record_def [symmetric] size_add_def not_less)
qed

lemma append_done:
  assumes "jl_handle j = Some h" "jv_writable (jl_recovery j)"
    and "length payload \<le> unat (jo_max_payload_bytes (jl_options j))"
    and "jl_size_bytes j + record_size (next_record ty payload j) < 18446744073709551616"
    and "jl_size_bytes j + record_size (next_record ty payload j) \<le> unat (jo_max_bytes (jl_options j))"
    and "file_write_at h (jl_size_bytes j) (make_record_bytes H (next_record ty payload j)) d =
      (Inr (), d1)"
    and "file_flush h d1 = (Inr (), d2)" "jl_next_sequence j < u64_max"
  shows "journal_append H ty payload j d =
    (success, j\<lparr>jl_size_bytes := jl_size_bytes j + record_size (next_record ty payload j),
       jl_next_sequence := jl_next_sequence j + 1\<rparr>, d2)"
  using assms order.strict_implies_not_eq [OF assms(8)]
  by (simp add: journal_append_def Let_def next_record_def [symmetric] size_add_def not_less
      checked_inc_u64_def)

text \<open>A good history that is followed by a complete record without the trailer magic opens as corrupt.\<close>

lemma open_before_bad_record:
  assumes "quiet d" "dk_files d Journal_File = Some (journal_file H rs @ rest)"
    and "good_history options rs" "length rs < jo_max_records options"
    and "load_u32_le rest \<le> jo_max_payload_bytes options"
    and "unat (load_u32_le rest) + 52 \<le> length rest"
    and "load_u32_le (drop (unat (load_u32_le rest) + 48) rest) \<noteq> kRecordTrailerMagicValue"
  shows "\<exists>j. journal_open H Open_OpenOrCreateReadWrite options d = (Inr j, d) \<and>
    jv_outcome (jl_recovery j) = Recovery_CorruptRecord \<and> \<not> jl_writable j"
proof -
  let ?h = "\<lparr>fh_file = Journal_File, fh_read_only = False\<rparr>"
  let ?st = "scan_of False rs" and ?file = "journal_file H rs @ rest"
  let ?bad = "refuse_record Recovery_CorruptRecord ''record trailer magic does not match'' ?st"
  let ?w = "load_u32_le rest"
  let ?bs = "take (unat ?w + kJournalRecordHeaderBytes + 32 + 4) rest"
  have size: "kJournalRecordHeaderBytes = 16" by (simp add: kJournalRecordHeaderBytes_def)
  have w: "load_u32_le (take kJournalRecordHeaderBytes rest) = ?w"
    by (simp add: load_u32_le_def size)
  have "load_u32_le (drop (kJournalRecordHeaderBytes + unat ?w + 32) ?bs) =
      load_u32_le (drop (unat ?w + 48) rest)"
    by (simp add: load_u32_le_def size take_drop add.commute)
  then have verdict: "verify_record H ?bs (unat ?w) ?st = (?bad, False)"
    using assms(7) by (simp add: verify_record_def)
  have "scan_record H options ?h (length (contents (fh_file ?h) d)) ?st d =
      (Inr (verify_record H ?bs (unat ?w) ?st), d)"
    using assms(1,2,4-6) w
    by (intro scan_record_complete [where pre = "journal_file H rs"])
      (simp_all add: contents_Some length_journal_file size)
  then have scan: "scan_loop H options ?h (length ?file) ?st d = (Inr ?bad, d)"
    using assms(2,6) verdict
    by (subst scan_loop.simps) (auto simp: contents_Some length_journal_file)
  have "journal_open H Open_OpenOrCreateReadWrite options d = finish_open ?h options (length ?file) ?bad d"
    using open_journal_prefix [of d H rs rest options Open_OpenOrCreateReadWrite ?h] assms(1-3) scan
    by simp
  then show ?thesis
    by (auto simp: finish_open_def Let_def refuse_record_def scan_stop_def jl_writable_def)
qed

text \<open>
  C39: what an append leaves that follows a failed one. When the write of a record stops after \<open>k\<close> bytes,
  the append fails; the next append succeeds and overwrites only as many of these bytes as its own record
  is long. The file is the journal with the second record, followed by the rest of the failed one. Where
  that rest is as long as a whole record with the payload length its first four bytes announce, and does
  not have the trailer magic where such a record has it, the file opens as corrupt and not writable.
\<close>

theorem append_after_failed_append_corrupts:
  assumes "journal_at H rs j" "dk_files d Journal_File = Some (journal_file H rs)"
    and "ty' \<in> set journal_types" "last_sequence rs + 1 < u64_max" "last_sequence rs < u64_max"
    and "Suc (length rs) < jo_max_records (jl_options j)"
    and "length p \<le> unat (jo_max_payload_bytes (jl_options j))"
    and "length p' \<le> unat (jo_max_payload_bytes (jl_options j))"
    and "jl_size_bytes j + 52 + max (length p) (length p') \<le> unat (jo_max_bytes (jl_options j))"
    and "journal_append H ty p j (faulty k d) = (c1, j1, d1)"
    and "journal_append H ty' p' j1 d1 = (c2, j2, d2)"
    and "rest = drop (52 + length p') (take k (make_record_bytes H (next_record ty p j)))"
  shows "c1 \<noteq> success \<and> c2 = success \<and>
    dk_files d2 Journal_File = Some (journal_file H (rs @ [next_record ty' p' j]) @ rest) \<and>
    (load_u32_le rest \<le> jo_max_payload_bytes (jl_options j) \<and>
     unat (load_u32_le rest) + 52 \<le> length rest \<and>
     load_u32_le (drop (unat (load_u32_le rest) + 48) rest) \<noteq> kRecordTrailerMagicValue \<longrightarrow>
     (\<exists>j3. journal_open H Open_OpenOrCreateReadWrite (jl_options j) d2 = (Inr j3, d2) \<and>
        jv_outcome (jl_recovery j3) = Recovery_CorruptRecord \<and> \<not> jl_writable j3))"
proof -
  let ?h = "\<lparr>fh_file = Journal_File, fh_read_only = False\<rparr>"
  let ?r1 = "next_record ty p j" and ?r2 = "next_record ty' p' j"
  let ?file = "journal_file H (rs @ [?r2]) @ rest"
  have at: "jl_handle j = Some ?h" "jv_writable (jl_recovery j)"
      "jl_size_bytes j = length (journal_file H rs)" "jl_next_sequence j = last_sequence rs + 1"
      "good_history (jl_options j) rs"
    using assms(1) by (auto simp: journal_at_def)
  have sizes: "record_size ?r1 = 52 + length p" "record_size ?r2 = 52 + length p'"
    by (simp_all add: record_size_def next_record_def kJournalRecordHeaderBytes_def)
  have bound: "unat (jo_max_bytes (jl_options j)) < 18446744073709551616"
    using unsigned_less [of "jo_max_bytes (jl_options j)"] by simp
  have first: "c1 \<noteq> success" "j1 = j"
      "d1 = set_contents Journal_File (journal_file H rs @ take k (make_record_bytes H ?r1)) (restarted d)"
    using append_fault [OF assms(1,2), of p ty k] assms(7,9,10) sizes bound by auto
  have "splice (length (journal_file H rs)) (make_record_bytes H ?r2)
      (journal_file H rs @ take k (make_record_bytes H ?r1)) = ?file"
    by (simp add: splice_def journal_file_append sizes assms(12))
  then have w: "file_write_at ?h (jl_size_bytes j) (make_record_bytes H ?r2) d1 =
      (Inr (), set_contents Journal_File ?file (restarted d))"
    using first(3) at(3) by (simp add: file_write_quiet)
  have "file_flush ?h d' = (Inr (), d')" if "d' = set_contents Journal_File ?file (restarted d)" for d'
    using that by (simp add: file_flush_quiet)
  then have second: "c2 = success" "d2 = set_contents Journal_File ?file (restarted d)"
    using append_done [of j ?h p' ty' H d1, OF at(1,2) _ _ _ w] assms(4,8,9,11) first(2) at(4) sizes bound
    by auto
  have good: "good_history (jl_options j) (rs @ [?r2])"
    using assms(3,5,6,8) at(4,5) sequence_increases [of rs]
    by (intro good_history_snoc) (auto simp: good_record_def next_record_def)
  have "\<exists>j3. journal_open H Open_OpenOrCreateReadWrite (jl_options j) d2 = (Inr j3, d2) \<and>
      jv_outcome (jl_recovery j3) = Recovery_CorruptRecord \<and> \<not> jl_writable j3"
    if "load_u32_le rest \<le> jo_max_payload_bytes (jl_options j)"
      "unat (load_u32_le rest) + 52 \<le> length rest"
      "load_u32_le (drop (unat (load_u32_le rest) + 48) rest) \<noteq> kRecordTrailerMagicValue"
    using second(2) good assms(6) that by (intro open_before_bad_record) auto
  with first(1) second show ?thesis by simp
qed

section \<open>The laws at a concrete journal\<close>

definition sample_disk :: disk where
  "sample_disk =
     \<lparr>dk_files = (\<lambda>_. None)(Journal_File \<mapsto> journal_file toy_hash []), dk_events = []\<rparr>"

definition sample_journal :: Journal where
  "sample_journal =
     journal_fresh \<lparr>fh_file = Journal_File, fh_read_only = False\<rparr> default_journal_options 0"

lemma sample_journal_facts:
  "journal_at toy_hash [] sample_journal" "jl_options sample_journal = default_journal_options"
  "dk_files sample_disk Journal_File = Some (journal_file toy_hash [])" "quiet sample_disk"
  "jl_size_bytes sample_journal = 48" "jl_next_sequence sample_journal = 1"
  "jl_handle sample_journal = Some \<lparr>fh_file = Journal_File, fh_read_only = False\<rparr>"
  by (simp_all add: sample_journal_def sample_disk_def journal_fresh_def journal_at_def
      fresh_recovery_def length_journal_file last_sequence_def good_history_def quiet_def
      kJournalHeaderBytes_def)

lemma default_bounds:
  "jo_max_records default_journal_options = 262144"
  "unat (jo_max_payload_bytes default_journal_options) = 1048576"
  "unat (jo_max_bytes default_journal_options) = 2147483648" "jo_truncate_torn_tail default_journal_options"
  by (simp_all add: default_journal_options_def kMaxArtifacts_def kMaxJournalRecordBytes_def
      kMaxJournalBytes_def)

lemma append_crash_atomic_witness:
  "\<exists>c j' d' rs' j'' d''.
     journal_append toy_hash Journal_Artifact [1, 2] sample_journal (faulty 30 sample_disk) =
       (c, j', d') \<and>
     (rs' = [] \<and> c \<noteq> success \<or> rs' = [next_record Journal_Artifact [1, 2] sample_journal]) \<and>
     journal_open toy_hash Open_OpenOrCreateReadWrite default_journal_options (restarted d') =
       (Inr j'', d'') \<and> journal_at toy_hash rs' j''"
proof -
  obtain c j' d' where run: "journal_append toy_hash Journal_Artifact [1, 2] sample_journal
      (faulty 30 sample_disk) = (c, j', d')" by (cases "journal_append toy_hash Journal_Artifact [1, 2]
        sample_journal (faulty 30 sample_disk)") auto
  have "dk_files (faulty 30 sample_disk) Journal_File = Some (journal_file toy_hash [])"
    by (simp add: faulty_def sample_journal_facts)
  from append_crash_atomic [OF sample_journal_facts(1) this _ _ _ _ run]
  show ?thesis unfolding run
    by (fastforce simp: sample_journal_facts default_bounds journal_types_def last_sequence_def
        u64_max_def)
qed

lemma sample_append_done:
  assumes "payload = [] \<or> payload = [7]" "jl_handle j = jl_handle sample_journal"
    and "jv_writable (jl_recovery j)" "jl_options j = default_journal_options"
    and "jl_size_bytes j \<le> 1000" "jl_next_sequence j < u64_max" "quiet d"
  shows "\<exists>j' d'. journal_append toy_hash ty payload j d = (success, j', d') \<and> quiet d' \<and>
    jl_handle j' = jl_handle j \<and> jl_recovery j' = jl_recovery j \<and> jl_options j' = jl_options j \<and>
    jl_size_bytes j' \<le> jl_size_bytes j + 53 \<and> jl_next_sequence j' = jl_next_sequence j + 1"
proof -
  let ?r = "next_record ty payload j"
  have size: "record_size ?r \<le> 53"
    using assms(1) by (auto simp: record_size_def next_record_def kJournalRecordHeaderBytes_def)
  have h: "jl_handle j = Some \<lparr>fh_file = Journal_File, fh_read_only = False\<rparr>"
    using assms(2) by (simp add: sample_journal_facts)
  show ?thesis
    using append_done [of j _ payload ty toy_hash d, OF h assms(3) _ _ _ file_write_quiet file_flush_quiet]
      assms size by (auto simp: default_bounds)
qed

lemma sample_appends:
  assumes "quiet d"
  obtains j' d' where "append_all toy_hash [(Journal_Lease, [7]), (Journal_Policy, [])]
      sample_journal d = (success, j', d')"
proof -
  have "\<exists>j' d'. append_all toy_hash [(Journal_Lease, [7]), (Journal_Policy, [])]
      sample_journal d = (success, j', d')" if quiet: "quiet d"
  proof -
    have start: "jv_writable (jl_recovery sample_journal)" "jl_next_sequence sample_journal < u64_max"
      using sample_journal_facts(1,6) by (simp_all add: journal_at_def u64_max_def)
    obtain j1 d1 where one: "journal_append toy_hash Journal_Lease [7] sample_journal d =
          (success, j1, d1)" "quiet d1" "jl_handle j1 = jl_handle sample_journal"
        "jl_recovery j1 = jl_recovery sample_journal" "jl_options j1 = default_journal_options"
        "jl_size_bytes j1 \<le> 101" "jl_next_sequence j1 = 2"
      using sample_append_done [of "[7]" sample_journal d Journal_Lease] quiet start
      by (auto simp: sample_journal_facts)
    obtain j2 d2 where "journal_append toy_hash Journal_Policy [] j1 d1 = (success, j2, d2)"
      using sample_append_done [of "[]" j1 d1 Journal_Policy] one start
      by (auto simp: u64_max_def)
    with one show ?thesis by simp
  qed
  with that assms show thesis by blast
qed

lemma appends_are_recovered_witness:
  "\<exists>j d0 j' d' j''.
     append_all toy_hash [(Journal_Lease, [7]), (Journal_Policy, [])] j d0 = (success, j', d') \<and>
     journal_open toy_hash Open_OpenOrCreateReadWrite default_journal_options d' = (Inr j'', d') \<and>
     journal_load 262144 1048576 j'' d' =
       (Inr [\<lparr>jr_type = Journal_Lease, jr_sequence = 1, jr_payload = [7]\<rparr>,
             \<lparr>jr_type = Journal_Policy, jr_sequence = 2, jr_payload = []\<rparr>], d')"
proof -
  let ?d = "\<lparr>dk_files = (\<lambda>_. None), dk_events = []\<rparr> :: disk"
  have quiet: "quiet ?d" by (simp add: quiet_def)
  have opened: "journal_open toy_hash Open_OpenOrCreateReadWrite default_journal_options ?d =
      (Inr sample_journal, set_contents Journal_File (journal_file toy_hash []) ?d)"
    using quiet
    by (simp add: journal_open_def open_fresh_def quiet_simps journal_file_def splice_def
        sample_journal_def)
  obtain j' d' where run: "append_all toy_hash [(Journal_Lease, [7]), (Journal_Policy, [])]
      sample_journal (set_contents Journal_File (journal_file toy_hash []) ?d) = (success, j', d')"
    using sample_appends quiet by (metis quiet_set_contents)
  from appends_are_recovered [OF quiet _ _ _ _ _ opened run]
  show ?thesis using run by (fastforce simp: default_bounds journal_types_def)
qed

lemma compaction_atomic_witness:
  "\<exists>c j' d'. journal_compact toy_hash [\<lparr>jr_type = Journal_Lease, jr_sequence = 9, jr_payload = [7]\<rparr>]
       sample_journal (faulty 3 sample_disk) = (c, j', d') \<and>
     dk_files d' Journal_File \<in> {Some (journal_file toy_hash []),
       Some (journal_file toy_hash [\<lparr>jr_type = Journal_Lease, jr_sequence = 1, jr_payload = [7]\<rparr>])}"
proof -
  let ?rs = "[\<lparr>jr_type = Journal_Lease, jr_sequence = 9, jr_payload = [7]\<rparr>]"
  obtain c j' d' where run: "journal_compact toy_hash ?rs sample_journal (faulty 3 sample_disk) =
      (c, j', d')" by (cases "journal_compact toy_hash ?rs sample_journal (faulty 3 sample_disk)") auto
  have "dk_files (faulty 3 sample_disk) Journal_File = Some (journal_file toy_hash [])"
    by (simp add: faulty_def sample_journal_facts)
  from compaction_atomic [OF this _ _ run] show ?thesis
    unfolding run
    by (auto simp: sample_journal_facts default_bounds good_record_def journal_types_def)
qed

lemma recovered_history_is_sealed_witness:
  "\<exists>j head vrs. journal_open toy_hash Open_ReadOnlyExisting default_journal_options sample_disk =
       (Inr j, sample_disk) \<and>
     journal_file toy_hash [] = head @ encode_sealed toy_hash vrs \<and> vrs = []"
proof -
  have history: "good_history default_journal_options []" by (simp add: good_history_def)
  obtain j where j: "journal_open toy_hash Open_ReadOnlyExisting default_journal_options sample_disk =
      (Inr j, sample_disk)" "jv_good_bytes (jl_recovery j) = length (journal_file toy_hash [])"
      "jv_record_count (jl_recovery j) = 0"
    using open_journal_file [OF sample_journal_facts(4,3) history, of Open_ReadOnlyExisting] by auto
  have "journal_file toy_hash [] \<noteq> []" "jv_good_bytes (jl_recovery j) \<noteq> 0"
    using j(2) length_journal_file [of toy_hash "[]"] by (auto simp: kJournalHeaderBytes_def)
  from recovered_history_is_sealed [OF sample_journal_facts(4,3) this(1) _ j(1) this(2)]
  show ?thesis using j by fastforce
qed

lemma append_after_failed_append_corrupts_witness:
  "\<exists>c1 j1 d1 c2 j2 d2 j3.
     journal_append toy_hash Journal_Artifact (replicate 120 0) sample_journal (faulty 136 sample_disk) =
       (c1, j1, d1) \<and>
     journal_append toy_hash Journal_Artifact [] j1 d1 = (c2, j2, d2) \<and> c2 = success \<and>
     journal_open toy_hash Open_OpenOrCreateReadWrite default_journal_options d2 = (Inr j3, d2) \<and>
     \<not> jl_writable j3"
proof -
  obtain c1 j1 d1 where one: "journal_append toy_hash Journal_Artifact (replicate 120 0) sample_journal
      (faulty 136 sample_disk) = (c1, j1, d1)"
    by (cases "journal_append toy_hash Journal_Artifact (replicate 120 0) sample_journal
      (faulty 136 sample_disk)") auto
  obtain c2 j2 d2 where two: "journal_append toy_hash Journal_Artifact [] j1 d1 = (c2, j2, d2)"
    by (cases "journal_append toy_hash Journal_Artifact [] j1 d1") auto
  have rest: "drop (52 + length []) (take 136 (make_record_bytes toy_hash
      (next_record Journal_Artifact (replicate 120 0) sample_journal))) = replicate 84 0"
    by (simp add: make_record_bytes_def record_front_def next_record_def kJournalRecordHeaderBytes_def)
  have zero: "load_u32_le (replicate 84 0) = 0" "load_u32_le (replicate 36 0) = 0"
    by (simp_all add: load_u32_le_def numeral_eq_Suc)
  from append_after_failed_append_corrupts [OF sample_journal_facts(1,3) _ _ _ _ _ _ _ one two rest [symmetric]]
  show ?thesis using one two
    by (fastforce simp: sample_journal_facts default_bounds journal_types_def last_sequence_def
        u64_max_def zero kRecordTrailerMagicValue_def)
qed

end
