(* ===== verification/Journal_Capacity.thy ===== *)
theory Journal_Capacity
  imports Journal_Recovery
begin

text \<open>
  The journal beyond its record bound: an append does not count records, so a journal can grow past
  \<^verbatim>\<open>max_records\<close>, and then it opens read-only. \<open>journal_holds\<close> is the state of an open journal without
  the bound on the number of records, which is what appends keep.
\<close>

definition widen :: "nat \<Rightarrow> Journal \<Rightarrow> Journal" where
  "widen n j = j\<lparr>jl_options := (jl_options j)\<lparr>jo_max_records := n\<rparr>\<rparr>"

definition ordered_history :: "JournalOptions \<Rightarrow> JournalRecord list \<Rightarrow> bool" where
  "ordered_history options rs \<longleftrightarrow>
     (\<forall>r \<in> set rs. good_record options r) \<and> sorted_wrt (<) (map jr_sequence rs)"

definition journal_holds :: "(bytes \<Rightarrow> Digest) \<Rightarrow> JournalRecord list \<Rightarrow> Journal \<Rightarrow> bool" where
  "journal_holds H rs j \<longleftrightarrow>
     jl_handle j = Some \<lparr>fh_file = Journal_File, fh_read_only = False\<rparr> \<and>
     jv_writable (jl_recovery j) \<and> jl_size_bytes j = length (journal_file H rs) \<and>
     jl_next_sequence j = last_sequence rs + 1 \<and> ordered_history (jl_options j) rs"

lemma good_history_ordered:
  "good_history options rs \<longleftrightarrow> ordered_history options rs \<and> length rs \<le> jo_max_records options"
  by (auto simp: good_history_def ordered_history_def)

lemma journal_at_holds:
  "journal_at H rs j \<longleftrightarrow> journal_holds H rs j \<and> length rs \<le> jo_max_records (jl_options j)"
  by (auto simp: journal_at_def journal_holds_def good_history_ordered)

lemma journal_holds_widen:
  "journal_holds H rs j \<longleftrightarrow> journal_at H rs (widen (max (length rs) n) j)"
  by (auto simp: journal_at_def journal_holds_def good_history_ordered ordered_history_def widen_def
      good_record_def)

lemma append_widen:
  "journal_append H ty payload (widen n j) d =
     (case journal_append H ty payload j d of (c, j', d') \<Rightarrow> (c, widen n j', d'))"
  by (cases "jl_handle j")
    (auto simp: journal_append_def widen_def Let_def io_case_def
      split: option.splits prod.splits sum.splits)

lemma append_holds:
  assumes "quiet d" "journal_holds H rs j" "dk_files d Journal_File = Some (journal_file H rs)"
    and "ty \<in> set journal_types" "last_sequence rs < u64_max"
    and "journal_append H ty payload j d = (success, j', d')"
  shows "quiet d' \<and>
    dk_files d' Journal_File = Some (journal_file H (rs @ [next_record ty payload j])) \<and>
    journal_holds H (rs @ [next_record ty payload j]) j' \<and> jl_options j' = jl_options j"
proof -
  let ?n = "Suc (length rs)"
  have wide: "journal_at H rs (widen ?n j)"
    using journal_holds_widen [of H rs j ?n] assms(2) by (simp add: max_def)
  have run: "journal_append H ty payload (widen ?n j) d = (success, widen ?n j', d')"
    by (simp add: append_widen assms(6))
  have same: "next_record ty payload (widen ?n j) = next_record ty payload j"
    by (simp add: next_record_def widen_def)
  have room: "length rs < jo_max_records (jl_options (widen ?n j))" by (simp add: widen_def)
  have result: "quiet d' \<and>
      dk_files d' Journal_File = Some (journal_file H (rs @ [next_record ty payload j])) \<and>
      journal_at H (rs @ [next_record ty payload j]) (widen ?n j') \<and>
      jl_options (widen ?n j') = jl_options (widen ?n j)"
    using append_quiet_ok [OF assms(1) wide assms(3,4,5) room run] unfolding same .
  have "jl_options j' = jl_options j"
    using assms(6) by (auto simp: journal_append_def Let_def io_case_def
        split: option.splits if_splits prod.splits sum.splits)
  with result journal_holds_widen [of H "rs @ [next_record ty payload j]" j' ?n]
  show ?thesis by (simp add: max_def)
qed

lemma append_failed_quiet:
  assumes "quiet d" "journal_holds H rs j" "last_sequence rs + 1 < u64_max"
    and "journal_append H ty payload j d = (Inl s, j', d')"
  shows "j' = j \<and> d' = d"
proof -
  from assms(2) have h: "jl_handle j = Some \<lparr>fh_file = Journal_File, fh_read_only = False\<rparr>"
      and next_seq: "jl_next_sequence j = last_sequence rs + 1"
    by (auto simp: journal_holds_def)
  from order.strict_implies_not_eq [OF assms(3)] next_seq
  have "checked_inc_u64 (jl_next_sequence j) \<noteq> None" by (simp add: checked_inc_u64_def)
  with assms(1,4) h show ?thesis
    by (auto simp: journal_append_def Let_def file_write_quiet file_flush_quiet
        split: option.splits if_splits)
qed

lemma open_overfull_journal:
  assumes "quiet d" "dk_files d Journal_File = Some (journal_file H rs)"
    and "ordered_history options rs" "jo_max_records options < length rs"
  shows "\<exists>j. journal_open H Open_OpenOrCreateReadWrite options d = (Inr j, d) \<and>
    jv_outcome (jl_recovery j) = Recovery_BoundsExceeded \<and> \<not> jv_writable (jl_recovery j)"
proof -
  let ?m = "jo_max_records options"
  let ?h = "\<lparr>fh_file = Journal_File, fh_read_only = False\<rparr>"
  define some rest where "some = take ?m rs" and "rest = drop ?m rs"
  have rs: "rs = some @ rest" "length some = ?m" "rest \<noteq> []"
    using assms(4) by (simp_all add: some_def rest_def)
  have good: "good_history options some"
    using assms(3) rs(1,2) by (auto simp: good_history_ordered ordered_history_def sorted_wrt_append)
  let ?st = "scan_of False some"
  let ?over = "refuse_record Recovery_BoundsExceeded
      ''journal holds more records than the configured bound'' ?st"
  have bytes: "journal_file H rs = journal_file H some @ encode_records H rest"
    by (simp add: journal_file_def rs(1))
  have "0 < length (encode_records H rest)"
    using rs(3) by (cases rest) (simp_all add: add_pos_nonneg)
  then have below: "ss_offset ?st < length (journal_file H some @ encode_records H rest)"
    by (simp add: length_journal_file)
  have "scan_record H options ?h (length (journal_file H some @ encode_records H rest)) ?st d =
      (Inr (?over, False), d)"
    using rs(2) by (simp add: scan_record_def)
  then have "scan_loop H options ?h (length (journal_file H some @ encode_records H rest)) ?st d =
      (Inr ?over, d)"
    using below by (subst scan_loop.simps) simp
  then have "journal_open H Open_OpenOrCreateReadWrite options d =
      finish_open ?h options (length (journal_file H some @ encode_records H rest)) ?over d"
    using open_journal_prefix [of d H some "encode_records H rest" options
        Open_OpenOrCreateReadWrite ?h] assms(1,2) bytes good by simp
  then show ?thesis
    by (auto simp: finish_open_def Let_def refuse_record_def scan_stop_def)
qed

text \<open>
  C40: a journal beyond its bound. A file of more records than \<^verbatim>\<open>max_records\<close>, each one complete and
  verified, opens as exceeding the bound and not writable.
\<close>

theorem overfull_journal_is_not_writable:
  assumes "quiet d" "dk_files d Journal_File = Some (journal_file H rs)"
    and "ordered_history options rs" "jo_max_records options < length rs"
  shows "\<exists>j. journal_open H Open_OpenOrCreateReadWrite options d = (Inr j, d) \<and>
    jv_outcome (jl_recovery j) = Recovery_BoundsExceeded \<and> \<not> jl_writable j"
  using open_overfull_journal [OF assms] by (auto simp: jl_writable_def)

lemma overfull_journal_is_not_writable_witness:
  "\<exists>j. journal_open toy_hash Open_OpenOrCreateReadWrite (default_journal_options\<lparr>jo_max_records := 0\<rparr>)
         (set_contents Journal_File (journal_file toy_hash
            [\<lparr>jr_type = Journal_Policy, jr_sequence = 1, jr_payload = []\<rparr>]) sample_disk) =
       (Inr j, set_contents Journal_File (journal_file toy_hash
            [\<lparr>jr_type = Journal_Policy, jr_sequence = 1, jr_payload = []\<rparr>]) sample_disk) \<and>
       \<not> jl_writable j"
  using overfull_journal_is_not_writable [of "set_contents Journal_File (journal_file toy_hash
      [\<lparr>jr_type = Journal_Policy, jr_sequence = 1, jr_payload = []\<rparr>]) sample_disk" toy_hash
      "[\<lparr>jr_type = Journal_Policy, jr_sequence = 1, jr_payload = []\<rparr>]"
      "default_journal_options\<lparr>jo_max_records := 0\<rparr>"]
  by (auto simp: sample_journal_facts ordered_history_def good_record_def journal_types_def)

end
