(* ===== verification/Frames.thy ===== *)
theory Frames
  imports Codec
begin

text \<open>
  The frames of the wire protocol (the first half of \<^verbatim>\<open>protocol.cpp\<close>) and the three socket
  operations they use (\<^verbatim>\<open>net.cpp\<close>): message types, writing a message and reading one. \<open>H\<close> is the
  digest function (SHA-256 in the program). The lemmas show that what is written is what is read,
  that an accepted frame carries a matching digest and respects the bound of the reader, and that
  any cut of a frame is refused.
\<close>

section \<open>Sockets\<close>

text \<open>
  A connected socket: the bytes the peer sends, how its stream ends, the bytes that were sent to the
  peer, and how many more the operating system takes before a \<^verbatim>\<open>send\<close> fails, with its error text (\<open>None\<close> when
  none does).
  A receive that is handed fewer bytes than asked for is repeated by the code, so that only the
  order of the bytes matters.
\<close>

datatype StreamEnd = Peer_Closed | Receive_Failed string

record Socket =
  sk_in :: bytes
  sk_end :: StreamEnd
  sk_out :: bytes
  sk_room :: "(nat \<times> string) option"

definition recv_exact :: "nat \<Rightarrow> Socket \<Rightarrow> bytes result \<times> Socket" where
  "recv_exact n s =
     (let received = length (sk_in s) in
      if n \<le> received then (Inr (take n (sk_in s)), s\<lparr>sk_in := drop n (sk_in s)\<rparr>)
      else
        ((case sk_end s of
            Peer_Closed \<Rightarrow> Fail Error_Truncated
              (''peer closed the connection after '' @ nat_to_string received @ '' of '' @
               nat_to_string n @ '' bytes'')
          | Receive_Failed e \<Rightarrow> Fail Error_NetworkError (''recv failed: '' @ e)),
         s\<lparr>sk_in := []\<rparr>))"

definition send_all :: "bytes \<Rightarrow> Socket \<Rightarrow> check \<times> Socket" where
  "send_all data s =
     (case sk_room s of
        None \<Rightarrow> (success, s\<lparr>sk_out := sk_out s @ data\<rparr>)
      | Some (room, e) \<Rightarrow>
          if length data \<le> room then
            (success, s\<lparr>sk_out := sk_out s @ data, sk_room := Some (room - length data, e)\<rparr>)
          else
            (Fail Error_NetworkError (''send failed: '' @ e),
             s\<lparr>sk_out := sk_out s @ take room data, sk_room := Some (0, e)\<rparr>))"

section \<open>Message types\<close>

definition kFrameMagic :: u32 where "kFrameMagic = 0x46454446"
definition kFrameHeaderBytes :: nat where [ff_bounds]: "kFrameHeaderBytes = 16"
definition kFrameTrailerBytes :: nat where [ff_bounds]: "kFrameTrailerBytes = 32"
definition kMaxFramePayloadBytes :: u32 where "kMaxFramePayloadBytes = 1048576"
definition kWireProtocolVersion :: u16 where "kWireProtocolVersion = 1"

text \<open>
  The enumeration has 16 bits and leaves gaps; \<open>Message_Unlisted\<close> are the values that name no
  enumerator. The reader lets the values 7, 8 and 9 through.
\<close>

datatype MessageType =
    Message_Hello | Message_Welcome | Message_ErrorMessage | Message_Ping | Message_Pong
  | Message_Goodbye | Message_SubmitArtifact | Message_SubmitArtifactResult | Message_QueryDigest
  | Message_DigestValue | Message_QueryState | Message_StateValue | Message_AuthorityQuery
  | Message_AuthorityResult | Message_IssueLease | Message_LeaseResult | Message_RevokeLease
  | Message_ReportObservation | Message_AdvanceTime | Message_FenceMember | Message_AdvanceEpoch
  | Message_CompleteReconciliation | Message_QueryArtifacts | Message_ArtifactListValue
  | Message_QueryLeases | Message_LeaseListValue | Message_StatsQuery | Message_StatsValue
  | Message_SimpleResult | Message_ProbeRequest | Message_ProbeResult | Message_Unlisted u16

definition message_types :: "(u16 \<times> MessageType) list" where
  "message_types =
     [(1, Message_Hello), (2, Message_Welcome), (3, Message_ErrorMessage), (4, Message_Ping),
      (5, Message_Pong), (6, Message_Goodbye), (10, Message_SubmitArtifact),
      (11, Message_SubmitArtifactResult), (12, Message_QueryDigest), (13, Message_DigestValue),
      (14, Message_QueryState), (15, Message_StateValue), (16, Message_AuthorityQuery),
      (17, Message_AuthorityResult), (18, Message_IssueLease), (19, Message_LeaseResult),
      (20, Message_RevokeLease), (21, Message_ReportObservation), (22, Message_AdvanceTime),
      (23, Message_FenceMember), (24, Message_AdvanceEpoch), (25, Message_CompleteReconciliation),
      (26, Message_QueryArtifacts), (27, Message_ArtifactListValue), (28, Message_QueryLeases),
      (29, Message_LeaseListValue), (30, Message_StatsQuery), (31, Message_StatsValue),
      (32, Message_SimpleResult), (33, Message_ProbeRequest), (34, Message_ProbeResult)]"

definition message_type_wire :: "MessageType \<Rightarrow> u16" where
  "message_type_wire t =
     (case t of Message_Unlisted v \<Rightarrow> v
      | _ \<Rightarrow> (case map_of (map (\<lambda>(v, t). (t, v)) message_types) t of Some v \<Rightarrow> v | None \<Rightarrow> 0))"

definition message_type_of_wire :: "u16 \<Rightarrow> MessageType" where
  "message_type_of_wire v =
     (case map_of message_types v of Some t \<Rightarrow> t | None \<Rightarrow> Message_Unlisted v)"

definition kMaxMessageType :: u16 where
  "kMaxMessageType = message_type_wire Message_ProbeResult"

definition message_type_to_string :: "MessageType \<Rightarrow> string" where
  "message_type_to_string t = (case t of
     Message_Hello \<Rightarrow> ''hello'' | Message_Welcome \<Rightarrow> ''welcome'' | Message_ErrorMessage \<Rightarrow> ''error''
   | Message_Ping \<Rightarrow> ''ping'' | Message_Pong \<Rightarrow> ''pong'' | Message_Goodbye \<Rightarrow> ''goodbye''
   | Message_SubmitArtifact \<Rightarrow> ''submit-artifact''
   | Message_SubmitArtifactResult \<Rightarrow> ''submit-artifact-result''
   | Message_QueryDigest \<Rightarrow> ''query-digest'' | Message_DigestValue \<Rightarrow> ''digest-value''
   | Message_QueryState \<Rightarrow> ''query-state'' | Message_StateValue \<Rightarrow> ''state-value''
   | Message_AuthorityQuery \<Rightarrow> ''authority-query'' | Message_AuthorityResult \<Rightarrow> ''authority-result''
   | Message_IssueLease \<Rightarrow> ''issue-lease'' | Message_LeaseResult \<Rightarrow> ''lease-result''
   | Message_RevokeLease \<Rightarrow> ''revoke-lease'' | Message_ReportObservation \<Rightarrow> ''report-observation''
   | Message_AdvanceTime \<Rightarrow> ''advance-time'' | Message_FenceMember \<Rightarrow> ''fence-member''
   | Message_AdvanceEpoch \<Rightarrow> ''advance-epoch''
   | Message_CompleteReconciliation \<Rightarrow> ''complete-reconciliation''
   | Message_QueryArtifacts \<Rightarrow> ''query-artifacts''
   | Message_ArtifactListValue \<Rightarrow> ''artifact-list-value''
   | Message_QueryLeases \<Rightarrow> ''query-leases'' | Message_LeaseListValue \<Rightarrow> ''lease-list-value''
   | Message_StatsQuery \<Rightarrow> ''stats-query'' | Message_StatsValue \<Rightarrow> ''stats-value''
   | Message_SimpleResult \<Rightarrow> ''simple-result'' | Message_ProbeRequest \<Rightarrow> ''probe-request''
   | Message_ProbeResult \<Rightarrow> ''probe-result'' | Message_Unlisted _ \<Rightarrow> ''unknown'')"

text \<open>The loop over the values 1 to 34, unnamed ones included.\<close>

definition parse_message_type :: "string \<Rightarrow> MessageType option" where
  "parse_message_type str =
     find (\<lambda>t. message_type_to_string t = str)
       (map (message_type_of_wire \<circ> word_of_nat) [1 ..< Suc (unat kMaxMessageType)])"

section \<open>Frames\<close>

record Message =
  ms_type :: MessageType
  ms_payload :: bytes

text \<open>The bytes the digest of a frame covers: from the magic to the end of the payload.\<close>

definition frame_body :: "MessageType \<Rightarrow> bytes \<Rightarrow> bytes" where
  "frame_body type payload =
     store_u32_le kFrameMagic @ le_bytes 2 kWireProtocolVersion @
     le_bytes 2 (message_type_wire type) @ store_u32_le (word_of_nat (length payload)) @ payload"

definition frame_bytes :: "(bytes \<Rightarrow> Digest) \<Rightarrow> MessageType \<Rightarrow> bytes \<Rightarrow> bytes" where
  "frame_bytes H type payload =
     (let frame_length = 12 + length payload + kFrameTrailerBytes in
      store_u32_le (word_of_nat frame_length) @ frame_body type payload @
      digest_bytes (H (frame_body type payload)))"

definition write_message ::
  "(bytes \<Rightarrow> Digest) \<Rightarrow> MessageType \<Rightarrow> bytes \<Rightarrow> Socket \<Rightarrow> check \<times> Socket" where
  "write_message H type payload s =
     (if length payload > unat kMaxFramePayloadBytes then
        (Fail Error_BoundsExceeded ''outgoing payload exceeds the frame bound'', s)
      else send_all (frame_bytes H type payload) s)"

text \<open>
  The checks of a frame that was received completely; \<open>fr\<close> starts at the magic. The bound is the
  only limit of the reader.
\<close>

definition parse_frame :: "(bytes \<Rightarrow> Digest) \<Rightarrow> bytes \<Rightarrow> Message result" where
  "parse_frame H fr =
     (let version = from_le (take 2 (drop 4 fr)) :: u16;
          type_value = from_le (take 2 (drop 6 fr)) :: u16;
          payload_length = unat (load_u32_le (drop 8 fr));
          stored = from_be (take 32 (drop (12 + payload_length) fr)) :: Digest in
      if load_u32_le fr \<noteq> kFrameMagic then
        Fail Error_ProtocolViolation ''frame magic does not match''
      else if version \<noteq> kWireProtocolVersion then
        Fail Error_UnsupportedVersion
          (''frame declares protocol version '' @ word_to_string version)
      else if payload_length + 12 + kFrameTrailerBytes \<noteq> length fr then
        Fail Error_ProtocolViolation ''declared payload length does not match the frame length''
      else if stored \<noteq> H (take (12 + payload_length) fr) then
        Fail Error_ChecksumMismatch ''frame digest does not match its content''
      else if type_value < message_type_wire Message_Hello \<or> type_value > kMaxMessageType then
        Fail Error_ProtocolViolation
          (''frame declares message type '' @ word_to_string type_value @
           '' which this build does not implement'')
      else Inr \<lparr>ms_type = message_type_of_wire type_value,
                ms_payload = take payload_length (drop 12 fr)\<rparr>)"

text \<open>The sum of the bound and the overhead is one of 32-bit words.\<close>

definition read_message ::
  "(bytes \<Rightarrow> Digest) \<Rightarrow> u32 \<Rightarrow> Socket \<Rightarrow> Message result \<times> Socket" where
  "read_message H max_payload_bytes s =
     (case recv_exact 4 s of
        (Inl st, s) \<Rightarrow> (Inl st, s)
      | (Inr length_bytes, s) \<Rightarrow>
        let frame_length = load_u32_le length_bytes in
        if unat frame_length < 12 + kFrameTrailerBytes then
          (Fail Error_ProtocolViolation ''frame length is smaller than the header'', s)
        else if frame_length > max_payload_bytes + 12 + word_of_nat kFrameTrailerBytes then
          (Fail Error_BoundsExceeded ''frame length exceeds the configured bound'', s)
        else (case recv_exact (unat frame_length) s of
            (Inl st, s) \<Rightarrow> (Inl st, s)
          | (Inr fr, s) \<Rightarrow> (parse_frame H fr, s)))"

section \<open>Reading what was written\<close>

lemma message_type_values:
  "message_type_of_wire v = Message_Unlisted u \<longleftrightarrow> u = v \<and> map_of message_types v = None"
  by (auto simp: message_type_of_wire_def message_types_def)

lemma message_type_wire_of_wire [simp]: "message_type_wire (message_type_of_wire v) = v"
proof (cases "map_of message_types v")
  case None
  then show ?thesis by (simp add: message_type_of_wire_def message_type_wire_def)
next
  case (Some t)
  then have "(v, t) \<in> set message_types" by (rule map_of_SomeD)
  then show ?thesis
    unfolding message_types_def by (auto simp: message_type_of_wire_def message_type_wire_def message_types_def)
qed

text \<open>A type that names its value: every enumerator, and the unlisted values outside the list.\<close>

definition proper_type :: "MessageType \<Rightarrow> bool" where
  "proper_type t \<longleftrightarrow> message_type_of_wire (message_type_wire t) = t"

lemma proper_of_wire [simp]: "proper_type (message_type_of_wire v)"
  by (simp add: proper_type_def)

text \<open>The types the reader lets through.\<close>

definition accepted_type :: "MessageType \<Rightarrow> bool" where
  "accepted_type t \<longleftrightarrow>
     proper_type t \<and> message_type_wire Message_Hello \<le> message_type_wire t \<and>
     message_type_wire t \<le> kMaxMessageType"

lemma length_frame_body [simp]: "length (frame_body t p) = 12 + length p"
  by (simp add: frame_body_def)

lemma length_frame_bytes [simp]: "length (frame_bytes H t p) = 48 + length p"
  by (simp add: frame_bytes_def Let_def ff_bounds)

lemma frame_body_fields:
  "load_u32_le (frame_body t p @ rest) = kFrameMagic"
  "from_le (take 2 (drop 4 (frame_body t p @ rest))) = kWireProtocolVersion"
  "from_le (take 2 (drop 6 (frame_body t p @ rest))) = message_type_wire t"
  "load_u32_le (drop 8 (frame_body t p @ rest)) = word_of_nat (length p)"
  "drop 12 (frame_body t p @ rest) = p @ rest"
  by (simp_all add: frame_body_def from_le_le_bytes)

lemma parse_written_frame:
  assumes "length p + 44 < 4294967296" "accepted_type t"
  shows "parse_frame H (frame_body t p @ digest_bytes (H (frame_body t p))) =
    Inr \<lparr>ms_type = t, ms_payload = p\<rparr>"
proof -
  let ?b = "frame_body t p" and ?fr = "frame_body t p @ digest_bytes (H (frame_body t p))"
  have len: "unat (word_of_nat (length p) :: u32) = length p" using assms(1) by (simp add: unat_of_nat)
  have tail: "drop (12 + length p) ?fr = digest_bytes (H ?b)" "take (12 + length p) ?fr = ?b"
    by simp_all
  have "from_be (digest_bytes (H ?b)) = H ?b" by (simp add: from_be_be_bytes)
  then show ?thesis
    using assms(2)
    unfolding parse_frame_def Let_def frame_body_fields len tail
    by (auto simp: ff_bounds accepted_type_def proper_type_def)
qed

text \<open>What a complete frame must look like to be accepted.\<close>




lemma parse_frame_Inr:
  assumes "parse_frame H fr = Inr m"
  shows "fr = frame_body (ms_type m) (ms_payload m) @
      digest_bytes (H (frame_body (ms_type m) (ms_payload m))) \<and> accepted_type (ms_type m)"
proof -
  define n where "n = unat (load_u32_le (drop 8 fr))"
  define v :: u16 where "v = from_le (take 2 (drop 6 fr))"
  from assms have c: "load_u32_le fr = kFrameMagic" "from_le (take 2 (drop 4 fr)) = kWireProtocolVersion"
      "n + 12 + 32 = length fr" "from_be (take 32 (drop (12 + n) fr)) = H (take (12 + n) fr)"
      "message_type_wire Message_Hello \<le> v" "v \<le> kMaxMessageType"
    and m: "m = \<lparr>ms_type = message_type_of_wire v, ms_payload = take n (drop 12 fr)\<rparr>"
    by (auto simp: parse_frame_def Let_def n_def v_def ff_bounds split: if_splits)
  define p where "p = take n (drop 12 fr)"
  have len: "length p = n" "n < 4294967296"
    using c(3) unsigned_less [of "load_u32_le (drop 8 fr)"] by (simp_all add: p_def n_def)
  have words: "take 4 fr = store_u32_le kFrameMagic"
    "take 2 (drop 4 fr) = le_bytes 2 kWireProtocolVersion" "take 2 (drop 6 fr) = le_bytes 2 v"
    "take 4 (drop 8 fr) = store_u32_le (word_of_nat (length p))"
    using c(1,2,3) store_load_u32 [of fr] store_load_u32 [of "drop 8 fr"]
      le_bytes_from_le_n [where ?'a = 16, of "take 2 (drop 4 fr)" 2]
      le_bytes_from_le_n [where ?'a = 16, of "take 2 (drop 6 fr)" 2]
    by (simp_all add: v_def len(1)) (simp_all add: n_def)
  have add_shift: "12 + n = 4 + (2 + (2 + (4 + n)))" by simp
  have "take (12 + n) fr = take 4 fr @ take 2 (drop 4 fr) @ take 2 (drop 6 fr) @ take 4 (drop 8 fr) @ p"
    unfolding p_def by (simp only: add_shift take_add drop_drop append_assoc) simp
  then have body: "take (12 + n) fr = frame_body (message_type_of_wire v) p"
    by (simp add: words frame_body_def)
  have "take 32 (drop (12 + n) fr) = digest_bytes (H (take (12 + n) fr))"
    using c(3,4) be_bytes_from_be [where ?'a = 256, of "take 32 (drop (12 + n) fr)"]
    by simp
  moreover have "drop (12 + n) fr = take 32 (drop (12 + n) fr)" using c(3) by simp
  moreover have "fr = take (12 + n) fr @ drop (12 + n) fr" by simp
  ultimately have whole: "fr = frame_body (message_type_of_wire v) p @
      digest_bytes (H (frame_body (message_type_of_wire v) p))" by (metis body)
  have parts: "ms_type m = message_type_of_wire v" "ms_payload m = p" by (simp_all add: m p_def)
  have "accepted_type (message_type_of_wire v)" using c(5,6) by (simp add: accepted_type_def)
  then show ?thesis unfolding parts using whole by (rule conjI [rotated])
qed

text \<open>The bound of a reader leaves room for the overhead in 32 bits.\<close>

definition sane_bound :: "u32 \<Rightarrow> bool" where
  "sane_bound b \<longleftrightarrow> unat b + 44 < 4294967296"

lemma default_bound_sane [simp]: "sane_bound kMaxFramePayloadBytes"
  by (simp add: sane_bound_def kMaxFramePayloadBytes_def)

lemma bound_plus_overhead:
  "sane_bound b \<Longrightarrow> unat (b + 12 + word_of_nat kFrameTrailerBytes) = unat b + 44"
  by (simp add: sane_bound_def ff_bounds add.assoc unat_add_lem [THEN iffD1])

lemma frame_bytes_split:
  "frame_bytes H t p = store_u32_le (word_of_nat (44 + length p)) @
     (frame_body t p @ digest_bytes (H (frame_body t p)))"
  by (simp add: frame_bytes_def Let_def ff_bounds add.commute)

lemma recv_exact_append [simp]:
  "sk_in s = a @ rest \<Longrightarrow> length a = n \<Longrightarrow> recv_exact n s = (Inr a, s\<lparr>sk_in := rest\<rparr>)"
  by (simp add: recv_exact_def Let_def)

lemma recv_exact_Inr:
  "recv_exact n s = (Inr bs, s') \<Longrightarrow>
     \<exists>rest. sk_in s = bs @ rest \<and> length bs = n \<and> s' = s\<lparr>sk_in := rest\<rparr>"
  by (rule exI [of _ "drop n (sk_in s)"])
    (auto simp: recv_exact_def Let_def split: if_splits StreamEnd.splits)

lemma read_written:
  assumes "accepted_type t" "length p \<le> unat b" "sane_bound b"
    and "sk_in s = frame_bytes H t p @ rest"
  shows "read_message H b s = (Inr \<lparr>ms_type = t, ms_payload = p\<rparr>, s\<lparr>sk_in := rest\<rparr>)"
proof -
  have small: "44 + length p < 4294967296" using assms(2,3) by (simp add: sane_bound_def)
  then have len: "unat (word_of_nat (44 + length p) :: u32) = 44 + length p"
    by (simp only: unat_of_nat) simp
  have one: "recv_exact 4 s = (Inr (store_u32_le (word_of_nat (44 + length p))),
      s\<lparr>sk_in := (frame_body t p @ digest_bytes (H (frame_body t p))) @ rest\<rparr>)"
    using assms(4) by (intro recv_exact_append) (simp_all add: frame_bytes_split)
  have fits: "\<not> word_of_nat (44 + length p) > b + 12 + word_of_nat kFrameTrailerBytes"
    using assms(2) by (simp only: word_less_nat_alt bound_plus_overhead [OF assms(3)] len)
  have two: "recv_exact (44 + length p)
      (s\<lparr>sk_in := (frame_body t p @ digest_bytes (H (frame_body t p))) @ rest\<rparr>) =
      (Inr (frame_body t p @ digest_bytes (H (frame_body t p))), s\<lparr>sk_in := rest\<rparr>)"
    by (simp del: append_assoc)
  have "length p + 44 < 4294967296" using small by simp
  from parse_written_frame [OF this assms(1)] show ?thesis
    unfolding read_message_def one prod.case sum.case Let_def load_store_u32_whole len two
    using fits by (simp add: ff_bounds)
qed

lemma read_message_Inr:
  assumes "read_message H b s = (Inr m, s')" "sane_bound b"
  shows "sk_in s = frame_bytes H (ms_type m) (ms_payload m) @ sk_in s' \<and>
    s' = s\<lparr>sk_in := sk_in s'\<rparr> \<and> accepted_type (ms_type m) \<and> length (ms_payload m) \<le> unat b"
proof -
  from assms(1) obtain lb s1 fr where one: "recv_exact 4 s = (Inr lb, s1)"
    and fits: "\<not> load_u32_le lb > b + 12 + word_of_nat kFrameTrailerBytes"
    and two: "recv_exact (unat (load_u32_le lb)) s1 = (Inr fr, s')" "parse_frame H fr = Inr m"
    by (auto simp: read_message_def Let_def split: prod.splits sum.splits if_splits)
  from recv_exact_Inr [OF one] recv_exact_Inr [OF two(1)]
  have s: "sk_in s = lb @ fr @ sk_in s'" "length lb = 4" "length fr = unat (load_u32_le lb)"
      "s' = s\<lparr>sk_in := sk_in s'\<rparr>" by auto
  from parse_frame_Inr [OF two(2)] have fr: "fr = frame_body (ms_type m) (ms_payload m) @
      digest_bytes (H (frame_body (ms_type m) (ms_payload m)))" "accepted_type (ms_type m)" by auto
  then have n: "unat (load_u32_le lb) = 44 + length (ms_payload m)" using s(3) by simp
  then have "lb = store_u32_le (word_of_nat (44 + length (ms_payload m)))"
    using s(2) store_load_u32 [of lb] by (simp flip: n)
  moreover have "length (ms_payload m) \<le> unat b"
    using fits unfolding word_less_nat_alt bound_plus_overhead [OF assms(2)] n by simp
  ultimately show ?thesis using s(1,4) fr by (simp add: frame_bytes_split)
qed

section \<open>A conversation\<close>

text \<open>Sending messages one after the other until one fails, and reading until a read fails.\<close>

primrec send_messages ::
  "(bytes \<Rightarrow> Digest) \<Rightarrow> Message list \<Rightarrow> Socket \<Rightarrow> check \<times> Socket" where
  "send_messages H [] s = (success, s)"
| "send_messages H (m # ms) s =
     (case write_message H (ms_type m) (ms_payload m) s of
        (Inl e, s) \<Rightarrow> (Inl e, s)
      | (Inr _, s) \<Rightarrow> send_messages H ms s)"

lemma read_message_shorter:
  "read_message H b s = (Inr m, s') \<Longrightarrow> length (sk_in s') < length (sk_in s)"
  by (auto simp: read_message_def Let_def recv_exact_def ff_bounds
      split: prod.splits sum.splits if_splits StreamEnd.splits)

function read_messages ::
  "(bytes \<Rightarrow> Digest) \<Rightarrow> u32 \<Rightarrow> Socket \<Rightarrow> Message list \<times> Status" where
  "read_messages H b s =
     (case read_message H b s of
        (Inl e, _) \<Rightarrow> ([], e)
      | (Inr m, s) \<Rightarrow> (case read_messages H b s of (ms, e) \<Rightarrow> (m # ms, e)))"
  by pat_completeness auto
termination
  by (relation "measure (\<lambda>(_, _, s). length (sk_in s))") (auto dest: read_message_shorter [OF sym])

declare read_messages.simps [simp del]

abbreviation message_bytes :: "(bytes \<Rightarrow> Digest) \<Rightarrow> Message \<Rightarrow> bytes" where
  "message_bytes H m \<equiv> frame_bytes H (ms_type m) (ms_payload m)"

definition sendable :: "Message \<Rightarrow> bool" where
  "sendable m \<longleftrightarrow> length (ms_payload m) \<le> unat kMaxFramePayloadBytes"

lemma write_message_cases:
  assumes "write_message H (ms_type m) (ms_payload m) s = (w, s')"
  obtains (ok) "w = success" "sendable m" "sk_out s' = sk_out s @ message_bytes H m"
    | (cut) e j where "w = Inl e" "sendable m" "j < length (message_bytes H m)"
        "sk_out s' = sk_out s @ take j (message_bytes H m)"
    | (refused) e where "w = Inl e" "sk_out s' = sk_out s"
proof (cases "sendable m")
  case False
  then show ?thesis using assms refused by (auto simp: write_message_def sendable_def)
next
  case True
  then have sent: "send_all (message_bytes H m) s = (w, s')"
    using assms by (simp add: write_message_def sendable_def)
  show ?thesis
  proof (cases "\<exists>room e. sk_room s = Some (room, e) \<and> room < length (message_bytes H m)")
    case True
    then obtain room e where "sk_room s = Some (room, e)" "room < length (message_bytes H m)" by blast
    with sent \<open>sendable m\<close> cut [of _ room] show ?thesis by (auto simp: send_all_def)
  next
    case False
    with sent \<open>sendable m\<close> ok show ?thesis
      by (auto simp: send_all_def split: option.splits if_splits)
  qed
qed

lemma send_messages_prefix:
  assumes "send_messages H ms s = (r, s')"
  shows "\<exists>n part. sk_out s' = sk_out s @ concat (map (message_bytes H) (take n ms)) @ part \<and>
    list_all sendable (take n ms) \<and> (r = success \<longrightarrow> n = length ms \<and> part = []) \<and>
    (part \<noteq> [] \<longrightarrow> n < length ms \<and> sendable (ms ! n) \<and>
       (\<exists>j < length (message_bytes H (ms ! n)). part = take j (message_bytes H (ms ! n))))"
  using assms
proof (induction ms arbitrary: s)
  case Nil
  then show ?case by (intro exI [of _ 0] exI [of _ "[]"]) auto
next
  case (Cons m ms)
  obtain w s1 where one: "write_message H (ms_type m) (ms_payload m) s = (w, s1)" by fastforce
  from one show ?case
  proof (cases rule: write_message_cases)
    case ok
    with Cons.prems one have "send_messages H ms s1 = (r, s')" by simp
    from Cons.IH [OF this] obtain n part where
      "sk_out s' = sk_out s1 @ concat (map (message_bytes H) (take n ms)) @ part"
      "list_all sendable (take n ms)" "r = success \<longrightarrow> n = length ms \<and> part = []"
      "part \<noteq> [] \<longrightarrow> n < length ms \<and> sendable (ms ! n) \<and>
       (\<exists>j < length (message_bytes H (ms ! n)). part = take j (message_bytes H (ms ! n)))"
      by blast
    with ok show ?thesis by (intro exI [of _ "Suc n"] exI [of _ part]) simp
  next
    case (cut e j)
    with Cons.prems one show ?thesis
      by (intro exI [of _ 0] exI [of _ "take j (message_bytes H m)"]) auto
  next
    case (refused e)
    with Cons.prems one show ?thesis by (intro exI [of _ 0] exI [of _ "[]"]) auto
  qed
qed

lemma read_cut:
  assumes "sendable m" "sk_in s = take j (message_bytes H m)" "j < length (message_bytes H m)"
    and "sk_end s = Peer_Closed"
  shows "\<exists>e s'. read_message H kMaxFramePayloadBytes s = (Inl e, s') \<and> st_code e = Error_Truncated"
proof (cases "j < 4")
  case True
  with assms(2,4) show ?thesis
    by (auto simp: read_message_def recv_exact_def Let_def make_status_def)
next
  case False
  let ?n = "44 + length (ms_payload m)"
  let ?fr = "frame_body (ms_type m) (ms_payload m) @
    digest_bytes (H (frame_body (ms_type m) (ms_payload m)))"
  have small: "?n < 4294967296" using assms(1) by (simp add: sendable_def kMaxFramePayloadBytes_def)
  then have len: "unat (word_of_nat ?n :: u32) = ?n" by (simp only: unat_of_nat) simp
  have one: "recv_exact 4 s = (Inr (store_u32_le (word_of_nat ?n)), s\<lparr>sk_in := take (j - 4) ?fr\<rparr>)"
    using False assms(2) by (intro recv_exact_append) (simp_all add: frame_bytes_split)
  have fits: "\<not> word_of_nat ?n > kMaxFramePayloadBytes + 12 + word_of_nat kFrameTrailerBytes"
    using assms(1) by (simp only: word_less_nat_alt bound_plus_overhead [OF default_bound_sane] len
        sendable_def)
  show ?thesis
    using assms(3,4) fits unfolding read_message_def one prod.case sum.case Let_def
      load_store_u32_whole len
    by (auto simp: recv_exact_def Let_def make_status_def ff_bounds)
qed

lemma read_messages_of:
  assumes "list_all sendable ms" "list_all (\<lambda>m. accepted_type (ms_type m)) ms"
    and "sk_in s = concat (map (message_bytes H) ms) @ rest"
  shows "read_messages H kMaxFramePayloadBytes s =
    (case read_messages H kMaxFramePayloadBytes (s\<lparr>sk_in := rest\<rparr>) of (ms', e) \<Rightarrow> (ms @ ms', e))"
  using assms
proof (induction ms arbitrary: s)
  case Nil
  then show ?case by (cases s) (simp add: case_prod_unfold)
next
  case (Cons m ms)
  then have "read_message H kMaxFramePayloadBytes s =
      (Inr m, s\<lparr>sk_in := concat (map (message_bytes H) ms) @ rest\<rparr>)"
    using read_written [of "ms_type m" "ms_payload m" kMaxFramePayloadBytes s H]
    by (simp add: sendable_def)
  with Cons show ?case by (subst read_messages.simps) (simp add: case_prod_unfold)
qed

lemma read_messages_empty:
  "sk_in s = [] \<Longrightarrow> sk_end s = Peer_Closed \<Longrightarrow>
     \<exists>e. read_messages H b s = ([], e) \<and> st_code e = Error_Truncated"
  by (subst read_messages.simps) (simp add: read_message_def recv_exact_def Let_def make_status_def)

text \<open>
  C22: messages arrive whole, unchanged and in order. Whatever part of its messages a sender gets out
  before a send fails or a message is refused as too long, a receiver that reads until its first
  failure gets a prefix of them, all of them when every send succeeded, and then learns that the
  stream ended early.
\<close>

theorem messages_arrive_in_order:
  assumes "send_messages H ms s = (r, s')" "sk_out s = []"
    and "\<forall>m \<in> set ms. accepted_type (ms_type m)"
    and "sk_in t = sk_out s'" "sk_end t = Peer_Closed"
  shows "\<exists>n e. read_messages H kMaxFramePayloadBytes t = (take n ms, e) \<and>
    st_code e = Error_Truncated \<and> (r = success \<longrightarrow> n = length ms)"
proof -
  from send_messages_prefix [OF assms(1)] assms(2,4) obtain n part where
    stream: "sk_in t = concat (map (message_bytes H) (take n ms)) @ part"
    and ok: "list_all sendable (take n ms)" "r = success \<longrightarrow> n = length ms \<and> part = []"
    and cut: "part \<noteq> [] \<longrightarrow> n < length ms \<and> sendable (ms ! n) \<and>
       (\<exists>j < length (message_bytes H (ms ! n)). part = take j (message_bytes H (ms ! n)))"
    by auto
  have "list_all (\<lambda>m. accepted_type (ms_type m)) (take n ms)"
    using assms(3) by (auto simp: list_all_iff dest: in_set_takeD)
  note all = read_messages_of [OF ok(1) this stream]
  have "\<exists>e. read_messages H kMaxFramePayloadBytes (t\<lparr>sk_in := part\<rparr>) = ([], e) \<and>
      st_code e = Error_Truncated"
  proof (cases "part = []")
    case True
    then show ?thesis using assms(5) by (intro read_messages_empty) simp_all
  next
    case False
    with cut obtain j where "sendable (ms ! n)" "part = take j (message_bytes H (ms ! n))"
      "j < length (message_bytes H (ms ! n))" by blast
    with read_cut [of "ms ! n" "t\<lparr>sk_in := part\<rparr>" j H] assms(5) show ?thesis
      by (subst read_messages.simps) auto
  qed
  with all ok(2) show ?thesis by (intro exI [of _ n]) auto
qed

text \<open>
  Reading accepts exactly what writing produces. A reader with a sane bound returns a message if
  and only if its input starts with the very bytes \<^verbatim>\<open>write_message\<close> sends for that message, digest
  included, of a type from hello to probe-result and a payload within the bound; it consumes those
  bytes and no more.
\<close>

theorem read_accepts_exactly_written:
  assumes "sane_bound b"
  shows "read_message H b s = (Inr m, s') \<longleftrightarrow>
    sk_in s = frame_bytes H (ms_type m) (ms_payload m) @ sk_in s' \<and> s' = s\<lparr>sk_in := sk_in s'\<rparr> \<and>
    accepted_type (ms_type m) \<and> length (ms_payload m) \<le> unat b"
proof
  assume *: "sk_in s = frame_bytes H (ms_type m) (ms_payload m) @ sk_in s' \<and>
    s' = s\<lparr>sk_in := sk_in s'\<rparr> \<and> accepted_type (ms_type m) \<and> length (ms_payload m) \<le> unat b"
  then have "read_message H b s =
      (Inr \<lparr>ms_type = ms_type m, ms_payload = ms_payload m\<rparr>, s\<lparr>sk_in := sk_in s'\<rparr>)"
    using assms by (intro read_written) simp_all
  with * show "read_message H b s = (Inr m, s')" by simp
qed (rule read_message_Inr [OF _ assms])

definition sample_messages :: "Message list" where
  "sample_messages =
     [\<lparr>ms_type = Message_Ping, ms_payload = [1]\<rparr>, \<lparr>ms_type = Message_Goodbye, ms_payload = []\<rparr>]"

definition sample_socket :: "bytes \<Rightarrow> (nat \<times> string) option \<Rightarrow> Socket" where
  "sample_socket bs room =
     \<lparr>sk_in = bs, sk_end = Peer_Closed, sk_out = [], sk_room = room\<rparr>"

text \<open>The connection breaks after 60 bytes, in the middle of the second message.\<close>

lemma messages_arrive_in_order_witness:
  "\<exists>n e. read_messages (\<lambda>_. 7) kMaxFramePayloadBytes
       (sample_socket (sk_out (snd (send_messages (\<lambda>_. 7) sample_messages
          (sample_socket [] (Some (60, ''EPIPE'')))))) None) =
     (take n sample_messages, e) \<and> st_code e = Error_Truncated"
proof -
  let ?sent = "send_messages (\<lambda>_. 7) sample_messages (sample_socket [] (Some (60, ''EPIPE'')))"
  have "?sent = (fst ?sent, snd ?sent)" by simp
  moreover have "\<forall>m \<in> set sample_messages. accepted_type (ms_type m)"
    by (simp add: sample_messages_def accepted_type_def proper_type_def message_type_wire_def
        message_types_def message_type_of_wire_def kMaxMessageType_def)
  ultimately show ?thesis
    using messages_arrive_in_order [of "\<lambda>_. 7" sample_messages "sample_socket [] (Some (60, ''EPIPE''))"
      "fst ?sent" "snd ?sent" "sample_socket (sk_out (snd ?sent)) None"]
    by (auto simp: sample_socket_def)
qed

lemma read_accepts_exactly_written_witness:
  "read_message (\<lambda>_. 7) kMaxFramePayloadBytes
     (sample_socket (frame_bytes (\<lambda>_. 7) Message_Ping [1] @ [9]) None) =
   (Inr \<lparr>ms_type = Message_Ping, ms_payload = [1]\<rparr>, sample_socket [9] None)"
  by (subst read_accepts_exactly_written [OF default_bound_sane])
    (simp add: accepted_type_def proper_type_def message_type_wire_def message_types_def
      message_type_of_wire_def kMaxMessageType_def kMaxFramePayloadBytes_def sample_socket_def)

end
