(* ===== verification/Protocol.thy ===== *)
theory Protocol
  imports Frames Journal Authority
begin

text \<open>
  The payloads of the wire protocol (\<^verbatim>\<open>protocol.hpp\<close> and the second half of \<^verbatim>\<open>protocol.cpp\<close>): one
  record, encoder and decoder per payload type, in the order of the code, and their codec contracts.
  \<open>Payload\<close> is the sum of the messages that carry a payload, with the message type each travels
  under; the roundtrip property is stated over it.
\<close>

definition kMaxSnapshotChunkBytes :: nat where [ff_bounds]: "kMaxSnapshotChunkBytes = 1048576"

section \<open>Error codes on the wire\<close>

definition error_codes :: "ErrorCode list" where
  "error_codes =
     [Error_Ok, Error_InvalidArgument, Error_OutOfRange, Error_BoundsExceeded, Error_Truncated,
      Error_Corrupt, Error_UnsupportedVersion, Error_NotFound, Error_AlreadyExists,
      Error_Conflict, Error_Stale, Error_Refused, Error_Incomplete, Error_Indeterminate,
      Error_Cancelled, Error_IoError, Error_NetworkError, Error_ProtocolViolation,
      Error_Overflow, Error_Replay, Error_ChecksumMismatch, Error_CapacityExceeded,
      Error_NotInitialized, Error_Busy, Error_Internal]"

primrec error_code_wire :: "ErrorCode \<Rightarrow> u16" where
  "error_code_wire Error_Ok = 0"
| "error_code_wire Error_InvalidArgument = 1"
| "error_code_wire Error_OutOfRange = 2"
| "error_code_wire Error_BoundsExceeded = 3"
| "error_code_wire Error_Truncated = 4"
| "error_code_wire Error_Corrupt = 5"
| "error_code_wire Error_UnsupportedVersion = 6"
| "error_code_wire Error_NotFound = 7"
| "error_code_wire Error_AlreadyExists = 8"
| "error_code_wire Error_Conflict = 9"
| "error_code_wire Error_Stale = 10"
| "error_code_wire Error_Refused = 11"
| "error_code_wire Error_Incomplete = 12"
| "error_code_wire Error_Indeterminate = 13"
| "error_code_wire Error_Cancelled = 14"
| "error_code_wire Error_IoError = 15"
| "error_code_wire Error_NetworkError = 16"
| "error_code_wire Error_ProtocolViolation = 17"
| "error_code_wire Error_Overflow = 18"
| "error_code_wire Error_Replay = 19"
| "error_code_wire Error_ChecksumMismatch = 20"
| "error_code_wire Error_CapacityExceeded = 21"
| "error_code_wire Error_NotInitialized = 22"
| "error_code_wire Error_Busy = 23"
| "error_code_wire Error_Internal = 24"

definition error_code_from_wire :: "u16 \<Rightarrow> ErrorCode result" where
  "error_code_from_wire v =
     (if v > error_code_wire Error_Internal then
        Fail Error_ProtocolViolation ''error code is out of range''
      else Inr (error_codes ! unat v))"

text \<open>The outcome of an artefact response has its own error.\<close>

definition response_outcome :: "u8 \<Rightarrow> Outcome result" where
  "response_outcome v =
     (if v > outcome_wire Outcome_Unknown then
        Fail Error_ProtocolViolation ''outcome is out of range''
      else outcome_from_wire [] v)"

section \<open>Payloads\<close>

record HelloRequest =
  hr_federation :: FederationId
  hr_node :: NodeId
  hr_incarnation :: Incarnation
  hr_protocol_version :: u16
  hr_product :: string

definition encode_hello :: "HelloRequest \<Rightarrow> bytes result" where
  "encode_hello x = w_seq
     [w_id16 (hr_federation x), w_id16 (hr_node x), w_u64 (hr_incarnation x),
      w_u16 (hr_protocol_version x), w_text (hr_product x) kMaxShortTextLength]"

definition decode_hello :: "HelloRequest reader" where
  "decode_hello =
     rbind r_id16 (\<lambda>federation.
     rbind r_id16 (\<lambda>node.
     rbind r_u64 (\<lambda>incarnation.
     rbind r_u16 (\<lambda>protocol_version.
     rbind (r_text kMaxShortTextLength) (\<lambda>product.
     r_return \<lparr>hr_federation = federation, hr_node = node, hr_incarnation = incarnation,
               hr_protocol_version = protocol_version, hr_product = product\<rparr>)))))"

text \<open>A policy identifier that does not parse is dropped without an error.\<close>

record WelcomeResponse =
  wr_federation :: FederationId
  wr_coordinator :: NodeId
  wr_coordinator_incarnation :: Incarnation
  wr_epoch :: Epoch
  wr_logical_time :: Tick
  wr_state_digest :: Digest
  wr_policy_id :: PolicyId
  wr_policy_generation :: Generation
  wr_protocol_version :: u16
  wr_detail :: string

definition encode_welcome :: "WelcomeResponse \<Rightarrow> bytes result" where
  "encode_welcome x = w_seq
     [w_id16 (wr_federation x), w_id16 (wr_coordinator x), w_u64 (wr_coordinator_incarnation x),
      w_u64 (wr_epoch x), w_u64 (wr_logical_time x), w_digest (wr_state_digest x),
      w_identifier (wr_policy_id x), w_u64 (wr_policy_generation x),
      w_u16 (wr_protocol_version x), w_text (wr_detail x) kMaxTextLength]"

definition decode_welcome :: "WelcomeResponse reader" where
  "decode_welcome =
     rbind r_id16 (\<lambda>federation.
     rbind r_id16 (\<lambda>coordinator.
     rbind r_u64 (\<lambda>coordinator_incarnation.
     rbind r_u64 (\<lambda>epoch.
     rbind r_u64 (\<lambda>logical_time.
     rbind r_digest (\<lambda>state_digest.
     rbind r_identifier (\<lambda>policy_id_name.
     rbind r_u64 (\<lambda>policy_generation.
     rbind r_u16 (\<lambda>protocol_version.
     rbind (r_text kMaxTextLength) (\<lambda>detail.
     r_return \<lparr>wr_federation = federation, wr_coordinator = coordinator,
               wr_coordinator_incarnation = coordinator_incarnation, wr_epoch = epoch,
               wr_logical_time = logical_time, wr_state_digest = state_digest,
               wr_policy_id = name_or_empty (parse_policy_id policy_id_name),
               wr_policy_generation = policy_generation, wr_protocol_version = protocol_version,
               wr_detail = detail\<rparr>))))))))))"

record ErrorResponse =
  er_code :: ErrorCode
  er_message :: string

definition encode_error :: "ErrorResponse \<Rightarrow> bytes result" where
  "encode_error x = w_seq
     [w_u16 (error_code_wire (er_code x)), w_text (er_message x) kMaxTextLength]"

definition decode_error :: "ErrorResponse reader" where
  "decode_error =
     rbind r_u16 (\<lambda>code.
     rbind (r_lift (error_code_from_wire code)) (\<lambda>code.
     rbind (r_text kMaxTextLength) (\<lambda>message.
     r_return \<lparr>er_code = code, er_message = message\<rparr>)))"

record DigestResponse =
  dg_state_digest :: Digest
  dg_epoch :: Epoch
  dg_logical_time :: Tick
  dg_artifact_count :: u64
  dg_member_count :: u64
  dg_active_member_count :: u64
  dg_reconciling :: bool

definition encode_digest_response :: "DigestResponse \<Rightarrow> bytes result" where
  "encode_digest_response x = w_seq
     [w_digest (dg_state_digest x), w_u64 (dg_epoch x), w_u64 (dg_logical_time x),
      w_u64 (dg_artifact_count x), w_u64 (dg_member_count x), w_u64 (dg_active_member_count x),
      w_bool (dg_reconciling x)]"

definition decode_digest_response :: "DigestResponse reader" where
  "decode_digest_response =
     rbind r_digest (\<lambda>state_digest.
     rbind r_u64 (\<lambda>epoch.
     rbind r_u64 (\<lambda>logical_time.
     rbind r_u64 (\<lambda>artifact_count.
     rbind r_u64 (\<lambda>member_count.
     rbind r_u64 (\<lambda>active_member_count.
     rbind r_bool (\<lambda>reconciling.
     r_return \<lparr>dg_state_digest = state_digest, dg_epoch = epoch, dg_logical_time = logical_time,
               dg_artifact_count = artifact_count, dg_member_count = member_count,
               dg_active_member_count = active_member_count, dg_reconciling = reconciling\<rparr>)))))))"

record StateResponse =
  sv_state_digest :: Digest
  sv_json :: string

definition encode_state_response :: "StateResponse \<Rightarrow> bytes result" where
  "encode_state_response x = w_seq
     [w_digest (sv_state_digest x), w_text (sv_json x) kMaxSnapshotChunkBytes]"

definition decode_state_response :: "StateResponse reader" where
  "decode_state_response =
     rbind r_digest (\<lambda>state_digest.
     rbind (r_text kMaxSnapshotChunkBytes) (\<lambda>json.
     r_return \<lparr>sv_state_digest = state_digest, sv_json = json\<rparr>))"

record AuthorityResponse =
  av_decision :: AuthorityDecision

definition encode_authority_response :: "AuthorityResponse \<Rightarrow> bytes result" where
  "encode_authority_response x = w_seq
     [encode_decision (av_decision x)]"

definition decode_authority_response :: "AuthorityResponse reader" where
  "decode_authority_response =
     rbind decode_decision (\<lambda>decision.
     r_return \<lparr>av_decision = decision\<rparr>)"

record ArtifactResponse =
  xr_code :: ErrorCode
  xr_detail :: string
  xr_artifact_digest :: Digest
  xr_state_digest :: Digest
  xr_outcome :: Outcome
  xr_already_present :: bool
  xr_rejected :: bool
  xr_artifact_count :: u64

definition encode_artifact_response :: "ArtifactResponse \<Rightarrow> bytes result" where
  "encode_artifact_response x = w_seq
     [w_u16 (error_code_wire (xr_code x)), w_text (xr_detail x) kMaxTextLength,
      w_digest (xr_artifact_digest x), w_digest (xr_state_digest x),
      w_u8 (outcome_wire (xr_outcome x)), w_bool (xr_already_present x), w_bool (xr_rejected x),
      w_u64 (xr_artifact_count x)]"

definition decode_artifact_response :: "ArtifactResponse reader" where
  "decode_artifact_response =
     rbind r_u16 (\<lambda>code.
     rbind (r_lift (error_code_from_wire code)) (\<lambda>code.
     rbind (r_text kMaxTextLength) (\<lambda>detail.
     rbind r_digest (\<lambda>artifact_digest.
     rbind r_digest (\<lambda>state_digest.
     rbind r_u8 (\<lambda>outcome.
     rbind (r_lift (response_outcome outcome)) (\<lambda>outcome.
     rbind r_bool (\<lambda>already_present.
     rbind r_bool (\<lambda>rejected.
     rbind r_u64 (\<lambda>artifact_count.
     r_return \<lparr>xr_code = code, xr_detail = detail, xr_artifact_digest = artifact_digest,
               xr_state_digest = state_digest, xr_outcome = outcome,
               xr_already_present = already_present, xr_rejected = rejected,
               xr_artifact_count = artifact_count\<rparr>))))))))))"

record LeaseIssueRequest =
  li_holder :: MemberId
  li_scopes :: "ScopeGrant list"
  li_not_after_epoch :: Epoch
  li_lifetime_ticks :: Tick

definition encode_lease_issue :: "LeaseIssueRequest \<Rightarrow> bytes result" where
  "encode_lease_issue x = w_seq
     [w_id16 (li_holder x), encode_grants (li_scopes x) kMaxScopesPerLease,
      w_u64 (li_not_after_epoch x), w_u64 (li_lifetime_ticks x)]"

definition decode_lease_issue :: "LeaseIssueRequest reader" where
  "decode_lease_issue =
     rbind r_id16 (\<lambda>holder.
     rbind (decode_grants kMaxScopesPerLease) (\<lambda>scopes.
     rbind r_u64 (\<lambda>not_after_epoch.
     rbind r_u64 (\<lambda>lifetime_ticks.
     r_return \<lparr>li_holder = holder, li_scopes = scopes, li_not_after_epoch = not_after_epoch,
               li_lifetime_ticks = lifetime_ticks\<rparr>))))"

text \<open>The error code is cast from the wire without a range check, so that it is any 16-bit value.\<close>

record LeaseResponse =
  lp_code :: u16
  lp_detail :: string
  lp_lease :: AuthorityLease

definition encode_lease_response :: "LeaseResponse \<Rightarrow> bytes result" where
  "encode_lease_response x = w_seq
     [w_u16 (lp_code x), w_text (lp_detail x) kMaxTextLength, encode_lease (lp_lease x)]"

definition decode_lease_response :: "LeaseResponse reader" where
  "decode_lease_response =
     rbind r_u16 (\<lambda>code.
     rbind (r_text kMaxTextLength) (\<lambda>detail.
     rbind decode_lease (\<lambda>lease.
     r_return \<lparr>lp_code = code, lp_detail = detail, lp_lease = lease\<rparr>)))"

text \<open>The reason is cast from the wire without a range check.\<close>

record LeaseRevokeRequest =
  lk_lease :: LeaseId
  lk_reason :: ReasonCode
  lk_detail :: string

definition encode_lease_revoke :: "LeaseRevokeRequest \<Rightarrow> bytes result" where
  "encode_lease_revoke x = w_seq
     [w_id16 (lk_lease x), w_u16 (reason_value (lk_reason x)),
      w_text (lk_detail x) kMaxTextLength]"

definition decode_lease_revoke :: "LeaseRevokeRequest reader" where
  "decode_lease_revoke =
     rbind r_id16 (\<lambda>lease.
     rbind r_u16 (\<lambda>reason.
     rbind (r_text kMaxTextLength) (\<lambda>detail.
     r_return \<lparr>lk_lease = lease, lk_reason = ReasonCode reason, lk_detail = detail\<rparr>)))"

record ObservationRequest =
  oq_observation :: MemberObservation

definition encode_observation_request :: "ObservationRequest \<Rightarrow> bytes result" where
  "encode_observation_request x = w_seq
     [encode_observation (oq_observation x)]"

definition decode_observation_request :: "ObservationRequest reader" where
  "decode_observation_request =
     rbind decode_observation (\<lambda>observation.
     r_return \<lparr>oq_observation = observation\<rparr>)"

record TimeAdvanceRequest =
  ta_to :: Tick

definition encode_time_advance :: "TimeAdvanceRequest \<Rightarrow> bytes result" where
  "encode_time_advance x = w_seq
     [w_u64 (ta_to x)]"

definition decode_time_advance :: "TimeAdvanceRequest reader" where
  "decode_time_advance =
     rbind r_u64 (\<lambda>to.
     r_return \<lparr>ta_to = to\<rparr>)"

text \<open>The reason is cast from the wire without a range check.\<close>

record MemberActionRequest =
  mq_subject :: MemberId
  mq_lineage :: Lineage
  mq_epoch :: Epoch
  mq_reason :: ReasonCode
  mq_detail :: string

definition encode_member_action :: "MemberActionRequest \<Rightarrow> bytes result" where
  "encode_member_action x = w_seq
     [w_id16 (mq_subject x), w_u64 (mq_lineage x), w_u64 (mq_epoch x),
      w_u16 (reason_value (mq_reason x)), w_text (mq_detail x) kMaxTextLength]"

definition decode_member_action :: "MemberActionRequest reader" where
  "decode_member_action =
     rbind r_id16 (\<lambda>subject.
     rbind r_u64 (\<lambda>lineage.
     rbind r_u64 (\<lambda>epoch.
     rbind r_u16 (\<lambda>reason.
     rbind (r_text kMaxTextLength) (\<lambda>detail.
     r_return \<lparr>mq_subject = subject, mq_lineage = lineage, mq_epoch = epoch,
               mq_reason = ReasonCode reason, mq_detail = detail\<rparr>)))))"

text \<open>The error code is cast from the wire without a range check, so that it is any 16-bit value.\<close>

record SimpleResponse =
  sp_code :: u16
  sp_detail :: string
  sp_state_digest :: Digest

definition encode_simple_response :: "SimpleResponse \<Rightarrow> bytes result" where
  "encode_simple_response x = w_seq
     [w_u16 (sp_code x), w_text (sp_detail x) kMaxTextLength, w_digest (sp_state_digest x)]"

definition decode_simple_response :: "SimpleResponse reader" where
  "decode_simple_response =
     rbind r_u16 (\<lambda>code.
     rbind (r_text kMaxTextLength) (\<lambda>detail.
     rbind r_digest (\<lambda>state_digest.
     r_return \<lparr>sp_code = code, sp_detail = detail, sp_state_digest = state_digest\<rparr>)))"

record ArtifactListResponse =
  xl_artifacts :: "Artifact list"
  xl_state_digest :: Digest

definition encode_artifact_list :: "ArtifactListResponse \<Rightarrow> bytes result" where
  "encode_artifact_list x = w_seq
     [w_list encode_artifact kMaxArtifacts (xl_artifacts x), w_digest (xl_state_digest x)]"

definition decode_artifact_list :: "ArtifactListResponse reader" where
  "decode_artifact_list =
     rbind (r_list decode_artifact kMaxArtifacts) (\<lambda>artifacts.
     rbind r_digest (\<lambda>state_digest.
     r_return \<lparr>xl_artifacts = artifacts, xl_state_digest = state_digest\<rparr>))"

record LeaseListResponse =
  ll_leases :: "AuthorityLease list"

definition encode_lease_list :: "LeaseListResponse \<Rightarrow> bytes result" where
  "encode_lease_list x = w_seq
     [w_list encode_lease kMaxLeases (ll_leases x)]"

definition decode_lease_list :: "LeaseListResponse reader" where
  "decode_lease_list =
     rbind (r_list decode_lease kMaxLeases) (\<lambda>leases.
     r_return \<lparr>ll_leases = leases\<rparr>)"

record ProbeResponse =
  pb_federation :: FederationId
  pb_member :: MemberId
  pb_incarnation :: Incarnation
  pb_node :: NodeId
  pb_epoch :: Epoch
  pb_logical_time :: Tick
  pb_constitution :: Digest

definition encode_probe_response :: "ProbeResponse \<Rightarrow> bytes result" where
  "encode_probe_response x = w_seq
     [w_id16 (pb_federation x), w_id16 (pb_member x), w_u64 (pb_incarnation x),
      w_id16 (pb_node x), w_u64 (pb_epoch x), w_u64 (pb_logical_time x),
      w_digest (pb_constitution x)]"

definition decode_probe_response :: "ProbeResponse reader" where
  "decode_probe_response =
     rbind r_id16 (\<lambda>federation.
     rbind r_id16 (\<lambda>member.
     rbind r_u64 (\<lambda>incarnation.
     rbind r_id16 (\<lambda>node.
     rbind r_u64 (\<lambda>epoch.
     rbind r_u64 (\<lambda>logical_time.
     rbind r_digest (\<lambda>constitution.
     r_return \<lparr>pb_federation = federation, pb_member = member, pb_incarnation = incarnation,
               pb_node = node, pb_epoch = epoch, pb_logical_time = logical_time,
               pb_constitution = constitution\<rparr>)))))))"

text \<open>The eleven counters are written by one loop.\<close>

record StatsResponse =
  sr_state_digest :: Digest
  sr_epoch :: Epoch
  sr_logical_time :: Tick
  sr_artifacts :: u64
  sr_rejected_artifacts :: u64
  sr_duplicate_artifacts :: u64
  sr_members :: u64
  sr_active_members :: u64
  sr_leases :: u64
  sr_replay_entries :: u64
  sr_connections_accepted :: u64
  sr_protocol_errors :: u64
  sr_journal_records :: u64
  sr_journal_bytes :: u64
  sr_reconciling :: bool
  sr_partition_state :: string
  sr_transport :: string

definition encode_stats_response :: "StatsResponse \<Rightarrow> bytes result" where
  "encode_stats_response x = w_seq
     [w_digest (sr_state_digest x), w_u64 (sr_epoch x), w_u64 (sr_logical_time x),
      w_u64 (sr_artifacts x), w_u64 (sr_rejected_artifacts x), w_u64 (sr_duplicate_artifacts x),
      w_u64 (sr_members x), w_u64 (sr_active_members x), w_u64 (sr_leases x),
      w_u64 (sr_replay_entries x), w_u64 (sr_connections_accepted x),
      w_u64 (sr_protocol_errors x), w_u64 (sr_journal_records x), w_u64 (sr_journal_bytes x),
      w_bool (sr_reconciling x), w_text (sr_partition_state x) kMaxShortTextLength,
      w_text (sr_transport x) kMaxTextLength]"

definition decode_stats_response :: "StatsResponse reader" where
  "decode_stats_response =
     rbind r_digest (\<lambda>state_digest.
     rbind r_u64 (\<lambda>epoch.
     rbind r_u64 (\<lambda>logical_time.
     rbind r_u64 (\<lambda>artifacts.
     rbind r_u64 (\<lambda>rejected_artifacts.
     rbind r_u64 (\<lambda>duplicate_artifacts.
     rbind r_u64 (\<lambda>members.
     rbind r_u64 (\<lambda>active_members.
     rbind r_u64 (\<lambda>leases.
     rbind r_u64 (\<lambda>replay_entries.
     rbind r_u64 (\<lambda>connections_accepted.
     rbind r_u64 (\<lambda>protocol_errors.
     rbind r_u64 (\<lambda>journal_records.
     rbind r_u64 (\<lambda>journal_bytes.
     rbind r_bool (\<lambda>reconciling.
     rbind (r_text kMaxShortTextLength) (\<lambda>partition_state.
     rbind (r_text kMaxTextLength) (\<lambda>transport.
     r_return \<lparr>sr_state_digest = state_digest, sr_epoch = epoch, sr_logical_time = logical_time,
               sr_artifacts = artifacts, sr_rejected_artifacts = rejected_artifacts,
               sr_duplicate_artifacts = duplicate_artifacts, sr_members = members,
               sr_active_members = active_members, sr_leases = leases,
               sr_replay_entries = replay_entries,
               sr_connections_accepted = connections_accepted,
               sr_protocol_errors = protocol_errors, sr_journal_records = journal_records,
               sr_journal_bytes = journal_bytes, sr_reconciling = reconciling,
               sr_partition_state = partition_state, sr_transport = transport\<rparr>)))))))))))))))))"

section \<open>Codec contracts\<close>

lemma error_code_from_wire_wire [codec_rt]: "error_code_from_wire (error_code_wire c) = Inr c"
  by (cases c) (simp_all add: error_code_from_wire_def error_codes_def)

lemma response_outcome_wire [codec_rt]: "response_outcome (outcome_wire o') = Inr o'"
  by (cases o') (simp_all add: response_outcome_def outcome_from_wire_def)

lemma name_or_empty_invariant [codec_rt]:
  "name_invariant parse_policy_id n \<Longrightarrow> name_or_empty (parse_policy_id n) = n"
proof (cases "n = []")
  case True
  then show ?thesis
    by (simp add: name_or_empty_def parse_policy_id_def validate_qualified_name_def)
qed (simp add: name_invariant_def name_or_empty_def)

lemmas decode_leases_rt [codec_rt] = lease_codec.listed
lemmas decode_artifacts_rt [codec_rt] = artifact_codec.listed
lemmas payload_values_rt [codec_rt] =
  lease_codec.roundtrip decision_codec.roundtrip observation_codec.roundtrip

lemmas payload_rt = is_ok_w_seq projr_w_seq codec_rt

interpretation hello_codec:
  codec encode_hello decode_hello "\<lambda>_. True"
proof
  fix x :: HelloRequest and rest
  assume "is_ok (encode_hello x)"
  then show "decode_hello (projr (encode_hello x) @ rest) = Inr (x, rest)"
    by (cases x) (simp add: encode_hello_def decode_hello_def
        payload_rt)
qed

definition welcome_wf :: "WelcomeResponse \<Rightarrow> bool" where
  "welcome_wf x \<longleftrightarrow> name_invariant parse_policy_id (wr_policy_id x)"

interpretation welcome_codec:
  codec encode_welcome decode_welcome welcome_wf
proof
  fix x :: WelcomeResponse and rest
  assume "is_ok (encode_welcome x)" "welcome_wf x"
  then show "decode_welcome (projr (encode_welcome x) @ rest) = Inr (x, rest)"
    by (cases x) (simp add: encode_welcome_def decode_welcome_def welcome_wf_def
        payload_rt)
qed

interpretation error_codec:
  codec encode_error decode_error "\<lambda>_. True"
proof
  fix x :: ErrorResponse and rest
  assume "is_ok (encode_error x)"
  then show "decode_error (projr (encode_error x) @ rest) = Inr (x, rest)"
    by (cases x) (simp add: encode_error_def decode_error_def
        payload_rt)
qed

interpretation digest_response_codec:
  codec encode_digest_response decode_digest_response "\<lambda>_. True"
proof
  fix x :: DigestResponse and rest
  assume "is_ok (encode_digest_response x)"
  then show "decode_digest_response (projr (encode_digest_response x) @ rest) = Inr (x, rest)"
    by (cases x) (simp add: encode_digest_response_def decode_digest_response_def
        payload_rt)
qed

interpretation state_response_codec:
  codec encode_state_response decode_state_response "\<lambda>_. True"
proof
  fix x :: StateResponse and rest
  assume "is_ok (encode_state_response x)"
  then show "decode_state_response (projr (encode_state_response x) @ rest) = Inr (x, rest)"
    by (cases x) (simp add: encode_state_response_def decode_state_response_def
        payload_rt)
qed

definition authority_response_wf :: "AuthorityResponse \<Rightarrow> bool" where
  "authority_response_wf x \<longleftrightarrow> decision_wf (av_decision x)"

interpretation authority_response_codec:
  codec encode_authority_response decode_authority_response authority_response_wf
proof
  fix x :: AuthorityResponse and rest
  assume "is_ok (encode_authority_response x)" "authority_response_wf x"
  then show "decode_authority_response (projr (encode_authority_response x) @ rest) = Inr (x, rest)"
    by (cases x) (simp add: encode_authority_response_def decode_authority_response_def authority_response_wf_def
        payload_rt)
qed

interpretation artifact_response_codec:
  codec encode_artifact_response decode_artifact_response "\<lambda>_. True"
proof
  fix x :: ArtifactResponse and rest
  assume "is_ok (encode_artifact_response x)"
  then show "decode_artifact_response (projr (encode_artifact_response x) @ rest) = Inr (x, rest)"
    by (cases x) (simp add: encode_artifact_response_def decode_artifact_response_def
        payload_rt)
qed

definition lease_issue_wf :: "LeaseIssueRequest \<Rightarrow> bool" where
  "lease_issue_wf x \<longleftrightarrow> (\<forall>g \<in> set (li_scopes x). grant_wf g)"

interpretation lease_issue_codec:
  codec encode_lease_issue decode_lease_issue lease_issue_wf
proof
  fix x :: LeaseIssueRequest and rest
  assume "is_ok (encode_lease_issue x)" "lease_issue_wf x"
  then show "decode_lease_issue (projr (encode_lease_issue x) @ rest) = Inr (x, rest)"
    by (cases x) (simp add: encode_lease_issue_def decode_lease_issue_def lease_issue_wf_def
        payload_rt)
qed

definition lease_response_wf :: "LeaseResponse \<Rightarrow> bool" where
  "lease_response_wf x \<longleftrightarrow> lease_wf (lp_lease x)"

interpretation lease_response_codec:
  codec encode_lease_response decode_lease_response lease_response_wf
proof
  fix x :: LeaseResponse and rest
  assume "is_ok (encode_lease_response x)" "lease_response_wf x"
  then show "decode_lease_response (projr (encode_lease_response x) @ rest) = Inr (x, rest)"
    by (cases x) (simp add: encode_lease_response_def decode_lease_response_def lease_response_wf_def
        payload_rt)
qed

interpretation lease_revoke_codec:
  codec encode_lease_revoke decode_lease_revoke "\<lambda>_. True"
proof
  fix x :: LeaseRevokeRequest and rest
  assume "is_ok (encode_lease_revoke x)"
  then show "decode_lease_revoke (projr (encode_lease_revoke x) @ rest) = Inr (x, rest)"
    by (cases x) (simp add: encode_lease_revoke_def decode_lease_revoke_def
        payload_rt)
qed

definition observation_request_wf :: "ObservationRequest \<Rightarrow> bool" where
  "observation_request_wf x \<longleftrightarrow> observation_wf (oq_observation x)"

interpretation observation_request_codec:
  codec encode_observation_request decode_observation_request observation_request_wf
proof
  fix x :: ObservationRequest and rest
  assume "is_ok (encode_observation_request x)" "observation_request_wf x"
  then show "decode_observation_request (projr (encode_observation_request x) @ rest) = Inr (x, rest)"
    by (cases x) (simp add: encode_observation_request_def decode_observation_request_def observation_request_wf_def
        payload_rt)
qed

interpretation time_advance_codec:
  codec encode_time_advance decode_time_advance "\<lambda>_. True"
proof
  fix x :: TimeAdvanceRequest and rest
  assume "is_ok (encode_time_advance x)"
  then show "decode_time_advance (projr (encode_time_advance x) @ rest) = Inr (x, rest)"
    by (cases x) (simp add: encode_time_advance_def decode_time_advance_def
        payload_rt)
qed

interpretation member_action_codec:
  codec encode_member_action decode_member_action "\<lambda>_. True"
proof
  fix x :: MemberActionRequest and rest
  assume "is_ok (encode_member_action x)"
  then show "decode_member_action (projr (encode_member_action x) @ rest) = Inr (x, rest)"
    by (cases x) (simp add: encode_member_action_def decode_member_action_def
        payload_rt)
qed

interpretation simple_response_codec:
  codec encode_simple_response decode_simple_response "\<lambda>_. True"
proof
  fix x :: SimpleResponse and rest
  assume "is_ok (encode_simple_response x)"
  then show "decode_simple_response (projr (encode_simple_response x) @ rest) = Inr (x, rest)"
    by (cases x) (simp add: encode_simple_response_def decode_simple_response_def
        payload_rt)
qed

definition artifact_list_wf :: "ArtifactListResponse \<Rightarrow> bool" where
  "artifact_list_wf x \<longleftrightarrow> (\<forall>a \<in> set (xl_artifacts x). artifact_wf a)"

interpretation artifact_list_codec:
  codec encode_artifact_list decode_artifact_list artifact_list_wf
proof
  fix x :: ArtifactListResponse and rest
  assume "is_ok (encode_artifact_list x)" "artifact_list_wf x"
  then show "decode_artifact_list (projr (encode_artifact_list x) @ rest) = Inr (x, rest)"
    by (cases x) (simp add: encode_artifact_list_def decode_artifact_list_def artifact_list_wf_def
        payload_rt)
qed

definition lease_list_wf :: "LeaseListResponse \<Rightarrow> bool" where
  "lease_list_wf x \<longleftrightarrow> (\<forall>l \<in> set (ll_leases x). lease_wf l)"

interpretation lease_list_codec:
  codec encode_lease_list decode_lease_list lease_list_wf
proof
  fix x :: LeaseListResponse and rest
  assume "is_ok (encode_lease_list x)" "lease_list_wf x"
  then show "decode_lease_list (projr (encode_lease_list x) @ rest) = Inr (x, rest)"
    by (cases x) (simp add: encode_lease_list_def decode_lease_list_def lease_list_wf_def
        payload_rt)
qed

interpretation probe_response_codec:
  codec encode_probe_response decode_probe_response "\<lambda>_. True"
proof
  fix x :: ProbeResponse and rest
  assume "is_ok (encode_probe_response x)"
  then show "decode_probe_response (projr (encode_probe_response x) @ rest) = Inr (x, rest)"
    by (cases x) (simp add: encode_probe_response_def decode_probe_response_def
        payload_rt)
qed

interpretation stats_response_codec:
  codec encode_stats_response decode_stats_response "\<lambda>_. True"
proof
  fix x :: StatsResponse and rest
  assume "is_ok (encode_stats_response x)"
  then show "decode_stats_response (projr (encode_stats_response x) @ rest) = Inr (x, rest)"
    by (cases x) (simp add: encode_stats_response_def decode_stats_response_def
        payload_rt)
qed

lemmas payload_wholes =
  hello_codec.whole welcome_codec.whole error_codec.whole
  artifact_codec.whole artifact_response_codec.whole digest_response_codec.whole
  state_response_codec.whole request_codec.whole authority_response_codec.whole
  lease_issue_codec.whole lease_response_codec.whole lease_revoke_codec.whole
  observation_request_codec.whole time_advance_codec.whole member_action_codec.whole
  artifact_list_codec.whole lease_list_codec.whole stats_response_codec.whole
  simple_response_codec.whole probe_response_codec.whole

section \<open>Messages with a payload\<close>

datatype Payload =
    Hello HelloRequest
  | Welcome WelcomeResponse
  | ErrorMessage ErrorResponse
  | SubmitArtifact Artifact
  | SubmitArtifactResult ArtifactResponse
  | DigestValue DigestResponse
  | StateValue StateResponse
  | AuthorityQuery AuthorityRequest
  | AuthorityResult AuthorityResponse
  | IssueLease LeaseIssueRequest
  | LeaseResult LeaseResponse
  | RevokeLease LeaseRevokeRequest
  | ReportObservation ObservationRequest
  | AdvanceTime TimeAdvanceRequest
  | FenceMember MemberActionRequest
  | AdvanceEpoch MemberActionRequest
  | CompleteReconciliation MemberActionRequest
  | ArtifactListValue ArtifactListResponse
  | LeaseListValue LeaseListResponse
  | StatsValue StatsResponse
  | SimpleResult SimpleResponse
  | ProbeResult ProbeResponse

primrec payload_type :: "Payload \<Rightarrow> MessageType" where
  "payload_type (Hello x) = Message_Hello"
| "payload_type (Welcome x) = Message_Welcome"
| "payload_type (ErrorMessage x) = Message_ErrorMessage"
| "payload_type (SubmitArtifact x) = Message_SubmitArtifact"
| "payload_type (SubmitArtifactResult x) = Message_SubmitArtifactResult"
| "payload_type (DigestValue x) = Message_DigestValue"
| "payload_type (StateValue x) = Message_StateValue"
| "payload_type (AuthorityQuery x) = Message_AuthorityQuery"
| "payload_type (AuthorityResult x) = Message_AuthorityResult"
| "payload_type (IssueLease x) = Message_IssueLease"
| "payload_type (LeaseResult x) = Message_LeaseResult"
| "payload_type (RevokeLease x) = Message_RevokeLease"
| "payload_type (ReportObservation x) = Message_ReportObservation"
| "payload_type (AdvanceTime x) = Message_AdvanceTime"
| "payload_type (FenceMember x) = Message_FenceMember"
| "payload_type (AdvanceEpoch x) = Message_AdvanceEpoch"
| "payload_type (CompleteReconciliation x) = Message_CompleteReconciliation"
| "payload_type (ArtifactListValue x) = Message_ArtifactListValue"
| "payload_type (LeaseListValue x) = Message_LeaseListValue"
| "payload_type (StatsValue x) = Message_StatsValue"
| "payload_type (SimpleResult x) = Message_SimpleResult"
| "payload_type (ProbeResult x) = Message_ProbeResult"

primrec encode_payload :: "Payload \<Rightarrow> bytes result" where
  "encode_payload (Hello x) = encode_hello x"
| "encode_payload (Welcome x) = encode_welcome x"
| "encode_payload (ErrorMessage x) = encode_error x"
| "encode_payload (SubmitArtifact x) = encode_artifact x"
| "encode_payload (SubmitArtifactResult x) = encode_artifact_response x"
| "encode_payload (DigestValue x) = encode_digest_response x"
| "encode_payload (StateValue x) = encode_state_response x"
| "encode_payload (AuthorityQuery x) = encode_request x"
| "encode_payload (AuthorityResult x) = encode_authority_response x"
| "encode_payload (IssueLease x) = encode_lease_issue x"
| "encode_payload (LeaseResult x) = encode_lease_response x"
| "encode_payload (RevokeLease x) = encode_lease_revoke x"
| "encode_payload (ReportObservation x) = encode_observation_request x"
| "encode_payload (AdvanceTime x) = encode_time_advance x"
| "encode_payload (FenceMember x) = encode_member_action x"
| "encode_payload (AdvanceEpoch x) = encode_member_action x"
| "encode_payload (CompleteReconciliation x) = encode_member_action x"
| "encode_payload (ArtifactListValue x) = encode_artifact_list x"
| "encode_payload (LeaseListValue x) = encode_lease_list x"
| "encode_payload (StatsValue x) = encode_stats_response x"
| "encode_payload (SimpleResult x) = encode_simple_response x"
| "encode_payload (ProbeResult x) = encode_probe_response x"

primrec payload_wf :: "Payload \<Rightarrow> bool" where
  "payload_wf (Hello x) \<longleftrightarrow> True"
| "payload_wf (Welcome x) \<longleftrightarrow> welcome_wf x"
| "payload_wf (ErrorMessage x) \<longleftrightarrow> True"
| "payload_wf (SubmitArtifact x) \<longleftrightarrow> artifact_wf x"
| "payload_wf (SubmitArtifactResult x) \<longleftrightarrow> True"
| "payload_wf (DigestValue x) \<longleftrightarrow> True"
| "payload_wf (StateValue x) \<longleftrightarrow> True"
| "payload_wf (AuthorityQuery x) \<longleftrightarrow> request_wf x"
| "payload_wf (AuthorityResult x) \<longleftrightarrow> authority_response_wf x"
| "payload_wf (IssueLease x) \<longleftrightarrow> lease_issue_wf x"
| "payload_wf (LeaseResult x) \<longleftrightarrow> lease_response_wf x"
| "payload_wf (RevokeLease x) \<longleftrightarrow> True"
| "payload_wf (ReportObservation x) \<longleftrightarrow> observation_request_wf x"
| "payload_wf (AdvanceTime x) \<longleftrightarrow> True"
| "payload_wf (FenceMember x) \<longleftrightarrow> True"
| "payload_wf (AdvanceEpoch x) \<longleftrightarrow> True"
| "payload_wf (CompleteReconciliation x) \<longleftrightarrow> True"
| "payload_wf (ArtifactListValue x) \<longleftrightarrow> artifact_list_wf x"
| "payload_wf (LeaseListValue x) \<longleftrightarrow> lease_list_wf x"
| "payload_wf (StatsValue x) \<longleftrightarrow> True"
| "payload_wf (SimpleResult x) \<longleftrightarrow> True"
| "payload_wf (ProbeResult x) \<longleftrightarrow> True"

definition payload_message :: "Payload \<Rightarrow> bytes \<Rightarrow> Message" where
  "payload_message p bs = \<lparr>ms_type = payload_type p, ms_payload = bs\<rparr>"

text \<open>The decoder the receiver of a message calls for its type.\<close>

definition decode_payload :: "MessageType \<Rightarrow> bytes \<Rightarrow> Payload result" where
  "decode_payload t bs = (case t of
     Message_Hello \<Rightarrow> map_sum id Hello (r_whole decode_hello bs)
   | Message_Welcome \<Rightarrow> map_sum id Welcome (r_whole decode_welcome bs)
   | Message_ErrorMessage \<Rightarrow> map_sum id ErrorMessage (r_whole decode_error bs)
   | Message_SubmitArtifact \<Rightarrow> map_sum id SubmitArtifact (r_whole decode_artifact bs)
   | Message_SubmitArtifactResult \<Rightarrow> map_sum id SubmitArtifactResult (r_whole decode_artifact_response bs)
   | Message_DigestValue \<Rightarrow> map_sum id DigestValue (r_whole decode_digest_response bs)
   | Message_StateValue \<Rightarrow> map_sum id StateValue (r_whole decode_state_response bs)
   | Message_AuthorityQuery \<Rightarrow> map_sum id AuthorityQuery (r_whole decode_request bs)
   | Message_AuthorityResult \<Rightarrow> map_sum id AuthorityResult (r_whole decode_authority_response bs)
   | Message_IssueLease \<Rightarrow> map_sum id IssueLease (r_whole decode_lease_issue bs)
   | Message_LeaseResult \<Rightarrow> map_sum id LeaseResult (r_whole decode_lease_response bs)
   | Message_RevokeLease \<Rightarrow> map_sum id RevokeLease (r_whole decode_lease_revoke bs)
   | Message_ReportObservation \<Rightarrow> map_sum id ReportObservation (r_whole decode_observation_request bs)
   | Message_AdvanceTime \<Rightarrow> map_sum id AdvanceTime (r_whole decode_time_advance bs)
   | Message_FenceMember \<Rightarrow> map_sum id FenceMember (r_whole decode_member_action bs)
   | Message_AdvanceEpoch \<Rightarrow> map_sum id AdvanceEpoch (r_whole decode_member_action bs)
   | Message_CompleteReconciliation \<Rightarrow> map_sum id CompleteReconciliation (r_whole decode_member_action bs)
   | Message_ArtifactListValue \<Rightarrow> map_sum id ArtifactListValue (r_whole decode_artifact_list bs)
   | Message_LeaseListValue \<Rightarrow> map_sum id LeaseListValue (r_whole decode_lease_list bs)
   | Message_StatsValue \<Rightarrow> map_sum id StatsValue (r_whole decode_stats_response bs)
   | Message_SimpleResult \<Rightarrow> map_sum id SimpleResult (r_whole decode_simple_response bs)
   | Message_ProbeResult \<Rightarrow> map_sum id ProbeResult (r_whole decode_probe_response bs)
   | _ \<Rightarrow> Fail Error_ProtocolViolation [])"

text \<open>
  C37: a payload survives the connection. When a payload with well-formed names encodes into a frame
  of permitted size, the receiver of the bytes that \<^verbatim>\<open>write_message\<close> sends reads a message of the same
  type whose payload decodes, to the last byte, to the value that was sent.
\<close>

theorem payload_roundtrip:
  assumes "encode_payload p = Inr bs" "payload_wf p"
    and "write_message H (payload_type p) bs s = (Inr (), s')" "sk_out s = []"
    and "sk_in t = sk_out s' @ rest"
  shows "\<exists>m. read_message H kMaxFramePayloadBytes t = (Inr m, t\<lparr>sk_in := rest\<rparr>) \<and>
    decode_payload (ms_type m) (ms_payload m) = Inr p"
proof -
  have "accepted_type (payload_type p)"
    by (cases p) (simp_all add: accepted_type_def proper_type_def message_type_wire_def
        message_types_def message_type_of_wire_def kMaxMessageType_def)
  moreover from assms(3,4) have "sk_out s' = frame_bytes H (payload_type p) bs"
      "length bs \<le> unat kMaxFramePayloadBytes"
    by (auto simp: write_message_def send_all_def split: if_splits option.splits prod.splits)
  ultimately have "read_message H kMaxFramePayloadBytes t =
      (Inr (payload_message p bs), t\<lparr>sk_in := rest\<rparr>)"
    using assms(5) read_written [of "payload_type p" bs kMaxFramePayloadBytes t H rest]
    by (simp add: payload_message_def)
  moreover have "decode_payload (payload_type p) bs = Inr p"
  proof -
    have enc: "is_ok (encode_payload p)" "projr (encode_payload p) = bs" using assms(1) by simp_all
    then show ?thesis
      using assms(2) by (cases p) (auto simp: decode_payload_def payload_wholes)
  qed
  ultimately show ?thesis by (auto simp: payload_message_def)
qed

lemma payload_roundtrip_witness:
  "\<exists>m. read_message (\<lambda>_. 7) kMaxFramePayloadBytes
       (sample_socket (frame_bytes (\<lambda>_. 7) Message_AdvanceTime (store_u64_le 5) @ [9]) None) =
       (Inr m, sample_socket [9] None) \<and>
     decode_payload (ms_type m) (ms_payload m) = Inr (AdvanceTime \<lparr>ta_to = 5\<rparr>)"
proof -
  have "write_message (\<lambda>_. 7) Message_AdvanceTime (store_u64_le 5) (sample_socket [] None) =
      (success, sample_socket [] None
         \<lparr>sk_out := frame_bytes (\<lambda>_. 7) Message_AdvanceTime (store_u64_le 5)\<rparr>)"
    by (simp add: write_message_def send_all_def sample_socket_def kMaxFramePayloadBytes_def)
  with payload_roundtrip [of "AdvanceTime \<lparr>ta_to = 5\<rparr>" "store_u64_le 5" "\<lambda>_. 7"
      "sample_socket [] None"
      "sample_socket [] None\<lparr>sk_out := frame_bytes (\<lambda>_. 7) Message_AdvanceTime (store_u64_le 5)\<rparr>"
      "sample_socket (frame_bytes (\<lambda>_. 7) Message_AdvanceTime (store_u64_le 5) @ [9]) None" "[9]"]
  show ?thesis
    by (simp add: encode_time_advance_def w_seq.simps w_u64_def sample_socket_def)
qed

end
