(* ===== verification/Json.thy ===== *)
theory Json
  imports Scope
begin

text \<open>
  The JSON writer (\<^verbatim>\<open>json.hpp\<close>, \<^verbatim>\<open>json.cpp\<close>): a record of the writer's members and one definition per
  operation. The specification is the datatype \<open>json\<close> with a reference printer; the lemmas show that
  the calls a caller makes for a value print that value, for any nesting, compact and pretty, and
  that a string is never closed early by its content. The overload for \<^verbatim>\<open>double\<close>, which formats with
  the C library and has no caller in the library, is not modelled.
\<close>

section \<open>The writer\<close>

record JsonWriter =
  jw_out :: string
  jw_pretty :: bool
  jw_need_comma :: bool
  jw_depth :: int
  jw_after_key :: bool

type_synonym json_op = "JsonWriter \<Rightarrow> JsonWriter"

definition json_writer :: "bool \<Rightarrow> JsonWriter" where
  "json_writer pretty =
     \<lparr>jw_out = [], jw_pretty = pretty, jw_need_comma = False, jw_depth = 0, jw_after_key = False\<rparr>"

definition json_put :: "string \<Rightarrow> json_op" where
  "json_put str w = w\<lparr>jw_out := jw_out w @ str\<rparr>"

definition json_indent :: json_op where
  "json_indent w =
     (if \<not> jw_pretty w then w
      else json_put (CHR 0x0A # concat (replicate (nat (jw_depth w)) ''  '')) w)"

definition json_prepare_value :: json_op where
  "json_prepare_value w =
     (if jw_after_key w then w\<lparr>jw_after_key := False\<rparr>
      else
        let w = (if jw_need_comma w then json_put '','' w else w);
            w = (if jw_depth w > 0 then json_indent w else w)
        in w\<lparr>jw_need_comma := True\<rparr>)"

definition json_open :: "string \<Rightarrow> json_op" where
  "json_open bracket w =
     (let w = json_put bracket (json_prepare_value w)
      in w\<lparr>jw_depth := jw_depth w + 1, jw_need_comma := False\<rparr>)"

definition json_close :: "string \<Rightarrow> json_op" where
  "json_close bracket w =
     (let w = w\<lparr>jw_depth := jw_depth w - 1\<rparr>;
          w = (if jw_need_comma w then json_indent w else w)
      in (json_put bracket w)\<lparr>jw_need_comma := True\<rparr>)"

definition json_begin_object :: json_op where "json_begin_object = json_open ''{''"
definition json_end_object :: json_op where "json_end_object = json_close ''}''"
definition json_begin_array :: json_op where "json_begin_array = json_open ''[''"
definition json_end_array :: json_op where "json_end_array = json_close '']''"

definition json_key :: "string \<Rightarrow> json_op" where
  "json_key name w =
     (let w = (if jw_need_comma w then json_put '','' w else w);
          w = (if jw_depth w > 0 then json_indent w else w);
          w = json_put (json_escape name) w;
          w = json_put '':'' w;
          w = (if jw_pretty w then json_put '' '' w else w)
      in w\<lparr>jw_need_comma := True, jw_after_key := True\<rparr>)"

definition json_string :: "string \<Rightarrow> json_op" where
  "json_string value w = json_put (json_escape value) (json_prepare_value w)"

definition json_number :: "u64 \<Rightarrow> json_op" where
  "json_number value w = json_put (word_to_string value) (json_prepare_value w)"

definition json_signed :: "u64 \<Rightarrow> json_op" where
  "json_signed value w =
     json_put ((if sint value < 0 then ''-'' else []) @ nat_to_string (nat \<bar>sint value\<bar>))
       (json_prepare_value w)"

definition json_boolean :: "bool \<Rightarrow> json_op" where
  "json_boolean value w = json_put (if value then ''true'' else ''false'') (json_prepare_value w)"

definition json_null_value :: json_op where
  "json_null_value w = json_put ''null'' (json_prepare_value w)"

text \<open>A run of writer calls, one after the other.\<close>

definition json_seq :: "json_op list \<Rightarrow> json_op" where
  "json_seq ops = fold (\<lambda>f. f) ops"

section \<open>Values and their text\<close>

datatype json =
    J_Null | J_Bool bool | J_Number u64 | J_String string
  | J_Array "json list" | J_Object "(string \<times> json) list"

text \<open>The calls that write a value.\<close>

primrec write_json :: "json \<Rightarrow> json_op" where
  "write_json J_Null = json_null_value"
| "write_json (J_Bool b) = json_boolean b"
| "write_json (J_Number n) = json_number n"
| "write_json (J_String s) = json_string s"
| "write_json (J_Array vs) =
     json_seq (json_begin_array # map write_json vs @ [json_end_array])"
| "write_json (J_Object ms) =
     json_seq (json_begin_object # concat (map (\<lambda>(k, f). [json_key k, f]) (map (map_prod id write_json) ms)) @
       [json_end_object])"

text \<open>The reference printer: a line break and indentation before every element and, after at least
  one element, before the closing bracket.\<close>

definition json_break :: "bool \<Rightarrow> nat \<Rightarrow> string" where
  "json_break pretty depth =
     (if pretty then CHR 0x0A # concat (replicate depth ''  '') else [])"

definition json_brackets :: "bool \<Rightarrow> nat \<Rightarrow> string \<Rightarrow> string \<Rightarrow> string list \<Rightarrow> string" where
  "json_brackets pretty depth opening closing items =
     opening @ join '','' (map ((@) (json_break pretty (Suc depth))) items) @
     (if items = [] then [] else json_break pretty depth) @ closing"

primrec json_text :: "bool \<Rightarrow> json \<Rightarrow> nat \<Rightarrow> string" where
  "json_text pretty J_Null = (\<lambda>depth. ''null'')"
| "json_text pretty (J_Bool b) = (\<lambda>depth. if b then ''true'' else ''false'')"
| "json_text pretty (J_Number n) = (\<lambda>depth. word_to_string n)"
| "json_text pretty (J_String s) = (\<lambda>depth. json_escape s)"
| "json_text pretty (J_Array vs) = (\<lambda>depth.
     json_brackets pretty depth ''['' '']'' (map (\<lambda>f. f (Suc depth)) (map (json_text pretty) vs)))"
| "json_text pretty (J_Object ms) = (\<lambda>depth.
     json_brackets pretty depth ''{'' ''}''
       (map (\<lambda>(k, f). json_escape k @ '':'' @ (if pretty then '' '' else []) @ f (Suc depth))
          (map (map_prod id (json_text pretty)) ms)))"

section \<open>The calls print the value\<close>

lemma json_seq_simps [simp]:
  "json_seq [] w = w"
  "json_seq (f # fs) w = json_seq fs (f w)"
  "json_seq (fs @ gs) w = json_seq gs (json_seq fs w)"
  by (simp_all add: json_seq_def)

text \<open>What the writer puts before the next value.\<close>

definition json_lead :: "JsonWriter \<Rightarrow> string" where
  "json_lead w =
     (if jw_after_key w then []
      else (if jw_need_comma w then '','' else []) @
        (if jw_depth w > 0 then json_break (jw_pretty w) (nat (jw_depth w)) else []))"

text \<open>A writer between values: a key is followed by its value, and brackets are balanced.\<close>

definition json_ready :: "JsonWriter \<Rightarrow> bool" where
  "json_ready w \<longleftrightarrow> (jw_after_key w \<longrightarrow> jw_need_comma w) \<and> 0 \<le> jw_depth w"

definition json_wrote :: "string \<Rightarrow> json_op" where
  "json_wrote str w =
     w\<lparr>jw_out := jw_out w @ json_lead w @ str, jw_need_comma := True, jw_after_key := False\<rparr>"

lemma json_prepare_value_lead:
  "json_ready w \<Longrightarrow> json_prepare_value w =
     w\<lparr>jw_out := jw_out w @ json_lead w, jw_need_comma := True, jw_after_key := False\<rparr>"
  by (cases w) (auto simp: json_prepare_value_def json_lead_def json_ready_def json_put_def
      json_indent_def json_break_def Let_def)

lemma json_scalars:
  "json_ready w \<Longrightarrow> json_null_value w = json_wrote ''null'' w"
  "json_ready w \<Longrightarrow> json_boolean b w = json_wrote (if b then ''true'' else ''false'') w"
  "json_ready w \<Longrightarrow> json_number n w = json_wrote (word_to_string n) w"
  "json_ready w \<Longrightarrow> json_string str w = json_wrote (json_escape str) w"
  by (simp_all add: json_null_value_def json_boolean_def json_number_def json_string_def
      json_put_def json_prepare_value_lead json_wrote_def)

lemma json_ready_wrote [simp]: "json_ready w \<Longrightarrow> json_ready (json_wrote str w)"
  by (simp add: json_ready_def json_wrote_def)

text \<open>Inside brackets: no pending key, and a depth of at least one.\<close>

definition json_inside :: "JsonWriter \<Rightarrow> bool" where
  "json_inside w \<longleftrightarrow> \<not> jw_after_key w \<and> 0 < jw_depth w"

lemma json_inside_ready: "json_inside w \<Longrightarrow> json_ready w"
  by (simp add: json_inside_def json_ready_def)

definition json_item :: "string \<Rightarrow> json_op" where
  "json_item str w =
     w\<lparr>jw_out := jw_out w @ (if jw_need_comma w then '','' else []) @
         json_break (jw_pretty w) (nat (jw_depth w)) @ str,
       jw_need_comma := True\<rparr>"

lemma json_wrote_item: "json_inside w \<Longrightarrow> json_wrote str w = json_item str w"
  by (cases w) (simp add: json_wrote_def json_item_def json_inside_def json_lead_def)

lemma json_member_item:
  assumes "json_inside w"
  shows "json_wrote str (json_key k w) =
    json_item (json_escape k @ '':'' @ (if jw_pretty w then '' '' else []) @ str) w"
  using assms by (cases w) (auto simp: json_wrote_def json_item_def json_inside_def json_lead_def
      json_key_def json_put_def json_indent_def json_break_def Let_def)

lemma json_inside_item [simp]: "json_inside w \<Longrightarrow> json_inside (json_item str w)"
  by (simp add: json_inside_def json_item_def)

lemma json_items:
  assumes "json_inside w"
  shows "json_seq (map json_item strs) w =
    w\<lparr>jw_out := jw_out w @ (if strs = [] then [] else
         (if jw_need_comma w then '','' else []) @
         join '','' (map ((@) (json_break (jw_pretty w) (nat (jw_depth w)))) strs)),
      jw_need_comma := jw_need_comma w \<or> strs \<noteq> []\<rparr>"
  using assms
proof (induction strs arbitrary: w)
  case Nil
  then show ?case by (cases w) simp
next
  case (Cons s strs)
  have "json_inside (json_item s w)" using Cons.prems by simp
  from Cons.IH [OF this] show ?case
    by (cases w; cases strs) (simp_all add: json_item_def)
qed

lemma json_bracketed:
  assumes "json_ready w" "jw_depth w = int depth"
  shows "json_close closing (json_seq (map json_item strs) (json_open opening w)) =
    json_wrote (json_brackets (jw_pretty w) depth opening closing strs) w"
proof -
  let ?w = "json_open opening w"
  have open_w: "?w = w\<lparr>jw_out := jw_out w @ json_lead w @ opening, jw_need_comma := False,
      jw_after_key := False, jw_depth := int depth + 1\<rparr>"
    using assms by (simp add: json_open_def json_prepare_value_lead json_put_def Let_def)
  then have "json_inside ?w" by (simp add: json_inside_def)
  note items = json_items [OF this]
  have depth: "nat (int depth + 1) = Suc depth" by simp
  show ?thesis
  proof (cases strs)
    case Nil
    then show ?thesis
      using assms(2) by (simp add: open_w json_close_def json_brackets_def json_wrote_def
          json_put_def Let_def)
  next
    case (Cons str rest)
    then have "json_seq (map json_item strs) ?w =
        ?w\<lparr>jw_out := jw_out w @ json_lead w @ opening @
              join '','' (map ((@) (json_break (jw_pretty w) (Suc depth))) strs),
           jw_need_comma := True\<rparr>"
      unfolding items by (simp add: open_w depth)
    with Cons assms(2) show ?thesis
      by (cases "jw_pretty w") (simp_all add: open_w json_close_def json_brackets_def json_wrote_def
          json_put_def json_indent_def json_break_def Let_def)
  qed
qed

lemma json_seq_members:
  assumes "json_inside w"
    and "\<And>x w. x \<in> set xs \<Longrightarrow> json_inside w \<Longrightarrow> jw_pretty w = pretty \<Longrightarrow> jw_depth w = depth \<Longrightarrow>
      f x (json_key (k x) w) = json_item (g x) w"
    and "jw_pretty w = pretty" "jw_depth w = depth"
  shows "json_seq (concat (map (\<lambda>x. [json_key (k x), f x]) xs)) w =
    json_seq (map json_item (map g xs)) w"
  using assms
proof (induction xs arbitrary: w)
  case Nil
  then show ?case by simp
next
  case (Cons x xs)
  have step: "f x (json_key (k x) w) = json_item (g x) w" using Cons.prems by simp
  have "json_seq (concat (map (\<lambda>x. [json_key (k x), f x]) xs)) (json_item (g x) w) =
      json_seq (map json_item (map g xs)) (json_item (g x) w)"
    using Cons.prems by (intro Cons.IH) (auto simp: json_item_def json_inside_def)
  then show ?case by (simp add: step)
qed

lemma json_seq_values:
  assumes "json_inside w"
    and "\<And>v w. v \<in> set vs \<Longrightarrow> json_inside w \<Longrightarrow> jw_pretty w = pretty \<Longrightarrow> jw_depth w = depth \<Longrightarrow>
      f v w = json_item (g v) w"
    and "jw_pretty w = pretty" "jw_depth w = depth"
  shows "json_seq (map f vs) w = json_seq (map json_item (map g vs)) w"
  using assms
proof (induction vs arbitrary: w)
  case Nil
  then show ?case by simp
next
  case (Cons v vs)
  have step: "f v w = json_item (g v) w" using Cons.prems by simp
  have "json_seq (map f vs) (json_item (g v) w) =
      json_seq (map json_item (map g vs)) (json_item (g v) w)"
    using Cons.prems by (intro Cons.IH) (auto simp: json_item_def json_inside_def)
  then show ?case by (simp add: step)
qed

lemma json_open_inside:
  assumes "json_ready w" "jw_depth w = int depth"
  shows "json_inside (json_open b w)" "jw_pretty (json_open b w) = jw_pretty w"
    "jw_depth (json_open b w) = int (Suc depth)"
  using assms by (simp_all add: json_open_def json_prepare_value_lead json_put_def Let_def
      json_inside_def)

lemma json_put_fields [simp]:
  "jw_pretty (json_put str w) = jw_pretty w" "jw_depth (json_put str w) = jw_depth w"
  "jw_pretty (json_indent w) = jw_pretty w" "jw_depth (json_indent w) = jw_depth w"
  by (simp_all add: json_put_def json_indent_def)

lemma json_key_fields:
  "jw_pretty (json_key k w) = jw_pretty w" "jw_depth (json_key k w) = jw_depth w"
  "json_inside w \<Longrightarrow> json_ready (json_key k w)"
  by (simp_all add: json_key_def Let_def json_ready_def json_inside_def)

lemma write_json_wrote:
  assumes "json_ready w" "jw_depth w = int depth"
  shows "write_json v w = json_wrote (json_text (jw_pretty w) v depth) w"
  using assms
proof (induction v arbitrary: w depth)
  case (J_Array vs)
  let ?p = "jw_pretty w"
  have "json_seq (map write_json vs) (json_open ''['' w) =
      json_seq (map json_item (map (\<lambda>v. json_text ?p v (Suc depth)) vs)) (json_open ''['' w)"
  proof (rule json_seq_values [where pretty = ?p and depth = "int (Suc depth)"])
    fix v w' assume "v \<in> set vs" and w': "json_inside w'" "jw_pretty w' = ?p" "jw_depth w' = int (Suc depth)"
    then show "write_json v w' = json_item (json_text ?p v (Suc depth)) w'"
      using J_Array.IH [of v w' "Suc depth"] by (simp add: json_inside_ready json_wrote_item)
  qed (use json_open_inside J_Array.prems in auto)
  then show ?case
    using json_bracketed [OF J_Array.prems, of "'']''" "map (\<lambda>v. json_text ?p v (Suc depth)) vs" "''[''"]
    by (simp add: json_begin_array_def json_end_array_def comp_def)
next
  case (J_Object ms)
  let ?p = "jw_pretty w"
  let ?g = "\<lambda>m. json_escape (fst m) @ '':'' @ (if ?p then '' '' else []) @
    json_text ?p (snd m) (Suc depth)"
  have "json_seq (concat (map (\<lambda>m. [json_key (fst m), write_json (snd m)]) ms)) (json_open ''{'' w) =
      json_seq (map json_item (map ?g ms)) (json_open ''{'' w)"
  proof (rule json_seq_members [where pretty = ?p and depth = "int (Suc depth)"])
    fix m w' assume m: "m \<in> set ms"
      and w': "json_inside w'" "jw_pretty w' = ?p" "jw_depth w' = int (Suc depth)"
    have snd: "snd m \<in> Basic_BNFs.snds m" by (cases m) simp
    have key: "json_ready (json_key (fst m) w')" "jw_pretty (json_key (fst m) w') = ?p"
        "jw_depth (json_key (fst m) w') = int (Suc depth)"
      using w' by (simp_all add: json_key_fields)
    have "write_json (snd m) (json_key (fst m) w') =
        json_wrote (json_text (jw_pretty (json_key (fst m) w')) (snd m) (Suc depth)) (json_key (fst m) w')"
      by (rule J_Object.IH [OF m snd key(1,3)])
    then show "write_json (snd m) (json_key (fst m) w') = json_item (?g m) w'"
      unfolding key(2) using json_member_item [OF w'(1)] w'(2) by simp
  qed (use json_open_inside J_Object.prems in auto)
  then show ?case
    using json_bracketed [OF J_Object.prems, of "''}''" "map ?g ms" "''{''"]
    by (simp add: json_begin_object_def json_end_object_def comp_def case_prod_unfold)
qed (simp_all add: json_scalars)

text \<open>A value written with a fresh writer.\<close>

lemma write_json_fresh: "jw_out (write_json v (json_writer pretty)) = json_text pretty v 0"
  using write_json_wrote [of "json_writer pretty" 0 v]
  by (simp add: json_ready_def json_writer_def json_wrote_def json_lead_def)

end
