(* ===== verification/Json_Reader.thy ===== *)
theory Json_Reader
  imports Json
begin

text \<open>
  A reference reader for JSON texts (RFC 8259, with unsigned 64-bit numbers), against which the writer
  is judged: reading what the writer prints gives the printed value back, up to the replacement of
  bytes that are not UTF-8. The recursion of the reader is bounded by the length of the text.
\<close>

section \<open>Strings\<close>

definition json_space :: "char \<Rightarrow> bool" where
  "json_space c \<longleftrightarrow> c = CHR '' '' \<or> c = CHR 0x0A \<or> c = CHR 0x0D \<or> c = CHR 0x09"

definition json_skip :: "string \<Rightarrow> string" where
  "json_skip str = dropWhile json_space str"

definition hex_value :: "char \<Rightarrow> nat option" where
  "hex_value c =
     (let n = of_char c :: nat in
      if 48 \<le> n \<and> n \<le> 57 then Some (n - 48)
      else if 97 \<le> n \<and> n \<le> 102 then Some (n - 87)
      else if 65 \<le> n \<and> n \<le> 70 then Some (n - 55) else None)"

definition simple_escape :: "char \<Rightarrow> char option" where
  "simple_escape c =
     (if c = CHR 0x22 \<or> c = CHR 0x5C \<or> c = CHR ''/'' then Some c
      else if c = CHR ''n'' then Some (CHR 0x0A) else if c = CHR ''r'' then Some (CHR 0x0D)
      else if c = CHR ''t'' then Some (CHR 0x09) else if c = CHR ''b'' then Some (CHR 0x08)
      else if c = CHR ''f'' then Some (CHR 0x0C) else None)"

text \<open>From behind the opening quote to behind the closing one; control characters must be escaped.\<close>

fun read_string :: "string \<Rightarrow> (string \<times> string) option" where
  "read_string [] = None"
| "read_string (c # cs) =
     (if c = CHR 0x22 then Some ([], cs)
      else if byte_of_char c < 0x20 then None
      else if c = CHR 0x5C then
        (case cs of
           [] \<Rightarrow> None
         | e # ds \<Rightarrow>
             if e = CHR ''u'' then
               (case ds of
                  h3 # h2 # h1 # h0 # es \<Rightarrow>
                    (case (hex_value h3, hex_value h2, hex_value h1, hex_value h0) of
                       (Some a, Some b, Some x, Some y) \<Rightarrow>
                         map_option (apfst ((@) (append_utf8 (word_of_nat
                           (4096 * a + 256 * b + 16 * x + y))))) (read_string es)
                     | _ \<Rightarrow> None)
                | _ \<Rightarrow> None)
             else (case simple_escape e of
                None \<Rightarrow> None
              | Some d \<Rightarrow> map_option (apfst ((#) d)) (read_string ds)))
      else map_option (apfst ((#) c)) (read_string cs))"

section \<open>Numbers\<close>

definition digits_value :: "string \<Rightarrow> nat" where
  "digits_value ds = foldl (\<lambda>n d. 10 * n + (of_char d - 48)) 0 ds"

definition read_number :: "string \<Rightarrow> (json \<times> string) option" where
  "read_number str =
     (let ds = takeWhile is_digit str; n = digits_value ds in
      if ds = [] \<or> (hd ds = CHR ''0'' \<and> tl ds \<noteq> []) \<or> 18446744073709551616 \<le> n then None
      else Some (J_Number (word_of_nat n), dropWhile is_digit str))"

section \<open>Values\<close>

definition read_literal :: "string \<Rightarrow> json \<Rightarrow> string \<Rightarrow> (json \<times> string) option" where
  "read_literal name v str =
     (if take (length name) str = name then Some (v, drop (length name) str) else None)"

fun read_value :: "nat \<Rightarrow> string \<Rightarrow> (json \<times> string) option"
  and read_elements :: "nat \<Rightarrow> string \<Rightarrow> (json list \<times> string) option"
  and read_members :: "nat \<Rightarrow> string \<Rightarrow> ((string \<times> json) list \<times> string) option" where
  "read_value 0 str = None"
| "read_value (Suc n) str =
     (case json_skip str of
        [] \<Rightarrow> None
      | c # cs \<Rightarrow>
          if c = CHR ''{'' then
            (case json_skip cs of
               [] \<Rightarrow> None
             | d # ds \<Rightarrow> if d = CHR ''}'' then Some (J_Object [], ds)
                 else map_option (apfst J_Object) (read_members n cs))
          else if c = CHR ''['' then
            (case json_skip cs of
               [] \<Rightarrow> None
             | d # ds \<Rightarrow> if d = CHR '']'' then Some (J_Array [], ds)
                 else map_option (apfst J_Array) (read_elements n cs))
          else if c = CHR 0x22 then map_option (apfst J_String) (read_string cs)
          else if c = CHR ''n'' then read_literal ''null'' J_Null (c # cs)
          else if c = CHR ''t'' then read_literal ''true'' (J_Bool True) (c # cs)
          else if c = CHR ''f'' then read_literal ''false'' (J_Bool False) (c # cs)
          else read_number (c # cs))"
| "read_elements 0 str = None"
| "read_elements (Suc n) str =
     (case read_value n str of
        None \<Rightarrow> None
      | Some (v, rest) \<Rightarrow>
          (case json_skip rest of
             [] \<Rightarrow> None
           | c # cs \<Rightarrow>
               if c = CHR '']'' then Some ([v], cs)
               else if c = CHR '','' then map_option (apfst ((#) v)) (read_elements n cs)
               else None))"
| "read_members 0 str = None"
| "read_members (Suc n) str =
     (case json_skip str of
        [] \<Rightarrow> None
      | q # qs \<Rightarrow>
          if q \<noteq> CHR 0x22 then None
          else (case read_string qs of
             None \<Rightarrow> None
           | Some (k, rest) \<Rightarrow>
               (case json_skip rest of
                  [] \<Rightarrow> None
                | d # ds \<Rightarrow>
                    if d \<noteq> CHR '':'' then None
                    else (case read_value n ds of
                       None \<Rightarrow> None
                     | Some (v, rest) \<Rightarrow>
                         (case json_skip rest of
                            [] \<Rightarrow> None
                          | c # cs \<Rightarrow>
                              if c = CHR ''}'' then Some ([(k, v)], cs)
                              else if c = CHR '','' then
                                map_option (apfst ((#) (k, v))) (read_members n cs)
                              else None)))))"

definition read_json :: "string \<Rightarrow> json option" where
  "read_json str =
     (case read_value (length str) str of
        Some (v, rest) \<Rightarrow> (if json_skip rest = [] then Some v else None)
      | None \<Rightarrow> None)"

text \<open>What a printed value stands for: every string with its bytes outside UTF-8 replaced.\<close>

primrec json_shown :: "json \<Rightarrow> json" where
  "json_shown J_Null = J_Null"
| "json_shown (J_Bool b) = J_Bool b"
| "json_shown (J_Number n) = J_Number n"
| "json_shown (J_String s) = J_String (utf8_sanitize s)"
| "json_shown (J_Array vs) = J_Array (map json_shown vs)"
| "json_shown (J_Object ms) = J_Object (map (map_prod utf8_sanitize id) (map (map_prod id json_shown) ms))"

section \<open>Reading printed strings\<close>

lemma read_string_plain:
  assumes "list_all (\<lambda>c. 0x80 \<le> byte_of_char c) str"
  shows "read_string (str @ rest) = map_option (apfst ((@) str)) (read_string rest)"
  using assms
proof (induction str)
  case Nil
  then show ?case by (cases "read_string rest") auto
next
  case (Cons c str)
  then have "c \<noteq> CHR 0x22" "c \<noteq> CHR 0x5C" "\<not> byte_of_char c < 0x20"
    by (auto simp: byte_of_char_def word_less_nat_alt word_le_nat_alt unat_of_nat)
  with Cons show ?case by (cases "read_string rest") (auto simp: option.map_comp)
qed

lemma utf8_continue_high:
  "utf8_continue cp str = Some v \<Longrightarrow> list_all (\<lambda>c. 0x80 \<le> byte_of_char c) str"
proof (induction str arbitrary: cp)
  case (Cons c str)
  then have "byte_of_char c AND 0xC0 = 0x80" by (auto simp: Let_def split: if_splits)
  then have "0x80 \<le> byte_of_char c" by (metis word_and_le2)
  with Cons show ?case by (auto simp: Let_def split: if_splits)
qed simp

lemma utf8_sequence_high:
  assumes "utf8_sequence (c # cs) = Some k" "0x80 \<le> byte_of_char c"
  shows "list_all (\<lambda>c. 0x80 \<le> byte_of_char c) (take k (c # cs))"
  using assms by (auto simp: utf8_sequence_def split: option.splits if_splits dest!: utf8_continue_high)

lemma read_hex_escape:
  assumes "c < 0x20"
  shows "read_string (append_codepoint_hex c @ rest) =
    map_option (apfst ((#) (char_of_byte c))) (read_string rest)"
proof -
  have all: "list_all (\<lambda>n. map hex_value (drop 2 (append_codepoint_hex (word_of_nat n))) =
      [Some 0, Some 0, Some (n div 16), Some (n mod 16)]) [0 ..< 32]" by code_simp
  define n where "n = unat c"
  have c: "c = word_of_nat n" "n < 32" using assms by (simp_all add: n_def word_less_nat_alt)
  with all have digits: "map hex_value (drop 2 (append_codepoint_hex c)) =
      [Some 0, Some 0, Some (n div 16), Some (n mod 16)]" by (simp add: list_all_iff)
  obtain h3 h2 h1 h0 where form: "append_codepoint_hex c = [CHR 0x5C, CHR ''u'', h3, h2, h1, h0]"
    by (simp add: append_codepoint_hex_def)
  have "append_utf8 (word_of_nat (16 * (n div 16) + n mod 16)) = [char_of_byte c]"
    using c by (simp add: append_utf8_def word_le_nat_alt unat_of_nat unsigned_of_nat
        take_bit_nat_eq_self)
  moreover have "(@) [char_of_byte c] = (#) (char_of_byte c)" by (rule ext) simp
  ultimately show ?thesis
    using digits by (simp add: form byte_of_char_def word_less_nat_alt)
qed

lemma escape_bytes:
  "char_of_byte 0x22 = CHR 0x22" "char_of_byte 0x5C = CHR 0x5C" "char_of_byte 10 = CHR 0x0A"
  "char_of_byte 13 = CHR 0x0D" "char_of_byte 9 = CHR 0x09" "char_of_byte 8 = CHR 0x08"
  "char_of_byte 12 = CHR 0x0C"
  by code_simp+

lemma read_simple_escape:
  "simple_escape e = Some d \<Longrightarrow> e \<noteq> CHR ''u'' \<Longrightarrow>
     read_string (CHR 0x5C # e # str) = map_option (apfst ((#) d)) (read_string str)"
  by (simp add: byte_of_char_def word_less_nat_alt)

lemma read_escaped:
  "read_string (json_escape_body str @ CHR 0x22 # rest) = Some (utf8_sanitize str, rest)"
proof (induction str rule: measure_induct_rule [of length])
  case (less str)
  show ?case
  proof (cases str)
    case Nil
    then show ?thesis by simp
  next
    case (Cons raw cs)
    define c where "c = byte_of_char raw"
    have raw: "raw = char_of_byte c" by (simp add: c_def)
    have IH: "read_string (json_escape_body cs @ CHR 0x22 # rest) = Some (utf8_sanitize cs, rest)"
      using less Cons by simp
    have low: "c \<le> 0x7F \<Longrightarrow> utf8_sanitize str = raw # utf8_sanitize cs" by (simp add: Cons c_def)
    consider (escaped) e where "c \<in> {0x22, 0x5C, 10, 13, 9, 8, 12}"
          "json_escape_body str = CHR 0x5C # e # json_escape_body cs" "simple_escape e = Some raw" "e \<noteq> CHR ''u''"
      | (control) "c < 0x20" "json_escape_body str = append_codepoint_hex c @ json_escape_body cs"
      | (plain) "\<not> c < 0x20" "c < 0x80" "raw \<noteq> CHR 0x22" "raw \<noteq> CHR 0x5C"
          "json_escape_body str = raw # json_escape_body cs"
      | (high) "0x80 \<le> c"
    proof (cases "c < 0x80")
      case False
      then show ?thesis using high by (simp add: not_less)
    next
      case True
      note body = json_escape_body.simps(2) [of raw cs, folded Cons c_def, unfolded Let_def]
      consider "c = 0x22" | "c = 0x5C" | "c = 10" | "c = 13" | "c = 9" | "c = 8" | "c = 12"
        | "c \<notin> {0x22, 0x5C, 10, 13, 9, 8, 12}" "c < 0x20"
        | "c \<notin> {0x22, 0x5C, 10, 13, 9, 8, 12}" "\<not> c < 0x20" by blast
      then show ?thesis
      proof cases
        case 8
        then show ?thesis using body control by simp
      next
        case 9
        have "c = 0x22" if "raw = CHR 0x22" using that by (simp add: c_def byte_of_char_def)
        moreover have "c = 0x5C" if "raw = CHR 0x5C" using that by (simp add: c_def byte_of_char_def)
        ultimately show ?thesis using 9 True body plain by auto
      qed (use escaped body raw in \<open>simp_all add: escape_bytes simple_escape_def\<close>)
    qed
    then show ?thesis
    proof cases
      case (escaped e)
      then have "c \<le> 0x7F" by auto
      with escaped low IH show ?thesis by (simp add: read_simple_escape del: read_string.simps)
    next
      case control
      then have "c \<le> 0x7F" by unat_arith
      with control low IH show ?thesis by (simp add: read_hex_escape raw)
    next
      case plain
      then have "c \<le> 0x7F" by unat_arith
      with plain low IH show ?thesis by (simp add: c_def)
    next
      case high
      then have not_low: "\<not> c \<le> 0x7F" by unat_arith
      from high have "c \<noteq> 0x22" "c \<noteq> 0x5C" "c \<noteq> 10" "c \<noteq> 13" "c \<noteq> 9" "c \<noteq> 8" "c \<noteq> 12"
        "\<not> c < 0x20" "\<not> c < 0x80" by auto unat_arith+
      then have body_high: "json_escape_body str = (case utf8_sequence (raw # cs) of
              None \<Rightarrow> append_utf8 kReplacement @ json_escape_body cs
            | Some k \<Rightarrow> take k (raw # cs) @ json_escape_body (drop (k - 1) cs))"
        by (simp only: Cons json_escape_body.simps Let_def c_def [symmetric] if_False)
      show ?thesis
      proof (cases "utf8_sequence (raw # cs)")
        case None
        have "list_all (\<lambda>c. 0x80 \<le> byte_of_char c) (append_utf8 kReplacement)"
          by (simp add: append_utf8_replacement)
        note plain = read_string_plain [OF this, of "json_escape_body cs @ CHR 0x22 # rest"]
        have "json_escape_body str = append_utf8 kReplacement @ json_escape_body cs"
          using body_high None by simp
        with None not_low IH plain show ?thesis by (simp add: Cons c_def)
      next
        case (Some k)
        then obtain j where k: "k = Suc j" using utf8_sequence_bounds by (cases k) fastforce+
        have "list_all (\<lambda>c. 0x80 \<le> byte_of_char c) (take k (raw # cs))"
          using utf8_sequence_high [OF Some] high by (simp add: c_def)
        note plain = read_string_plain [OF this, of "json_escape_body (drop (k - 1) cs) @ CHR 0x22 # rest"]
        have "read_string (json_escape_body (drop (k - 1) cs) @ CHR 0x22 # rest) =
            Some (utf8_sanitize (drop (k - 1) cs), rest)"
          using less Cons by simp
        with Some not_low plain body_high show ?thesis by (simp add: Cons c_def k)
      qed
    qed
  qed
qed

section \<open>Reading printed numbers\<close>

lemma of_char_digit: "d < 10 \<Longrightarrow> of_char (digit_char d) = 48 + d"
  by (simp add: digit_char_def)

lemma is_digit_digit_char: "d < 10 \<Longrightarrow> is_digit (digit_char d)"
  by (auto simp: is_digit_def less_eq_char_def of_char_digit)

lemma nat_to_string_digits:
  "list_all is_digit (nat_to_string n) \<and> digits_value (nat_to_string n) = n \<and>
   nat_to_string n \<noteq> [] \<and> (hd (nat_to_string n) = CHR ''0'' \<longrightarrow> n = 0)"
proof (induction n rule: nat_to_string.induct)
  case (1 n)
  show ?case
  proof (cases "n < 10")
    case True
    have "digit_char n = CHR ''0'' \<Longrightarrow> n = 0" using of_char_digit [OF True] by simp
    with True show ?thesis
      by (simp add: nat_to_string.simps is_digit_digit_char digits_value_def of_char_digit)
  next
    case False
    with 1 have "list_all is_digit (nat_to_string (n div 10))"
        "digits_value (nat_to_string (n div 10)) = n div 10" "nat_to_string (n div 10) \<noteq> []"
        "hd (nat_to_string (n div 10)) = CHR ''0'' \<longrightarrow> n div 10 = 0" by blast+
    with False show ?thesis
      by (subst (1 2 3 4) nat_to_string.simps)
        (auto simp: is_digit_digit_char digits_value_def of_char_digit)
  qed
qed

lemma takeWhile_digits:
  assumes "list_all is_digit ds" "rest = [] \<or> \<not> is_digit (hd rest)"
  shows "takeWhile is_digit (ds @ rest) = ds" "dropWhile is_digit (ds @ rest) = rest"
proof -
  have "takeWhile is_digit rest = []" "dropWhile is_digit rest = rest"
    using assms(2) by (cases rest; auto)+
  with assms(1) show "takeWhile is_digit (ds @ rest) = ds" "dropWhile is_digit (ds @ rest) = rest"
    by (simp_all add: list_all_iff takeWhile_append dropWhile_append)
qed

lemma read_printed_number:
  assumes "n < 18446744073709551616" "rest = [] \<or> \<not> is_digit (hd rest)"
  shows "read_number (nat_to_string n @ rest) = Some (J_Number (word_of_nat n), rest)"
proof -
  have one: "tl (nat_to_string n) = []" if "hd (nat_to_string n) = CHR ''0''"
  proof -
    have "n = 0" using nat_to_string_digits that by blast
    then show ?thesis by (simp add: nat_to_string.simps)
  qed
  have digits: "list_all is_digit (nat_to_string n)" "digits_value (nat_to_string n) = n"
    "nat_to_string n \<noteq> []" using nat_to_string_digits by blast+
  show ?thesis
    unfolding read_number_def takeWhile_digits [OF digits(1) assms(2)] digits(2) Let_def
    using one digits(3) assms(1) by auto
qed

section \<open>Reading printed values\<close>

lemma skip_break [simp]: "json_skip (json_break pretty depth @ str) = json_skip str"
proof -
  have "list_all json_space (json_break pretty depth)"
    by (auto simp: json_break_def json_space_def list_all_iff)
  then show ?thesis by (simp add: json_skip_def list_all_iff dropWhile_append)
qed

lemma skip_char [simp]: "\<not> json_space c \<Longrightarrow> json_skip (c # str) = c # str"
  by (simp add: json_skip_def)

lemma read_value_break [simp]:
  "read_value n (json_break pretty depth @ str) = read_value n str"
  by (cases n) simp_all

lemma read_members_break [simp]:
  "read_members n (json_break pretty depth @ str) = read_members n str"
  by (cases n) simp_all

text \<open>Every value starts with a character that is neither space nor a closing bracket.\<close>

lemma json_text_start:
  "\<exists>c cs. json_text pretty v depth = c # cs \<and> \<not> json_space c \<and> c \<noteq> CHR '']'' \<and>
     (\<forall>n. v = J_Number n \<longrightarrow> is_digit c)"
proof (cases v)
  case (J_Number n)
  then show ?thesis
    using nat_to_string_digits [of "unat n"]
    by (cases "nat_to_string (unat n)") (auto simp: json_space_def is_digit_def less_eq_char_def)
qed (simp_all add: json_brackets_def json_escape_def json_space_def)

text \<open>A bound for the recursion of the reader.\<close>

primrec json_fuel :: "json \<Rightarrow> nat" where
  "json_fuel J_Null = 1"
| "json_fuel (J_Bool b) = 1"
| "json_fuel (J_Number n) = 1"
| "json_fuel (J_String s) = 1"
| "json_fuel (J_Array vs) = Suc (sum_list (map Suc (map json_fuel vs)))"
| "json_fuel (J_Object ms) = Suc (sum_list (map (Suc \<circ> snd) (map (map_prod id json_fuel) ms)))"

definition ends_number :: "string \<Rightarrow> bool" where
  "ends_number rest \<longleftrightarrow> rest = [] \<or> \<not> is_digit (hd rest)"

definition reads_back :: "bool \<Rightarrow> json \<Rightarrow> bool" where
  "reads_back pretty v \<longleftrightarrow> (\<forall>n depth rest. json_fuel v \<le> n \<longrightarrow> ends_number rest \<longrightarrow>
     read_value n (json_text pretty v depth @ rest) = Some (json_shown v, rest))"

lemma ends_number_break:
  "\<not> is_digit c \<Longrightarrow> ends_number (json_break pretty depth @ c # rest)"
  by (auto simp: ends_number_def json_break_def is_digit_def less_eq_char_def)

lemma read_printed_elements:
  assumes "\<forall>v \<in> set vs. reads_back pretty v" "vs \<noteq> []"
    and "sum_list (map Suc (map json_fuel vs)) \<le> n"
  shows "read_elements n (join '','' (map (\<lambda>v. json_break pretty d @ json_text pretty v d) vs) @
      json_break pretty e @ CHR '']'' # rest) = Some (map json_shown vs, rest)"
  using assms
proof (induction vs arbitrary: n)
  case Nil
  then show ?case by simp
next
  case (Cons v vs)
  then obtain m where n: "n = Suc m" "json_fuel v \<le> m" "sum_list (map Suc (map json_fuel vs)) \<le> m"
    by (cases n) auto
  show ?case
  proof (cases vs)
    case Nil
    have "read_value m (json_text pretty v d @ json_break pretty e @ CHR '']'' # rest) =
        Some (json_shown v, json_break pretty e @ CHR '']'' # rest)"
      using Cons.prems(1) n(2)
      by (simp add: reads_back_def ends_number_break is_digit_def less_eq_char_def)
    then show ?thesis by (simp add: Nil n(1) json_space_def)
  next
    case (Cons w ws)
    let ?tail = "join '','' (map (\<lambda>v. json_break pretty d @ json_text pretty v d) vs) @
      json_break pretty e @ CHR '']'' # rest"
    have "read_value m (json_text pretty v d @ CHR '','' # ?tail) = Some (json_shown v, CHR '','' # ?tail)"
      using Cons.prems(1) n(2)
      by (simp add: reads_back_def ends_number_def is_digit_def less_eq_char_def)
    moreover have "read_elements m ?tail = Some (map json_shown vs, rest)"
      using Cons Cons.prems(1) n(3) by (intro Cons.IH) auto
    ultimately show ?thesis by (simp add: Cons n(1) json_space_def)
  qed
qed

lemma read_value_space [simp]: "read_value n (CHR '' '' # str) = read_value n str"
  by (cases n) (simp_all add: json_skip_def json_space_def)

lemma read_value_pad [simp]:
  "read_value n ((if pretty then '' '' else []) @ str) = read_value n str"
  by simp

abbreviation printed_member :: "bool \<Rightarrow> nat \<Rightarrow> string \<times> json \<Rightarrow> string" where
  "printed_member pretty d m \<equiv>
     json_escape (fst m) @ '':'' @ (if pretty then '' '' else []) @ json_text pretty (snd m) d"

lemma read_printed_members:
  assumes "\<forall>m \<in> set ms. reads_back pretty (snd m)" "ms \<noteq> []"
    and "sum_list (map (\<lambda>m. Suc (json_fuel (snd m))) ms) \<le> n"
  shows "read_members n (join '','' (map (\<lambda>m. json_break pretty d @ printed_member pretty d m) ms) @
      json_break pretty e @ CHR ''}'' # rest) =
    Some (map (map_prod utf8_sanitize json_shown) ms, rest)"
  using assms
proof (induction ms arbitrary: n)
  case Nil
  then show ?case by simp
next
  case (Cons m ms)
  then obtain i where n: "n = Suc i" "json_fuel (snd m) \<le> i"
      "sum_list (map (\<lambda>m. Suc (json_fuel (snd m))) ms) \<le> i"
    by (cases n) auto
  have key: "read_string (json_escape_body (fst m) @ CHR 0x22 # str) =
      Some (utf8_sanitize (fst m), str)" for str by (rule read_escaped)
  have pair: "map_prod utf8_sanitize json_shown m = (utf8_sanitize (fst m), json_shown (snd m))"
    by (cases m) simp
  show ?case
  proof (cases ms)
    case Nil
    have "read_value i (json_text pretty (snd m) d @ json_break pretty e @ CHR ''}'' # rest) =
        Some (json_shown (snd m), json_break pretty e @ CHR ''}'' # rest)"
      using Cons.prems(1) n(2)
      by (simp add: reads_back_def ends_number_break is_digit_def less_eq_char_def)
    then show ?thesis
      by (simp add: Nil n(1) json_space_def json_escape_def key pair split del: if_split)
  next
    case (Cons m' ms')
    let ?tail = "join '','' (map (\<lambda>m. json_break pretty d @ printed_member pretty d m) ms) @
      json_break pretty e @ CHR ''}'' # rest"
    have "read_value i (json_text pretty (snd m) d @ CHR '','' # ?tail) =
        Some (json_shown (snd m), CHR '','' # ?tail)"
      using Cons.prems(1) n(2)
      by (simp add: reads_back_def ends_number_def is_digit_def less_eq_char_def)
    moreover have "read_members i ?tail = Some (map (map_prod utf8_sanitize json_shown) ms, rest)"
      using Cons Cons.prems(1) n(3) by (intro Cons.IH) auto
    ultimately show ?thesis
      by (simp add: Cons n(1) json_space_def json_escape_def key pair split del: if_split)
  qed
qed

lemma all_read_back: "reads_back pretty v"
proof (induction v)
  case (J_Number k)
  have "read_value n (word_to_string k @ rest) = Some (J_Number k, rest)"
    if "1 \<le> n" "ends_number rest" for n rest
  proof -
    obtain m where m: "n = Suc m" using \<open>1 \<le> n\<close> by (cases n) auto
    obtain c cs where c: "word_to_string k = c # cs" "is_digit c"
      using nat_to_string_digits [of "unat k"] by (cases "word_to_string k") auto
    then have "\<not> json_space c" "c \<noteq> CHR ''{''" "c \<noteq> CHR ''[''" "c \<noteq> CHR 0x22" "c \<noteq> CHR ''n''"
        "c \<noteq> CHR ''t''" "c \<noteq> CHR ''f''"
      by (auto simp: json_space_def is_digit_def less_eq_char_def)
    moreover have "read_number (word_to_string k @ rest) = Some (J_Number k, rest)"
      using read_printed_number [of "unat k" rest] unsigned_less [of k] that(2)
      by (simp add: ends_number_def)
    ultimately show ?thesis by (simp add: m c)
  qed
  then show ?case by (simp add: reads_back_def)
next
  case (J_Array vs)
  have "read_value n (json_text pretty (J_Array vs) depth @ rest) = Some (json_shown (J_Array vs), rest)"
    if fuel: "json_fuel (J_Array vs) \<le> n" for n depth rest
  proof -
    obtain m where m: "n = Suc m" "sum_list (map Suc (map json_fuel vs)) \<le> m"
      using fuel by (cases n) auto
    have printed: "json_text pretty (J_Array vs) depth @ rest = CHR ''['' #
        join '','' (map (\<lambda>v. json_break pretty (Suc depth) @ json_text pretty v (Suc depth)) vs) @
        (if vs = [] then [] else json_break pretty depth) @ CHR '']'' # rest"
      by (simp add: json_brackets_def comp_def)
    show ?thesis
    proof (cases vs)
      case Nil
      then show ?thesis by (simp add: m(1) json_brackets_def json_space_def)
    next
      case (Cons w ws)
      let ?items = "join '','' (map (\<lambda>v. json_break pretty (Suc depth) @ json_text pretty v (Suc depth)) vs) @
        json_break pretty depth @ CHR '']'' # rest"
      obtain c cs where c: "json_text pretty w (Suc depth) = c # cs" "\<not> json_space c" "c \<noteq> CHR '']''"
        using json_text_start by blast
      have "\<exists>ds. json_skip ?items = c # ds" using c by (cases ws) (auto simp: Cons)
      moreover have "read_elements m ?items = Some (map json_shown vs, rest)"
        using J_Array m(2) Cons by (intro read_printed_elements) auto
      ultimately show ?thesis
        using c(3) unfolding printed by (auto simp: m(1) json_space_def Cons [symmetric])
    qed
  qed
  then show ?case unfolding reads_back_def by blast
next
  case (J_Object ms)
  have "read_value n (json_text pretty (J_Object ms) depth @ rest) =
      Some (json_shown (J_Object ms), rest)"
    if fuel: "json_fuel (J_Object ms) \<le> n" for n depth rest
  proof -
    obtain i where i: "n = Suc i" "sum_list (map (\<lambda>m. Suc (json_fuel (snd m))) ms) \<le> i"
      using fuel by (cases n) (auto simp: comp_def)
    have printed: "json_text pretty (J_Object ms) depth @ rest = CHR ''{'' #
        join '','' (map (\<lambda>m. json_break pretty (Suc depth) @ printed_member pretty (Suc depth) m) ms) @
        (if ms = [] then [] else json_break pretty depth) @ CHR ''}'' # rest"
      by (simp add: json_brackets_def comp_def case_prod_unfold)
    have shown: "json_shown (J_Object ms) = J_Object (map (map_prod utf8_sanitize json_shown) ms)"
      by (simp add: map_prod_def case_prod_unfold)
    show ?thesis
    proof (cases ms)
      case Nil
      then show ?thesis by (simp add: i(1) json_brackets_def json_space_def)
    next
      case (Cons m ms')
      let ?items = "join '','' (map (\<lambda>m. json_break pretty (Suc depth) @ printed_member pretty (Suc depth) m) ms) @
        json_break pretty depth @ CHR ''}'' # rest"
      have "\<forall>m \<in> set ms. reads_back pretty (snd m)"
        using J_Object by (metis snds.intros)
      then have "read_members i ?items = Some (map (map_prod utf8_sanitize json_shown) ms, rest)"
        using i(2) Cons by (intro read_printed_members) auto
      moreover have "\<exists>ds. json_skip ?items = CHR 0x22 # ds"
        by (cases ms') (auto simp: Cons json_escape_def json_space_def)
      ultimately show ?thesis
        unfolding printed shown using Cons by (auto simp: i(1) json_space_def)
    qed
  qed
  then show ?case unfolding reads_back_def by blast
next
  case (J_String s)
  have "read_value n (json_escape s @ rest) = Some (J_String (utf8_sanitize s), rest)" if "1 \<le> n" for n rest
    using that by (cases n) (simp_all add: json_escape_def json_space_def read_escaped)
  then show ?case by (simp add: reads_back_def)
qed (auto simp: reads_back_def Suc_le_eq gr0_conv_Suc json_space_def read_literal_def)

section \<open>Whole documents\<close>

lemma length_join:
  "strs \<noteq> [] \<Longrightarrow> Suc (length (join '','' strs)) = sum_list (map (\<lambda>str. Suc (length str)) strs)"
proof (induction strs)
  case (Cons str strs)
  then show ?case by (cases strs) simp_all
qed simp

lemma brackets_length:
  assumes "length opening = 1" "length closing = 1"
    and "\<forall>item \<in> set items. f item \<le> length (g item)"
  shows "Suc (sum_list (map (\<lambda>item. Suc (f item)) items)) \<le>
    length (json_brackets pretty depth opening closing (map g items))"
proof (cases "items = []")
  case True
  then show ?thesis using assms by (simp add: json_brackets_def)
next
  case False
  let ?strs = "map ((@) (json_break pretty (Suc depth))) (map g items)"
  have "sum_list (map (\<lambda>item. Suc (f item)) items) \<le> sum_list (map (\<lambda>str. Suc (length str)) ?strs)"
    using assms(3) by (auto simp: comp_def intro!: sum_list_mono trans_le_add2)
  also have "\<dots> = Suc (length (join '','' ?strs))" using False by (intro length_join [symmetric]) simp
  finally show ?thesis using assms(1,2) unfolding json_brackets_def by simp
qed

lemma fuel_within_length: "json_fuel v \<le> length (json_text pretty v depth)"
proof (induction v arbitrary: depth)
  case (J_Number n)
  then show ?case using nat_to_string_digits [of "unat n"] by (simp add: Suc_le_eq)
next
  case (J_Array vs)
  then have "Suc (sum_list (map (\<lambda>v. Suc (json_fuel v)) vs)) \<le>
      length (json_brackets pretty depth ''['' '']'' (map (\<lambda>v. json_text pretty v (Suc depth)) vs))"
    by (intro brackets_length) auto
  then show ?case by (simp add: comp_def)
next
  case (J_Object ms)
  have "json_fuel (snd m) \<le> length (printed_member pretty (Suc depth) m)" if "m \<in> set ms" for m
  proof -
    have "snd m \<in> Basic_BNFs.snds m" by (cases m) simp
    from J_Object [OF that this, of "Suc depth"] show ?thesis by simp
  qed
  then have "Suc (sum_list (map (\<lambda>m. Suc (json_fuel (snd m))) ms)) \<le>
      length (json_brackets pretty depth ''{'' ''}'' (map (printed_member pretty (Suc depth)) ms))"
    by (intro brackets_length) auto
  then show ?case by (simp add: comp_def case_prod_unfold)
qed (simp_all add: json_escape_def)

lemma read_printed: "read_json (json_text pretty v 0) = Some (json_shown v)"
proof -
  have "read_value (length (json_text pretty v 0)) (json_text pretty v 0 @ []) = Some (json_shown v, [])"
    using all_read_back [of pretty v] fuel_within_length [of v pretty 0]
    by (simp only: reads_back_def) (simp add: ends_number_def)
  then show ?thesis by (simp add: read_json_def json_skip_def)
qed

end
