(* ===== verification/State_Render.thy ===== *)
theory State_Render
  imports State Json_Reader
begin

text \<open>
  The renderings of the derived state (the end of \<^verbatim>\<open>state.cpp\<close>): the one-line summary, the text report
  and the JSON document, call by call in the order of the code. The JSON document is shown to be the
  text of one JSON value, \<open>state_json\<close>, whatever the state holds.
\<close>

section \<open>Summary and report\<close>

abbreviation domain_to_string :: "FabricDomainId \<Rightarrow> string" where
  "domain_to_string \<equiv> format_id ''dom''"

definition summarize_state :: "(bytes \<Rightarrow> Digest) \<Rightarrow> FederationState \<Rightarrow> string" where
  "summarize_state H st =
     ''federation='' @ federation_to_string (fs_federation st) @
     '' epoch='' @ word_to_string (fs_epoch st) @
     '' members='' @ nat_to_string (length (fs_members st)) @
     '' active='' @ nat_to_string (active_member_count st) @
     '' partition='' @ partition_to_string (pa_state (fs_partition st)) @
     (if fs_reconciling st then '' reconciling'' else []) @
     '' digest='' @ take 16 (digest_to_hex (state_digest H st))"

abbreviation newline :: string where "newline \<equiv> [CHR 0x0A]"

definition render_contribution :: "Contribution \<Rightarrow> string" where
  "render_contribution c =
     ''        * '' @ member_to_string (cb_member c) @ '' as '' @ role_to_string (cb_role c) @
     '' gen='' @ word_to_string (cb_generation c) @ '' inc='' @ word_to_string (cb_incarnation c) @
     '' digest='' @ take 16 (digest_to_hex (cb_constitution c)) @ newline"

definition render_member :: "MemberState \<Rightarrow> string" where
  "render_member m =
     ''  - '' @ member_to_string (mb_member m) @ '' ['' @ lifecycle_to_string (mb_lifecycle m) @
     ''] lineage='' @ word_to_string (mb_lineage m) @
     (if mb_bootstrap m then '' bootstrap'' else []) @ newline @
     ''      identity: gen='' @ word_to_string (mi_generation (mb_current_identity m)) @
     '' inc='' @ word_to_string (mi_incarnation (mb_current_identity m)) @
     '' digest='' @ take 16 (digest_to_hex (mi_constitution (mb_current_identity m))) @ newline @
     ''      local authority: '' @ render_grants (mb_retained_local_authority m) @ newline @
     ''      federation authority: '' @ render_grants (mb_federation_authority m) @ newline @
     (if mb_withheld_grants m \<noteq> []
      then ''      withheld: '' @ render_grants (mb_withheld_grants m) @ newline else []) @
     (if mb_withheld_global_mutation m \<noteq> []
      then ''      withheld (global mutation): '' @ render_grants (mb_withheld_global_mutation m) @
        newline else []) @
     (if mb_fenced_incarnations m \<noteq> []
      then ''      fenced incarnations:'' @
        concat (map (\<lambda>i. '' '' @ word_to_string i) (mb_fenced_incarnations m)) @ newline else []) @
     (if mb_contributing_parties m \<noteq> []
      then ''      contributing parties:'' @ newline @
        concat (map render_contribution (mb_contributing_parties m)) else [])"

definition render_lease_view :: "LeaseView \<Rightarrow> string" where
  "render_lease_view l =
     ''  - '' @ lease_to_string (lv_id l) @ '' holder='' @ member_to_string (lv_holder l) @
     '' ['' @ lease_state_to_string (lv_state l) @ ''] scopes='' @ render_grants (lv_scopes l) @
     newline"

definition none_or :: "('a \<Rightarrow> string) \<Rightarrow> 'a list \<Rightarrow> string" where
  "none_or render xs = (if xs = [] then ''  (none)'' @ newline else []) @ concat (map render xs)"

definition render_state_text :: "(bytes \<Rightarrow> Digest) \<Rightarrow> FederationState \<Rightarrow> string" where
  "render_state_text H st =
     ''federation:        '' @ federation_to_string (fs_federation st) @ newline @
     ''coordinator:       '' @ node_to_string (fs_coordinator st) @
     '' incarnation '' @ word_to_string (fs_coordinator_incarnation st) @ newline @
     ''epoch:             '' @ word_to_string (fs_epoch st) @
     (if fs_reconciling st then '' (reconciling)'' else []) @ newline @
     ''policy:            '' @ fs_policy_id st @
     '' generation '' @ word_to_string (fs_policy_generation st) @
     '' digest '' @ take 16 (digest_to_hex (fs_policy_digest st)) @ newline @
     ''logical tick:      '' @ word_to_string (fs_logical_time st) @ newline @
     ''partition:         '' @ partition_to_string (pa_state (fs_partition st)) @ '' - '' @
     pa_summary (fs_partition st) @ newline @
     ''artefacts:         '' @ nat_to_string (fs_artifact_count st) @ '' applied, '' @
     nat_to_string (fs_rejected_artifact_count st) @ '' rejected, '' @
     nat_to_string (fs_duplicate_artifact_count st) @ '' duplicate'' @ newline @
     ''state digest:      '' @ digest_to_hex (state_digest H st) @ newline @
     newline @ ''members:'' @ newline @ none_or render_member (fs_members st) @
     newline @ ''conflicts:'' @ newline @
     none_or (\<lambda>c. ''  - '' @ conflict_to_string c @ newline) (fs_conflicts st) @
     newline @ ''leases:'' @ newline @ none_or render_lease_view (fs_leases st) @
     (if fs_global_reasons st \<noteq> []
      then newline @ ''federation reasons:'' @ newline @
        concat (map (\<lambda>r. ''  - '' @ reason_to_string r @ newline) (fs_global_reasons st)) else [])"

section \<open>The JSON document\<close>

definition json_grants :: "ScopeGrant list \<Rightarrow> json_op list" where
  "json_grants gs =
     [json_begin_array] @ map (\<lambda>g. json_string (grant_to_string g)) gs @ [json_end_array]"

definition render_contribution_json :: "Contribution \<Rightarrow> json_op" where
  "render_contribution_json c = json_seq
     [json_begin_object,
      json_key ''member'', json_string (member_to_string (cb_member c)),
      json_key ''role'', json_string (role_to_string (cb_role c)),
      json_key ''generation'', json_number (cb_generation c),
      json_key ''incarnation'', json_number (cb_incarnation c),
      json_key ''constitution_digest'', json_string (digest_to_hex (cb_constitution c)),
      json_end_object]"

definition render_member_json :: "MemberState \<Rightarrow> json_op" where
  "render_member_json m = json_seq
     ([json_begin_object,
       json_key ''member'', json_string (member_to_string (mb_member m)),
       json_key ''domain'', json_string (domain_to_string (mb_domain m)),
       json_key ''lifecycle'', json_string (lifecycle_to_string (mb_lifecycle m)),
       json_key ''lineage'', json_number (mb_lineage m),
       json_key ''bootstrap'', json_boolean (mb_bootstrap m),
       json_key ''generation'', json_number (mi_generation (mb_current_identity m)),
       json_key ''incarnation'', json_number (mi_incarnation (mb_current_identity m)),
       json_key ''constitution_digest'',
         json_string (digest_to_hex (mi_constitution (mb_current_identity m))),
       json_key ''current'', json_boolean (mb_activation_current m),
       json_key ''evidence'', json_string (evidence_state_to_string (mb_evidence m)),
       json_key ''local_authority''] @ json_grants (mb_retained_local_authority m) @
      [json_key ''federation_authority''] @ json_grants (mb_federation_authority m) @
      [json_key ''withheld''] @ json_grants (mb_withheld_grants m) @
      [json_key ''withheld_global_mutation''] @ json_grants (mb_withheld_global_mutation m) @
      [json_key ''contributors'', json_begin_array] @
      map render_contribution_json (mb_contributing_parties m) @
      [json_end_array, json_end_object])"

definition render_conflict_json :: "ConflictRecord \<Rightarrow> json_op" where
  "render_conflict_json c = json_seq
     ([json_begin_object,
       json_key ''grant'', json_string (grant_to_string (cr_grant c)),
       json_key ''kind'', json_string (conflict_kind_to_string (cr_kind c)),
       json_key ''claimants'', json_begin_array] @
      map (\<lambda>m. json_string (member_to_string m)) (cr_claimants c) @
      [json_end_array,
       json_key ''detail'', json_string (cr_detail c),
       json_end_object])"

definition render_lease_json :: "LeaseView \<Rightarrow> json_op" where
  "render_lease_json l = json_seq
     ([json_begin_object,
       json_key ''id'', json_string (lease_to_string (lv_id l)),
       json_key ''holder'', json_string (member_to_string (lv_holder l)),
       json_key ''state'', json_string (lease_state_to_string (lv_state l)),
       json_key ''issued_epoch'', json_number (lv_issued_epoch l),
       json_key ''not_after_tick'', json_number (lv_not_after l),
       json_key ''revoked'', json_boolean (lv_revoked l),
       json_key ''scopes''] @ json_grants (lv_scopes l) @ [json_end_object])"

definition render_reason_json :: "Reason \<Rightarrow> json_op" where
  "render_reason_json r = json_seq
     [json_begin_object,
      json_key ''code'', json_string (reason_code_to_string (rs_code r)),
      json_key ''detail'', json_string (rs_detail r),
      json_end_object]"

text \<open>A key, and an array with one writer call per element.\<close>

definition json_array_member :: "string \<Rightarrow> ('a \<Rightarrow> json_op) \<Rightarrow> 'a list \<Rightarrow> json_op list" where
  "json_array_member k f xs = [json_key k, json_begin_array] @ map f xs @ [json_end_array]"

definition render_state_json :: "(bytes \<Rightarrow> Digest) \<Rightarrow> FederationState \<Rightarrow> json_op" where
  "render_state_json H st = json_seq
     ([json_begin_object,
       json_key ''federation'', json_string (federation_to_string (fs_federation st)),
       json_key ''coordinator'', json_string (node_to_string (fs_coordinator st)),
       json_key ''coordinator_incarnation'', json_number (fs_coordinator_incarnation st),
       json_key ''epoch'', json_number (fs_epoch st),
       json_key ''reconciling'', json_boolean (fs_reconciling st),
       json_key ''policy_id'', json_string (fs_policy_id st),
       json_key ''policy_generation'', json_number (fs_policy_generation st),
       json_key ''policy_digest'', json_string (digest_to_hex (fs_policy_digest st)),
       json_key ''logical_tick'', json_number (fs_logical_time st),
       json_key ''state_digest'', json_string (digest_to_hex (state_digest H st)),
       json_key ''artifact_count'', json_number (word_of_nat (fs_artifact_count st)),
       json_key ''rejected_artifact_count'',
         json_number (word_of_nat (fs_rejected_artifact_count st)),
       json_key ''duplicate_artifact_count'',
         json_number (word_of_nat (fs_duplicate_artifact_count st)),
       json_key ''partition'', json_begin_object,
       json_key ''state'', json_string (partition_to_string (pa_state (fs_partition st))),
       json_key ''summary'', json_string (pa_summary (fs_partition st)),
       json_key ''components'', json_number (word_of_nat (length (pa_components (fs_partition st)))),
       json_end_object] @
      json_array_member ''members'' render_member_json (fs_members st) @
      json_array_member ''conflicts'' render_conflict_json (fs_conflicts st) @
      json_array_member ''leases'' render_lease_json (fs_leases st) @
      json_array_member ''reasons'' render_reason_json (fs_global_reasons st) @
      [json_end_object])"

section \<open>The value of the document\<close>

definition grants_json :: "ScopeGrant list \<Rightarrow> json" where
  "grants_json gs = J_Array (map (\<lambda>g. J_String (grant_to_string g)) gs)"

definition contribution_json :: "Contribution \<Rightarrow> json" where
  "contribution_json c = J_Object
     [(''member'', J_String (member_to_string (cb_member c))),
      (''role'', J_String (role_to_string (cb_role c))),
      (''generation'', J_Number (cb_generation c)),
      (''incarnation'', J_Number (cb_incarnation c)),
      (''constitution_digest'', J_String (digest_to_hex (cb_constitution c)))]"

definition member_json :: "MemberState \<Rightarrow> json" where
  "member_json m = J_Object
     [(''member'', J_String (member_to_string (mb_member m))),
      (''domain'', J_String (domain_to_string (mb_domain m))),
      (''lifecycle'', J_String (lifecycle_to_string (mb_lifecycle m))),
      (''lineage'', J_Number (mb_lineage m)),
      (''bootstrap'', J_Bool (mb_bootstrap m)),
      (''generation'', J_Number (mi_generation (mb_current_identity m))),
      (''incarnation'', J_Number (mi_incarnation (mb_current_identity m))),
      (''constitution_digest'', J_String (digest_to_hex (mi_constitution (mb_current_identity m)))),
      (''current'', J_Bool (mb_activation_current m)),
      (''evidence'', J_String (evidence_state_to_string (mb_evidence m))),
      (''local_authority'', grants_json (mb_retained_local_authority m)),
      (''federation_authority'', grants_json (mb_federation_authority m)),
      (''withheld'', grants_json (mb_withheld_grants m)),
      (''withheld_global_mutation'', grants_json (mb_withheld_global_mutation m)),
      (''contributors'', J_Array (map contribution_json (mb_contributing_parties m)))]"

definition conflict_json :: "ConflictRecord \<Rightarrow> json" where
  "conflict_json c = J_Object
     [(''grant'', J_String (grant_to_string (cr_grant c))),
      (''kind'', J_String (conflict_kind_to_string (cr_kind c))),
      (''claimants'', J_Array (map (\<lambda>m. J_String (member_to_string m)) (cr_claimants c))),
      (''detail'', J_String (cr_detail c))]"

definition lease_json :: "LeaseView \<Rightarrow> json" where
  "lease_json l = J_Object
     [(''id'', J_String (lease_to_string (lv_id l))),
      (''holder'', J_String (member_to_string (lv_holder l))),
      (''state'', J_String (lease_state_to_string (lv_state l))),
      (''issued_epoch'', J_Number (lv_issued_epoch l)),
      (''not_after_tick'', J_Number (lv_not_after l)),
      (''revoked'', J_Bool (lv_revoked l)),
      (''scopes'', grants_json (lv_scopes l))]"

definition reason_json :: "Reason \<Rightarrow> json" where
  "reason_json r = J_Object
     [(''code'', J_String (reason_code_to_string (rs_code r))),
      (''detail'', J_String (rs_detail r))]"

definition state_json :: "(bytes \<Rightarrow> Digest) \<Rightarrow> FederationState \<Rightarrow> json" where
  "state_json H st = J_Object
     [(''federation'', J_String (federation_to_string (fs_federation st))),
      (''coordinator'', J_String (node_to_string (fs_coordinator st))),
      (''coordinator_incarnation'', J_Number (fs_coordinator_incarnation st)),
      (''epoch'', J_Number (fs_epoch st)),
      (''reconciling'', J_Bool (fs_reconciling st)),
      (''policy_id'', J_String (fs_policy_id st)),
      (''policy_generation'', J_Number (fs_policy_generation st)),
      (''policy_digest'', J_String (digest_to_hex (fs_policy_digest st))),
      (''logical_tick'', J_Number (fs_logical_time st)),
      (''state_digest'', J_String (digest_to_hex (state_digest H st))),
      (''artifact_count'', J_Number (word_of_nat (fs_artifact_count st))),
      (''rejected_artifact_count'', J_Number (word_of_nat (fs_rejected_artifact_count st))),
      (''duplicate_artifact_count'', J_Number (word_of_nat (fs_duplicate_artifact_count st))),
      (''partition'', J_Object
         [(''state'', J_String (partition_to_string (pa_state (fs_partition st)))),
          (''summary'', J_String (pa_summary (fs_partition st))),
          (''components'', J_Number (word_of_nat (length (pa_components (fs_partition st)))))]),
      (''members'', J_Array (map member_json (fs_members st))),
      (''conflicts'', J_Array (map conflict_json (fs_conflicts st))),
      (''leases'', J_Array (map lease_json (fs_leases st))),
      (''reasons'', J_Array (map reason_json (fs_global_reasons st)))]"

lemma render_contribution_value: "render_contribution_json = (\<lambda>x. write_json (contribution_json x))"
  by (intro ext) (simp add: render_contribution_json_def contribution_json_def comp_def)

lemma render_member_value: "render_member_json = (\<lambda>x. write_json (member_json x))"
  by (intro ext) (simp add: render_member_json_def member_json_def json_grants_def grants_json_def render_contribution_value comp_def)

lemma render_conflict_value: "render_conflict_json = (\<lambda>x. write_json (conflict_json x))"
  by (intro ext) (simp add: render_conflict_json_def conflict_json_def comp_def)

lemma render_lease_value: "render_lease_json = (\<lambda>x. write_json (lease_json x))"
  by (intro ext) (simp add: render_lease_json_def lease_json_def json_grants_def grants_json_def comp_def)

lemma render_reason_value: "render_reason_json = (\<lambda>x. write_json (reason_json x))"
  by (intro ext) (simp add: render_reason_json_def reason_json_def comp_def)

lemma render_state_value: "render_state_json H st = write_json (state_json H st)"
  by (rule ext) (simp add: render_state_json_def state_json_def json_array_member_def comp_def
      render_member_value render_conflict_value render_lease_value render_reason_value)

lemma state_document:
  "jw_out (render_state_json H st (json_writer pretty)) = json_text pretty (state_json H st) 0"
  by (simp add: render_state_value write_json_fresh)

text \<open>
  C38: the JSON document of a state can be read back. Whatever the state holds, the calls of
  \<^verbatim>\<open>render_state_json\<close> on a fresh writer, compact or pretty, leave a text that a JSON reader accepts as
  a whole and reads as the one value \<open>state_json\<close> of the state, with bytes outside UTF-8 replaced:
  no description, summary or detail can close its string or add a member.
\<close>

theorem state_document_reads_back:
  "read_json (jw_out (render_state_json H st (json_writer pretty))) =
     Some (json_shown (state_json H st))"
  unfolding state_document by (rule read_printed)

end
