(* ===== verification/Coordinator.thy ===== *)
theory Coordinator
  imports Journal Authority
begin

text \<open>
  The coordinator (\<^verbatim>\<open>coordinator.hpp\<close>, \<^verbatim>\<open>coordinator.cpp\<close>): the state behind its mutex, recovery from
  the journal, genesis, admission of evidence, the decision records it issues, authority
  evaluation with the replay ledger, leases, observations, the logical clock, fences, retirements,
  epochs and reconciliation. Every public operation takes the state mutex for its whole duration,
  so an operation is a function from the state to its result and the next state; a \<^verbatim>\<open>std::map\<close> is a
  \<open>smap\<close>. The disk is part of the state.

  The threads, the listener and the socket queue are not modelled.
\<close>

section \<open>State\<close>

definition kMaxConnections :: nat where [ff_bounds]: "kMaxConnections = 128"

text \<open>The configuration; a journal path that is empty means no durable state.\<close>

record CoordinatorConfig =
  cc_federation :: FederationId
  cc_node :: NodeId
  cc_description :: string
  cc_policy :: FederationPolicy
  cc_journal_path :: string
  cc_listen_port :: u16
  cc_listen :: bool
  cc_max_connections :: nat
  cc_worker_threads :: nat
  cc_max_pending_connections :: nat
  cc_initial_tick :: Tick
  cc_bootstrap :: bool
  cc_founder :: MemberDeclaration
  cc_founder_grants :: "ScopeGrant list"

datatype SubmissionDisposition =
    Submission_Applied | Submission_Duplicate | Submission_Rejected | Submission_Invalid

definition disposition_to_string :: "SubmissionDisposition \<Rightarrow> string" where
  "disposition_to_string d = (case d of
     Submission_Applied \<Rightarrow> ''APPLIED'' | Submission_Duplicate \<Rightarrow> ''DUPLICATE''
   | Submission_Rejected \<Rightarrow> ''REJECTED'' | Submission_Invalid \<Rightarrow> ''INVALID'')"

record SubmissionOutcome =
  so_disposition :: SubmissionDisposition
  so_reason :: ReasonCode
  so_detail :: string
  so_artifact_digest :: Digest
  so_state_digest :: Digest
  so_artifact_count :: nat
  so_issued :: "Artifact list"

record LeaseRequest =
  lr_holder :: MemberId
  lr_scopes :: "ScopeGrant list"
  lr_not_after_epoch :: Epoch
  lr_lifetime_ticks :: Tick

record Coordinator =
  co_config :: CoordinatorConfig
  co_catalog :: ScopeCatalog
  co_policy :: FederationPolicy
  co_artifacts :: "Artifact list"
  co_leases :: "(LeaseId, AuthorityLease) smap"
  co_observations :: "(MemberId, MemberObservation) smap"
  co_replay :: "ReplayEntry list"
  co_tick :: Tick
  co_incarnation :: Incarnation
  co_lease_sequence :: u64
  co_duplicate_artifacts :: u64
  co_rejected_artifacts :: u64
  co_journal :: Journal
  co_durable :: bool
  co_recovery_detail :: string
  co_bootstrapped :: bool
  co_disk :: disk

text \<open>An operation, and the early return on a failed status.\<close>

type_synonym 'a op = "Coordinator \<Rightarrow> 'a result \<times> Coordinator"

definition guarded :: "'a result \<Rightarrow> ('a \<Rightarrow> 'b op) \<Rightarrow> 'b op" where
  "guarded r k c = (case r of Inl s \<Rightarrow> (Inl s, c) | Inr v \<Rightarrow> k v c)"

definition followed_by :: "'a result \<times> Coordinator \<Rightarrow> ('a \<Rightarrow> 'b op) \<Rightarrow> 'b result \<times> Coordinator" where
  "followed_by rc k = (case rc of (Inl s, c) \<Rightarrow> (Inl s, c) | (Inr v, c) \<Rightarrow> k v c)"

definition refuse :: "ErrorCode \<Rightarrow> string \<Rightarrow> 'a op" where
  "refuse code message c = (Fail code message, c)"

section \<open>Identifiers of decision records\<close>

definition decision_key ::
  "(bytes \<Rightarrow> Digest) \<Rightarrow> FederationId \<Rightarrow> ArtifactKind \<Rightarrow> MemberId \<Rightarrow> Epoch \<Rightarrow> Lineage \<Rightarrow> Digest \<Rightarrow>
   Digest \<Rightarrow> Digest" where
  "decision_key H federation kind subject epoch lineage identity extra =
     digest_of H (w_seq [w_id16 federation, w_u16 (kind_wire kind), w_id16 subject, w_u64 epoch,
       w_u64 lineage, w_digest identity, w_digest extra])"

text \<open>The leading 16 bytes of a digest as an identifier.\<close>

definition id_of_digest :: "Digest \<Rightarrow> id128" where
  "id_of_digest d = from_be (take 16 (digest_bytes d))"

definition evidence_id_from :: "(bytes \<Rightarrow> Digest) \<Rightarrow> FederationId \<Rightarrow> Digest \<Rightarrow> EvidenceId" where
  "evidence_id_from H federation key =
     id_of_digest (digest_of H (w_seq [w_id16 federation, w_digest key]))"

definition digest_of_parties :: "(bytes \<Rightarrow> Digest) \<Rightarrow> MemberId list \<Rightarrow> Digest" where
  "digest_of_parties H parties =
     digest_of H (w_list w_id16 kMaxMembers (sort_unique parties))"

definition lease_id_of :: "(bytes \<Rightarrow> Digest) \<Rightarrow> FederationId \<Rightarrow> u64 \<Rightarrow> Digest" where
  "lease_id_of H federation n = digest_of H (w_seq [w_id16 federation, w_u64 n])"

section \<open>Helpers\<close>

text \<open>The clock advances by wrapping addition; the issued tick is the old one.\<close>

definition next_tick :: "Coordinator \<Rightarrow> Coordinator" where
  "next_tick c = c\<lparr>co_tick := co_tick c + 1\<rparr>"

definition persist :: "(bytes \<Rightarrow> Digest) \<Rightarrow> JournalRecordType \<Rightarrow> bytes \<Rightarrow> unit op" where
  "persist H ty payload c =
     (if \<not> co_durable c then (success, c)
      else case journal_append H ty payload (co_journal c) (co_disk c) of
        (r, j, d) \<Rightarrow> (r, c\<lparr>co_journal := j, co_disk := d\<rparr>))"

definition derivation_inputs :: "Coordinator \<Rightarrow> DerivationInputs" where
  "derivation_inputs c =
     \<lparr>di_federation = cc_federation (co_config c), di_coordinator = cc_node (co_config c),
      di_coordinator_incarnation = co_incarnation c, di_logical_time = co_tick c,
      di_policy = Some (co_policy c), di_catalog = Some (co_catalog c),
      di_artifacts = co_artifacts c, di_observations = map snd (co_observations c),
      di_leases = map snd (co_leases c), di_replay_ledger = co_replay c, di_recovery = []\<rparr>"

definition derive_locked :: "(bytes \<Rightarrow> Digest) \<Rightarrow> Coordinator \<Rightarrow> FederationState result" where
  "derive_locked H c =
     (case derive_state H (derivation_inputs c) of
        Inl s \<Rightarrow> Inl s | Inr derived \<Rightarrow> Inr (dr_state derived))"

definition has_evidence :: "Coordinator \<Rightarrow> EvidenceId \<Rightarrow> bool" where
  "has_evidence c e \<longleftrightarrow> (\<exists>a \<in> set (co_artifacts c). art_evidence a = e)"

section \<open>Recovery\<close>

text \<open>What the loop over the journal records accumulates.\<close>

record Recovered =
  rv_artifacts :: "Artifact list"
  rv_leases :: "(LeaseId, AuthorityLease) smap"
  rv_observations :: "(MemberId, MemberObservation) smap"
  rv_replay :: "ReplayEntry list"
  rv_policy :: FederationPolicy
  rv_revocations :: "(LeaseId, ReasonCode \<times> string) smap"
  rv_highest_incarnation :: u64
  rv_highest_tick :: u64
  rv_highest_lease_sequence :: u64

definition recovery_start :: "FederationPolicy \<Rightarrow> Tick \<Rightarrow> Recovered" where
  "recovery_start policy initial_tick =
     \<lparr>rv_artifacts = [], rv_leases = [], rv_observations = [], rv_replay = [],
      rv_policy = policy, rv_revocations = [], rv_highest_incarnation = 0,
      rv_highest_tick = initial_tick, rv_highest_lease_sequence = 0\<rparr>"

definition decoded ::
  "'a reader \<Rightarrow> string \<Rightarrow> bytes \<Rightarrow> 'a result" where
  "decoded dec what payload =
     (case dec payload of
        Inl s \<Rightarrow> Fail Error_Corrupt (''journal holds '' @ what @ '' that cannot be decoded: '' @
                   status_to_string s)
      | Inr (v, rest) \<Rightarrow> Inr v)"

definition decode_revocation :: "(LeaseId \<times> ReasonCode \<times> string) reader" where
  "decode_revocation =
     rbind r_id16 (\<lambda>lease.
     rbind r_u16 (\<lambda>reason.
     rbind (r_text kMaxTextLength) (\<lambda>detail.
     r_return (lease, ReasonCode reason, detail))))"

definition plain :: "'a reader \<Rightarrow> bytes \<Rightarrow> 'a result" where
  "plain dec payload = and_then (dec payload) (\<lambda>(v, rest). Inr v)"

definition recover_record ::
  "(bytes \<Rightarrow> Digest) \<Rightarrow> Recovered \<Rightarrow> JournalRecord \<Rightarrow> Recovered result" where
  "recover_record H rv r = (case jr_type r of
     Journal_Artifact \<Rightarrow>
       and_then (decoded decode_artifact ''an artefact'' (jr_payload r)) (\<lambda>a.
       Inr (rv\<lparr>rv_artifacts := rv_artifacts rv @ [a]\<rparr>))
   | Journal_FederationGenesis \<Rightarrow>
       and_then (decoded decode_artifact ''an artefact'' (jr_payload r)) (\<lambda>a.
       Inr (rv\<lparr>rv_artifacts := rv_artifacts rv @ [a]\<rparr>))
   | Journal_Lease \<Rightarrow>
       and_then (decoded decode_lease ''a lease'' (jr_payload r)) (\<lambda>l.
       Inr (rv\<lparr>rv_highest_lease_sequence := max (rv_highest_lease_sequence rv) (jr_sequence r),
               rv_highest_tick := max (rv_highest_tick rv) (al_issued_at l),
               rv_leases := smap_put (al_id l) l (rv_leases rv)\<rparr>))
   | Journal_LeaseRevocation \<Rightarrow>
       and_then (plain decode_revocation (jr_payload r)) (\<lambda>(lease, reason, detail).
       Inr (rv\<lparr>rv_revocations := smap_put lease (reason, detail) (rv_revocations rv)\<rparr>))
   | Journal_RequestDecision \<Rightarrow>
       and_then (decoded decode_decision ''a decision'' (jr_payload r)) (\<lambda>ad.
       Inr (rv\<lparr>rv_replay := rv_replay rv @
                 [\<lparr>re_request = ad_request ad, re_decision = decision_digest H ad,
                   re_decided_at = ad_decided_at ad\<rparr>],
               rv_highest_tick := max (rv_highest_tick rv) (ad_decided_at ad)\<rparr>))
   | Journal_CoordinatorIncarnation \<Rightarrow>
       and_then (plain r_u64 (jr_payload r)) (\<lambda>v.
       Inr (rv\<lparr>rv_highest_incarnation := max (rv_highest_incarnation rv) v\<rparr>))
   | Journal_TickHighWater \<Rightarrow>
       and_then (plain r_u64 (jr_payload r)) (\<lambda>v.
       Inr (rv\<lparr>rv_highest_tick := max (rv_highest_tick rv) v\<rparr>))
   | Journal_PartitionObservation \<Rightarrow>
       and_then (decoded decode_observation ''an observation'' (jr_payload r)) (\<lambda>ob.
       Inr (rv\<lparr>rv_observations := smap_put (ob_observer ob) ob (rv_observations rv)\<rparr>))
   | Journal_Policy \<Rightarrow>
       and_then (decoded decode_policy ''a policy'' (jr_payload r)) (\<lambda>p.
       Inr (if fp_generation p > fp_generation (rv_policy rv) then rv\<lparr>rv_policy := p\<rparr> else rv))
   | Journal_FederationIdentity \<Rightarrow> Inr rv
   | Journal_EpochState \<Rightarrow> Inr rv
   | Journal_Unlisted v \<Rightarrow> Inr rv)"

primrec recover_records ::
  "(bytes \<Rightarrow> Digest) \<Rightarrow> JournalRecord list \<Rightarrow> Recovered \<Rightarrow> Recovered result" where
  "recover_records H [] rv = Inr rv"
| "recover_records H (r # rs) rv = and_then (recover_record H rv r) (recover_records H rs)"

primrec apply_revocations ::
  "(LeaseId \<times> ReasonCode \<times> string) list \<Rightarrow> Tick \<Rightarrow> (LeaseId, AuthorityLease) smap \<Rightarrow>
   (LeaseId, AuthorityLease) smap result" where
  "apply_revocations [] at leases = Inr leases"
| "apply_revocations (e # es) at leases =
     (case smap_get leases (fst e) of
        None \<Rightarrow> Fail Error_Corrupt ''journal holds a revocation for a lease that is not in the history''
      | Some l \<Rightarrow> apply_revocations es at
          (smap_put (fst e) (l\<lparr>al_revoked := True, al_revoked_at := at,
             al_revoke_reason := fst (snd e), al_revoke_detail := snd (snd e)\<rparr>) leases))"

text \<open>The coordinator after the history was replayed, before its new incarnation is recorded.\<close>

definition adopt_history ::
  "Recovered \<Rightarrow> (LeaseId, AuthorityLease) smap \<Rightarrow> bool \<Rightarrow> Coordinator \<Rightarrow> Coordinator" where
  "adopt_history rv leases fresh c =
     c\<lparr>co_artifacts := rv_artifacts rv, co_leases := leases,
       co_observations := rv_observations rv, co_replay := rv_replay rv,
       co_policy := rv_policy rv, co_tick := rv_highest_tick rv,
       co_incarnation := rv_highest_incarnation rv + 1,
       co_lease_sequence := rv_highest_lease_sequence rv + 1,
       co_recovery_detail := if fresh then ''fresh journal created'' else co_recovery_detail c\<rparr>"

definition load_journal :: "(bytes \<Rightarrow> Digest) \<Rightarrow> unit op" where
  "load_journal H c =
     (if cc_journal_path (co_config c) = [] then
        (success, c\<lparr>co_durable := False,
           co_recovery_detail := ''no journal configured: state does not survive a restart''\<rparr>)
      else
        let fresh = (dk_files (co_disk c) Journal_File = None) in
        case journal_open H Open_OpenOrCreateReadWrite default_journal_options (co_disk c) of
          (Inl s, d) \<Rightarrow> (Inl s, c\<lparr>co_disk := d\<rparr>)
        | (Inr j, d) \<Rightarrow>
            let c = c\<lparr>co_disk := d, co_journal := j, co_durable := True,
                      co_recovery_detail := recovery_outcome_to_string (jv_outcome (jl_recovery j)) @
                        '': '' @ jv_detail (jl_recovery j)\<rparr> in
            if \<not> jv_writable (jl_recovery j) then
              refuse Error_Refused
                (''recovered journal is not writable: '' @ jv_detail (jl_recovery j)) c
            else case journal_load (kMaxArtifacts * 4) kMaxJournalRecordBytes j d of
              (Inl s, d) \<Rightarrow> (Inl s, c\<lparr>co_disk := d\<rparr>)
            | (Inr records, d) \<Rightarrow>
                guarded (recover_records H records
                    (recovery_start (co_policy c) (cc_initial_tick (co_config c)))) (\<lambda>rv.
                guarded (apply_revocations (rv_revocations rv) (rv_highest_tick rv)
                    (rv_leases rv)) (\<lambda>leases c.
                  let c = adopt_history rv leases fresh c in
                  guarded (w_u64 (co_incarnation c)) (persist H Journal_CoordinatorIncarnation) c))
                (c\<lparr>co_disk := d\<rparr>))"

section \<open>Genesis\<close>

definition coordinator_provenance :: "CoordinatorConfig \<Rightarrow> Epoch \<Rightarrow> Tick \<Rightarrow> Provenance" where
  "coordinator_provenance config epoch at =
     \<lparr>pv_node = cc_node config, pv_member = 0, pv_generation = 0, pv_incarnation = 0,
      pv_constitution = 0, pv_epoch = epoch, pv_issued_at = at\<rparr>"

definition coordinator_envelope ::
  "CoordinatorConfig \<Rightarrow> ArtifactKind \<Rightarrow> EvidenceId \<Rightarrow> MemberId \<Rightarrow> Epoch \<Rightarrow> Tick \<Rightarrow> ArtifactEnvelope" where
  "coordinator_envelope config kind evidence subject epoch at =
     \<lparr>en_evidence = evidence, en_kind = kind, en_federation = cc_federation config,
      en_subject = subject, en_issuer = coordinator_provenance config epoch at,
      en_body_digest = 0\<rparr>"

definition genesis_record :: "(bytes \<Rightarrow> Digest) \<Rightarrow> Coordinator \<Rightarrow> Artifact" where
  "genesis_record H c =
     (let config = co_config c;
          founder = cc_founder config;
          subject = mc_member (md_constitution founder);
          genesis =
            \<lparr>ge_federation = cc_federation config, ge_coordinator = cc_node config,
             ge_founder = founder, ge_founder_grants = canonicalize_grants (cc_founder_grants config),
             ge_policy = co_policy c, ge_description = cc_description config,
             ge_created_at = co_tick c\<rparr>;
          body = empty_body
            \<lparr>ab_genesis := genesis, ab_lineage := 0, ab_epoch := 1,
             ab_policy_generation := fp_generation (co_policy c),
             ab_policy_digest := policy_digest H (co_policy c), ab_logical_time := co_tick c\<rparr>;
          key = decision_key H (cc_federation config) Kind_FederationGenesis subject 1 0
                  (constitution_digest H (md_constitution founder)) 0
      in make_artifact H
           (coordinator_envelope config Kind_FederationGenesis
              (evidence_id_from H (cc_federation config) key) subject 1 (co_tick c)) body)"

definition ensure_genesis :: "(bytes \<Rightarrow> Digest) \<Rightarrow> unit op" where
  "ensure_genesis H c =
     (if \<exists>a \<in> set (co_artifacts c). art_kind a = Kind_FederationGenesis then
        (success, c\<lparr>co_bootstrapped := True\<rparr>)
      else if \<not> cc_bootstrap (co_config c) then (success, c)
      else if is_nil (mc_member (md_constitution (cc_founder (co_config c)))) then
        refuse Error_InvalidArgument ''bootstrap requires a founder with a member identity'' c
      else
        let genesis = genesis_record H c in
        guarded (validate_artifact H (co_catalog c) genesis) (\<lambda>_ c.
          let c = c\<lparr>co_artifacts := co_artifacts c @ [genesis], co_bootstrapped := True\<rparr> in
          guarded (encode_artifact genesis) (persist H Journal_Artifact) c) c)"

section \<open>Decision records\<close>

text \<open>\<open>record_decision\<close> returns, besides its status, whether the record is appended to \<^verbatim>\<open>issued\<close>.\<close>

definition record_decision ::
  "(bytes \<Rightarrow> Digest) \<Rightarrow> Artifact \<Rightarrow> Coordinator \<Rightarrow> check \<times> Artifact list \<times> Coordinator" where
  "record_decision H a c =
     (case validate_artifact H (co_catalog c) a of
        Inl s \<Rightarrow> (Inl s, [], c)
      | Inr _ \<Rightarrow>
        if has_evidence c (art_evidence a) then (success, [], c)
        else case encode_artifact a of
          Inl s \<Rightarrow> (Inl s, [], c)
        | Inr bs \<Rightarrow>
            (case persist H Journal_Artifact bs c of
               (Inl s, c) \<Rightarrow> (Inl s, [], c)
             | (Inr _, c) \<Rightarrow> (success, [a], c\<lparr>co_artifacts := co_artifacts c @ [a]\<rparr>)))"

definition genesis_founders :: "Coordinator \<Rightarrow> MemberDeclaration list" where
  "genesis_founders c =
     map (\<lambda>a. ge_founder (ab_genesis (ar_body a)))
       (filter (\<lambda>a. art_kind a = Kind_FederationGenesis) (co_artifacts c))"

definition active_members :: "FederationState \<Rightarrow> MemberId list" where
  "active_members st =
     map mb_member (filter (\<lambda>m. lifecycle_holds_federation_authority (mb_lifecycle m)) (fs_members st))"

definition decision_context :: "Coordinator \<Rightarrow> FederationState \<Rightarrow> MembershipContext" where
  "decision_context c st =
     \<lparr>mx_federation = cc_federation (co_config c), mx_current_epoch = fs_epoch st,
      mx_now = co_tick c, mx_policy = co_policy c, mx_catalog = co_catalog c,
      mx_partition = fs_partition st, mx_reconciling = fs_reconciling st,
      mx_established_members = active_members st,
      mx_bootstrap_members = map (\<lambda>f. mc_member (md_constitution f)) (genesis_founders c),
      mx_bootstrap_declarations = genesis_founders c\<rparr>"

definition evidence_of :: "Coordinator \<Rightarrow> MemberId \<Rightarrow> Artifact list" where
  "evidence_of c m =
     filter (\<lambda>a. \<not> is_nil (art_subject a) \<and> art_subject a = m) (co_artifacts c)"

definition lowest_proposal :: "Artifact list \<Rightarrow> Artifact option" where
  "lowest_proposal artifacts =
     select_best (\<lambda>a b. art_evidence a < art_evidence b)
       (filter (\<lambda>a. art_kind a = Kind_MembershipProposal) artifacts)"

definition admission_record ::
  "(bytes \<Rightarrow> Digest) \<Rightarrow> Coordinator \<Rightarrow> FederationState \<Rightarrow> MemberId \<Rightarrow> MembershipFacts \<Rightarrow>
   MultiPartyAssessment \<Rightarrow> Artifact" where
  "admission_record H c st m facts multi =
     (let body = empty_body
            \<lparr>ab_declared_identity := mf_current_identity facts, ab_epoch := fs_epoch st,
             ab_lineage := mf_lineage facts, ab_parties := mp_parties multi,
             ab_required_endorsements := word_of_nat (required_endorsements (co_policy c)),
             ab_required_distinct_parties := word_of_nat (required_distinct_parties (co_policy c)),
             ab_outcome := Outcome_Granted, ab_reason_code := Reason_MultiPartySatisfied,
             ab_reason_text := ''admitted by policy: '' @ nat_to_string (mp_distinct_parties multi) @
               '' distinct parties, '' @ nat_to_string (mp_endorsements multi) @
               '' third-party endorsement(s)'',
             ab_policy_generation := fs_policy_generation st,
             ab_policy_digest := fs_policy_digest st, ab_logical_time := co_tick c\<rparr>;
          federation = cc_federation (co_config c);
          key = decision_key H federation Kind_MembershipAdmission m (fs_epoch st)
                  (mf_lineage facts) (mi_constitution (mf_current_identity facts))
                  (digest_of_parties H (mp_parties multi))
      in make_artifact H
           (coordinator_envelope (co_config c) Kind_MembershipAdmission
              (evidence_id_from H federation key) m (fs_epoch st) (co_tick c)) body)"

definition activation_record ::
  "(bytes \<Rightarrow> Digest) \<Rightarrow> Coordinator \<Rightarrow> FederationState \<Rightarrow> MemberId \<Rightarrow> MembershipFacts \<Rightarrow> Artifact" where
  "activation_record H c st m facts =
     (let body = empty_body
            \<lparr>ab_declared_identity := mf_current_identity facts, ab_epoch := fs_epoch st,
             ab_lineage := mf_lineage facts, ab_outcome := Outcome_Granted,
             ab_reason_code := Reason_MembershipActive,
             ab_reason_text := ''activated at epoch '' @ word_to_string (fs_epoch st),
             ab_policy_generation := fs_policy_generation st,
             ab_policy_digest := fs_policy_digest st, ab_logical_time := co_tick c\<rparr>;
          federation = cc_federation (co_config c);
          key = decision_key H federation Kind_MembershipActivation m (fs_epoch st)
                  (mf_lineage facts) (mi_constitution (mf_current_identity facts))
                  (fs_policy_digest st)
      in make_artifact H
           (coordinator_envelope (co_config c) Kind_MembershipActivation
              (evidence_id_from H federation key) m (fs_epoch st) (co_tick c)) body)"

text \<open>The record one member of the derived state calls for, if any.\<close>

definition decide_member ::
  "(bytes \<Rightarrow> Digest) \<Rightarrow> Coordinator \<Rightarrow> FederationState \<Rightarrow> MemberState \<Rightarrow> Artifact option" where
  "decide_member H c st member =
     (let m = mb_member member;
          own = evidence_of c m;
          derivation = derive_membership H m own (decision_context c st);
          facts = dv_facts derivation in
      if dv_lifecycle derivation = Lifecycle_Proposed then
        (case lowest_proposal own of
           None \<Rightarrow> None
         | Some proposal \<Rightarrow>
             let proposer = art_issuer proposal;
                 multi = assess_multi_party m proposer (proposer \<in> set (active_members st))
                           (mf_endorsers facts) (co_policy c) False in
             if \<not> mp_satisfied multi \<or> \<not> mf_acceptance_matches_declaration facts then None
             else Some (admission_record H c st m facts multi))
      else if dv_lifecycle derivation = Lifecycle_Admitted \<or>
              dv_lifecycle derivation = Lifecycle_Degraded \<and> mf_has_reattestation facts \<and>
              \<not> mf_activation_at_current_epoch facts then
        Some (activation_record H c st m facts)
      else None)"

text \<open>The batch is recorded in turn; \<open>progressed\<close> is set by every success.\<close>

primrec record_batch ::
  "(bytes \<Rightarrow> Digest) \<Rightarrow> Artifact list \<Rightarrow> bool \<times> Artifact list \<times> Coordinator \<Rightarrow>
   bool \<times> Artifact list \<times> Coordinator" where
  "record_batch H [] acc = acc"
| "record_batch H (a # as) acc =
     (case acc of (progressed, issued, c) \<Rightarrow>
        (case record_decision H a c of
           (r, more_issued, c) \<Rightarrow>
             record_batch H as (progressed \<or> is_ok r, issued @ more_issued, c)))"

primrec decide_loop ::
  "nat \<Rightarrow> (bytes \<Rightarrow> Digest) \<Rightarrow> Artifact list \<Rightarrow> Coordinator \<Rightarrow> Artifact list \<times> Coordinator" where
  "decide_loop 0 H issued c = (issued, c)"
| "decide_loop (Suc passes) H issued c =
     (case derive_locked H c of
        Inl _ \<Rightarrow> (issued, c)
      | Inr st \<Rightarrow>
          let batch = List.map_filter (decide_member H c st) (fs_members st) in
          if batch = [] then (issued, c)
          else case record_batch H batch (False, issued, c) of
            (progressed, issued, c) \<Rightarrow>
              if \<not> progressed then (issued, c) else decide_loop passes H issued c)"

definition decide_locked :: "(bytes \<Rightarrow> Digest) \<Rightarrow> Coordinator \<Rightarrow> Artifact list \<times> Coordinator" where
  "decide_locked H c = decide_loop (kMaxMembers + 2) H [] c"

section \<open>Admission of evidence\<close>

definition submission ::
  "SubmissionDisposition \<Rightarrow> ReasonCode \<Rightarrow> string \<Rightarrow> Digest \<Rightarrow> SubmissionOutcome" where
  "submission disposition reason detail digest =
     \<lparr>so_disposition = disposition, so_reason = reason, so_detail = detail,
      so_artifact_digest = digest, so_state_digest = 0, so_artifact_count = 0, so_issued = []\<rparr>"

definition with_state_digest ::
  "(bytes \<Rightarrow> Digest) \<Rightarrow> Coordinator \<Rightarrow> SubmissionOutcome \<Rightarrow> SubmissionOutcome" where
  "with_state_digest H c outcome =
     (case derive_locked H c of
        Inl _ \<Rightarrow> outcome
      | Inr st \<Rightarrow> outcome\<lparr>so_state_digest := state_digest H st,
                          so_artifact_count := fs_artifact_count st\<rparr>)"

definition submit_artifact :: "(bytes \<Rightarrow> Digest) \<Rightarrow> Artifact \<Rightarrow> SubmissionOutcome op" where
  "submit_artifact H a c =
     (let digest = artifact_digest H a;
          same_id = filter (\<lambda>x. art_evidence x = art_evidence a) (co_artifacts c);
          same_present = (\<exists>x \<in> set same_id. artifact_digest H x = digest);
          conflicting_present = (\<exists>x \<in> set same_id. artifact_digest H x \<noteq> digest);
          answer = (\<lambda>disposition reason detail. submission disposition reason detail digest) in
      case validate_artifact H (co_catalog c) a of
        Inl s \<Rightarrow> (Inr (answer Submission_Invalid Reason_ArtifactMalformed (status_to_string s)), c)
      | Inr _ \<Rightarrow>
        if en_federation (ar_envelope a) \<noteq> cc_federation (co_config c) then
          (Inr (answer Submission_Rejected Reason_FederationIdentityMismatch
             (''artefact belongs to federation '' @
              federation_to_string (en_federation (ar_envelope a)))), c)
        else if length (co_artifacts c) \<ge> kMaxArtifacts then
          (Inr (answer Submission_Rejected Reason_LimitExceeded
             ''the evidence set has reached its configured bound''), c)
        else if same_present then
          let c = c\<lparr>co_duplicate_artifacts := co_duplicate_artifacts c + 1\<rparr> in
          (Inr (with_state_digest H c (answer Submission_Duplicate Reason_EvidenceDuplicateIdentical
             ''identical evidence was already accepted; applying it again changes nothing'')), c)
        else case encode_artifact a of
          Inl s \<Rightarrow>
            (Inr (answer Submission_Invalid Reason_ArtifactMalformed (status_to_string s)), c)
        | Inr bs \<Rightarrow>
            (case persist H Journal_Artifact bs c of
               (Inl s, c) \<Rightarrow>
                 (Inr (answer Submission_Rejected Reason_LimitExceeded
                    (''the artefact could not be persisted: '' @ status_to_string s)), c)
             | (Inr _, c) \<Rightarrow>
                 let c = c\<lparr>co_artifacts := co_artifacts c @ [a]\<rparr>;
                     (outcome, c) =
                       (if conflicting_present then
                          (answer Submission_Rejected Reason_EvidenceDuplicateConflicting
                             (''evidence '' @ evidence_to_string (art_evidence a) @
                              '' was already used with different content; both copies are quarantined''),
                           c\<lparr>co_rejected_artifacts := co_rejected_artifacts c + 1\<rparr>)
                        else (answer Submission_Applied Reason_ArtifactAccepted ''evidence accepted'', c));
                     (issued, c) = decide_locked H c
                 in (Inr (with_state_digest H c (outcome\<lparr>so_issued := issued\<rparr>)), c)))"

section \<open>Creation\<close>

definition kMaxWorkerThreads :: nat where "kMaxWorkerThreads = 64"

definition check_config :: "CoordinatorConfig \<Rightarrow> check" where
  "check_config config =
     (if is_nil (cc_federation config) then
        Fail Error_InvalidArgument ''a coordinator requires a federation identity''
      else if is_nil (cc_node config) then
        Fail Error_InvalidArgument ''a coordinator requires a node identity''
      else case validate_policy (cc_policy config) of
        Inl s \<Rightarrow> Fail Error_InvalidArgument
                   (''the configured policy is not valid: '' @ status_to_string s)
      | Inr _ \<Rightarrow>
        if cc_worker_threads config = 0 \<or> cc_worker_threads config > kMaxWorkerThreads then
          Fail Error_OutOfRange ''worker thread count is out of range''
        else if cc_max_connections config = 0 \<or> cc_max_connections config > kMaxConnections then
          Fail Error_OutOfRange ''connection bound is out of range''
        else success)"

definition closed_journal :: Journal where
  "closed_journal =
     \<lparr>jl_handle = None, jl_options = default_journal_options, jl_recovery = fresh_recovery,
      jl_size_bytes = 0, jl_next_sequence = 1\<rparr>"

definition blank_coordinator :: "CoordinatorConfig \<Rightarrow> disk \<Rightarrow> Coordinator" where
  "blank_coordinator config d =
     \<lparr>co_config = config, co_catalog = builtin, co_policy = cc_policy config, co_artifacts = [],
      co_leases = [], co_observations = [], co_replay = [], co_tick = cc_initial_tick config,
      co_incarnation = 1, co_lease_sequence = 1, co_duplicate_artifacts = 0,
      co_rejected_artifacts = 0, co_journal = closed_journal, co_durable = False,
      co_recovery_detail = [], co_bootstrapped = False, co_disk = d\<rparr>"

text \<open>
  \<^verbatim>\<open>create\<close> on a configuration and a disk. When it fails the coordinator is destroyed, which closes
  the journal; the disk that remains is the second component of the state in the result.
\<close>

definition coordinator_stop :: "unit op" where
  "coordinator_stop c =
     (if jl_is_open (co_journal c) then
        (case journal_close (co_journal c) (co_disk c) of
           (r, j, d) \<Rightarrow> (r, c\<lparr>co_journal := j, co_disk := d\<rparr>))
      else (success, c))"

definition coordinator_create ::
  "(bytes \<Rightarrow> Digest) \<Rightarrow> CoordinatorConfig \<Rightarrow> disk \<Rightarrow> check \<times> Coordinator" where
  "coordinator_create H config d =
     (let c = blank_coordinator config d in
      case check_config config of
        Inl s \<Rightarrow> (Inl s, c)
      | Inr _ \<Rightarrow>
        (case followed_by (load_journal H c) (\<lambda>_. ensure_genesis H) of
           (Inl s, c) \<Rightarrow> (Inl s, snd (coordinator_stop c))
         | (Inr _, c) \<Rightarrow> (success, snd (decide_locked H c))))"

section \<open>Authority\<close>

definition coordinator_evaluate ::
  "(bytes \<Rightarrow> Digest) \<Rightarrow> AuthorityRequest \<Rightarrow> AuthorityDecision op" where
  "coordinator_evaluate H request c =
     (if is_nil (rq_federation request) then
        refuse Error_InvalidArgument ''the request names no federation'' c
      else guarded (derive_locked H c) (\<lambda>st c.
        let ad = evaluate_authority H request st (co_policy c) (co_catalog c) in
        if ad_outcome ad = Outcome_Invalid then (Inr ad, c)
        else
          let entry = \<lparr>re_request = rq_id request, re_decision = decision_digest H ad,
                       re_decided_at = ad_decided_at ad\<rparr> in
          if \<exists>e \<in> set (co_replay c). re_request e = rq_id request then (Inr ad, next_tick c)
          else if length (co_replay c) \<ge> kMaxReplayEntries then
            refuse Error_CapacityExceeded ''the replay ledger has reached its configured bound'' c
          else guarded (encode_decision ad) (\<lambda>bs c.
            followed_by (persist H Journal_RequestDecision bs c) (\<lambda>_ c.
              (Inr ad, next_tick (c\<lparr>co_replay := co_replay c @ [entry]\<rparr>)))) c) c)"

section \<open>Leases\<close>

definition check_lease_scopes :: "ScopeGrant list \<Rightarrow> ScopeGrant list \<Rightarrow> check" where
  "check_lease_scopes authority scopes =
     check_all (\<lambda>g. if \<not> grants_cover authority g then
       Fail Error_Refused (''the member does not hold '' @ grant_to_string g @
         ''; a lease cannot grant authority that was never delegated'')
       else success) scopes"

definition lease_lifetime :: "FederationPolicy \<Rightarrow> LeaseRequest \<Rightarrow> u64" where
  "lease_lifetime policy request =
     (if lr_lifetime_ticks request = 0 then max_lease_lifetime_ticks policy
      else lr_lifetime_ticks request)"

text \<open>The checks of \<^verbatim>\<open>issue_lease\<close> up to the construction of the lease; the result is the deadline.\<close>

definition check_lease_request ::
  "Coordinator \<Rightarrow> FederationState \<Rightarrow> MemberState \<Rightarrow> LeaseRequest \<Rightarrow> Tick result" where
  "check_lease_request c st member request =
     (let maximum = max_lease_lifetime_ticks (co_policy c);
          lifetime = lease_lifetime (co_policy c) request in
      if \<not> lifecycle_holds_federation_authority (mb_lifecycle member) then
        Fail Error_Refused (''the lease holder is '' @ lifecycle_to_string (mb_lifecycle member) @
          '' and holds no federation authority to lease'')
      else if lr_scopes request = [] then
        Fail Error_InvalidArgument ''a lease must cover at least one grant''
      else if length (lr_scopes request) > kMaxScopesPerLease then
        Fail Error_BoundsExceeded ''the lease covers too many grants''
      else case check_lease_scopes (mb_federation_authority member) (lr_scopes request) of
        Inl s \<Rightarrow> Inl s
      | Inr _ \<Rightarrow>
        if lifetime = 0 \<or> lifetime > maximum then
          Fail Error_OutOfRange (''the requested lease lifetime exceeds the policy bound of '' @
            word_to_string maximum @ '' ticks'')
        else case checked_add_u64 (co_tick c) lifetime of
          None \<Rightarrow> Fail Error_Overflow ''the lease deadline would overflow the logical clock''
        | Some deadline \<Rightarrow>
            if length (fs_leases st) \<ge> kMaxLeases then
              Fail Error_CapacityExceeded ''the lease table has reached its bound''
            else Inr deadline)"

definition new_lease ::
  "(bytes \<Rightarrow> Digest) \<Rightarrow> Coordinator \<Rightarrow> FederationState \<Rightarrow> MemberState \<Rightarrow> LeaseRequest \<Rightarrow> Tick \<Rightarrow>
   AuthorityLease" where
  "new_lease H c st member request deadline =
     \<lparr>al_id = id_of_digest (lease_id_of H (cc_federation (co_config c)) (co_lease_sequence c)),
      al_federation = cc_federation (co_config c), al_holder = mb_current_identity member,
      al_scopes = canonicalize_grants (lr_scopes request), al_issued_epoch = fs_epoch st,
      al_not_after_epoch = (if lr_not_after_epoch request = 0 then fs_epoch st
                            else lr_not_after_epoch request),
      al_issued_at = co_tick c, al_not_after = deadline, al_issuer_node = cc_node (co_config c),
      al_issuer_incarnation = co_incarnation c, al_revoked = False, al_revoked_at = 0,
      al_revoke_reason = Reason_EvidenceUnknown, al_revoke_detail = []\<rparr>"

definition issue_lease :: "(bytes \<Rightarrow> Digest) \<Rightarrow> LeaseRequest \<Rightarrow> AuthorityLease op" where
  "issue_lease H request c =
     guarded (derive_locked H c) (\<lambda>st c.
       case find_member st (lr_holder request) of
         None \<Rightarrow> refuse Error_NotFound ''the lease holder is not a member of this federation'' c
       | Some member \<Rightarrow>
           guarded (check_lease_request c st member request) (\<lambda>deadline c.
             if is_zero_digest (lease_id_of H (cc_federation (co_config c)) (co_lease_sequence c)) then
               refuse Error_Internal ''the lease identifier cannot be derived'' c
             else
               let lease = new_lease H c st member request deadline in
               if al_not_after_epoch lease < fs_epoch st then
                 refuse Error_InvalidArgument
                   ''a lease cannot expire in an epoch that has already passed'' c
               else guarded (encode_lease lease) (\<lambda>bs c.
                 followed_by (persist H Journal_Lease bs c) (\<lambda>_ c.
                   (Inr lease, next_tick (c\<lparr>co_leases := smap_put (al_id lease) lease (co_leases c),
                      co_lease_sequence := co_lease_sequence c + 1\<rparr>)))) c) c) c"

definition encode_revocation :: "LeaseId \<Rightarrow> ReasonCode \<Rightarrow> string \<Rightarrow> bytes result" where
  "encode_revocation lease reason detail =
     w_seq [w_id16 lease, w_u16 (reason_value reason), w_text detail kMaxTextLength]"

text \<open>The lease is marked before the revocation is encoded and persisted.\<close>

definition revoke_lease ::
  "(bytes \<Rightarrow> Digest) \<Rightarrow> LeaseId \<Rightarrow> ReasonCode \<Rightarrow> string \<Rightarrow> unit op" where
  "revoke_lease H lease reason detail c =
     (case smap_get (co_leases c) lease of
        None \<Rightarrow> refuse Error_NotFound ''no such lease'' c
      | Some l \<Rightarrow>
        if al_revoked l then (success, c)
        else
          let c = c\<lparr>co_leases := smap_put lease (l\<lparr>al_revoked := True, al_revoked_at := co_tick c,
                      al_revoke_reason := reason, al_revoke_detail := detail\<rparr>) (co_leases c)\<rparr> in
          guarded (encode_revocation lease reason detail) (\<lambda>bs c.
            followed_by (persist H Journal_LeaseRevocation bs c) (\<lambda>_ c. (success, next_tick c))) c)"

section \<open>Observations and the clock\<close>

definition report_observation :: "(bytes \<Rightarrow> Digest) \<Rightarrow> MemberObservation \<Rightarrow> unit op" where
  "report_observation H ob c =
     (if is_nil (ob_observer ob) then
        refuse Error_InvalidArgument ''an observation must name its observer'' c
      else if length (ob_peers ob) > kMaxMembersPerObservation then
        refuse Error_BoundsExceeded ''the observation covers too many peers'' c
      else guarded (encode_observation ob) (\<lambda>bs c.
        followed_by (persist H Journal_PartitionObservation bs c) (\<lambda>_ c.
          (success, next_tick (c\<lparr>co_observations :=
             smap_put (ob_observer ob) ob (co_observations c)\<rparr>)))) c)"

definition advance_time :: "(bytes \<Rightarrow> Digest) \<Rightarrow> Tick \<Rightarrow> unit op" where
  "advance_time H target c =
     (if target \<le> co_tick c then
        refuse Error_OutOfRange
          (''the logical clock only moves forward: current tick is '' @ word_to_string (co_tick c)) c
      else guarded (w_u64 target) (persist H Journal_TickHighWater) (c\<lparr>co_tick := target\<rparr>))"

section \<open>Fences, retirements, epochs\<close>

definition lifecycle_key ::
  "(bytes \<Rightarrow> Digest) \<Rightarrow> FederationId \<Rightarrow> ArtifactKind \<Rightarrow> MemberId \<Rightarrow> Epoch \<Rightarrow> ReasonCode \<Rightarrow>
   Lineage \<Rightarrow> Digest" where
  "lifecycle_key H federation kind m epoch reason lineage =
     digest_of H (w_seq [w_id16 federation, w_u16 (kind_wire kind), w_id16 m, w_u64 epoch,
       w_u16 (reason_value reason), w_u64 lineage])"

definition make_lifecycle_record ::
  "(bytes \<Rightarrow> Digest) \<Rightarrow> CoordinatorConfig \<Rightarrow> FederationState \<Rightarrow> Tick \<Rightarrow> ArtifactKind \<Rightarrow> MemberId \<Rightarrow>
   Lineage \<Rightarrow> Epoch \<Rightarrow> ReasonCode \<Rightarrow> string \<Rightarrow> Artifact" where
  "make_lifecycle_record H config st tick kind m lineage epoch reason detail =
     (let body = empty_body
            \<lparr>ab_lineage := lineage, ab_epoch := epoch, ab_reason_code := reason,
             ab_fence_reason := reason, ab_reason_text := detail, ab_logical_time := tick,
             ab_outcome := Outcome_Fenced, ab_policy_generation := fs_policy_generation st,
             ab_policy_digest := fs_policy_digest st\<rparr>;
          key = lifecycle_key H (cc_federation config) kind m epoch reason lineage
      in make_artifact H
           (coordinator_envelope config kind (evidence_id_from H (cc_federation config) key) m
              epoch tick) body)"

text \<open>Record one decision and advance the clock.\<close>

definition record_and_tick :: "(bytes \<Rightarrow> Digest) \<Rightarrow> Artifact \<Rightarrow> unit op" where
  "record_and_tick H a c =
     (case record_decision H a c of
        (Inl s, _, c) \<Rightarrow> (Inl s, c)
      | (Inr _, _, c) \<Rightarrow> (success, next_tick c))"

definition effective_lineage :: "Lineage \<Rightarrow> MemberState \<Rightarrow> Lineage" where
  "effective_lineage lineage member = (if lineage = 0 then mb_lineage member else lineage)"

definition fence_member ::
  "(bytes \<Rightarrow> Digest) \<Rightarrow> MemberId \<Rightarrow> Lineage \<Rightarrow> ReasonCode \<Rightarrow> string \<Rightarrow> unit op" where
  "fence_member H m lineage reason detail c =
     guarded (derive_locked H c) (\<lambda>st c.
       case find_member st m of
         None \<Rightarrow> refuse Error_NotFound ''no such member in this federation'' c
       | Some found \<Rightarrow>
           record_and_tick H (make_lifecycle_record H (co_config c) st (co_tick c)
             Kind_MembershipFence m (effective_lineage lineage found) (fs_epoch st) reason detail) c) c"

definition retire_member ::
  "(bytes \<Rightarrow> Digest) \<Rightarrow> MemberId \<Rightarrow> Lineage \<Rightarrow> ReasonCode \<Rightarrow> string \<Rightarrow> unit op" where
  "retire_member H m lineage reason detail c =
     guarded (derive_locked H c) (\<lambda>st c.
       case find_member st m of
         None \<Rightarrow> refuse Error_NotFound ''no such member in this federation'' c
       | Some found \<Rightarrow>
           if mb_lifecycle found \<noteq> Lifecycle_Leaving \<and> mb_lifecycle found \<noteq> Lifecycle_Fenced then
             refuse Error_Refused
               (''a membership lineage is retired only after the member has left or been '' @
                ''fenced; the member is currently '' @ lifecycle_to_string (mb_lifecycle found)) c
           else
             record_and_tick H (make_lifecycle_record H (co_config c) st (co_tick c)
               Kind_MembershipRetirement m (effective_lineage lineage found) (fs_epoch st) reason
               detail) c) c"

definition epoch_record ::
  "(bytes \<Rightarrow> Digest) \<Rightarrow> Coordinator \<Rightarrow> FederationState \<Rightarrow> Epoch \<Rightarrow> ReasonCode \<Rightarrow> string \<Rightarrow> Artifact" where
  "epoch_record H c st epoch reason detail =
     (let federation = cc_federation (co_config c);
          body = empty_body
            \<lparr>ab_epoch := epoch, ab_reason_code := reason, ab_reason_text := detail,
             ab_logical_time := co_tick c, ab_policy_generation := fs_policy_generation st,
             ab_policy_digest := fs_policy_digest st, ab_outcome := Outcome_Granted\<rparr>;
          key = digest_of H (w_seq [w_id16 federation, w_u64 epoch, w_u16 (reason_value reason)])
      in make_artifact H
           (coordinator_envelope (co_config c) Kind_EpochAdvance
              (evidence_id_from H federation key) 0 epoch (co_tick c)) body)"

definition advance_epoch ::
  "(bytes \<Rightarrow> Digest) \<Rightarrow> Epoch \<Rightarrow> ReasonCode \<Rightarrow> string \<Rightarrow> unit op" where
  "advance_epoch H epoch reason detail c =
     guarded (derive_locked H c) (\<lambda>st c.
       if epoch \<le> fs_epoch st then
         refuse Error_OutOfRange (''the federation epoch only moves forward: current epoch is '' @
           word_to_string (fs_epoch st)) c
       else record_and_tick H (epoch_record H c st epoch reason detail) c) c"

definition reconciliation_record ::
  "(bytes \<Rightarrow> Digest) \<Rightarrow> Coordinator \<Rightarrow> FederationState \<Rightarrow> Epoch \<Rightarrow> Artifact" where
  "reconciliation_record H c st epoch =
     (let federation = cc_federation (co_config c);
          body = empty_body
            \<lparr>ab_epoch := epoch, ab_reason_code := Reason_PartitionReattestationComplete,
             ab_reason_text := ''reconciliation recorded for epoch '' @ word_to_string epoch,
             ab_logical_time := co_tick c, ab_policy_generation := fs_policy_generation st,
             ab_policy_digest := fs_policy_digest st, ab_outcome := Outcome_Granted\<rparr>;
          key = digest_of H (w_seq [w_id16 federation, w_u64 epoch])
      in make_artifact H
           (coordinator_envelope (co_config c) Kind_ReconciliationComplete
              (evidence_id_from H federation key) 0 epoch (co_tick c)) body)"

definition complete_reconciliation :: "(bytes \<Rightarrow> Digest) \<Rightarrow> Epoch \<Rightarrow> unit op" where
  "complete_reconciliation H epoch c =
     guarded (derive_locked H c) (\<lambda>st c.
       if epoch > fs_epoch st then
         refuse Error_OutOfRange
           (''reconciliation cannot complete for an epoch the federation has not '' @ ''reached'') c
       else record_and_tick H (reconciliation_record H c st epoch) c) c"

section \<open>Inspection\<close>

definition coordinator_state_digest :: "(bytes \<Rightarrow> Digest) \<Rightarrow> Coordinator \<Rightarrow> Digest" where
  "coordinator_state_digest H c =
     (case derive_locked H c of Inl _ \<Rightarrow> 0 | Inr st \<Rightarrow> state_digest H st)"

definition coordinator_epoch :: "(bytes \<Rightarrow> Digest) \<Rightarrow> Coordinator \<Rightarrow> Epoch" where
  "coordinator_epoch H c = (case derive_locked H c of Inl _ \<Rightarrow> 0 | Inr st \<Rightarrow> fs_epoch st)"

definition coordinator_leases :: "Coordinator \<Rightarrow> AuthorityLease list" where
  "coordinator_leases c = map snd (co_leases c)"

definition coordinator_observations :: "Coordinator \<Rightarrow> MemberObservation list" where
  "coordinator_observations c = map snd (co_observations c)"

text \<open>The statistics; the two connection counters and the transport text come from the server.\<close>

record CoordinatorStats =
  cs_state_digest :: Digest
  cs_epoch :: Epoch
  cs_logical_time :: Tick
  cs_coordinator_incarnation :: Incarnation
  cs_artifacts :: nat
  cs_rejected_artifacts :: nat
  cs_duplicate_artifacts :: nat
  cs_members :: nat
  cs_active_members :: nat
  cs_leases :: nat
  cs_replay_entries :: nat
  cs_connections_accepted :: u64
  cs_protocol_errors :: u64
  cs_journal_records :: u64
  cs_journal_bytes :: nat
  cs_durable :: bool
  cs_reconciling :: bool
  cs_partition_state :: string
  cs_transport :: string
  cs_recovery :: string

definition coordinator_stats ::
  "(bytes \<Rightarrow> Digest) \<Rightarrow> u64 \<Rightarrow> u64 \<Rightarrow> string \<Rightarrow> Coordinator \<Rightarrow> CoordinatorStats" where
  "coordinator_stats H accepted errors transport c =
     (let base =
        \<lparr>cs_state_digest = 0, cs_epoch = 0, cs_logical_time = 0,
         cs_coordinator_incarnation = co_incarnation c, cs_artifacts = 0,
         cs_rejected_artifacts = 0, cs_duplicate_artifacts = 0, cs_members = 0,
         cs_active_members = 0, cs_leases = length (co_leases c),
         cs_replay_entries = length (co_replay c), cs_connections_accepted = accepted,
         cs_protocol_errors = errors, cs_journal_records = jl_next_sequence (co_journal c) - 1,
         cs_journal_bytes = jl_size_bytes (co_journal c), cs_durable = co_durable c,
         cs_reconciling = False, cs_partition_state = [], cs_transport = transport,
         cs_recovery = co_recovery_detail c\<rparr> in
      case derive_locked H c of
        Inl _ \<Rightarrow> base
      | Inr st \<Rightarrow> base
          \<lparr>cs_state_digest := state_digest H st, cs_epoch := fs_epoch st,
           cs_logical_time := fs_logical_time st, cs_artifacts := fs_artifact_count st,
           cs_rejected_artifacts := fs_rejected_artifact_count st,
           cs_duplicate_artifacts := fs_duplicate_artifact_count st,
           cs_members := length (fs_members st), cs_active_members := active_member_count st,
           cs_reconciling := fs_reconciling st,
           cs_partition_state := partition_to_string (pa_state (fs_partition st))\<rparr>)"

definition coordinator_describe :: "u16 \<Rightarrow> Coordinator \<Rightarrow> string" where
  "coordinator_describe bound_port c =
     ''coordinator '' @ node_to_string (cc_node (co_config c)) @ '' for federation '' @
     federation_to_string (cc_federation (co_config c)) @
     (if cc_listen (co_config c) then '' listening on 127.0.0.1:'' @ word_to_string bound_port
      else '' (not listening)'') @
     (if co_durable c then '' durable at '' @ cc_journal_path (co_config c)
      else '' (in-memory only)'')"

end
