(* ===== verification/Durability.thy ===== *)
theory Durability
  imports Coordinator Journal_Capacity
begin

text \<open>
  What survives a restart of the coordinator. The journal of a running coordinator holds, in order,
  every decided request, every issued and every revoked lease and every incarnation; \<open>recorded\<close> is the
  invariant that ties these records to the state, it is kept by every operation, and replaying the
  records re-establishes it.
\<close>

section \<open>The identifier a record starts with\<close>

definition payload_id :: "JournalRecord \<Rightarrow> id128" where
  "payload_id r = from_be (take 16 (jr_payload r))"

definition journaled :: "JournalRecordType \<Rightarrow> JournalRecord list \<Rightarrow> id128 list" where
  "journaled ty rs = map payload_id (filter (\<lambda>r. jr_type r = ty) rs)"

lemma journaled_simps [simp]:
  "journaled ty [] = []"
  "journaled ty (rs @ rs') = journaled ty rs @ journaled ty rs'"
  "journaled ty (r # rs) = (if jr_type r = ty then payload_id r # journaled ty rs else journaled ty rs)"
  by (simp_all add: journaled_def)

lemma rbind_id16:
  assumes "rbind r_id16 k bs = Inr (v, rest)"
  shows "k (from_be (take 16 bs)) (drop 16 bs) = Inr (v, rest)"
proof -
  from assms obtain x out where "r_id16 bs = Inr (x, out)" "k x out = Inr (v, rest)"
    by (auto simp: rbind_ok_iff)
  moreover from this(1) have "x = from_be (take 16 bs)" "out = drop 16 bs"
    by (auto simp: r_id16_def rbind_def r_take_def split: if_splits)
  ultimately show ?thesis by simp
qed

lemma decode_decision_request:
  "decode_decision bs = Inr (ad, rest) \<Longrightarrow> ad_request ad = from_be (take 16 bs)"
  unfolding decode_decision_def by (drule rbind_id16) (auto simp: rbind_ok_iff)

lemma decode_lease_id: "decode_lease bs = Inr (l, rest) \<Longrightarrow> al_id l = from_be (take 16 bs)"
  unfolding decode_lease_def by (drule rbind_id16) (auto simp: rbind_ok_iff)

lemma decode_revocation_id:
  "decode_revocation bs = Inr ((lease, why), rest) \<Longrightarrow> lease = from_be (take 16 bs)"
  unfolding decode_revocation_def by (drule rbind_id16) (auto simp: rbind_ok_iff)

lemma w_seq_id16: "w_seq (w_id16 x # ws) = Inr bs \<Longrightarrow> from_be (take 16 bs) = x"
  by (auto simp: w_seq.simps w_id16_def from_be_be_bytes split: sum.splits)

section \<open>Replaying the records\<close>

lemma decoded_Inr: "decoded dec what bs = Inr v \<Longrightarrow> \<exists>rest. dec bs = Inr (v, rest)"
  by (auto simp: decoded_def split: sum.splits prod.splits)

lemma plain_Inr: "plain dec bs = Inr v \<Longrightarrow> \<exists>rest. dec bs = Inr (v, rest)"
  by (auto simp: plain_def and_then_ok_iff)

definition incarnation_of :: "JournalRecord \<Rightarrow> u64" where
  "incarnation_of r = load_u64_le (jr_payload r)"

lemma r_u64_value: "r_u64 bs = Inr (v, rest) \<Longrightarrow> v = load_u64_le bs"
  by (auto simp: r_u64_def rbind_def r_take_def load_u64_le_def split: if_splits)

declare smap_get_put [simp]

abbreviation keys_of :: "('k, 'v) smap \<Rightarrow> 'k set" where
  "keys_of m \<equiv> fst ` set m"

lemma keys_put [simp]: "keys_of (smap_put k v m) = insert k (keys_of m)"
  using smap_put_keys [of k v m] by simp

text \<open>What one record adds.\<close>

definition replayed :: "Recovered \<Rightarrow> JournalRecord \<Rightarrow> Recovered \<Rightarrow> bool" where
  "replayed rv r rv' \<longleftrightarrow>
     map re_request (rv_replay rv') = map re_request (rv_replay rv) @ journaled Journal_RequestDecision [r] \<and>
     keys_of (rv_revocations rv') = keys_of (rv_revocations rv) \<union> set (journaled Journal_LeaseRevocation [r]) \<and>
     keys_of (rv_leases rv') = keys_of (rv_leases rv) \<union> set (journaled Journal_Lease [r]) \<and>
     rv_highest_lease_sequence rv' = (if jr_type r = Journal_Lease
        then max (rv_highest_lease_sequence rv) (jr_sequence r) else rv_highest_lease_sequence rv) \<and>
     rv_highest_incarnation rv' = (if jr_type r = Journal_CoordinatorIncarnation
        then max (rv_highest_incarnation rv) (incarnation_of r) else rv_highest_incarnation rv)"

lemma recover_record_replayed:
  assumes "recover_record H rv r = Inr rv'"
  shows "replayed rv r rv'"
proof (cases "jr_type r")
  case Journal_RequestDecision
  then obtain ad where "decoded decode_decision ''a decision'' (jr_payload r) = Inr ad"
    and rv': "rv' = rv\<lparr>rv_replay := rv_replay rv @
                 [\<lparr>re_request = ad_request ad, re_decision = decision_digest H ad,
                   re_decided_at = ad_decided_at ad\<rparr>],
               rv_highest_tick := max (rv_highest_tick rv) (ad_decided_at ad)\<rparr>"
    using assms by (auto simp: recover_record_def and_then_ok_iff)
  then have "ad_request ad = payload_id r"
    by (auto simp: payload_id_def dest!: decoded_Inr decode_decision_request)
  with rv' Journal_RequestDecision show ?thesis by (simp add: replayed_def)
next
  case Journal_Lease
  then obtain l where "decoded decode_lease ''a lease'' (jr_payload r) = Inr l"
    and rv': "rv' = rv\<lparr>rv_highest_lease_sequence := max (rv_highest_lease_sequence rv) (jr_sequence r),
               rv_highest_tick := max (rv_highest_tick rv) (al_issued_at l),
               rv_leases := smap_put (al_id l) l (rv_leases rv)\<rparr>"
    using assms by (auto simp: recover_record_def and_then_ok_iff)
  then have "al_id l = payload_id r"
    by (auto simp: payload_id_def dest!: decoded_Inr decode_lease_id)
  with rv' Journal_Lease show ?thesis by (simp add: replayed_def)
next
  case Journal_LeaseRevocation
  then obtain lease why where "plain decode_revocation (jr_payload r) = Inr (lease, why)"
    and rv': "rv' = rv\<lparr>rv_revocations := smap_put lease why (rv_revocations rv)\<rparr>"
    using assms by (auto simp: recover_record_def and_then_ok_iff)
  then have "lease = payload_id r"
    by (auto simp: payload_id_def dest!: plain_Inr decode_revocation_id)
  with rv' Journal_LeaseRevocation show ?thesis by (simp add: replayed_def)
next
  case Journal_CoordinatorIncarnation
  then obtain v where "plain r_u64 (jr_payload r) = Inr v"
    and rv': "rv' = rv\<lparr>rv_highest_incarnation := max (rv_highest_incarnation rv) v\<rparr>"
    using assms by (auto simp: recover_record_def and_then_ok_iff)
  then have "v = incarnation_of r" by (auto simp: incarnation_of_def dest!: plain_Inr r_u64_value)
  with rv' Journal_CoordinatorIncarnation show ?thesis by (simp add: replayed_def)
qed (use assms in \<open>auto simp: recover_record_def and_then_ok_iff replayed_def split: if_splits\<close>)

lemma recover_records_replayed:
  assumes "recover_records H rs rv = Inr rv'"
  shows "map re_request (rv_replay rv') = map re_request (rv_replay rv) @ journaled Journal_RequestDecision rs"
    and "keys_of (rv_revocations rv') = keys_of (rv_revocations rv) \<union> set (journaled Journal_LeaseRevocation rs)"
    and "keys_of (rv_leases rv') = keys_of (rv_leases rv) \<union> set (journaled Journal_Lease rs)"
    and "rv_highest_lease_sequence rv \<le> rv_highest_lease_sequence rv'"
    and "\<forall>r \<in> set rs. jr_type r = Journal_Lease \<longrightarrow> jr_sequence r \<le> rv_highest_lease_sequence rv'"
    and "rv_highest_lease_sequence rv' = rv_highest_lease_sequence rv \<or>
      (\<exists>r \<in> set rs. rv_highest_lease_sequence rv' = jr_sequence r)"
    and "rv_highest_incarnation rv \<le> rv_highest_incarnation rv'"
    and "\<forall>r \<in> set rs. jr_type r = Journal_CoordinatorIncarnation \<longrightarrow>
      incarnation_of r \<le> rv_highest_incarnation rv'"
    and "rv_highest_incarnation rv' = rv_highest_incarnation rv \<or>
      (\<exists>r \<in> set rs. jr_type r = Journal_CoordinatorIncarnation \<and> rv_highest_incarnation rv' = incarnation_of r)"
proof -
  have "map re_request (rv_replay rv') = map re_request (rv_replay rv) @ journaled Journal_RequestDecision rs \<and>
    keys_of (rv_revocations rv') = keys_of (rv_revocations rv) \<union> set (journaled Journal_LeaseRevocation rs) \<and>
    keys_of (rv_leases rv') = keys_of (rv_leases rv) \<union> set (journaled Journal_Lease rs) \<and>
    rv_highest_lease_sequence rv \<le> rv_highest_lease_sequence rv' \<and>
    (\<forall>r \<in> set rs. jr_type r = Journal_Lease \<longrightarrow> jr_sequence r \<le> rv_highest_lease_sequence rv') \<and>
    (rv_highest_lease_sequence rv' = rv_highest_lease_sequence rv \<or>
      (\<exists>r \<in> set rs. rv_highest_lease_sequence rv' = jr_sequence r)) \<and>
    rv_highest_incarnation rv \<le> rv_highest_incarnation rv' \<and>
    (\<forall>r \<in> set rs. jr_type r = Journal_CoordinatorIncarnation \<longrightarrow>
      incarnation_of r \<le> rv_highest_incarnation rv') \<and>
    (rv_highest_incarnation rv' = rv_highest_incarnation rv \<or>
      (\<exists>r \<in> set rs. jr_type r = Journal_CoordinatorIncarnation \<and>
         rv_highest_incarnation rv' = incarnation_of r))"
    using assms
  proof (induction rs arbitrary: rv)
    case Nil
    then show ?case by simp
  next
    case (Cons r rs)
    from Cons.prems obtain rv1 where one: "recover_record H rv r = Inr rv1"
      and rest: "recover_records H rs rv1 = Inr rv'"
      by (auto simp: and_then_ok_iff)
    note ih = Cons.IH [OF rest]
    from recover_record_replayed [OF one, unfolded replayed_def] ih show ?case
      by (auto simp: max_def split: if_splits)
  qed
  then show "map re_request (rv_replay rv') = map re_request (rv_replay rv) @ journaled Journal_RequestDecision rs"
    and "keys_of (rv_revocations rv') = keys_of (rv_revocations rv) \<union> set (journaled Journal_LeaseRevocation rs)"
    and "keys_of (rv_leases rv') = keys_of (rv_leases rv) \<union> set (journaled Journal_Lease rs)"
    and "rv_highest_lease_sequence rv \<le> rv_highest_lease_sequence rv'"
    and "\<forall>r \<in> set rs. jr_type r = Journal_Lease \<longrightarrow> jr_sequence r \<le> rv_highest_lease_sequence rv'"
    and "rv_highest_lease_sequence rv' = rv_highest_lease_sequence rv \<or>
      (\<exists>r \<in> set rs. rv_highest_lease_sequence rv' = jr_sequence r)"
    and "rv_highest_incarnation rv \<le> rv_highest_incarnation rv'"
    and "\<forall>r \<in> set rs. jr_type r = Journal_CoordinatorIncarnation \<longrightarrow>
      incarnation_of r \<le> rv_highest_incarnation rv'"
    and "rv_highest_incarnation rv' = rv_highest_incarnation rv \<or>
      (\<exists>r \<in> set rs. jr_type r = Journal_CoordinatorIncarnation \<and> rv_highest_incarnation rv' = incarnation_of r)"
    by blast+
qed

lemma apply_revocations_result:
  assumes "apply_revocations es at leases = Inr leases'"
  shows "keys_of leases' = keys_of leases"
    and "\<forall>k \<in> fst ` set es. \<exists>l. smap_get leases' k = Some l \<and> al_revoked l"
proof -
  have "keys_of leases' = keys_of leases \<and>
    (\<forall>k l. smap_get leases k = Some l \<and> al_revoked l \<longrightarrow>
       (\<exists>l'. smap_get leases' k = Some l' \<and> al_revoked l')) \<and>
    (\<forall>k \<in> fst ` set es. \<exists>l. smap_get leases' k = Some l \<and> al_revoked l)"
    using assms
  proof (induction es arbitrary: leases)
    case Nil
    then show ?case by simp
  next
    case (Cons e es)
    from Cons.prems obtain l where l: "smap_get leases (fst e) = Some l"
      and rest: "apply_revocations es at (smap_put (fst e) (l\<lparr>al_revoked := True, al_revoked_at := at,
             al_revoke_reason := fst (snd e), al_revoke_detail := snd (snd e)\<rparr>) leases) = Inr leases'"
      by (auto split: option.splits)
    have "fst e \<in> keys_of leases"
      using l smap_get_None [of leases "fst e"] by (auto simp: image_image)
    with Cons.IH [OF rest] show ?case by (auto split: if_splits)
  qed
  then show "keys_of leases' = keys_of leases"
    and "\<forall>k \<in> fst ` set es. \<exists>l. smap_get leases' k = Some l \<and> al_revoked l"
    by blast+
qed

section \<open>The invariant of a durable coordinator\<close>

definition lease_name :: "(bytes \<Rightarrow> Digest) \<Rightarrow> Coordinator \<Rightarrow> u64 \<Rightarrow> LeaseId" where
  "lease_name H c n = id_of_digest (lease_id_of H (cc_federation (co_config c)) n)"

definition consecutive :: "JournalRecord list \<Rightarrow> bool" where
  "consecutive rs \<longleftrightarrow> (\<forall>i < length rs. unat (jr_sequence (rs ! i)) = Suc i)"

text \<open>The journal is open, holds \<open>rs\<close>, and no system call is about to fail.\<close>

definition journaling :: "(bytes \<Rightarrow> Digest) \<Rightarrow> JournalRecord list \<Rightarrow> Coordinator \<Rightarrow> bool" where
  "journaling H rs c \<longleftrightarrow>
     co_durable c \<and> cc_journal_path (co_config c) \<noteq> [] \<and> quiet (co_disk c) \<and>
     dk_files (co_disk c) Journal_File = Some (journal_file H rs) \<and>
     journal_holds H rs (co_journal c) \<and> jl_options (co_journal c) = default_journal_options \<and>
     consecutive rs \<and> jl_size_bytes (co_journal c) \<le> unat kMaxJournalBytes"

text \<open>The records tell what the coordinator must not forget.\<close>

definition recorded :: "(bytes \<Rightarrow> Digest) \<Rightarrow> JournalRecord list \<Rightarrow> Coordinator \<Rightarrow> bool" where
  "recorded H rs c \<longleftrightarrow>
     map re_request (co_replay c) = journaled Journal_RequestDecision rs \<and>
     length (co_replay c) \<le> kMaxReplayEntries \<and>
     (\<forall>k \<in> set (journaled Journal_LeaseRevocation rs).
        \<exists>l. smap_get (co_leases c) k = Some l \<and> al_revoked l) \<and>
     (\<forall>r \<in> set rs. jr_type r = Journal_Lease \<longrightarrow>
        (\<exists>s. payload_id r = lease_name H c s \<and> s \<le> jr_sequence r)) \<and>
     keys_of (co_leases c) = set (journaled Journal_Lease rs) \<and>
     (\<forall>k \<in> set (journaled Journal_Lease rs). \<exists>s. k = lease_name H c s \<and> s < co_lease_sequence c) \<and>
     unat (co_lease_sequence c) \<le> Suc (length rs) \<and>
     (\<forall>r \<in> set rs. jr_type r = Journal_CoordinatorIncarnation \<longrightarrow> incarnation_of r \<le> co_incarnation c) \<and>
     (\<exists>r \<in> set rs. jr_type r = Journal_CoordinatorIncarnation \<and> incarnation_of r = co_incarnation c) \<and>
     unat (co_incarnation c) \<le> length rs"

definition sound :: "(bytes \<Rightarrow> Digest) \<Rightarrow> JournalRecord list \<Rightarrow> Coordinator \<Rightarrow> bool" where
  "sound H rs c \<longleftrightarrow> journaling H rs c \<and> recorded H rs c"

lemma sum_record_sizes: "52 * length rs \<le> sum_list (map record_size rs)"
  by (induction rs) (simp_all add: record_size_def kJournalRecordHeaderBytes_def)

lemma journaling_short: "journaling H rs c \<Longrightarrow> length rs < 67108864"
proof -
  assume j: "journaling H rs c"
  then have "length (journal_file H rs) \<le> 2147483648"
    by (simp add: journaling_def journal_holds_def kMaxJournalBytes_def)
  then have "52 * length rs \<le> 2147483648"
    using sum_record_sizes [of rs] by (simp add: length_journal_file)
  then show ?thesis by simp
qed

lemma consecutive_last: "consecutive rs \<Longrightarrow> unat (last_sequence rs) = length rs"
  by (cases rs rule: rev_cases) (auto simp: consecutive_def last_sequence_def dest: spec [of _ "length _"])

lemma journaling_sequence:
  assumes "journaling H rs c"
  shows "unat (jl_next_sequence (co_journal c)) = Suc (length rs)" "last_sequence rs + 1 < u64_max"
    "last_sequence rs < u64_max"
proof -
  have last: "unat (last_sequence rs) = length rs" "length rs < 67108864"
    using assms journaling_short [OF assms] by (simp_all add: journaling_def consecutive_last)
  then have step: "unat (last_sequence rs + 1) = Suc (length rs)" by (simp add: unat_word_ariths)
  with assms show "unat (jl_next_sequence (co_journal c)) = Suc (length rs)"
    by (simp add: journaling_def journal_holds_def)
  show "last_sequence rs + 1 < u64_max" "last_sequence rs < u64_max"
    using last step by (simp_all add: word_less_nat_alt u64_max_def)
qed

text \<open>What \<^verbatim>\<open>journal_append\<close> does to a coordinator whose journal is sound.\<close>

lemma persist_result:
  assumes "journaling H rs c" "ty \<in> set journal_types" "persist H ty payload c = (r, c')"
  shows "(\<exists>s. r = Inl s \<and> c' = c) \<or>
    (\<exists>rec. r = success \<and> jr_type rec = ty \<and> jr_payload rec = payload \<and>
       unat (jr_sequence rec) = Suc (length rs) \<and> journaling H (rs @ [rec]) c' \<and>
       c' = c\<lparr>co_journal := co_journal c', co_disk := co_disk c'\<rparr>)"
proof -
  obtain r0 j d where run: "journal_append H ty payload (co_journal c) (co_disk c) = (r0, j, d)"
    by (cases "journal_append H ty payload (co_journal c) (co_disk c)") auto
  from assms(1) have parts: "co_durable c" "quiet (co_disk c)"
      "dk_files (co_disk c) Journal_File = Some (journal_file H rs)" "journal_holds H rs (co_journal c)"
      "jl_options (co_journal c) = default_journal_options" "consecutive rs"
    by (simp_all add: journaling_def)
  note seq = journaling_sequence [OF assms(1)]
  from assms(3) run parts(1) have result: "r = r0" "c' = c\<lparr>co_journal := j, co_disk := d\<rparr>"
    by (simp_all add: persist_def)
  show ?thesis
  proof (cases r0)
    case (Inl s)
    with append_failed_quiet [OF parts(2,4) seq(2)] run have "j = co_journal c \<and> d = co_disk c" by blast
    with Inl result show ?thesis by simp
  next
    case (Inr u)
    let ?rec = "next_record ty payload (co_journal c)"
    have kept: "quiet d" "dk_files d Journal_File = Some (journal_file H (rs @ [?rec]))"
        "journal_holds H (rs @ [?rec]) j" "jl_options j = default_journal_options"
      using append_holds [OF parts(2,4,3) assms(2) seq(3), of payload j d] run Inr parts(5) by auto
    have size: "jl_size_bytes j \<le> unat kMaxJournalBytes"
      using run Inr parts(5)
      by (auto simp: journal_append_def Let_def io_case_def default_journal_options_def
          split: option.splits if_splits prod.splits sum.splits)
    have rec: "jr_type ?rec = ty" "jr_payload ?rec = payload" "unat (jr_sequence ?rec) = Suc (length rs)"
      using seq(1) by (simp_all add: next_record_def)
    then have "consecutive (rs @ [?rec])"
      using parts(6) by (auto simp: consecutive_def nth_append less_Suc_eq)
    with kept size assms(1) result have "journaling H (rs @ [?rec]) c'" by (simp add: journaling_def)
    with Inr result rec show ?thesis by auto
  qed
qed

section \<open>What operations keep\<close>

definition keeps :: "(bytes \<Rightarrow> Digest) \<Rightarrow> Coordinator \<Rightarrow> Coordinator \<Rightarrow> bool" where
  "keeps H c c' \<longleftrightarrow> (\<forall>rs. sound H rs c \<longrightarrow> (\<exists>more. sound H (rs @ more) c'))"

lemma keeps_refl [simp]: "keeps H c c"
  unfolding keeps_def by (intro allI impI exI [of _ "[]"]) simp

lemma keeps_trans: "keeps H c c' \<Longrightarrow> keeps H c' c'' \<Longrightarrow> keeps H c c''"
  unfolding keeps_def by (metis append_assoc)

text \<open>The part of the state the invariant speaks of, apart from the journal.\<close>

definition same_ledgers :: "Coordinator \<Rightarrow> Coordinator \<Rightarrow> bool" where
  "same_ledgers c c' \<longleftrightarrow> co_config c' = co_config c \<and> co_replay c' = co_replay c \<and>
     co_leases c' = co_leases c \<and> co_lease_sequence c' = co_lease_sequence c \<and>
     co_incarnation c' = co_incarnation c"

definition same_journal :: "Coordinator \<Rightarrow> Coordinator \<Rightarrow> bool" where
  "same_journal c c' \<longleftrightarrow> co_config c' = co_config c \<and> co_durable c' = co_durable c \<and>
     co_journal c' = co_journal c \<and> co_disk c' = co_disk c"

definition critical_types :: "JournalRecordType set" where
  "critical_types = {Journal_RequestDecision, Journal_LeaseRevocation, Journal_Lease,
     Journal_CoordinatorIncarnation}"

lemma same_ledgers_refl [simp]: "same_ledgers c c"
  by (simp add: same_ledgers_def)

lemma same_ledgers_trans: "same_ledgers c c' \<Longrightarrow> same_ledgers c' c'' \<Longrightarrow> same_ledgers c c''"
  by (simp add: same_ledgers_def)

lemma journaling_same: "same_journal c c' \<Longrightarrow> journaling H rs c' = journaling H rs c"
  by (simp add: same_journal_def journaling_def)

lemma recorded_same: "same_ledgers c c' \<Longrightarrow> recorded H rs c' = recorded H rs c"
  by (simp add: same_ledgers_def recorded_def lease_name_def)

lemma keeps_frame: "same_ledgers c c' \<Longrightarrow> same_journal c c' \<Longrightarrow> keeps H c c'"
  unfolding keeps_def sound_def
  by (intro allI impI exI [of _ "[]"]) (simp add: journaling_same recorded_same)

lemma recorded_other:
  assumes "recorded H rs c" "same_ledgers c c'" "jr_type rec \<notin> critical_types"
  shows "recorded H (rs @ [rec]) c'"
  using assms unfolding recorded_def same_ledgers_def critical_types_def lease_name_def
  by (simp only: journaled_simps) auto

lemma persist_frame:
  assumes "persist H ty payload c = (r, c')"
  shows "c' = c\<lparr>co_journal := co_journal c', co_disk := co_disk c'\<rparr>"
  using assms by (auto simp: persist_def split: if_splits prod.splits)

lemma persist_core: "persist H ty payload c = (r, c') \<Longrightarrow> same_ledgers c c'"
  by (auto simp: persist_def same_ledgers_def split: if_splits prod.splits)

lemma persist_other:
  assumes "persist H ty payload c = (r, c')" "ty \<in> set journal_types" "ty \<notin> critical_types"
  shows "keeps H c c'"
proof -
  have "\<exists>more. sound H (rs @ more) c'" if s: "sound H rs c" for rs
  proof -
    from persist_result [OF _ assms(2,1)] s consider "c' = c"
      | rec where "jr_type rec = ty" "journaling H (rs @ [rec]) c'"
      unfolding sound_def by blast
    then show ?thesis
    proof cases
      case 1
      with s show ?thesis by (intro exI [of _ "[]"]) simp
    next
      case 2
      with s assms(3) persist_core [OF assms(1)] show ?thesis
        unfolding sound_def using recorded_other by blast
    qed
  qed
  then show ?thesis by (simp add: keeps_def)
qed

lemma listed_types [simp]:
  "Journal_Artifact \<in> set journal_types" "Journal_Lease \<in> set journal_types"
  "Journal_LeaseRevocation \<in> set journal_types" "Journal_RequestDecision \<in> set journal_types"
  "Journal_PartitionObservation \<in> set journal_types" "Journal_TickHighWater \<in> set journal_types"
  "Journal_CoordinatorIncarnation \<in> set journal_types"
  by (simp_all add: journal_types_def)

lemma uncritical_types [simp]:
  "Journal_Artifact \<notin> critical_types" "Journal_PartitionObservation \<notin> critical_types"
  "Journal_TickHighWater \<notin> critical_types"
  by (simp_all add: critical_types_def)

subsection \<open>Evidence\<close>

lemma record_decision_keeps:
  assumes "record_decision H a c = (r, more_issued, c')"
  shows "keeps H c c' \<and> same_ledgers c c'"
proof (cases "validate_artifact H (co_catalog c) a = success \<and> \<not> has_evidence c (art_evidence a) \<and>
    is_ok (encode_artifact a)")
  case False
  with assms show ?thesis by (auto simp: record_decision_def split: sum.splits if_splits)
next
  case True
  then obtain bs where bs: "encode_artifact a = Inr bs" by (cases "encode_artifact a") auto
  obtain r1 c1 where p: "persist H Journal_Artifact bs c = (r1, c1)" by fastforce
  from persist_other [OF p] persist_core [OF p] have one: "keeps H c c1" "same_ledgers c c1" by simp_all
  from assms True bs p have "c' = c1 \<or> c' = c1\<lparr>co_artifacts := co_artifacts c1 @ [a]\<rparr>"
    by (auto simp: record_decision_def split: sum.splits)
  then have "keeps H c1 c' \<and> same_ledgers c1 c'"
    by (auto simp: same_ledgers_def same_journal_def intro: keeps_frame)
  with one show ?thesis by (blast intro: keeps_trans same_ledgers_trans)
qed

lemma record_batch_keeps:
  "record_batch H as (progressed, issued, c) = (progressed', issued', c') \<Longrightarrow>
     keeps H c c' \<and> same_ledgers c c'"
proof (induction as arbitrary: progressed issued c)
  case Nil
  then show ?case by simp
next
  case (Cons a as)
  obtain r more_issued c1 where one: "record_decision H a c = (r, more_issued, c1)"
    by (cases "record_decision H a c") auto
  with Cons.prems Cons.IH record_decision_keeps [OF one] show ?case
    by (auto intro: keeps_trans same_ledgers_trans)
qed

lemma decide_loop_keeps:
  "decide_loop passes H issued c = (issued', c') \<Longrightarrow> keeps H c c' \<and> same_ledgers c c'"
proof (induction passes arbitrary: issued c)
  case 0
  then show ?case by simp
next
  case (Suc passes)
  show ?case
  proof (cases "derive_locked H c")
    case (Inl s)
    with Suc.prems show ?thesis by simp
  next
    case (Inr st)
    let ?batch = "List.map_filter (decide_member H c st) (fs_members st)"
    obtain progressed issued1 c1 where one: "record_batch H ?batch (False, issued, c) =
        (progressed, issued1, c1)" by (cases "record_batch H ?batch (False, issued, c)") auto
    note first = record_batch_keeps [OF one]
    show ?thesis
    proof (cases "?batch = []")
      case True
      with Suc.prems Inr show ?thesis by simp
    next
      case False
      show ?thesis
      proof (cases progressed)
        case True
        with Suc.prems Inr one False have "decide_loop passes H issued1 c1 = (issued', c')" by simp
        with Suc.IH first show ?thesis by (blast intro: keeps_trans same_ledgers_trans)
      next
        case False
        with Suc.prems Inr one \<open>?batch \<noteq> []\<close> first show ?thesis by simp
      qed
    qed
  qed
qed

lemma decide_locked_keeps: "decide_locked H c = (issued, c') \<Longrightarrow> keeps H c c' \<and> same_ledgers c c'"
  unfolding decide_locked_def by (rule decide_loop_keeps)

lemma record_and_tick_keeps:
  assumes "record_and_tick H a c = (r, c')"
  shows "keeps H c c' \<and> same_ledgers c c'"
proof -
  obtain r1 more_issued c1 where one: "record_decision H a c = (r1, more_issued, c1)"
    by (cases "record_decision H a c") auto
  have "keeps H c1 (next_tick c1) \<and> same_ledgers c1 (next_tick c1)"
    by (auto simp: next_tick_def same_ledgers_def same_journal_def intro: keeps_frame)
  with record_decision_keeps [OF one] assms one show ?thesis
    by (cases r1) (auto simp: record_and_tick_def intro: keeps_trans same_ledgers_trans)
qed

lemma lifecycle_operations_keep:
  "fence_member H m lineage reason detail c = (r, c') \<Longrightarrow> keeps H c c' \<and> same_ledgers c c'"
  "retire_member H m lineage reason detail c = (r, c') \<Longrightarrow> keeps H c c' \<and> same_ledgers c c'"
  "advance_epoch H epoch reason detail c = (r, c') \<Longrightarrow> keeps H c c' \<and> same_ledgers c c'"
  "complete_reconciliation H epoch c = (r, c') \<Longrightarrow> keeps H c c' \<and> same_ledgers c c'"
  by (auto simp: fence_member_def retire_member_def advance_epoch_def complete_reconciliation_def
      guarded_def refuse_def record_and_tick_keeps split: sum.splits option.splits if_splits)

lemma submit_keeps:
  assumes "submit_artifact H a c = (r, c')"
  shows "keeps H c c' \<and> same_ledgers c c'"
proof -
  have bump: "keeps H c (c\<lparr>co_duplicate_artifacts := n\<rparr>) \<and> same_ledgers c (c\<lparr>co_duplicate_artifacts := n\<rparr>)" for n
    by (auto simp: same_ledgers_def same_journal_def intro: keeps_frame)
  have grow: "keeps H x (x\<lparr>co_artifacts := as\<rparr>) \<and> same_ledgers x (x\<lparr>co_artifacts := as\<rparr>)"
    "keeps H x (x\<lparr>co_artifacts := as, co_rejected_artifacts := n\<rparr>) \<and>
     same_ledgers x (x\<lparr>co_artifacts := as, co_rejected_artifacts := n\<rparr>)" for x as n
    by (auto simp: same_ledgers_def same_journal_def intro: keeps_frame)
  let ?same = "\<exists>x \<in> set (filter (\<lambda>x. art_evidence x = art_evidence a) (co_artifacts c)).
      artifact_digest H x = artifact_digest H a"
  show ?thesis
  proof (cases "validate_artifact H (co_catalog c) a = success \<and>
      en_federation (ar_envelope a) = cc_federation (co_config c) \<and>
      \<not> length (co_artifacts c) \<ge> kMaxArtifacts \<and> \<not> ?same \<and> is_ok (encode_artifact a)")
    case False
    then have "c' = c \<or> (\<exists>n. c' = c\<lparr>co_duplicate_artifacts := n\<rparr>)"
      using assms by (auto simp: submit_artifact_def Let_def split: sum.splits if_splits)
    with bump show ?thesis by auto
  next
    case True
    then obtain bs where bs: "encode_artifact a = Inr bs" by (cases "encode_artifact a") auto
    obtain r1 c1 where p: "persist H Journal_Artifact bs c = (r1, c1)" by fastforce
    have one: "keeps H c c1" "same_ledgers c c1" using persist_other [OF p] persist_core [OF p] by simp_all
    have fresh: "?same = False" and checks: "validate_artifact H (co_catalog c) a = success"
        "en_federation (ar_envelope a) = cc_federation (co_config c)"
        "\<not> length (co_artifacts c) \<ge> kMaxArtifacts" using True by blast+
    note run = assms [unfolded submit_artifact_def Let_def, simplified fresh checks bs p]
    show ?thesis
    proof (cases r1)
      case (Inl s)
      with run have "c' = c1" by (simp add: checks fresh bs p)
      with one show ?thesis by simp
    next
      case (Inr u)
      have "\<exists>issued c2. decide_locked H c2 = (issued, c') \<and>
          (c2 = c1\<lparr>co_artifacts := co_artifacts c1 @ [a]\<rparr> \<or>
           c2 = c1\<lparr>co_artifacts := co_artifacts c1 @ [a],
                   co_rejected_artifacts := co_rejected_artifacts c1 + 1\<rparr>)"
        using run Inr
        by (auto simp: checks fresh bs p split: prod.splits if_split_asm)
      then obtain issued c2 where "decide_locked H c2 = (issued, c')"
          "keeps H c1 c2 \<and> same_ledgers c1 c2" using grow by metis
      with one decide_locked_keeps show ?thesis by (blast intro: keeps_trans same_ledgers_trans)
    qed
  qed
qed

subsection \<open>Observations and the clock\<close>

lemma report_keeps:
  assumes "report_observation H ob c = (r, c')"
  shows "keeps H c c' \<and> same_ledgers c c'"
proof -
  have tail: "keeps H x (next_tick (x\<lparr>co_observations := obs\<rparr>)) \<and>
      same_ledgers x (next_tick (x\<lparr>co_observations := obs\<rparr>))" for x obs
    by (auto simp: next_tick_def same_ledgers_def same_journal_def intro: keeps_frame)
  consider "c' = c" | bs r1 c1 obs where "persist H Journal_PartitionObservation bs c = (r1, c1)"
      "c' = c1 \<or> c' = next_tick (c1\<lparr>co_observations := obs\<rparr>)"
    using assms by (auto simp: report_observation_def guarded_def followed_by_def refuse_def
        split: sum.splits if_splits prod.splits)
  then show ?thesis
  proof cases
    case 2
    from persist_other [OF 2(1)] persist_core [OF 2(1)] have "keeps H c c1" "same_ledgers c c1" by simp_all
    with 2(2) tail show ?thesis by (blast intro: keeps_trans same_ledgers_trans)
  qed simp
qed

lemma advance_time_keeps:
  assumes "advance_time H target c = (r, c')"
  shows "keeps H c c' \<and> same_ledgers c c'"
proof -
  have tick: "keeps H c (c\<lparr>co_tick := target\<rparr>) \<and> same_ledgers c (c\<lparr>co_tick := target\<rparr>)"
    by (auto simp: same_ledgers_def same_journal_def intro: keeps_frame)
  consider "c' = c" | bs where "persist H Journal_TickHighWater bs (c\<lparr>co_tick := target\<rparr>) = (r, c')"
    using assms by (auto simp: advance_time_def guarded_def refuse_def w_u64_def split: if_splits)
  then show ?thesis
  proof cases
    case 2
    from persist_other [OF 2] persist_core [OF 2] tick show ?thesis
      by (auto intro: keeps_trans same_ledgers_trans)
  qed simp
qed

subsection \<open>Decided requests\<close>

lemma evaluate_request: "ad_request (evaluate_authority H r st policy catalog) = rq_id r"
proof -
  have "answers r st (opening_decision H r st)" by (simp add: answers_def opening_decision_def)
  from settled_steps [OF this, of policy catalog] show ?thesis
    by (simp add: evaluate_authority_steps settled_def answers_def)
qed

text \<open>The outcomes of an evaluation: no entry, or exactly one new entry behind the old ones.\<close>

lemma evaluate_cases:
  assumes "coordinator_evaluate H rq c = (r, c')"
  obtains (unchanged) "c' = c" "\<forall>ad. r = Inr ad \<longrightarrow> ad_outcome ad = Outcome_Invalid"
  | (repeated) st where "derive_locked H c = Inr st" "c' = next_tick c"
      "rq_id rq \<in> re_request ` set (co_replay c)"
      "r = Inr (evaluate_authority H rq st (co_policy c) (co_catalog c))"
  | (refused) bs s where "r = Inl s" "persist H Journal_RequestDecision bs c = (Inl s, c')"
  | (recorded) st bs c1 entry where "derive_locked H c = Inr st"
      "encode_decision (evaluate_authority H rq st (co_policy c) (co_catalog c)) = Inr bs"
      "persist H Journal_RequestDecision bs c = (success, c1)" "re_request entry = rq_id rq"
      "c' = next_tick (c1\<lparr>co_replay := co_replay c1 @ [entry]\<rparr>)"
      "length (co_replay c) < kMaxReplayEntries"
      "r = Inr (evaluate_authority H rq st (co_policy c) (co_catalog c))"
proof (cases "is_nil (rq_federation rq) \<or> (\<exists>s. derive_locked H c = Inl s)")
  case True
  with assms show thesis
    by (auto simp: coordinator_evaluate_def refuse_def guarded_def intro!: unchanged split: if_splits)
next
  case False
  then obtain st where st: "derive_locked H c = Inr st" "\<not> is_nil (rq_federation rq)"
    by (cases "derive_locked H c") auto
  let ?ad = "evaluate_authority H rq st (co_policy c) (co_catalog c)"
  show thesis
  proof (cases "ad_outcome ?ad = Outcome_Invalid \<or>
      \<not> (\<exists>e \<in> set (co_replay c). re_request e = rq_id rq) \<and>
      (length (co_replay c) \<ge> kMaxReplayEntries \<or> \<not> is_ok (encode_decision ?ad))")
    case True
    with assms st show thesis
      by (auto simp: coordinator_evaluate_def refuse_def guarded_def Let_def is_ok_iff
          intro!: unchanged split: if_splits sum.splits)
  next
    case live: False
    show thesis
    proof (cases "\<exists>e \<in> set (co_replay c). re_request e = rq_id rq")
      case True
      with assms st live show thesis
        by (intro repeated) (auto simp: coordinator_evaluate_def guarded_def Let_def intro: rev_image_eqI)
    next
      case False
      with live obtain bs where bs: "encode_decision ?ad = Inr bs"
        by (auto simp: is_ok_iff)
      obtain r1 c1 where p: "persist H Journal_RequestDecision bs c = (r1, c1)" by fastforce
      show thesis
      proof (cases r1)
        case (Inl s)
        with assms st live False bs p show thesis
          by (intro refused) (auto simp: coordinator_evaluate_def guarded_def followed_by_def Let_def)
      next
        case (Inr u)
        with assms st live False bs p show thesis
          by (intro recorded [of st bs c1 "\<lparr>re_request = rq_id rq, re_decision = decision_digest H ?ad,
                       re_decided_at = ad_decided_at ?ad\<rparr>"])
            (auto simp: coordinator_evaluate_def guarded_def followed_by_def Let_def)
      qed
    qed
  qed
qed

end
