(* ===== verification/Requests_Leases.thy ===== *)
theory Requests_Leases
  imports Durability
begin

text \<open>
  The three operations whose records the coordinator must not forget, case by case: the evaluation of
  a request, the issue and the revocation of a lease; each keeps the invariant of \<open>Durability\<close>.
\<close>

section \<open>Requests\<close>

lemma recorded_decision:
  assumes "recorded H rs c" "jr_type rec = Journal_RequestDecision" "payload_id rec = re_request entry"
    and "co_replay c' = co_replay c @ [entry]" "length (co_replay c) < kMaxReplayEntries"
    and "co_config c' = co_config c" "co_leases c' = co_leases c"
    and "co_lease_sequence c' = co_lease_sequence c" "co_incarnation c' = co_incarnation c"
  shows "recorded H (rs @ [rec]) c'"
  using assms by (auto simp: recorded_def lease_name_def)

lemma encode_decision_request: "encode_decision ad = Inr bs \<Longrightarrow> from_be (take 16 bs) = ad_request ad"
  unfolding encode_decision_def by (rule w_seq_id16)

lemma evaluate_keeps:
  assumes "coordinator_evaluate H rq c = (r, c')"
  shows "keeps H c c'"
  using assms
proof (cases rule: evaluate_cases)
  case unchanged
  then show ?thesis by simp
next
  case repeated
  then show ?thesis by (auto simp: next_tick_def same_ledgers_def same_journal_def intro: keeps_frame)
next
  case (refused bs s)
  have "c' = c" if "journaling H rs c" for rs
    using persist_result [OF that _ refused(2)] by auto
  then show ?thesis
    unfolding keeps_def sound_def by (metis append_Nil2)
next
  case (recorded st bs c1 entry)
  have "\<exists>more. sound H (rs @ more) c'" if s: "sound H rs c" for rs
  proof -
    from persist_result [OF _ _ recorded(3)] s obtain rec where rec: "jr_type rec = Journal_RequestDecision"
        "jr_payload rec = bs" "journaling H (rs @ [rec]) c1"
        "c1 = c\<lparr>co_journal := co_journal c1, co_disk := co_disk c1\<rparr>"
      unfolding sound_def by auto
    from persist_core [OF recorded(3)] have core: "same_ledgers c c1" .
    have id: "payload_id rec = re_request entry"
      using encode_decision_request [OF recorded(2)] recorded(4) rec(2)
      by (simp add: payload_id_def evaluate_request)
    have "recorded H (rs @ [rec]) c'"
      using s rec(1) id core recorded(5,6)
      by (intro recorded_decision [of H rs c]) (auto simp: sound_def same_ledgers_def next_tick_def)
    moreover have "journaling H (rs @ [rec]) c'"
      using rec(3) recorded(5) journaling_same [of c1 c'] by (simp add: same_journal_def next_tick_def)
    ultimately show ?thesis unfolding sound_def by blast
  qed
  then show ?thesis by (simp add: keeps_def)
qed

text \<open>After an answer that is not invalid the request is in the replay list.\<close>

lemma evaluate_remembers:
  assumes "coordinator_evaluate H rq c = (Inr ad, c')" "ad_outcome ad \<noteq> Outcome_Invalid"
  shows "rq_id rq \<in> re_request ` set (co_replay c')"
  using assms(1) by (cases rule: evaluate_cases) (use assms(2) in \<open>auto simp: next_tick_def\<close>)

section \<open>Leases\<close>

text \<open>Distinct sequence numbers name distinct leases, as far as a journal can count.\<close>

definition distinct_lease_names :: "(bytes \<Rightarrow> Digest) \<Rightarrow> FederationId \<Rightarrow> bool" where
  "distinct_lease_names H federation \<longleftrightarrow>
     inj_on (\<lambda>n. id_of_digest (lease_id_of H federation n)) {n. unat n \<le> 67108864}"

lemma recorded_lease:
  assumes "recorded H rs c" "jr_type rec = Journal_Lease" "payload_id rec = lease_name H c (co_lease_sequence c)"
    and "unat (jr_sequence rec) = Suc (length rs)" "length rs < 67108864"
    and "distinct_lease_names H (cc_federation (co_config c))"
    and "co_leases c' = smap_put (lease_name H c (co_lease_sequence c)) l (co_leases c)"
    and "co_lease_sequence c' = co_lease_sequence c + 1"
    and "co_replay c' = co_replay c" "co_config c' = co_config c" "co_incarnation c' = co_incarnation c"
  shows "recorded H (rs @ [rec]) c'"
proof -
  let ?n = "co_lease_sequence c"
  have n: "unat ?n \<le> Suc (length rs)" using assms(1) by (simp add: recorded_def)
  then have step: "unat (?n + 1) = Suc (unat ?n)"
    using assms(5) by (simp add: unat_word_ariths)
  then have less: "s < ?n + 1 \<longleftrightarrow> s \<le> ?n" for s
    by (simp add: word_less_nat_alt word_le_nat_alt less_Suc_eq_le)
  have le: "?n \<le> jr_sequence rec" using n assms(4) by (simp add: word_le_nat_alt)
  have new: "lease_name H c s \<noteq> lease_name H c ?n" if "s < ?n" for s
  proof
    assume "lease_name H c s = lease_name H c ?n"
    moreover have "unat s \<le> 67108864" "unat ?n \<le> 67108864"
      using that n assms(5) by (simp_all add: word_less_nat_alt)
    ultimately have "s = ?n"
      using assms(6) by (auto simp: distinct_lease_names_def lease_name_def inj_on_def)
    with that show False by simp
  qed
  have old: "\<exists>s. k = lease_name H c s \<and> s < ?n" if "k \<in> keys_of (co_leases c)" for k
    using assms(1) that unfolding recorded_def by metis
  then have other: "k \<noteq> lease_name H c ?n" if "k \<in> keys_of (co_leases c)" for k
    using that new by metis
  have names: "lease_name H c' = lease_name H c" using assms(10) by (simp add: lease_name_def fun_eq_iff)
  have revoked: "\<exists>l'. smap_get (co_leases c') k = Some l' \<and> al_revoked l'"
    if "k \<in> set (journaled Journal_LeaseRevocation rs)" for k
  proof -
    obtain l' where l': "smap_get (co_leases c) k = Some l'" "al_revoked l'"
      using assms(1) \<open>k \<in> _\<close> unfolding recorded_def by blast
    then have "k \<in> keys_of (co_leases c)" using smap_get_None [of "co_leases c" k] by (auto simp: image_image)
    with other l' assms(7) show ?thesis by auto
  qed
  have keys: "\<exists>s. k = lease_name H c s \<and> s < ?n + 1" if "k \<in> set (journaled Journal_Lease (rs @ [rec]))" for k
  proof (cases "k = lease_name H c ?n")
    case True
    then show ?thesis using less by blast
  next
    case False
    then have "k \<in> keys_of (co_leases c)"
      using that assms(1,2,3) unfolding recorded_def by (auto split: if_splits)
    then show ?thesis using old less by (metis order.strict_implies_order)
  qed
  have "map re_request (co_replay c) = journaled Journal_RequestDecision rs"
      "length (co_replay c) \<le> kMaxReplayEntries"
      "\<forall>r \<in> set rs. jr_type r = Journal_Lease \<longrightarrow> (\<exists>s. payload_id r = lease_name H c s \<and> s \<le> jr_sequence r)"
      "keys_of (co_leases c) = set (journaled Journal_Lease rs)"
      "\<forall>r \<in> set rs. jr_type r = Journal_CoordinatorIncarnation \<longrightarrow> incarnation_of r \<le> co_incarnation c"
      "\<exists>r \<in> set rs. jr_type r = Journal_CoordinatorIncarnation \<and> incarnation_of r = co_incarnation c"
      "unat (co_incarnation c) \<le> length rs"
    using assms(1) unfolding recorded_def by blast+
  then show ?thesis
    unfolding recorded_def names assms(8,9,11)
    using revoked keys le step n assms(2,3,7) by auto
qed

lemma encode_lease_id: "encode_lease l = Inr bs \<Longrightarrow> from_be (take 16 bs) = al_id l"
  unfolding encode_lease_def by (rule w_seq_id16)

lemma issue_lease_cases:
  assumes "issue_lease H rq c = (r, c')"
  obtains (unchanged) "c' = c" "\<exists>s. r = Inl s"
  | (refused) bs s where "r = Inl s" "persist H Journal_Lease bs c = (Inl s, c')"
  | (issued) st m deadline bs c1 where "derive_locked H c = Inr st" "find_member st (lr_holder rq) = Some m"
      "check_lease_request c st m rq = Inr deadline"
      "encode_lease (new_lease H c st m rq deadline) = Inr bs"
      "fs_epoch st \<le> al_not_after_epoch (new_lease H c st m rq deadline)"
      "persist H Journal_Lease bs c = (success, c1)"
      "c' = next_tick (c1\<lparr>co_leases := smap_put (al_id (new_lease H c st m rq deadline))
               (new_lease H c st m rq deadline) (co_leases c1),
             co_lease_sequence := co_lease_sequence c1 + 1\<rparr>)"
      "r = Inr (new_lease H c st m rq deadline)"
proof (cases "derive_locked H c")
  case (Inl s)
  with assms show thesis by (intro unchanged) (auto simp: issue_lease_def guarded_def)
next
  case st: (Inr st)
  show thesis
  proof (cases "find_member st (lr_holder rq)")
    case None
    with assms st show thesis by (intro unchanged) (auto simp: issue_lease_def guarded_def refuse_def)
  next
    case m: (Some m)
    show thesis
    proof (cases "check_lease_request c st m rq")
      case (Inl s)
      with assms st m show thesis by (intro unchanged) (auto simp: issue_lease_def guarded_def)
    next
      case deadline: (Inr deadline)
      let ?l = "new_lease H c st m rq deadline"
      let ?zero = "is_zero_digest (lease_id_of H (cc_federation (co_config c)) (co_lease_sequence c))"
      let ?keep = "\<lambda>c. next_tick (c\<lparr>co_leases := smap_put (al_id ?l) ?l (co_leases c),
             co_lease_sequence := co_lease_sequence c + 1\<rparr>)"
      have run: "(r, c') = (if ?zero then refuse Error_Internal ''the lease identifier cannot be derived'' c
          else if al_not_after_epoch ?l < fs_epoch st then refuse Error_InvalidArgument
             ''a lease cannot expire in an epoch that has already passed'' c
          else guarded (encode_lease ?l) (\<lambda>bs c.
             followed_by (persist H Journal_Lease bs c) (\<lambda>_ c. (Inr ?l, ?keep c))) c)"
        by (simp only: assms [symmetric] issue_lease_def guarded_def st m deadline Let_def
            sum.case option.case)
      consider "?zero" | "\<not> ?zero" "al_not_after_epoch ?l < fs_epoch st"
        | s where "\<not> ?zero" "\<not> al_not_after_epoch ?l < fs_epoch st" "encode_lease ?l = Inl s"
        | bs where "\<not> ?zero" "\<not> al_not_after_epoch ?l < fs_epoch st" "encode_lease ?l = Inr bs"
        by (cases "encode_lease ?l") blast+
      then show thesis
      proof cases
        case 1
        with run show thesis by (intro unchanged) (auto simp: refuse_def)
      next
        case 2
        with run show thesis by (intro unchanged) (auto simp: refuse_def)
      next
        case 3
        with run show thesis by (intro unchanged) (auto simp: guarded_def)
      next
        case (4 bs)
        obtain r1 c1 where p: "persist H Journal_Lease bs c = (r1, c1)" by fastforce
        have out: "(r, c') = (case r1 of Inl s \<Rightarrow> (Inl s, c1) | Inr _ \<Rightarrow> (Inr ?l, ?keep c1))"
          using run 4 p by (simp add: guarded_def followed_by_def split: sum.splits)
        show thesis
        proof (cases r1)
          case (Inl s)
          with out p show thesis by (intro refused) auto
        next
          case (Inr u)
          with out p 4 st m deadline show thesis by (intro issued [of st m deadline bs c1]) auto
        qed
      qed
    qed
  qed
qed

lemma issue_lease_keeps:
  assumes "issue_lease H rq c = (r, c')" "distinct_lease_names H (cc_federation (co_config c))"
  shows "keeps H c c'"
  using assms(1)
proof (cases rule: issue_lease_cases)
  case unchanged
  then show ?thesis by simp
next
  case (refused bs s)
  have "c' = c" if "journaling H rs c" for rs
    using persist_result [OF that _ refused(2)] by auto
  then show ?thesis unfolding keeps_def sound_def by (metis append_Nil2)
next
  case (issued st m deadline bs c1)
  let ?l = "new_lease H c st m rq deadline"
  have "\<exists>more. sound H (rs @ more) c'" if s: "sound H rs c" for rs
  proof -
    from persist_result [OF _ _ issued(6)] s obtain rec where rec: "jr_type rec = Journal_Lease"
        "jr_payload rec = bs" "journaling H (rs @ [rec]) c1" "unat (jr_sequence rec) = Suc (length rs)"
      unfolding sound_def by auto
    from persist_core [OF issued(6)] have core: "same_ledgers c c1" .
    have name: "al_id ?l = lease_name H c (co_lease_sequence c)" by (simp add: new_lease_def lease_name_def)
    then have id: "payload_id rec = lease_name H c (co_lease_sequence c)"
      using encode_lease_id [OF issued(4)] rec(2) by (simp add: payload_id_def)
    have "recorded H (rs @ [rec]) c'"
      using s rec id core issued(7) name assms(2) journaling_short [of H rs c]
      by (intro recorded_lease [of H rs c rec c' ?l]) (auto simp: sound_def same_ledgers_def next_tick_def)
    moreover have "journaling H (rs @ [rec]) c'"
      using rec(3) issued(7) journaling_same [of c1 c'] by (simp add: same_journal_def next_tick_def)
    ultimately show ?thesis unfolding sound_def by blast
  qed
  then show ?thesis by (simp add: keeps_def)
qed

subsection \<open>Revocation\<close>

lemma decode_encode_revocation:
  "encode_revocation lease why detail = Inr bs \<Longrightarrow> from_be (take 16 bs) = lease"
  unfolding encode_revocation_def by (rule w_seq_id16)

lemma recorded_revocation:
  assumes "recorded H rs c" "jr_type rec = Journal_LeaseRevocation" "payload_id rec = k"
    and "smap_get (co_leases c) k = Some l" "al_revoked l" "same_ledgers c c'"
  shows "recorded H (rs @ [rec]) c'"
  using assms by (auto simp: recorded_def same_ledgers_def lease_name_def)

lemma recorded_mark:
  assumes "recorded H rs c" "smap_get (co_leases c) k = Some l0" "al_revoked l"
  shows "recorded H rs (c\<lparr>co_leases := smap_put k l (co_leases c)\<rparr>)"
proof -
  have "k \<in> keys_of (co_leases c)"
    using assms(2) smap_get_None [of "co_leases c" k] by (auto simp: image_image)
  with assms(1,3) show ?thesis by (auto simp: recorded_def lease_name_def)
qed

lemma revoke_cases:
  assumes "revoke_lease H k why detail c = (r, c')"
  obtains (missing) "smap_get (co_leases c) k = None" "c' = c" "\<exists>s. r = Inl s"
  | (already) l where "smap_get (co_leases c) k = Some l" "al_revoked l" "c' = c" "r = success"
  | (failed) l l' where "smap_get (co_leases c) k = Some l" "\<not> al_revoked l" "al_revoked l'"
      "c' = c\<lparr>co_leases := smap_put k l' (co_leases c)\<rparr>" "\<exists>s. r = Inl s"
  | (persisted) l l' bs r1 c1 where "smap_get (co_leases c) k = Some l" "\<not> al_revoked l" "al_revoked l'"
      "encode_revocation k why detail = Inr bs"
      "persist H Journal_LeaseRevocation bs (c\<lparr>co_leases := smap_put k l' (co_leases c)\<rparr>) = (r1, c1)"
      "r = r1" "c' = (if r1 = success then next_tick c1 else c1)"
proof (cases "smap_get (co_leases c) k")
  case None
  with assms show thesis by (intro missing) (auto simp: revoke_lease_def refuse_def)
next
  case l: (Some l)
  show thesis
  proof (cases "al_revoked l")
    case True
    with assms l show thesis by (intro already [of l]) (auto simp: revoke_lease_def)
  next
    case False
    let ?l = "l\<lparr>al_revoked := True, al_revoked_at := co_tick c, al_revoke_reason := why,
                 al_revoke_detail := detail\<rparr>"
    let ?c = "c\<lparr>co_leases := smap_put k ?l (co_leases c)\<rparr>"
    have run: "(r, c') = guarded (encode_revocation k why detail) (\<lambda>bs c.
        followed_by (persist H Journal_LeaseRevocation bs c) (\<lambda>_ c. (success, next_tick c))) ?c"
      using assms l False by (simp add: revoke_lease_def Let_def)
    show thesis
    proof (cases "encode_revocation k why detail")
      case (Inl s)
      with run l False show thesis by (intro failed [of l ?l]) (auto simp: guarded_def)
    next
      case (Inr bs)
      obtain r1 c1 where p: "persist H Journal_LeaseRevocation bs ?c = (r1, c1)" by fastforce
      with run Inr have "r = r1" "c' = (if r1 = success then next_tick c1 else c1)"
        by (cases r1; simp add: guarded_def followed_by_def)+
      with l False Inr p show thesis by (intro persisted [of l ?l bs r1 c1]) auto
    qed
  qed
qed

lemma keeps_mark:
  assumes "smap_get (co_leases c) k = Some l0" "al_revoked l"
  shows "keeps H c (c\<lparr>co_leases := smap_put k l (co_leases c)\<rparr>)"
proof -
  have "sound H rs (c\<lparr>co_leases := smap_put k l (co_leases c)\<rparr>)" if "sound H rs c" for rs
    using that recorded_mark [OF _ assms] journaling_same
      [of c "c\<lparr>co_leases := smap_put k l (co_leases c)\<rparr>" H rs]
    by (simp add: sound_def same_journal_def)
  then show ?thesis unfolding keeps_def by (metis append_Nil2)
qed

lemma revoke_keeps:
  assumes "revoke_lease H k why detail c = (r, c')"
  shows "keeps H c c'"
  using assms
proof (cases rule: revoke_cases)
  case (failed l l')
  with keeps_mark show ?thesis by blast
next
  case (persisted l l' bs r1 c1)
  let ?c = "c\<lparr>co_leases := smap_put k l' (co_leases c)\<rparr>"
  have marked: "smap_get (co_leases ?c) k = Some l'" by simp
  have "\<exists>more. sound H (rs @ more) c1" if s: "sound H rs ?c" for rs
  proof -
    from persist_result [OF _ _ persisted(5)] s consider "c1 = ?c"
      | rec where "jr_type rec = Journal_LeaseRevocation" "jr_payload rec = bs" "journaling H (rs @ [rec]) c1"
      unfolding sound_def by auto
    then show ?thesis
    proof cases
      case 1
      with s show ?thesis by (metis append_Nil2)
    next
      case 2
      have "payload_id rec = k"
        using decode_encode_revocation [OF persisted(4)] 2(2) by (simp add: payload_id_def)
      with recorded_revocation [OF _ 2(1) _ marked persisted(3) persist_core [OF persisted(5)]] s 2(3)
      show ?thesis unfolding sound_def by blast
    qed
  qed
  then have "keeps H ?c c1" by (simp add: keeps_def)
  moreover have "keeps H c1 c'" using persisted(7)
    by (auto simp: next_tick_def same_ledgers_def same_journal_def intro: keeps_frame)
  ultimately show ?thesis using keeps_mark [OF persisted(1,3)] by (blast intro: keeps_trans)
qed simp_all

text \<open>No operation touches the configuration.\<close>

lemma same_ledgers_config: "same_ledgers c c' \<Longrightarrow> co_config c' = co_config c"
  by (simp add: same_ledgers_def)

lemma persist_config: "persist H ty bs c = (r, c') \<Longrightarrow> co_config c' = co_config c"
  by (rule same_ledgers_config [OF persist_core])

lemma next_tick_config [simp]: "co_config (next_tick c) = co_config c"
  by (simp add: next_tick_def)

lemma evaluate_config: "coordinator_evaluate H rq c = (r, c') \<Longrightarrow> co_config c' = co_config c"
  by (erule evaluate_cases) (auto dest: persist_config)

lemma issue_config: "issue_lease H rq c = (r, c') \<Longrightarrow> co_config c' = co_config c"
  by (erule issue_lease_cases) (auto dest: persist_config)

lemma revoke_config: "revoke_lease H k why detail c = (r, c') \<Longrightarrow> co_config c' = co_config c"
  by (erule revoke_cases) (auto dest: persist_config)

text \<open>Once revoked, a lease stays revoked in the state of a running coordinator.\<close>

definition is_revoked :: "LeaseId \<Rightarrow> Coordinator \<Rightarrow> bool" where
  "is_revoked k c \<longleftrightarrow> (\<exists>l. smap_get (co_leases c) k = Some l \<and> al_revoked l)"

lemma sound_revoked: "sound H rs c \<Longrightarrow> k \<in> set (journaled Journal_LeaseRevocation rs) \<Longrightarrow> is_revoked k c"
  by (auto simp: sound_def recorded_def is_revoked_def)

text \<open>A revocation that was not there before and reports success is in the journal.\<close>

lemma revoke_journaled:
  assumes "sound H rs c" "revoke_lease H k why detail c = (success, c')" "\<not> is_revoked k c"
  shows "\<exists>more. sound H (rs @ more) c' \<and> k \<in> set (journaled Journal_LeaseRevocation (rs @ more))"
  using assms(2)
proof (cases rule: revoke_cases)
  case (already l)
  with assms(3) show ?thesis by (auto simp: is_revoked_def)
next
  case (persisted l l' bs r1 c1)
  let ?c = "c\<lparr>co_leases := smap_put k l' (co_leases c)\<rparr>"
  have marked: "smap_get (co_leases ?c) k = Some l'" by simp
  have s: "journaling H rs ?c" "recorded H rs ?c"
    using assms(1) recorded_mark [OF _ persisted(1,3)] journaling_same [of c ?c H rs]
    by (simp_all add: sound_def same_journal_def)
  from persist_result [OF s(1) _ persisted(5)] persisted(6) obtain rec where
      rec: "jr_type rec = Journal_LeaseRevocation" "jr_payload rec = bs" "journaling H (rs @ [rec]) c1"
    by auto
  have id: "payload_id rec = k"
    using decode_encode_revocation [OF persisted(4)] rec(2) by (simp add: payload_id_def)
  have "recorded H (rs @ [rec]) c1"
    by (rule recorded_revocation [OF s(2) rec(1) id marked persisted(3) persist_core [OF persisted(5)]])
  moreover have "c' = next_tick c1" using persisted(6,7) by simp
  ultimately have "sound H (rs @ [rec]) c'"
    using rec(3) recorded_same [of c1 c'] journaling_same [of c1 c']
    by (simp add: sound_def next_tick_def same_ledgers_def same_journal_def)
  with rec(1) id show ?thesis by (intro exI [of _ "[rec]"]) simp
qed auto


end
