(* ===== verification/Restart.thy ===== *)
theory Restart
  imports Requests_Leases
begin

text \<open>
  The start of a coordinator on what an earlier one left on the disk, and the histories of a
  coordinator: operations and restarts in any order, from a first start without a journal file.
\<close>

section \<open>A journal a coordinator wrote\<close>

definition history :: "(bytes \<Rightarrow> Digest) \<Rightarrow> FederationId \<Rightarrow> JournalRecord list \<Rightarrow> bool" where
  "history H federation rs \<longleftrightarrow>
     ordered_history default_journal_options rs \<and> consecutive rs \<and>
     length (journal_file H rs) \<le> unat kMaxJournalBytes \<and>
     length (journaled Journal_RequestDecision rs) \<le> kMaxReplayEntries \<and>
     set (journaled Journal_LeaseRevocation rs) \<subseteq> set (journaled Journal_Lease rs) \<and>
     (\<forall>r \<in> set rs. jr_type r = Journal_Lease \<longrightarrow>
        (\<exists>s. payload_id r = id_of_digest (lease_id_of H federation s) \<and> s \<le> jr_sequence r)) \<and>
     (\<forall>r \<in> set rs. jr_type r = Journal_CoordinatorIncarnation \<longrightarrow> unat (incarnation_of r) \<le> length rs)"

lemma sound_history:
  assumes "sound H rs c"
  shows "history H (cc_federation (co_config c)) rs"
proof -
  have "length (co_replay c) = length (journaled Journal_RequestDecision rs)"
    using assms unfolding sound_def recorded_def by (metis length_map)
  moreover have "unat (incarnation_of r) \<le> length rs"
    if "r \<in> set rs" "jr_type r = Journal_CoordinatorIncarnation" for r
    using assms that unfolding sound_def recorded_def word_le_nat_alt by (meson le_trans)
  moreover have "k \<in> set (journaled Journal_Lease rs)"
    if "k \<in> set (journaled Journal_LeaseRevocation rs)" for k
  proof -
    have "smap_get (co_leases c) k \<noteq> None"
      using assms that unfolding sound_def recorded_def by blast
    then have "k \<in> keys_of (co_leases c)" using smap_get_None [of "co_leases c" k] by (auto simp: image_image)
    then show ?thesis using assms unfolding sound_def recorded_def by blast
  qed
  ultimately show ?thesis using assms
    by (auto simp: sound_def recorded_def journaling_def journal_holds_def history_def lease_name_def)
qed

lemma history_Nil: "history H federation []"
  by (simp add: history_def ordered_history_def consecutive_def length_journal_file kMaxJournalBytes_def
      kJournalHeaderBytes_def kMaxReplayEntries_def)

lemma history_short: "history H federation rs \<Longrightarrow> length rs < 67108864"
  using sum_record_sizes [of rs] by (simp add: history_def length_journal_file kMaxJournalBytes_def)

text \<open>The disk holds this history; no file stands for the empty one.\<close>

definition left_behind :: "(bytes \<Rightarrow> Digest) \<Rightarrow> JournalRecord list \<Rightarrow> disk \<Rightarrow> bool" where
  "left_behind H rs d \<longleftrightarrow> quiet d \<and>
     (dk_files d Journal_File = None \<and> rs = [] \<or> dk_files d Journal_File = Some (journal_file H rs))"

lemma sound_left_behind: "sound H rs c \<Longrightarrow> left_behind H rs (restarted (co_disk c))"
  by (simp add: sound_def journaling_def left_behind_def)

lemma open_fresh_good:
  assumes "quiet d" "dk_files d Journal_File = None"
  obtains j where "journal_open H Open_OpenOrCreateReadWrite options d =
      (Inr j, set_contents Journal_File (journal_file H []) d)"
    and "journal_at H [] j" "jl_options j = options"
    and "jv_good_bytes (jl_recovery j) = length (journal_file H [])"
proof (rule that)
  have fresh: "open_fresh H \<lparr>fh_file = Journal_File, fh_read_only = False\<rparr> options 0
      (set_contents Journal_File [] d) =
    (Inr (journal_fresh \<lparr>fh_file = Journal_File, fh_read_only = False\<rparr> options 0),
     set_contents Journal_File (journal_file H []) d)"
    using assms(1) by (simp add: open_fresh_def quiet_simps journal_file_def splice_def)
  show "journal_open H Open_OpenOrCreateReadWrite options d =
    (Inr (journal_fresh \<lparr>fh_file = Journal_File, fh_read_only = False\<rparr> options 0),
     set_contents Journal_File (journal_file H []) d)"
    using assms fresh by (auto simp: journal_open_def quiet_simps)
qed (simp_all add: journal_fresh_def journal_at_def fresh_recovery_def length_journal_file
    last_sequence_def good_history_def)

lemma open_left_behind:
  assumes "left_behind H rs d" "good_history default_journal_options rs"
  obtains j d' where "journal_open H Open_OpenOrCreateReadWrite default_journal_options d = (Inr j, d')"
    and "quiet d'" "dk_files d' Journal_File = Some (journal_file H rs)" "journal_at H rs j"
    and "jl_options j = default_journal_options"
    and "jv_good_bytes (jl_recovery j) = length (journal_file H rs)"
proof (cases "dk_files d Journal_File")
  case None
  with assms(1) have rs: "rs = []" "quiet d" by (simp_all add: left_behind_def)
  from open_fresh_good [OF rs(2) None, of H default_journal_options] obtain j where
    "journal_open H Open_OpenOrCreateReadWrite default_journal_options d =
      (Inr j, set_contents Journal_File (journal_file H []) d)"
    "journal_at H [] j" "jl_options j = default_journal_options"
    "jv_good_bytes (jl_recovery j) = length (journal_file H [])" .
  with rs show thesis
    by (intro that [of j "set_contents Journal_File (journal_file H []) d"]) simp_all
next
  case (Some bs)
  with assms(1) have d: "quiet d" "dk_files d Journal_File = Some (journal_file H rs)"
    by (simp_all add: left_behind_def)
  from open_journal_file [OF d assms(2), of Open_OpenOrCreateReadWrite] d that show thesis by auto
qed

lemma load_left_behind:
  assumes "left_behind H rs d" "good_history default_journal_options rs"
  obtains j d' where "journal_open H Open_OpenOrCreateReadWrite default_journal_options d = (Inr j, d')"
    and "quiet d'" "dk_files d' Journal_File = Some (journal_file H rs)" "journal_at H rs j"
    and "jl_options j = default_journal_options"
    and "journal_load (kMaxArtifacts * 4) kMaxJournalRecordBytes j d' = (Inr rs, d')"
proof -
  from open_left_behind [OF assms] obtain j d' where
    opened: "journal_open H Open_OpenOrCreateReadWrite default_journal_options d = (Inr j, d')"
      "quiet d'" "dk_files d' Journal_File = Some (journal_file H rs)" "journal_at H rs j"
      "jl_options j = default_journal_options"
      "jv_good_bytes (jl_recovery j) = length (journal_file H rs)" .
  have small: "length (jr_payload r) \<le> kMaxJournalRecordBytes" if "r \<in> set rs" for r
    using assms(2) that by (simp add: good_history_def good_record_def default_journal_options_def
        kMaxJournalRecordBytes_def)
  have "journal_load (kMaxArtifacts * 4) kMaxJournalRecordBytes j d' = (Inr rs, d')"
    using opened assms(2) small
    by (intro load_journal_file [where rest = "[]"])
      (auto simp: journal_at_def good_history_def default_journal_options_def)
  with opened that show thesis by blast
qed

section \<open>Replaying it\<close>

lemma load_store_u64_whole [simp]: "load_u64_le (store_u64_le v) = v"
  using load_store_u64 [of v "[]"] by simp

lemma w_u64_incarnation: "w_u64 v = Inr bs \<Longrightarrow> jr_payload r = bs \<Longrightarrow> incarnation_of r = v"
  by (auto simp: w_u64_def incarnation_of_def)

lemma adopt_recorded:
  assumes "history H (cc_federation (co_config c)) rs"
    and "recover_records H rs (recovery_start policy tick) = Inr rv"
    and "apply_revocations (rv_revocations rv) at (rv_leases rv) = Inr leases"
    and "co_leases c = leases" "co_replay c = rv_replay rv"
    and "co_incarnation c = rv_highest_incarnation rv + 1"
    and "co_lease_sequence c = rv_highest_lease_sequence rv + 1"
    and "jr_type rec = Journal_CoordinatorIncarnation" "incarnation_of rec = co_incarnation c"
  shows "recorded H (rs @ [rec]) c"
    and "\<forall>r \<in> set rs. jr_type r = Journal_CoordinatorIncarnation \<longrightarrow> incarnation_of r < co_incarnation c"
proof -
  let ?inc = "rv_highest_incarnation rv" and ?seq = "rv_highest_lease_sequence rv"
  note found = recover_records_replayed [OF assms(2)]
  note marks = apply_revocations_result [OF assms(3)]
  have short: "length rs < 67108864" by (rule history_short [OF assms(1)])
  have sequence: "unat (jr_sequence r) \<le> length rs" if "r \<in> set rs" for r
    using assms(1) that by (auto simp: history_def consecutive_def in_set_conv_nth)
  have inc: "unat ?inc \<le> length rs"
    using found(9) assms(1) by (auto simp: history_def recovery_start_def)
  have seq: "unat ?seq \<le> length rs"
    using found(6) sequence by (auto simp: recovery_start_def)
  have step: "unat (?inc + 1) = Suc (unat ?inc)" "unat (?seq + 1) = Suc (unat ?seq)"
    using inc seq short by (simp_all add: unat_word_ariths)
  then have less: "s < ?inc + 1 \<longleftrightarrow> s \<le> ?inc" "s < ?seq + 1 \<longleftrightarrow> s \<le> ?seq" for s
    by (simp_all add: word_less_nat_alt word_le_nat_alt less_Suc_eq_le)
  show incarnations: "\<forall>r \<in> set rs. jr_type r = Journal_CoordinatorIncarnation \<longrightarrow>
      incarnation_of r < co_incarnation c"
    using found(8) by (simp add: assms(6) less)
  have replay: "map re_request (co_replay c) = journaled Journal_RequestDecision rs"
    using found(1) assms(5) by (simp add: recovery_start_def)
  then have "length (co_replay c) = length (journaled Journal_RequestDecision rs)"
    by (metis length_map)
  with assms(1) have ledger: "length (co_replay c) \<le> kMaxReplayEntries" by (simp add: history_def)
  have revoked: "\<forall>k \<in> set (journaled Journal_LeaseRevocation rs).
      \<exists>l. smap_get (co_leases c) k = Some l \<and> al_revoked l"
    using marks(2) found(2) assms(4) by (simp add: recovery_start_def)
  have leases: "\<exists>s. payload_id r = lease_name H c s \<and> s \<le> jr_sequence r"
    if "r \<in> set rs" "jr_type r = Journal_Lease" for r
    using assms(1) that by (simp add: history_def lease_name_def)
  have keys: "\<exists>s. k = lease_name H c s \<and> s < ?seq + 1" if "k \<in> set (journaled Journal_Lease rs)" for k
  proof -
    from that obtain r where r: "r \<in> set rs" "jr_type r = Journal_Lease" "k = payload_id r"
      by (auto simp: journaled_def)
    with leases [of r] obtain s where "k = lease_name H c s" "s \<le> jr_sequence r" by auto
    with found(5) r show ?thesis using less(2) order_trans by blast
  qed
  show "recorded H (rs @ [rec]) c"
    unfolding recorded_def
  proof (intro conjI)
    show "map re_request (co_replay c) = journaled Journal_RequestDecision (rs @ [rec])"
      using replay assms(8) by simp
    show "\<forall>k \<in> set (journaled Journal_LeaseRevocation (rs @ [rec])).
        \<exists>l. smap_get (co_leases c) k = Some l \<and> al_revoked l"
      using revoked assms(8) by simp
    show "\<forall>r \<in> set (rs @ [rec]). jr_type r = Journal_Lease \<longrightarrow>
        (\<exists>s. payload_id r = lease_name H c s \<and> s \<le> jr_sequence r)"
      using leases assms(8) by simp
    show "keys_of (co_leases c) = set (journaled Journal_Lease (rs @ [rec]))"
      using marks(1) found(3) assms(4,8) by (simp add: recovery_start_def)
    show "\<forall>k \<in> set (journaled Journal_Lease (rs @ [rec])). \<exists>s. k = lease_name H c s \<and> s < co_lease_sequence c"
      using keys assms(7,8) by simp
    show "unat (co_lease_sequence c) \<le> Suc (length (rs @ [rec]))"
      using seq step(2) assms(7) by simp
    show "\<forall>r \<in> set (rs @ [rec]). jr_type r = Journal_CoordinatorIncarnation \<longrightarrow>
        incarnation_of r \<le> co_incarnation c"
      using incarnations assms(9) by (auto intro: order.strict_implies_order)
    show "\<exists>r \<in> set (rs @ [rec]). jr_type r = Journal_CoordinatorIncarnation \<and>
        incarnation_of r = co_incarnation c"
      using assms(8,9) by simp
    show "unat (co_incarnation c) \<le> length (rs @ [rec])"
      using inc step(1) assms(6) by simp
  qed (rule ledger)
qed

section \<open>Loading the journal\<close>

lemma load_overfull:
  assumes "left_behind H rs d" "history H federation rs"
    and "jo_max_records default_journal_options < length rs" "cc_journal_path config \<noteq> []"
  shows "\<exists>s c'. load_journal H (blank_coordinator config d) = (Inl s, c')"
proof -
  have "quiet d" "dk_files d Journal_File = Some (journal_file H rs)"
    using assms(1,3) by (auto simp: left_behind_def)
  then obtain j where "journal_open H Open_OpenOrCreateReadWrite default_journal_options d = (Inr j, d)"
      "\<not> jv_writable (jl_recovery j)"
    using open_overfull_journal assms(2,3) unfolding history_def by blast
  with assms(4) show ?thesis
    by (simp add: load_journal_def blank_coordinator_def Let_def refuse_def)
qed

text \<open>A successful load in steps: the journal is opened, its records are replayed, and the new
  incarnation is recorded.\<close>

lemma load_journal_steps:
  assumes "left_behind H rs d" "history H federation rs" "cc_journal_path config \<noteq> []"
    and "load_journal H (blank_coordinator config d) = (success, c')"
  obtains rv leases c bs at where
    "recover_records H rs (recovery_start (cc_policy config) (cc_initial_tick config)) = Inr rv"
    and "apply_revocations (rv_revocations rv) at (rv_leases rv) = Inr leases"
    and "journaling H rs c" "co_config c = config" "co_leases c = leases" "co_replay c = rv_replay rv"
    and "co_incarnation c = rv_highest_incarnation rv + 1"
    and "co_lease_sequence c = rv_highest_lease_sequence rv + 1"
    and "w_u64 (co_incarnation c) = Inr bs"
    and "persist H Journal_CoordinatorIncarnation bs c = (success, c')"
proof -
  let ?c0 = "blank_coordinator config d"
  have count: "length rs \<le> jo_max_records default_journal_options"
    using load_overfull [OF assms(1,2) _ assms(3)] assms(4) by fastforce
  then have good: "good_history default_journal_options rs"
    using assms(2) by (simp add: history_def good_history_ordered)
  from load_left_behind [OF assms(1) good] obtain j d' where
    opened: "journal_open H Open_OpenOrCreateReadWrite default_journal_options d = (Inr j, d')"
      "quiet d'" "dk_files d' Journal_File = Some (journal_file H rs)" "journal_at H rs j"
      "jl_options j = default_journal_options"
      "journal_load (kMaxArtifacts * 4) kMaxJournalRecordBytes j d' = (Inr rs, d')" .
  have writable: "jv_writable (jl_recovery j)" using opened(4) by (simp add: journal_at_def)
  obtain c1 where c1: "co_config c1 = config" "co_journal c1 = j" "co_disk c1 = d'" "co_durable c1"
      "co_policy c1 = cc_policy config"
    and run: "(success, c') =
      guarded (recover_records H rs (recovery_start (co_policy c1) (cc_initial_tick (co_config c1)))) (\<lambda>rv.
      guarded (apply_revocations (rv_revocations rv) (rv_highest_tick rv) (rv_leases rv)) (\<lambda>leases c.
        let c = adopt_history rv leases (dk_files d Journal_File = None) c in
        guarded (w_u64 (co_incarnation c)) (persist H Journal_CoordinatorIncarnation) c)) c1"
  proof
    let ?c1 = "?c0\<lparr>co_disk := d', co_journal := j, co_durable := True,
        co_recovery_detail := recovery_outcome_to_string (jv_outcome (jl_recovery j)) @
          '': '' @ jv_detail (jl_recovery j)\<rparr>"
    show "co_config ?c1 = config" "co_journal ?c1 = j" "co_disk ?c1 = d'" "co_durable ?c1"
        "co_policy ?c1 = cc_policy config"
      by (simp_all add: blank_coordinator_def)
    show "(success, c') =
      guarded (recover_records H rs (recovery_start (co_policy ?c1) (cc_initial_tick (co_config ?c1)))) (\<lambda>rv.
      guarded (apply_revocations (rv_revocations rv) (rv_highest_tick rv) (rv_leases rv)) (\<lambda>leases c.
        let c = adopt_history rv leases (dk_files d Journal_File = None) c in
        guarded (w_u64 (co_incarnation c)) (persist H Journal_CoordinatorIncarnation) c)) ?c1"
      unfolding assms(4) [symmetric] load_journal_def Let_def
      using assms(3) opened(1,6) writable by (simp add: blank_coordinator_def)
  qed
  from run c1 obtain rv leases where
    rv: "recover_records H rs (recovery_start (cc_policy config) (cc_initial_tick config)) = Inr rv"
      "apply_revocations (rv_revocations rv) (rv_highest_tick rv) (rv_leases rv) = Inr leases"
    by (auto simp: guarded_def split: sum.splits)
  let ?c = "adopt_history rv leases (dk_files d Journal_File = None) c1"
  obtain bs where bs: "w_u64 (co_incarnation ?c) = Inr bs" by (simp add: w_u64_def)
  have "persist H Journal_CoordinatorIncarnation bs ?c = (success, c')"
    using run c1 rv bs by (simp add: guarded_def Let_def)
  moreover have "journaling H rs ?c"
    using opened(2-5) c1 assms(2,3) by (simp add: adopt_history_def journaling_def history_def
        journal_at_holds journal_holds_def)
  ultimately show thesis
    using rv bs c1 by (intro that [of rv "rv_highest_tick rv" leases ?c bs]) (simp_all add: adopt_history_def)
qed

lemma load_journal_sound:
  assumes "left_behind H rs d" "history H (cc_federation config) rs" "cc_journal_path config \<noteq> []"
    and "load_journal H (blank_coordinator config d) = (success, c')"
  shows "co_config c' = config \<and>
    (\<exists>rec. jr_type rec = Journal_CoordinatorIncarnation \<and>
       jr_payload rec = store_u64_le (co_incarnation c') \<and> sound H (rs @ [rec]) c') \<and>
    (\<forall>r \<in> set rs. jr_type r = Journal_CoordinatorIncarnation \<longrightarrow> incarnation_of r < co_incarnation c')"
proof -
  from load_journal_steps [OF assms] obtain rv leases c bs at where
    run: "recover_records H rs (recovery_start (cc_policy config) (cc_initial_tick config)) = Inr rv"
      "apply_revocations (rv_revocations rv) at (rv_leases rv) = Inr leases"
      "journaling H rs c" "co_config c = config" "co_leases c = leases" "co_replay c = rv_replay rv"
      "co_incarnation c = rv_highest_incarnation rv + 1"
      "co_lease_sequence c = rv_highest_lease_sequence rv + 1" "w_u64 (co_incarnation c) = Inr bs"
      "persist H Journal_CoordinatorIncarnation bs c = (success, c')" .
  from persist_result [OF run(3) _ run(10)] obtain rec where
    rec: "jr_type rec = Journal_CoordinatorIncarnation" "jr_payload rec = bs"
      "journaling H (rs @ [rec]) c'" by auto
  have core: "same_ledgers c c'" by (rule persist_core [OF run(10)])
  have federation: "history H (cc_federation (co_config c)) rs" using assms(2) run(4) by simp
  note adopted = adopt_recorded [OF federation run(1,2,5-8) rec(1) w_u64_incarnation [OF run(9) rec(2)]]
  have "sound H (rs @ [rec]) c'"
    using rec(3) adopted(1) recorded_same [OF core] by (simp add: sound_def)
  moreover have "bs = store_u64_le (co_incarnation c')"
    using run(9) core by (simp add: w_u64_def same_ledgers_def)
  ultimately show ?thesis using core adopted(2) run(4) rec(1,2) by (auto simp: same_ledgers_def)
qed

section \<open>Starting\<close>

lemma ensure_genesis_keeps:
  assumes "ensure_genesis H c = (r, c')"
  shows "keeps H c c' \<and> same_ledgers c c'"
proof -
  have flag: "keeps H x (x\<lparr>co_bootstrapped := b\<rparr>) \<and> same_ledgers x (x\<lparr>co_bootstrapped := b\<rparr>)"
    "keeps H x (x\<lparr>co_artifacts := as, co_bootstrapped := b\<rparr>) \<and>
     same_ledgers x (x\<lparr>co_artifacts := as, co_bootstrapped := b\<rparr>)" for x b as
    by (auto simp: same_ledgers_def same_journal_def intro: keeps_frame)
  let ?genesis = "genesis_record H c"
  let ?as = "co_artifacts c @ [?genesis]"
  have run: "(r, c') = (if \<exists>a \<in> set (co_artifacts c). art_kind a = Kind_FederationGenesis then
        (success, c\<lparr>co_bootstrapped := True\<rparr>)
      else if \<not> cc_bootstrap (co_config c) then (success, c)
      else if is_nil (mc_member (md_constitution (cc_founder (co_config c)))) then
        refuse Error_InvalidArgument ''bootstrap requires a founder with a member identity'' c
      else case validate_artifact H (co_catalog c) ?genesis of Inl s \<Rightarrow> (Inl s, c)
        | Inr _ \<Rightarrow> (case encode_artifact ?genesis of
            Inl s \<Rightarrow> (Inl s, c\<lparr>co_artifacts := ?as, co_bootstrapped := True\<rparr>)
          | Inr bs \<Rightarrow> persist H Journal_Artifact bs (c\<lparr>co_artifacts := ?as, co_bootstrapped := True\<rparr>)))"
    by (simp only: assms [symmetric] ensure_genesis_def guarded_def Let_def)
  consider "c' = c" | "c' = c\<lparr>co_bootstrapped := True\<rparr>"
    | "c' = c\<lparr>co_artifacts := ?as, co_bootstrapped := True\<rparr>"
    | bs where "persist H Journal_Artifact bs (c\<lparr>co_artifacts := ?as, co_bootstrapped := True\<rparr>) = (r, c')"
  proof (cases "\<exists>a \<in> set (co_artifacts c). art_kind a = Kind_FederationGenesis")
    case True
    with run that(2) show thesis by simp
  next
    case old: False
    show thesis
    proof (cases "\<not> cc_bootstrap (co_config c) \<or>
        is_nil (mc_member (md_constitution (cc_founder (co_config c)))) \<or>
        \<not> is_ok (validate_artifact H (co_catalog c) ?genesis)")
      case True
      with run old have "c' = c" by (auto simp: refuse_def is_ok_iff split: if_split_asm sum.split_asm)
      with that(1) show thesis .
    next
      case False
      with run old have ok: "(r, c') = (case encode_artifact ?genesis of
            Inl s \<Rightarrow> (Inl s, c\<lparr>co_artifacts := ?as, co_bootstrapped := True\<rparr>)
          | Inr bs \<Rightarrow> persist H Journal_Artifact bs (c\<lparr>co_artifacts := ?as, co_bootstrapped := True\<rparr>))"
        by (auto simp: is_ok_iff)
      show thesis
      proof (cases "encode_artifact ?genesis")
        case (Inl s)
        with ok that(3) show thesis by simp
      next
        case (Inr bs)
        with ok that(4) show thesis by simp
      qed
    qed
  qed
  then show ?thesis
  proof cases
    case (4 bs)
    from persist_other [OF 4] persist_core [OF 4]
    have "keeps H (c\<lparr>co_artifacts := ?as, co_bootstrapped := True\<rparr>) c' \<and>
        same_ledgers (c\<lparr>co_artifacts := ?as, co_bootstrapped := True\<rparr>) c'" by simp
    with flag(2) show ?thesis by (blast intro: keeps_trans same_ledgers_trans)
  qed (use flag in auto)
qed

lemma create_steps:
  assumes "coordinator_create H config d = (success, c')"
  obtains c1 c2 issued where "load_journal H (blank_coordinator config d) = (success, c1)"
    and "ensure_genesis H c1 = (success, c2)" "decide_locked H c2 = (issued, c')"
proof -
  obtain r1 c1 where one: "load_journal H (blank_coordinator config d) = (r1, c1)" by fastforce
  obtain r2 c2 where two: "ensure_genesis H c1 = (r2, c2)" by fastforce
  obtain issued c3 where three: "decide_locked H c2 = (issued, c3)" by fastforce
  from assms one two three have "r1 = success \<and> r2 = success \<and> c' = c3"
    by (cases r1; cases r2) (auto simp: coordinator_create_def Let_def followed_by_def split: sum.splits)
  with one two three show thesis by (intro that) auto
qed

lemma create_sound:
  assumes "left_behind H rs d" "history H (cc_federation config) rs" "cc_journal_path config \<noteq> []"
    and "coordinator_create H config d = (success, c')"
  shows "co_config c' = config" "\<exists>more. sound H (rs @ more) c'"
    and "\<forall>r \<in> set rs. jr_type r = Journal_CoordinatorIncarnation \<longrightarrow> incarnation_of r < co_incarnation c'"
proof -
  from create_steps [OF assms(4)] obtain c1 c2 issued where
    run: "load_journal H (blank_coordinator config d) = (success, c1)"
      "ensure_genesis H c1 = (success, c2)" "decide_locked H c2 = (issued, c')" .
  have core: "keeps H c1 c'" "same_ledgers c1 c'"
    using ensure_genesis_keeps [OF run(2)] decide_locked_keeps [OF run(3)]
    by (auto intro: keeps_trans same_ledgers_trans)
  with load_journal_sound [OF assms(1-3) run(1)]
  show "co_config c' = config" "\<exists>more. sound H (rs @ more) c'"
    and "\<forall>r \<in> set rs. jr_type r = Journal_CoordinatorIncarnation \<longrightarrow> incarnation_of r < co_incarnation c'"
    unfolding keeps_def same_ledgers_def by (auto, metis append_assoc)
qed

section \<open>Histories of a coordinator\<close>

text \<open>
  One step: any public operation with any argument, whatever it answers, or the end of the process
  followed by a successful start on what it left. The configuration of the next start may differ in
  everything but the federation, and it has a journal.
\<close>

inductive co_step :: "(bytes \<Rightarrow> Digest) \<Rightarrow> Coordinator \<Rightarrow> Coordinator \<Rightarrow> bool" for H where
  submit: "submit_artifact H a c = (r, c') \<Longrightarrow> co_step H c c'"
| evaluate: "coordinator_evaluate H rq c = (r, c') \<Longrightarrow> co_step H c c'"
| issue: "issue_lease H lease_request c = (r, c') \<Longrightarrow> co_step H c c'"
| revoke: "revoke_lease H lease reason detail c = (r, c') \<Longrightarrow> co_step H c c'"
| report: "report_observation H ob c = (r, c') \<Longrightarrow> co_step H c c'"
| advance: "advance_time H target c = (r, c') \<Longrightarrow> co_step H c c'"
| fence: "fence_member H m lineage reason detail c = (r, c') \<Longrightarrow> co_step H c c'"
| retire: "retire_member H m lineage reason detail c = (r, c') \<Longrightarrow> co_step H c c'"
| epoch: "advance_epoch H e reason detail c = (r, c') \<Longrightarrow> co_step H c c'"
| reconcile: "complete_reconciliation H e c = (r, c') \<Longrightarrow> co_step H c c'"
| restart: "coordinator_create H config (restarted (co_disk c)) = (success, c') \<Longrightarrow>
    cc_federation config = cc_federation (co_config c) \<Longrightarrow> cc_journal_path config \<noteq> [] \<Longrightarrow> co_step H c c'"

abbreviation co_steps :: "(bytes \<Rightarrow> Digest) \<Rightarrow> Coordinator \<Rightarrow> Coordinator \<Rightarrow> bool" where
  "co_steps H \<equiv> (co_step H)\<^sup>*\<^sup>*"

text \<open>
  A coordinator with a journal, started where there is no journal file or a journal that satisfies the
  invariant, and what becomes of it. The disk it is started on is \<open>quiet\<close>, and no operation makes it
  otherwise: in the runs considered here every system call of the journal completes. What a call that
  fails or stops half way does to the journal is the subject of \<open>Journal_Laws\<close> and
  \<open>Journal_Recovery\<close>.
\<close>

definition started :: "(bytes \<Rightarrow> Digest) \<Rightarrow> Coordinator \<Rightarrow> bool" where
  "started H c \<longleftrightarrow> (\<exists>config d rs. left_behind H rs d \<and> history H (cc_federation config) rs \<and>
     cc_journal_path config \<noteq> [] \<and> coordinator_create H config d = (success, c))"

definition reachable :: "(bytes \<Rightarrow> Digest) \<Rightarrow> Coordinator \<Rightarrow> bool" where
  "reachable H c \<longleftrightarrow> (\<exists>c0. started H c0 \<and> co_steps H c0 c)"

lemma started_sound: "started H c \<Longrightarrow> \<exists>rs. sound H rs c"
  using create_sound(2) unfolding started_def by blast

lemma co_step_federation:
  "co_step H c c' \<Longrightarrow> cc_federation (co_config c') = cc_federation (co_config c)"
proof (induction rule: co_step.induct)
  case (restart config c c')
  from create_steps [OF restart(1)] obtain c1 c2 issued where
    run: "load_journal H (blank_coordinator config (restarted (co_disk c))) = (success, c1)"
      "ensure_genesis H c1 = (success, c2)" "decide_locked H c2 = (issued, c')" .
  from run(1) have "co_config c1 = config"
    by (auto simp: load_journal_def blank_coordinator_def Let_def guarded_def refuse_def adopt_history_def
        split: if_splits prod.splits sum.splits dest!: persist_config)
  then show ?case
    using ensure_genesis_keeps [OF run(2)] decide_locked_keeps [OF run(3)] restart(2)
    by (simp add: same_ledgers_def)
qed (auto dest: evaluate_config issue_config revoke_config
    dest!: submit_keeps report_keeps advance_time_keeps lifecycle_operations_keep same_ledgers_config)

lemma co_steps_federation:
  "co_steps H c c' \<Longrightarrow> cc_federation (co_config c') = cc_federation (co_config c)"
  by (induction rule: rtranclp_induct) (auto dest: co_step_federation)

lemma co_step_keeps:
  assumes "co_step H c c'" "distinct_lease_names H (cc_federation (co_config c))"
  shows "keeps H c c'"
  using assms
proof (induction rule: co_step.induct)
  case (restart config c c')
  have "\<exists>more. sound H (rs @ more) c'" if "sound H rs c" for rs
    using create_sound(2) [OF sound_left_behind [OF that] _ restart(3,1)] sound_history [OF that] restart(2)
    by simp
  then show ?case by (simp add: keeps_def)
qed (simp_all add: submit_keeps evaluate_keeps issue_lease_keeps revoke_keeps report_keeps
    advance_time_keeps lifecycle_operations_keep [THEN conjunct1])

lemma co_steps_keep:
  assumes "co_steps H c c'" "distinct_lease_names H (cc_federation (co_config c))"
  shows "keeps H c c'"
  using assms
proof (induction rule: rtranclp_induct)
  case (step c' c'')
  then show ?case
    using co_step_keeps co_steps_federation [OF step.hyps(1)] by (metis keeps_trans)
qed simp

lemma reachable_sound:
  assumes "reachable H c" "distinct_lease_names H (cc_federation (co_config c))"
  shows "\<exists>rs. sound H rs c"
proof -
  from assms(1) obtain c0 where c0: "started H c0" "co_steps H c0 c" by (auto simp: reachable_def)
  with co_steps_keep assms(2) co_steps_federation started_sound show ?thesis
    unfolding keeps_def by metis
qed

end
