(* ===== verification/Server.thy ===== *)
theory Server
  imports Protocol State_Render Restart
begin

text \<open>
  The server side of the coordinator (\<^verbatim>\<open>serve\<close> and \<^verbatim>\<open>handle_message\<close> of \<^verbatim>\<open>coordinator.cpp\<close>): the hello
  handshake of a connection, the dispatch of its messages over the operations of \<^verbatim>\<open>Coordinator.thy\<close>,
  and the answers. The function \<open>serve\<close> is one connection from beginning to end, with no other
  connection between its messages; the operations of other connections are further operations of
  the coordinator between them. The list of active sockets, which only \<^verbatim>\<open>stop\<close> reads, and the queue
  between the accepting thread and the workers are not modelled.

  The lemmas show that whatever a peer sends, the coordinator only performs its own operations, and
  none at all before a hello for its federation and protocol version.
\<close>

section \<open>State\<close>

record Server =
  srv_coordinator :: Coordinator
  srv_accepted :: u64
  srv_errors :: u64

definition transport_description :: string where
  "transport_description =
     ''REAL: TCP over the loopback interface (AF_INET, 127.0.0.1) via POSIX sockets''"

definition server_stats :: "(bytes \<Rightarrow> Digest) \<Rightarrow> Server \<Rightarrow> CoordinatorStats" where
  "server_stats H srv =
     coordinator_stats H (srv_accepted srv) (srv_errors srv) transport_description (srv_coordinator srv)"

definition coordinator_state :: "(bytes \<Rightarrow> Digest) \<Rightarrow> Coordinator \<Rightarrow> FederationState result" where
  "coordinator_state H c = derive_locked H c"

definition coordinator_artifacts :: "Coordinator \<Rightarrow> Artifact list" where
  "coordinator_artifacts c = co_artifacts c"

section \<open>Answers\<close>

text \<open>The type and payload of the answer, or the status that ends the connection; and the coordinator.\<close>

type_synonym answer = "(MessageType \<times> bytes) result \<times> Coordinator"

definition answer_with :: "MessageType \<Rightarrow> bytes result \<Rightarrow> Coordinator \<Rightarrow> answer" where
  "answer_with t encoded c =
     (case encoded of Inl s \<Rightarrow> (Inl s, c) | Inr bs \<Rightarrow> (Inr (t, bs), c))"

definition answer_after ::
  "'a result \<times> Coordinator \<Rightarrow> ('a \<Rightarrow> Coordinator \<Rightarrow> answer) \<Rightarrow> answer" where
  "answer_after run k = (case run of (Inl s, c) \<Rightarrow> (Inl s, c) | (Inr v, c) \<Rightarrow> k v c)"

definition empty_lease :: AuthorityLease where
  "empty_lease =
     \<lparr>al_id = 0, al_federation = 0, al_holder = empty_identity, al_scopes = [],
      al_issued_epoch = 0, al_not_after_epoch = 0, al_issued_at = 0, al_not_after = 0,
      al_issuer_node = 0, al_issuer_incarnation = 0, al_revoked = False, al_revoked_at = 0,
      al_revoke_reason = Reason_EvidenceUnknown, al_revoke_detail = []\<rparr>"

text \<open>The answer of the operations that return a status only; no answer ever carries a state digest.\<close>

definition answer_simple :: "string \<Rightarrow> check \<times> Coordinator \<Rightarrow> answer" where
  "answer_simple accepted run =
     (case run of (r, c) \<Rightarrow>
        answer_with Message_SimpleResult (encode_simple_response
          (case r of
             Inr _ \<Rightarrow> \<lparr>sp_code = error_code_wire Error_Ok, sp_detail = accepted, sp_state_digest = 0\<rparr>
           | Inl s \<Rightarrow> \<lparr>sp_code = error_code_wire (st_code s), sp_detail = st_message s,
                       sp_state_digest = 0\<rparr>)) c)"

definition submission_response :: "SubmissionOutcome \<Rightarrow> ArtifactResponse" where
  "submission_response so =
     (let d = so_disposition so in
      \<lparr>xr_code = (if d = Submission_Invalid then Error_InvalidArgument else Error_Ok),
       xr_detail = disposition_to_string d @ '': '' @ so_detail so,
       xr_artifact_digest = so_artifact_digest so, xr_state_digest = so_state_digest so,
       xr_outcome = (if d = Submission_Applied then Outcome_Granted else Outcome_Refused),
       xr_already_present = (d = Submission_Duplicate),
       xr_rejected = (d = Submission_Rejected \<or> d = Submission_Invalid),
       xr_artifact_count = word_of_nat (so_artifact_count so)\<rparr>)"

definition digest_response_of :: "CoordinatorStats \<Rightarrow> DigestResponse" where
  "digest_response_of cs =
     \<lparr>dg_state_digest = cs_state_digest cs, dg_epoch = cs_epoch cs,
      dg_logical_time = cs_logical_time cs, dg_artifact_count = word_of_nat (cs_artifacts cs),
      dg_member_count = word_of_nat (cs_members cs),
      dg_active_member_count = word_of_nat (cs_active_members cs),
      dg_reconciling = cs_reconciling cs\<rparr>"

definition stats_response_of :: "CoordinatorStats \<Rightarrow> StatsResponse" where
  "stats_response_of cs =
     \<lparr>sr_state_digest = cs_state_digest cs, sr_epoch = cs_epoch cs,
      sr_logical_time = cs_logical_time cs, sr_artifacts = word_of_nat (cs_artifacts cs),
      sr_rejected_artifacts = word_of_nat (cs_rejected_artifacts cs),
      sr_duplicate_artifacts = word_of_nat (cs_duplicate_artifacts cs),
      sr_members = word_of_nat (cs_members cs),
      sr_active_members = word_of_nat (cs_active_members cs),
      sr_leases = word_of_nat (cs_leases cs),
      sr_replay_entries = word_of_nat (cs_replay_entries cs),
      sr_connections_accepted = cs_connections_accepted cs,
      sr_protocol_errors = cs_protocol_errors cs, sr_journal_records = cs_journal_records cs,
      sr_journal_bytes = word_of_nat (cs_journal_bytes cs), sr_reconciling = cs_reconciling cs,
      sr_partition_state = cs_partition_state cs, sr_transport = cs_transport cs\<rparr>"

definition lease_request_of :: "LeaseIssueRequest \<Rightarrow> LeaseRequest" where
  "lease_request_of q =
     \<lparr>lr_holder = li_holder q, lr_scopes = li_scopes q,
      lr_not_after_epoch = li_not_after_epoch q, lr_lifetime_ticks = li_lifetime_ticks q\<rparr>"

definition lease_response_of :: "AuthorityLease result \<Rightarrow> LeaseResponse" where
  "lease_response_of r =
     (case r of
        Inr l \<Rightarrow> \<lparr>lp_code = error_code_wire Error_Ok, lp_detail = ''lease issued'', lp_lease = l\<rparr>
      | Inl s \<Rightarrow> \<lparr>lp_code = error_code_wire (st_code s), lp_detail = st_message s,
                  lp_lease = empty_lease\<rparr>)"

section \<open>Dispatch\<close>

text \<open>Fences, epochs and reconciliation share a request and an answer.\<close>

definition member_operation ::
  "(bytes \<Rightarrow> Digest) \<Rightarrow> MessageType \<Rightarrow> MemberActionRequest \<Rightarrow> unit op" where
  "member_operation H t q =
     (if t = Message_FenceMember then
        fence_member H (mq_subject q) (mq_lineage q) (mq_reason q) (mq_detail q)
      else if t = Message_AdvanceEpoch then
        advance_epoch H (mq_epoch q) (mq_reason q) (mq_detail q)
      else complete_reconciliation H (mq_epoch q))"

definition decode_then ::
  "'a reader \<Rightarrow> bytes \<Rightarrow> Coordinator \<Rightarrow> ('a \<Rightarrow> answer) \<Rightarrow> answer" where
  "decode_then dec payload c k =
     (case r_whole dec payload of Inl s \<Rightarrow> (Inl s, c) | Inr q \<Rightarrow> k q)"

text \<open>
  The answer to one message, as one uninterrupted step. In the code each operation holds the mutex of the
  coordinator while it runs, and a branch is such an operation followed by the encoding of its result;
  the query for the artefacts alone takes the mutex twice, so that there the digest may be that of a
  later state than the list, while here both are read from one.
\<close>

definition answer_message :: "(bytes \<Rightarrow> Digest) \<Rightarrow> Message \<Rightarrow> Server \<Rightarrow> answer" where
  "answer_message H m srv =
     (let c = srv_coordinator srv; payload = ms_payload m; t = ms_type m in
      case t of
        Message_Ping \<Rightarrow> (Inr (Message_Pong, []), c)
      | Message_SubmitArtifact \<Rightarrow> decode_then decode_artifact payload c (\<lambda>a.
          answer_after (submit_artifact H a c) (\<lambda>so.
            answer_with Message_SubmitArtifactResult
              (encode_artifact_response (submission_response so))))
      | Message_QueryDigest \<Rightarrow>
          answer_with Message_DigestValue
            (encode_digest_response (digest_response_of (server_stats H srv))) c
      | Message_QueryState \<Rightarrow>
          (case coordinator_state H c of
             Inl s \<Rightarrow> (Inl s, c)
           | Inr st \<Rightarrow> answer_with Message_StateValue (encode_state_response
               \<lparr>sv_state_digest = state_digest H st,
                sv_json = jw_out (render_state_json H st (json_writer False))\<rparr>) c)
      | Message_AuthorityQuery \<Rightarrow> decode_then decode_request payload c (\<lambda>q.
          answer_after (coordinator_evaluate H q c) (\<lambda>ad.
            answer_with Message_AuthorityResult
              (encode_authority_response \<lparr>av_decision = ad\<rparr>)))
      | Message_IssueLease \<Rightarrow> decode_then decode_lease_issue payload c (\<lambda>q.
          case issue_lease H (lease_request_of q) c of
            (r, c) \<Rightarrow> answer_with Message_LeaseResult
              (encode_lease_response (lease_response_of r)) c)
      | Message_RevokeLease \<Rightarrow> decode_then decode_lease_revoke payload c (\<lambda>q.
          answer_simple ''lease revoked''
            (revoke_lease H (lk_lease q) (lk_reason q) (lk_detail q) c))
      | Message_ReportObservation \<Rightarrow> decode_then decode_observation_request payload c (\<lambda>q.
          answer_simple ''observation recorded'' (report_observation H (oq_observation q) c))
      | Message_AdvanceTime \<Rightarrow> decode_then decode_time_advance payload c (\<lambda>q.
          answer_simple ''logical clock advanced'' (advance_time H (ta_to q) c))
      | Message_FenceMember \<Rightarrow> decode_then decode_member_action payload c (\<lambda>q.
          answer_simple ''accepted'' (member_operation H t q c))
      | Message_AdvanceEpoch \<Rightarrow> decode_then decode_member_action payload c (\<lambda>q.
          answer_simple ''accepted'' (member_operation H t q c))
      | Message_CompleteReconciliation \<Rightarrow> decode_then decode_member_action payload c (\<lambda>q.
          answer_simple ''accepted'' (member_operation H t q c))
      | Message_QueryArtifacts \<Rightarrow>
          answer_with Message_ArtifactListValue (encode_artifact_list
            \<lparr>xl_artifacts = coordinator_artifacts c,
             xl_state_digest = (case coordinator_state H c of Inl _ \<Rightarrow> 0
                                | Inr st \<Rightarrow> state_digest H st)\<rparr>) c
      | Message_QueryLeases \<Rightarrow>
          answer_with Message_LeaseListValue
            (encode_lease_list \<lparr>ll_leases = coordinator_leases c\<rparr>) c
      | Message_StatsQuery \<Rightarrow>
          answer_with Message_StatsValue
            (encode_stats_response (stats_response_of (server_stats H srv))) c
      | _ \<Rightarrow> (Fail Error_ProtocolViolation
          (''message type '' @ message_type_to_string t @ '' is not accepted by this coordinator''), c))"

definition handle_message ::
  "(bytes \<Rightarrow> Digest) \<Rightarrow> Message \<Rightarrow> Server \<Rightarrow> Socket \<Rightarrow> check \<times> Server \<times> Socket" where
  "handle_message H m srv s =
     (case answer_message H m srv of
        (Inl e, c) \<Rightarrow> (Inl e, srv\<lparr>srv_coordinator := c\<rparr>, s)
      | (Inr (t, bs), c) \<Rightarrow>
          (case write_message H t bs s of (r, s) \<Rightarrow> (r, srv\<lparr>srv_coordinator := c\<rparr>, s)))"

section \<open>A connection\<close>

text \<open>The error answer; what becomes of it is ignored.\<close>

definition send_error :: "(bytes \<Rightarrow> Digest) \<Rightarrow> Status \<Rightarrow> Socket \<Rightarrow> Socket" where
  "send_error H e s =
     (case encode_error \<lparr>er_code = st_code e, er_message = st_message e\<rparr> of
        Inl _ \<Rightarrow> s | Inr bs \<Rightarrow> snd (write_message H Message_ErrorMessage bs s))"

definition count_error :: "Server \<Rightarrow> Server" where
  "count_error srv = srv\<lparr>srv_errors := srv_errors srv + 1\<rparr>"

lemma send_all_in: "send_all data s = (r, s') \<Longrightarrow> sk_in s' = sk_in s"
  by (auto simp: send_all_def split: option.splits prod.splits if_splits)

lemma write_message_in: "write_message H t bs s = (r, s') \<Longrightarrow> sk_in s' = sk_in s"
  by (auto simp: write_message_def split: if_splits dest: send_all_in)

lemma handle_message_in: "handle_message H m srv s = (r, srv', s') \<Longrightarrow> sk_in s' = sk_in s"
  by (auto simp: handle_message_def split: prod.splits sum.splits dest: write_message_in)

text \<open>\<open>stop\<close> is the number of messages before the loop observes that the server is stopping.\<close>

function serve_messages ::
  "(bytes \<Rightarrow> Digest) \<Rightarrow> nat option \<Rightarrow> Server \<Rightarrow> Socket \<Rightarrow> Server \<times> Socket" where
  "serve_messages H stop srv s =
     (if stop = Some 0 then (srv, s)
      else case read_message H kMaxFramePayloadBytes s of
        (Inl _, s) \<Rightarrow> (srv, s)
      | (Inr m, s) \<Rightarrow>
          if ms_type m = Message_Goodbye then (srv, s)
          else (case handle_message H m srv s of
              (Inl e, srv, s) \<Rightarrow> (count_error srv, send_error H e s)
            | (Inr _, srv, s) \<Rightarrow> serve_messages H (map_option (\<lambda>n. n - 1) stop) srv s))"
  by pat_completeness auto
termination
  by (relation "measure (\<lambda>(_, _, _, s). length (sk_in s))")
    (auto dest!: read_message_shorter [OF sym] handle_message_in [OF sym])

declare serve_messages.simps [simp del]

definition welcome_of :: "(bytes \<Rightarrow> Digest) \<Rightarrow> Coordinator \<Rightarrow> WelcomeResponse" where
  "welcome_of H c =
     \<lparr>wr_federation = cc_federation (co_config c), wr_coordinator = cc_node (co_config c),
      wr_coordinator_incarnation = co_incarnation c,
      wr_epoch = (case derive_locked H c of Inl _ \<Rightarrow> 0 | Inr st \<Rightarrow> fs_epoch st),
      wr_logical_time = co_tick c,
      wr_state_digest = (case derive_locked H c of Inl _ \<Rightarrow> 0 | Inr st \<Rightarrow> state_digest H st),
      wr_policy_id = fp_id (co_policy c), wr_policy_generation = fp_generation (co_policy c),
      wr_protocol_version = kWireProtocolVersion,
      wr_detail = (if co_durable c then ''durable'' else ''in-memory'')\<rparr>"

definition check_hello :: "FederationId \<Rightarrow> Message \<Rightarrow> HelloRequest result" where
  "check_hello federation m =
     (if ms_type m \<noteq> Message_Hello then
        Fail Error_ProtocolViolation ''the first message on a connection must be a hello''
      else case r_whole decode_hello (ms_payload m) of
        Inl s \<Rightarrow> Inl s
      | Inr hello \<Rightarrow>
          if hr_federation hello \<noteq> federation then
            Fail Error_Refused ''the connection names a different federation''
          else if hr_protocol_version hello \<noteq> kWireProtocolVersion then
            Fail Error_UnsupportedVersion
              ''the connection declares an unsupported protocol version''
          else Inr hello)"

definition serve ::
  "(bytes \<Rightarrow> Digest) \<Rightarrow> nat option \<Rightarrow> Server \<Rightarrow> Socket \<Rightarrow> Server \<times> Socket" where
  "serve H stop srv s =
     (case read_message H kMaxFramePayloadBytes s of
        (Inl e, s) \<Rightarrow> (count_error srv, send_error H e s)
      | (Inr m, s) \<Rightarrow>
          (case check_hello (cc_federation (co_config (srv_coordinator srv))) m of
             Inl e \<Rightarrow> (count_error srv, send_error H e s)
           | Inr _ \<Rightarrow>
               (case encode_welcome (welcome_of H (srv_coordinator srv)) of
                  Inl _ \<Rightarrow> (srv, s)
                | Inr bs \<Rightarrow>
                    (case write_message H Message_Welcome bs s of
                       (Inl _, s) \<Rightarrow> (srv, s)
                     | (Inr _, s) \<Rightarrow> serve_messages H stop srv s))))"

section \<open>The server performs operations of the coordinator\<close>

lemma answer_coordinator [simp]:
  "snd (answer_with t e c) = c"
  "snd (answer_simple accepted run) = snd run"
  by (auto simp: answer_with_def answer_simple_def split: sum.splits prod.splits)

lemma answer_with_Inr:
  "answer_with t e c = (Inr (t', bs), c') \<longleftrightarrow> e = Inr bs \<and> t' = t \<and> c' = c"
  by (auto simp: answer_with_def split: sum.splits)

lemma answer_after_coordinator:
  "(\<And>v c. snd (k v c) = c) \<Longrightarrow> snd (answer_after run k) = snd run"
  by (auto simp: answer_after_def split: prod.splits sum.splits)

lemma decode_then_steps:
  "(\<And>q. co_steps H c (snd (k q))) \<Longrightarrow> co_steps H c (snd (decode_then dec payload c k))"
  by (auto simp: decode_then_def split: sum.splits)

lemma operation_steps:
  "co_steps H c (snd (submit_artifact H a c))"
  "co_steps H c (snd (coordinator_evaluate H q c))"
  "co_steps H c (snd (issue_lease H lq c))"
  "co_steps H c (snd (revoke_lease H l why detail c))"
  "co_steps H c (snd (report_observation H ob c))"
  "co_steps H c (snd (advance_time H target c))"
  "co_steps H c (snd (member_operation H t mq c))"
  unfolding member_operation_def
  by (auto intro!: r_into_rtranclp intro: co_step.intros prod.collapse [symmetric])

lemma answer_message_steps: "co_steps H (srv_coordinator srv) (snd (answer_message H m srv))"
proof -
  let ?c = "srv_coordinator srv"
  have state: "snd (case coordinator_state H ?c of Inl s \<Rightarrow> (Inl s, ?c)
      | Inr st \<Rightarrow> answer_with t (f st) ?c) = ?c" for t f
    by (simp split: sum.split)
  show ?thesis
    unfolding answer_message_def Let_def
    by (cases "ms_type m")
      (simp_all add: decode_then_steps answer_after_coordinator operation_steps case_prod_unfold state)
qed

lemma handle_message_steps:
  "handle_message H m srv s = (r, srv', s') \<Longrightarrow>
     co_steps H (srv_coordinator srv) (srv_coordinator srv')"
  using answer_message_steps [of H srv m]
  by (auto simp: handle_message_def split: prod.splits sum.splits)

lemma count_error_coordinator [simp]: "srv_coordinator (count_error srv) = srv_coordinator srv"
  by (simp add: count_error_def)

lemma serve_messages_steps:
  "serve_messages H stop srv s = (srv', s') \<Longrightarrow>
     co_steps H (srv_coordinator srv) (srv_coordinator srv')"
proof (induction "length (sk_in s)" arbitrary: stop srv s rule: less_induct)
  case less
  show ?case
  proof (cases "stop = Some 0 \<or> isl (fst (read_message H kMaxFramePayloadBytes s))")
    case True
    then show ?thesis using less.prems
      by (subst (asm) serve_messages.simps) (auto split: prod.splits sum.splits if_splits)
  next
    case False
    then obtain m s1 where one: "read_message H kMaxFramePayloadBytes s = (Inr m, s1)"
      by (cases "read_message H kMaxFramePayloadBytes s"; cases "fst (read_message H kMaxFramePayloadBytes s)") auto
    obtain r srv2 s2 where two: "handle_message H m srv s1 = (r, srv2, s2)" by (metis prod_cases3)
    note steps = handle_message_steps [OF two]
    show ?thesis
    proof (cases "ms_type m = Message_Goodbye")
      case True
      with less.prems one show ?thesis
        by (subst (asm) serve_messages.simps) (auto split: if_splits)
    next
      case not_goodbye: False
      show ?thesis
      proof (cases r)
        case (Inl e)
        with less.prems one two not_goodbye False steps show ?thesis
          by (subst (asm) serve_messages.simps) auto
      next
        case (Inr u)
        with less.prems one two not_goodbye False have rest:
          "serve_messages H (map_option (\<lambda>n. n - 1) stop) srv2 s2 = (srv', s')"
          by (subst (asm) serve_messages.simps) auto
        have "length (sk_in s2) < length (sk_in s)"
          using read_message_shorter [OF one] handle_message_in [OF two] by simp
        from less.hyps [OF this rest] steps show ?thesis by (rule rtranclp_trans [rotated])
      qed
    qed
  qed
qed

text \<open>What a connection must have sent before anything happens.\<close>

lemma serve_cases:
  assumes "serve H stop srv s = (srv', s')"
  obtains (refused) "srv_coordinator srv' = srv_coordinator srv"
    | (served) m s1 hello bs s2 where "read_message H kMaxFramePayloadBytes s = (Inr m, s1)"
        "check_hello (cc_federation (co_config (srv_coordinator srv))) m = Inr hello"
        "encode_welcome (welcome_of H (srv_coordinator srv)) = Inr bs"
        "write_message H Message_Welcome bs s1 = (success, s2)"
        "serve_messages H stop srv s2 = (srv', s')"
  using assms unfolding serve_def
  by (auto split: prod.splits sum.splits)

section \<open>Properties\<close>

text \<open>
  C11: the network adds nothing to the coordinator. Whatever bytes a peer sends over a connection, and
  wherever the connection ends, what happens to the coordinator is a sequence of its own operations;
  so every invariant of those operations holds for a served coordinator.
\<close>

theorem serving_is_operating:
  assumes "serve H stop srv s = (srv', s')"
  shows "co_steps H (srv_coordinator srv) (srv_coordinator srv')"
  using assms by (cases rule: serve_cases) (auto dest: serve_messages_steps)

text \<open>
  C12: nothing happens before a hello. When a connection changed the coordinator, the first bytes the
  peer sent are a frame with a matching digest whose payload is exactly a hello that names the
  federation of this coordinator and protocol version 1.
\<close>

theorem no_effect_without_hello:
  assumes "serve H stop srv s = (srv', s')" "srv_coordinator srv' \<noteq> srv_coordinator srv"
  shows "\<exists>payload hello rest. sk_in s = frame_bytes H Message_Hello payload @ rest \<and>
    r_whole decode_hello payload = Inr hello \<and>
    hr_federation hello = cc_federation (co_config (srv_coordinator srv)) \<and>
    hr_protocol_version hello = 1"
  using assms(1)
proof (cases rule: serve_cases)
  case refused
  with assms(2) show ?thesis by simp
next
  case (served m s1 hello bs s2)
  from read_message_Inr [OF served(1)] have "sk_in s = frame_bytes H (ms_type m) (ms_payload m) @ sk_in s1"
    by simp
  with served(2) show ?thesis
    by (auto simp: check_hello_def kWireProtocolVersion_def split: if_splits sum.splits)
qed

end
