(* ===== verification/Client.thy ===== *)
theory Client
  imports Server
begin

text \<open>
  The client of the coordinator (\<^verbatim>\<open>client.cpp\<close>): connecting, one request and one reply at a time, and
  a method per operation. \<open>H\<close> is the digest function. What the operating system answers to a
  connection attempt is an argument; the bytes the coordinator will send are those of the socket.

  The locale \<open>remote_operation\<close> is the contract between a method of the client and a branch of
  \<^verbatim>\<open>handle_message\<close>: given that contract, what the method returns over a working connection is what the
  coordinator's operation returned. It is interpreted for every method that has an effect and for
  the queries.
\<close>

section \<open>Connecting\<close>

record Endpoint =
  ep_host :: string
  ep_port :: u16

definition endpoint_to_string :: "Endpoint \<Rightarrow> string" where
  "endpoint_to_string ep = ep_host ep @ '':'' @ word_to_string (ep_port ep)"

text \<open>\<open>attempt\<close> is what the operating system answers to a connection attempt over the loopback interface.\<close>

definition socket_connect :: "Endpoint \<Rightarrow> Socket result \<Rightarrow> Socket result" where
  "socket_connect ep attempt =
     (if ep_host ep \<noteq> ''127.0.0.1'' \<and> ep_host ep \<noteq> ''localhost'' then
        Fail Error_UnsupportedVersion ''only loopback endpoints are supported by this runtime''
      else attempt)"

definition kProductName :: string where "kProductName = ''Fabric Federation''"
definition kVersionString :: string where "kVersionString = ''1.0.0''"

text \<open>\<open>None\<close> is a socket that was closed.\<close>

record CoordinatorClient =
  cl_socket :: "Socket option"
  cl_welcome :: WelcomeResponse

type_synonym 'a client_op = "CoordinatorClient \<Rightarrow> 'a result \<times> CoordinatorClient"

definition decode_expected :: "'a reader \<Rightarrow> MessageType \<Rightarrow> Message \<Rightarrow> 'a result" where
  "decode_expected dec expected m =
     (if ms_type m = Message_ErrorMessage then
        (case r_whole decode_error (ms_payload m) of
           Inr e \<Rightarrow> Fail (er_code e) (er_message e)
         | Inl _ \<Rightarrow> Fail Error_ProtocolViolation ''the coordinator reported an error'')
      else if ms_type m \<noteq> expected then
        Fail Error_ProtocolViolation
          (''expected '' @ message_type_to_string expected @ '', received '' @
           message_type_to_string (ms_type m))
      else r_whole dec (ms_payload m))"

definition client_hello :: "FederationId \<Rightarrow> NodeId \<Rightarrow> Incarnation \<Rightarrow> HelloRequest" where
  "client_hello federation node incarnation =
     \<lparr>hr_federation = federation, hr_node = node, hr_incarnation = incarnation,
      hr_protocol_version = kWireProtocolVersion,
      hr_product = kProductName @ '' '' @ kVersionString\<rparr>"

definition client_connect ::
  "(bytes \<Rightarrow> Digest) \<Rightarrow> Endpoint \<Rightarrow> FederationId \<Rightarrow> NodeId \<Rightarrow> Incarnation \<Rightarrow> Socket result \<Rightarrow>
   CoordinatorClient result" where
  "client_connect H ep federation node incarnation attempt =
     and_then (socket_connect ep attempt) (\<lambda>s.
     and_then (encode_hello (client_hello federation node incarnation)) (\<lambda>bs.
     case write_message H Message_Hello bs s of
       (Inl e, _) \<Rightarrow> Inl e
     | (Inr _, s) \<Rightarrow>
         (case read_message H kMaxFramePayloadBytes s of
            (Inl e, _) \<Rightarrow> Inl e
          | (Inr m, s) \<Rightarrow>
              and_then (decode_expected decode_welcome Message_Welcome m) (\<lambda>welcome.
              if wr_federation welcome \<noteq> federation then
                Fail Error_Refused (''the coordinator serves a different federation: '' @
                  federation_to_string (wr_federation welcome))
              else Inr \<lparr>cl_socket = Some s, cl_welcome = welcome\<rparr>))))"

section \<open>Requests and replies\<close>

text \<open>One request and its reply, under the mutex of the client.\<close>

definition exchange :: "(bytes \<Rightarrow> Digest) \<Rightarrow> MessageType \<Rightarrow> bytes \<Rightarrow> Message client_op" where
  "exchange H t payload cl =
     (case cl_socket cl of
        None \<Rightarrow>
          (if length payload > unat kMaxFramePayloadBytes then
             Fail Error_BoundsExceeded ''outgoing payload exceeds the frame bound''
           else Fail Error_NotInitialized ''socket is closed'', cl)
      | Some s \<Rightarrow>
          (case write_message H t payload s of
             (Inl e, s) \<Rightarrow> (Inl e, cl\<lparr>cl_socket := Some s\<rparr>)
           | (Inr _, s) \<Rightarrow>
               (case read_message H kMaxFramePayloadBytes s of
                  (r, s) \<Rightarrow> (r, cl\<lparr>cl_socket := Some s\<rparr>))))"

text \<open>The shape of every method: encode the request, exchange, decode the reply expected.\<close>

definition request_reply ::
  "(bytes \<Rightarrow> Digest) \<Rightarrow> MessageType \<Rightarrow> bytes result \<Rightarrow> 'a reader \<Rightarrow> MessageType \<Rightarrow> 'a client_op" where
  "request_reply H t encoded dec expected cl =
     (case encoded of
        Inl e \<Rightarrow> (Inl e, cl)
      | Inr bs \<Rightarrow>
          (case exchange H t bs cl of
             (Inl e, cl) \<Rightarrow> (Inl e, cl)
           | (Inr m, cl) \<Rightarrow> (decode_expected dec expected m, cl)))"

definition client_query_digest :: "(bytes \<Rightarrow> Digest) \<Rightarrow> DigestResponse client_op" where
  "client_query_digest H cl =
     (case request_reply H Message_QueryDigest (Inr []) decode_digest_response Message_DigestValue cl of
        (Inl e, cl) \<Rightarrow> (Inl e, cl)
      | (Inr d, cl) \<Rightarrow>
          (Inr d, cl\<lparr>cl_welcome := (cl_welcome cl)
             \<lparr>wr_logical_time := dg_logical_time d, wr_epoch := dg_epoch d,
              wr_state_digest := dg_state_digest d\<rparr>\<rparr>))"

definition client_query_state :: "(bytes \<Rightarrow> Digest) \<Rightarrow> StateResponse client_op" where
  "client_query_state H =
     request_reply H Message_QueryState (Inr []) decode_state_response Message_StateValue"

definition client_query_stats :: "(bytes \<Rightarrow> Digest) \<Rightarrow> StatsResponse client_op" where
  "client_query_stats H =
     request_reply H Message_StatsQuery (Inr []) decode_stats_response Message_StatsValue"

definition client_query_authority ::
  "(bytes \<Rightarrow> Digest) \<Rightarrow> AuthorityRequest \<Rightarrow> AuthorityDecision client_op" where
  "client_query_authority H q cl =
     (case request_reply H Message_AuthorityQuery (encode_request q) decode_authority_response
         Message_AuthorityResult cl of
        (Inl e, cl) \<Rightarrow> (Inl e, cl)
      | (Inr r, cl) \<Rightarrow> (Inr (av_decision r), cl))"

definition client_submit :: "(bytes \<Rightarrow> Digest) \<Rightarrow> Artifact \<Rightarrow> ArtifactResponse client_op" where
  "client_submit H a =
     request_reply H Message_SubmitArtifact (encode_artifact a) decode_artifact_response
       Message_SubmitArtifactResult"

text \<open>
  The code of a lease response is not checked against the enumeration, so that the error of
  \<open>client_issue_lease\<close> is any 16-bit value with its text.
\<close>

definition wire_status :: "Status \<Rightarrow> u16 \<times> string" where
  "wire_status s = (error_code_wire (st_code s), st_message s)"

definition client_issue_lease ::
  "(bytes \<Rightarrow> Digest) \<Rightarrow> LeaseIssueRequest \<Rightarrow> CoordinatorClient \<Rightarrow>
   (u16 \<times> string + AuthorityLease) \<times> CoordinatorClient" where
  "client_issue_lease H q cl =
     (case request_reply H Message_IssueLease (encode_lease_issue q) decode_lease_response
         Message_LeaseResult cl of
        (Inl e, cl) \<Rightarrow> (Inl (wire_status e), cl)
      | (Inr r, cl) \<Rightarrow>
          (if lp_code r \<noteq> error_code_wire Error_Ok then Inl (lp_code r, lp_detail r)
           else Inr (lp_lease r), cl))"

text \<open>The methods that are answered by a simple response.\<close>

definition simple_call :: "(bytes \<Rightarrow> Digest) \<Rightarrow> MessageType \<Rightarrow> bytes result \<Rightarrow> SimpleResponse client_op" where
  "simple_call H t encoded =
     request_reply H t encoded decode_simple_response Message_SimpleResult"

definition client_revoke_lease ::
  "(bytes \<Rightarrow> Digest) \<Rightarrow> LeaseId \<Rightarrow> ReasonCode \<Rightarrow> string \<Rightarrow> SimpleResponse client_op" where
  "client_revoke_lease H l reason detail =
     simple_call H Message_RevokeLease
       (encode_lease_revoke \<lparr>lk_lease = l, lk_reason = reason, lk_detail = detail\<rparr>)"

definition client_report_observation ::
  "(bytes \<Rightarrow> Digest) \<Rightarrow> MemberObservation \<Rightarrow> SimpleResponse client_op" where
  "client_report_observation H ob =
     simple_call H Message_ReportObservation (encode_observation_request \<lparr>oq_observation = ob\<rparr>)"

definition client_advance_time :: "(bytes \<Rightarrow> Digest) \<Rightarrow> Tick \<Rightarrow> SimpleResponse client_op" where
  "client_advance_time H target =
     simple_call H Message_AdvanceTime (encode_time_advance \<lparr>ta_to = target\<rparr>)"

definition blank_member_action :: MemberActionRequest where
  "blank_member_action =
     \<lparr>mq_subject = 0, mq_lineage = 0, mq_epoch = 0, mq_reason = Reason_EvidenceUnknown,
      mq_detail = []\<rparr>"

definition client_fence_member ::
  "(bytes \<Rightarrow> Digest) \<Rightarrow> MemberId \<Rightarrow> Lineage \<Rightarrow> ReasonCode \<Rightarrow> string \<Rightarrow> SimpleResponse client_op" where
  "client_fence_member H m lineage reason detail =
     simple_call H Message_FenceMember (encode_member_action (blank_member_action
       \<lparr>mq_subject := m, mq_lineage := lineage, mq_reason := reason, mq_detail := detail\<rparr>))"

definition client_advance_epoch ::
  "(bytes \<Rightarrow> Digest) \<Rightarrow> Epoch \<Rightarrow> ReasonCode \<Rightarrow> string \<Rightarrow> SimpleResponse client_op" where
  "client_advance_epoch H epoch reason detail =
     simple_call H Message_AdvanceEpoch (encode_member_action (blank_member_action
       \<lparr>mq_epoch := epoch, mq_reason := reason, mq_detail := detail\<rparr>))"

definition client_complete_reconciliation ::
  "(bytes \<Rightarrow> Digest) \<Rightarrow> Epoch \<Rightarrow> SimpleResponse client_op" where
  "client_complete_reconciliation H epoch =
     simple_call H Message_CompleteReconciliation (encode_member_action (blank_member_action
       \<lparr>mq_epoch := epoch, mq_reason := Reason_PartitionReattestationComplete\<rparr>))"

definition client_query_artifacts :: "(bytes \<Rightarrow> Digest) \<Rightarrow> ArtifactListResponse client_op" where
  "client_query_artifacts H =
     request_reply H Message_QueryArtifacts (Inr []) decode_artifact_list Message_ArtifactListValue"

definition client_query_leases :: "(bytes \<Rightarrow> Digest) \<Rightarrow> LeaseListResponse client_op" where
  "client_query_leases H =
     request_reply H Message_QueryLeases (Inr []) decode_lease_list Message_LeaseListValue"

definition client_ping :: "(bytes \<Rightarrow> Digest) \<Rightarrow> unit client_op" where
  "client_ping H cl =
     (case exchange H Message_Ping [] cl of
        (Inl e, cl) \<Rightarrow> (Inl e, cl)
      | (Inr m, cl) \<Rightarrow>
          (if ms_type m \<noteq> Message_Pong then
             Fail Error_ProtocolViolation ''the coordinator did not answer a ping''
           else success, cl))"

text \<open>The goodbye is sent and its status ignored; closing succeeds. The bytes sent are the second result.\<close>

definition client_close :: "(bytes \<Rightarrow> Digest) \<Rightarrow> CoordinatorClient \<Rightarrow> CoordinatorClient \<times> bytes" where
  "client_close H cl =
     (case cl_socket cl of
        None \<Rightarrow> (cl, [])
      | Some s \<Rightarrow>
          (cl\<lparr>cl_socket := None\<rparr>,
           sk_out (snd (write_message H Message_Goodbye [] (s\<lparr>sk_out := []\<rparr>)))))"

section \<open>A client and its coordinator\<close>

text \<open>
  A working connection at one request: the client can write, the coordinator reads what the client
  wrote and handles it, and the client is sent what the coordinator wrote.
\<close>

definition carries ::
  "(bytes \<Rightarrow> Digest) \<Rightarrow> MessageType \<Rightarrow> bytes \<Rightarrow> CoordinatorClient \<Rightarrow> Server \<Rightarrow> Server \<Rightarrow> bool" where
  "carries H t payload cl srv srv' \<longleftrightarrow>
     (\<exists>s s1 incoming m ss ss' rest. cl_socket cl = Some s \<and>
        write_message H t payload (s\<lparr>sk_out := []\<rparr>) = (success, s1) \<and>
        sk_in incoming = sk_out s1 \<and> sk_out incoming = [] \<and>
        read_message H kMaxFramePayloadBytes incoming = (Inr m, ss) \<and>
        handle_message H m srv ss = (success, srv', ss') \<and>
        sk_in s = sk_out ss' @ rest)"

lemma send_all_success:
  "send_all data s = (success, s') \<Longrightarrow> sk_out s' = sk_out s @ data"
  by (auto simp: send_all_def split: option.splits prod.splits if_splits)

lemma write_message_success:
  "write_message H t p s = (success, s') \<Longrightarrow>
     sk_out s' = sk_out s @ frame_bytes H t p \<and> length p \<le> unat kMaxFramePayloadBytes"
  by (auto simp: write_message_def split: if_splits dest: send_all_success)

lemma write_message_again:
  "write_message H t p (s\<lparr>sk_out := []\<rparr>) = (success, s1) \<Longrightarrow>
     write_message H t p s = (success, s1\<lparr>sk_out := sk_out s @ sk_out s1\<rparr>)"
  by (auto simp: write_message_def send_all_def split: if_splits option.splits prod.splits)

lemma recv_exact_out: "recv_exact n s = (r, s') \<Longrightarrow> sk_out s' = sk_out s"
  by (auto simp: recv_exact_def Let_def split: if_splits)

lemma read_message_out: "read_message H b s = (r, s') \<Longrightarrow> sk_out s' = sk_out s"
  by (auto simp: read_message_def Let_def dest!: recv_exact_out split: prod.splits sum.splits if_splits)

text \<open>What the answers of the coordinator may be: a type the reader lets through, never an error.\<close>

lemma accepted_types [simp]:
  "accepted_type Message_Pong" "accepted_type Message_SubmitArtifactResult"
  "accepted_type Message_DigestValue" "accepted_type Message_StateValue"
  "accepted_type Message_AuthorityResult" "accepted_type Message_LeaseResult"
  "accepted_type Message_SimpleResult" "accepted_type Message_ArtifactListValue"
  "accepted_type Message_LeaseListValue" "accepted_type Message_StatsValue"
  by (simp_all add: accepted_type_def proper_type_def message_type_wire_def message_types_def
      message_type_of_wire_def kMaxMessageType_def)

lemma answer_message_type:
  assumes "answer_message H m srv = (Inr (t, bs), c)"
  shows "accepted_type t \<and> t \<noteq> Message_ErrorMessage"
  using assms unfolding answer_message_def Let_def
  by (cases "ms_type m")
    (auto simp: decode_then_def answer_after_def answer_simple_def answer_with_Inr
      split: sum.splits prod.splits)

text \<open>The reply of a working connection is the answer of the coordinator.\<close>

lemma carries_answer:
  assumes "carries H t payload cl srv srv'" "accepted_type t"
  obtains t' bs cl' where
    "answer_message H \<lparr>ms_type = t, ms_payload = payload\<rparr> srv = (Inr (t', bs), srv_coordinator srv')"
    "exchange H t payload cl = (Inr \<lparr>ms_type = t', ms_payload = bs\<rparr>, cl')"
    "t' \<noteq> Message_ErrorMessage" "srv' = srv\<lparr>srv_coordinator := srv_coordinator srv'\<rparr>"
proof -
  from assms(1) obtain s s1 incoming m ss ss' rest where
    cl: "cl_socket cl = Some s" "write_message H t payload (s\<lparr>sk_out := []\<rparr>) = (success, s1)"
    and inc: "sk_in incoming = sk_out s1" "sk_out incoming = []"
      "read_message H kMaxFramePayloadBytes incoming = (Inr m, ss)"
    and handled: "handle_message H m srv ss = (success, srv', ss')" and echo: "sk_in s = sk_out ss' @ rest"
    by (auto simp: carries_def)
  from write_message_success [OF cl(2)] have sent: "sk_out s1 = frame_bytes H t payload"
    "length payload \<le> unat kMaxFramePayloadBytes" by auto
  from read_written [OF assms(2) sent(2) default_bound_sane, of incoming H "[]"] inc sent(1)
  have m: "m = \<lparr>ms_type = t, ms_payload = payload\<rparr>" by simp
  from handled obtain t' bs where answer: "answer_message H m srv = (Inr (t', bs), srv_coordinator srv')"
    and out: "write_message H t' bs ss = (success, ss')"
    and srv': "srv' = srv\<lparr>srv_coordinator := srv_coordinator srv'\<rparr>"
    by (auto simp: handle_message_def split: sum.splits prod.splits)
  from answer_message_type [OF answer] have t': "accepted_type t'" "t' \<noteq> Message_ErrorMessage" by auto
  from write_message_success [OF out] read_message_out [OF inc(3)] inc(2)
  have reply: "sk_out ss' = frame_bytes H t' bs" "length bs \<le> unat kMaxFramePayloadBytes" by auto
  let ?s2 = "s1\<lparr>sk_out := sk_out s @ sk_out s1\<rparr>"
  have "sk_in ?s2 = frame_bytes H t' bs @ rest"
    using echo reply(1) write_message_in [OF cl(2)] by simp
  from read_written [OF t'(1) reply(2) default_bound_sane this] cl(1) write_message_again [OF cl(2)]
  have "exchange H t payload cl = (Inr \<lparr>ms_type = t', ms_payload = bs\<rparr>,
      cl\<lparr>cl_socket := Some (?s2\<lparr>sk_in := rest\<rparr>)\<rparr>)"
    by (simp add: exchange_def)
  with answer t'(2) srv' show thesis unfolding m by (intro that)
qed

section \<open>Remote operations\<close>

text \<open>
  \<open>dispatched\<close> says what the coordinator does with an encoded request, \<open>understood\<close> that the client
  reads back the reply it was sent.
\<close>

locale remote_operation =
  fixes H :: "bytes \<Rightarrow> Digest"
    and request_type reply_type :: MessageType
    and encode_q :: "'q \<Rightarrow> bytes result" and wf_q :: "'q \<Rightarrow> bool"
    and run :: "'q \<Rightarrow> Server \<Rightarrow> 'r result \<times> Coordinator"
    and encode_r :: "'r \<Rightarrow> bytes result" and wf_r :: "'r \<Rightarrow> bool" and decode_r :: "'r reader"
  assumes sendable: "accepted_type request_type"
    and dispatched: "is_ok (encode_q q) \<Longrightarrow> wf_q q \<Longrightarrow>
      answer_message H \<lparr>ms_type = request_type, ms_payload = projr (encode_q q)\<rparr> srv =
      answer_after (run q srv) (\<lambda>r. answer_with reply_type (encode_r r))"
    and understood: "is_ok (encode_r r) \<Longrightarrow> wf_r r \<Longrightarrow> r_whole decode_r (projr (encode_r r)) = Inr r"
begin

lemma answered:
  assumes "encode_q q = Inr bs" "wf_q q" "carries H request_type bs cl srv srv'"
  obtains r where "run q srv = (Inr r, srv_coordinator srv')" "is_ok (encode_r r)"
    "fst (request_reply H request_type (encode_q q) decode_r reply_type cl) =
       r_whole decode_r (projr (encode_r r))"
proof -
  obtain t' rs cl' where answer: "answer_message H \<lparr>ms_type = request_type, ms_payload = bs\<rparr> srv =
      (Inr (t', rs), srv_coordinator srv')"
    and reply: "exchange H request_type bs cl = (Inr \<lparr>ms_type = t', ms_payload = rs\<rparr>, cl')"
      "t' \<noteq> Message_ErrorMessage"
    using carries_answer [OF assms(3) sendable] by metis
  have "answer_after (run q srv) (\<lambda>r. answer_with reply_type (encode_r r)) =
      (Inr (t', rs), srv_coordinator srv')"
    using answer dispatched [of q srv] assms(1,2) by simp
  then obtain r where
    "run q srv = (Inr r, srv_coordinator srv')" "encode_r r = Inr rs" "t' = reply_type"
    by (auto simp: answer_after_def answer_with_Inr split: prod.splits sum.splits)
  with reply assms(1) that show thesis
    by (simp add: request_reply_def decode_expected_def)
qed

text \<open>What the method returns is what the operation returned.\<close>

lemma remote:
  assumes "encode_q q = Inr bs" "wf_q q" "carries H request_type bs cl srv srv'"
    and "\<And>r. fst (run q srv) = Inr r \<Longrightarrow> wf_r r"
  shows "run q srv =
    (fst (request_reply H request_type (encode_q q) decode_r reply_type cl), srv_coordinator srv')"
  using answered [OF assms(1-3)] assms(4) understood by (metis fst_conv)

end

text \<open>What an operation returns, as the value the coordinator puts into its reply.\<close>

definition mapped :: "('a \<Rightarrow> 'b) \<Rightarrow> 'a result \<times> Coordinator \<Rightarrow> 'b result \<times> Coordinator" where
  "mapped f run = map_prod (map_sum id f) id run"

lemma answer_after_mapped:
  "answer_after (mapped f run) k = answer_after run (\<lambda>v. k (f v))"
  by (auto simp: answer_after_def mapped_def split: prod.splits sum.splits)

text \<open>The coordinator's report of an operation that returns a status only.\<close>

definition reported :: "string \<Rightarrow> check \<times> Coordinator \<Rightarrow> SimpleResponse result \<times> Coordinator" where
  "reported accepted run =
     (case run of (r, c) \<Rightarrow>
        (Inr (case r of
           Inr _ \<Rightarrow> \<lparr>sp_code = error_code_wire Error_Ok, sp_detail = accepted, sp_state_digest = 0\<rparr>
         | Inl s \<Rightarrow> \<lparr>sp_code = error_code_wire (st_code s), sp_detail = st_message s,
                     sp_state_digest = 0\<rparr>), c))"

lemma answer_simple_reported:
  "answer_simple accepted run =
     answer_after (reported accepted run) (\<lambda>r. answer_with Message_SimpleResult (encode_simple_response r))"
  by (simp add: answer_simple_def reported_def answer_after_def case_prod_unfold)

lemma accepted_requests [simp]:
  "accepted_type Message_SubmitArtifact" "accepted_type Message_AuthorityQuery"
  "accepted_type Message_IssueLease" "accepted_type Message_RevokeLease"
  "accepted_type Message_ReportObservation" "accepted_type Message_AdvanceTime"
  "accepted_type Message_FenceMember" "accepted_type Message_AdvanceEpoch"
  "accepted_type Message_CompleteReconciliation" "accepted_type Message_QueryDigest"
  "accepted_type Message_QueryState" "accepted_type Message_StatsQuery"
  "accepted_type Message_QueryArtifacts" "accepted_type Message_QueryLeases"
  by (simp_all add: accepted_type_def proper_type_def message_type_wire_def message_types_def
      message_type_of_wire_def kMaxMessageType_def)

lemmas remote_operation_simps = payload_wholes
  answer_message_def Let_def decode_then_def answer_after_mapped answer_simple_reported

interpretation submission: remote_operation H Message_SubmitArtifact Message_SubmitArtifactResult
  encode_artifact artifact_wf
  "\<lambda>a srv. mapped submission_response (submit_artifact H a (srv_coordinator srv))"
  encode_artifact_response "\<lambda>_. True" decode_artifact_response for H
  by unfold_locales (simp_all add: remote_operation_simps)

interpretation decision: remote_operation H Message_AuthorityQuery Message_AuthorityResult
  encode_request request_wf
  "\<lambda>q srv. mapped (\<lambda>ad. \<lparr>av_decision = ad\<rparr>) (coordinator_evaluate H q (srv_coordinator srv))"
  encode_authority_response authority_response_wf decode_authority_response for H
  by unfold_locales (simp_all add: remote_operation_simps)

interpretation lease_issue: remote_operation H Message_IssueLease Message_LeaseResult
  encode_lease_issue lease_issue_wf
  "\<lambda>q srv. case issue_lease H (lease_request_of q) (srv_coordinator srv) of
     (r, c) \<Rightarrow> (Inr (lease_response_of r), c)"
  encode_lease_response lease_response_wf decode_lease_response for H
  by unfold_locales (simp_all add: remote_operation_simps answer_after_def case_prod_unfold)

text \<open>The six calls that are answered by a simple response, and what the coordinator does for each.\<close>

datatype SimpleCall =
    Call_RevokeLease LeaseRevokeRequest
  | Call_ReportObservation ObservationRequest
  | Call_AdvanceTime TimeAdvanceRequest
  | Call_FenceMember MemberActionRequest
  | Call_AdvanceEpoch MemberActionRequest
  | Call_CompleteReconciliation MemberActionRequest

primrec call_type :: "SimpleCall \<Rightarrow> MessageType" where
  "call_type (Call_RevokeLease q) = Message_RevokeLease"
| "call_type (Call_ReportObservation q) = Message_ReportObservation"
| "call_type (Call_AdvanceTime q) = Message_AdvanceTime"
| "call_type (Call_FenceMember q) = Message_FenceMember"
| "call_type (Call_AdvanceEpoch q) = Message_AdvanceEpoch"
| "call_type (Call_CompleteReconciliation q) = Message_CompleteReconciliation"

primrec encode_call :: "SimpleCall \<Rightarrow> bytes result" where
  "encode_call (Call_RevokeLease q) = encode_lease_revoke q"
| "encode_call (Call_ReportObservation q) = encode_observation_request q"
| "encode_call (Call_AdvanceTime q) = encode_time_advance q"
| "encode_call (Call_FenceMember q) = encode_member_action q"
| "encode_call (Call_AdvanceEpoch q) = encode_member_action q"
| "encode_call (Call_CompleteReconciliation q) = encode_member_action q"

primrec call_wf :: "SimpleCall \<Rightarrow> bool" where
  "call_wf (Call_RevokeLease q) \<longleftrightarrow> True"
| "call_wf (Call_ReportObservation q) \<longleftrightarrow> observation_request_wf q"
| "call_wf (Call_AdvanceTime q) \<longleftrightarrow> True"
| "call_wf (Call_FenceMember q) \<longleftrightarrow> True"
| "call_wf (Call_AdvanceEpoch q) \<longleftrightarrow> True"
| "call_wf (Call_CompleteReconciliation q) \<longleftrightarrow> True"

primrec call_operation :: "(bytes \<Rightarrow> Digest) \<Rightarrow> SimpleCall \<Rightarrow> unit op" where
  "call_operation H (Call_RevokeLease q) = revoke_lease H (lk_lease q) (lk_reason q) (lk_detail q)"
| "call_operation H (Call_ReportObservation q) = report_observation H (oq_observation q)"
| "call_operation H (Call_AdvanceTime q) = advance_time H (ta_to q)"
| "call_operation H (Call_FenceMember q) =
     fence_member H (mq_subject q) (mq_lineage q) (mq_reason q) (mq_detail q)"
| "call_operation H (Call_AdvanceEpoch q) = advance_epoch H (mq_epoch q) (mq_reason q) (mq_detail q)"
| "call_operation H (Call_CompleteReconciliation q) = complete_reconciliation H (mq_epoch q)"

primrec call_accepted :: "SimpleCall \<Rightarrow> string" where
  "call_accepted (Call_RevokeLease q) = ''lease revoked''"
| "call_accepted (Call_ReportObservation q) = ''observation recorded''"
| "call_accepted (Call_AdvanceTime q) = ''logical clock advanced''"
| "call_accepted (Call_FenceMember q) = ''accepted''"
| "call_accepted (Call_AdvanceEpoch q) = ''accepted''"
| "call_accepted (Call_CompleteReconciliation q) = ''accepted''"

lemma call_dispatched:
  "is_ok (encode_call q) \<Longrightarrow> call_wf q \<Longrightarrow>
     answer_message H \<lparr>ms_type = call_type q, ms_payload = projr (encode_call q)\<rparr> srv =
     answer_after (reported (call_accepted q) (call_operation H q (srv_coordinator srv)))
       (\<lambda>r. answer_with Message_SimpleResult (encode_simple_response r))"
  by (cases q) (simp_all add: remote_operation_simps member_operation_def)

text \<open>
  One interpretation per call, over the calls of that shape; the contract is for a fixed message type,
  so that it is interpreted for the type of a given call.
\<close>

interpretation simple: remote_operation H "call_type q" Message_SimpleResult
  encode_call "\<lambda>q'. call_wf q' \<and> call_type q' = call_type q"
  "\<lambda>q srv. reported (call_accepted q) (call_operation H q (srv_coordinator srv))"
  encode_simple_response "\<lambda>_. True" decode_simple_response for H q
proof
  show "accepted_type (call_type q)" by (cases q) simp_all
qed (use call_dispatched in \<open>metis, simp add: remote_operation_simps\<close>)

text \<open>The queries: the request has no payload.\<close>

definition no_payload :: "unit \<Rightarrow> bytes result" where
  "no_payload u = Inr []"

interpretation digest_query: remote_operation H Message_QueryDigest Message_DigestValue
  no_payload "\<lambda>_. True" "\<lambda>_ srv. (Inr (digest_response_of (server_stats H srv)), srv_coordinator srv)"
  encode_digest_response "\<lambda>_. True" decode_digest_response for H
  by unfold_locales (simp_all add: remote_operation_simps answer_after_def)

interpretation stats_query: remote_operation H Message_StatsQuery Message_StatsValue
  no_payload "\<lambda>_. True" "\<lambda>_ srv. (Inr (stats_response_of (server_stats H srv)), srv_coordinator srv)"
  encode_stats_response "\<lambda>_. True" decode_stats_response for H
  by unfold_locales (simp_all add: remote_operation_simps answer_after_def)

interpretation lease_query: remote_operation H Message_QueryLeases Message_LeaseListValue
  no_payload "\<lambda>_. True"
  "\<lambda>_ srv. (Inr \<lparr>ll_leases = coordinator_leases (srv_coordinator srv)\<rparr>, srv_coordinator srv)"
  encode_lease_list lease_list_wf decode_lease_list for H
  by unfold_locales (simp_all add: remote_operation_simps answer_after_def)

interpretation state_query: remote_operation H Message_QueryState Message_StateValue
  no_payload "\<lambda>_. True"
  "\<lambda>_ srv. mapped (\<lambda>st. \<lparr>sv_state_digest = state_digest H st,
       sv_json = jw_out (render_state_json H st (json_writer False))\<rparr>)
     (coordinator_state H (srv_coordinator srv), srv_coordinator srv)"
  encode_state_response "\<lambda>_. True" decode_state_response for H
  by unfold_locales (simp_all add: remote_operation_simps answer_after_def mapped_def split: sum.split)

section \<open>Properties\<close>

text \<open>
  C13: a call is the operation. When a client makes one of the six calls that are answered by a simple
  response over a working connection, the coordinator has performed exactly the operation that was
  asked for, and the client is told its outcome: the code ok when it succeeded, and otherwise the code
  and the text of the status the operation failed with.
\<close>

theorem simple_calls_are_operations:
  assumes "encode_call q = Inr bs" "call_wf q" "carries H (call_type q) bs cl srv srv'"
  shows "\<exists>r. call_operation H q (srv_coordinator srv) = (r, srv_coordinator srv') \<and>
    fst (simple_call H (call_type q) (encode_call q) cl) =
      Inr (case r of
             Inr _ \<Rightarrow> \<lparr>sp_code = 0, sp_detail = call_accepted q, sp_state_digest = 0\<rparr>
           | Inl s \<Rightarrow> \<lparr>sp_code = error_code_wire (st_code s), sp_detail = st_message s,
                       sp_state_digest = 0\<rparr>)"
proof -
  have "reported (call_accepted q) (call_operation H q (srv_coordinator srv)) =
      (fst (simple_call H (call_type q) (encode_call q) cl), srv_coordinator srv')"
    unfolding simple_call_def by (rule simple.remote [OF assms(1) _ assms(3)]) (use assms(2) in simp_all)
  then show ?thesis
    by (cases "call_operation H q (srv_coordinator srv)")
      (simp add: reported_def eq_commute [of _ "fst (simple_call _ _ _ _)"] split: sum.split)
qed

end
