(* ===== verification/Member.thy ===== *)
theory Member
  imports Client
begin

text \<open>
  The runtime of a member (\<^verbatim>\<open>member_runtime.cpp\<close>): its configuration and state, the artefacts it
  issues, the operations that build and submit them over its client, its authority questions, and
  the reachability probes it makes and answers. \<open>H\<close> is the digest function. Random request
  identifiers and what the operating system answers to a connection or to a bind are arguments.
  The thread that answers probes handles one connection at a time; \<open>answer_probe\<close> is one turn of it.

  The lemmas show that what a member issues passes the validation of the coordinator, and what a
  probe that reports a peer reachable has seen.
\<close>

section \<open>State\<close>

record MemberConfig =
  mg_federation :: FederationId
  mg_constitution :: MemberConstitution
  mg_node :: NodeId
  mg_incarnation :: Incarnation
  mg_coordinator :: Endpoint
  mg_probe_port :: u16
  mg_listen_for_probes :: bool
  mg_initial_tick :: Tick

record MemberRuntime =
  mr_config :: MemberConfig
  mr_catalog :: ScopeCatalog
  mr_client :: CoordinatorClient
  mr_attached :: bool
  mr_tick :: Tick
  mr_epoch :: Epoch
  mr_clock_current :: bool
  mr_probe_open :: bool
  mr_listener_port :: u16
  mr_bound_probe_port :: u16

type_synonym 'a member_op = "MemberRuntime \<Rightarrow> 'a result \<times> MemberRuntime"

definition blank_welcome :: WelcomeResponse where
  "blank_welcome =
     \<lparr>wr_federation = 0, wr_coordinator = 0, wr_coordinator_incarnation = 0, wr_epoch = 0,
      wr_logical_time = 0, wr_state_digest = 0, wr_policy_id = [], wr_policy_generation = 0,
      wr_protocol_version = kWireProtocolVersion, wr_detail = []\<rparr>"

definition member_create :: "MemberConfig \<Rightarrow> MemberRuntime result" where
  "member_create config =
     (if is_nil (mg_federation config) then
        Fail Error_InvalidArgument ''a member requires a federation identity''
      else if is_nil (mg_node config) then
        Fail Error_InvalidArgument ''a member requires a node identity''
      else if is_nil (mc_member (mg_constitution config)) then
        Fail Error_InvalidArgument ''a member requires a member identity''
      else case validate_constitution (mg_constitution config) builtin of
        Inl s \<Rightarrow> Fail Error_InvalidArgument
          (''the member constitution is not valid: '' @ status_to_string s)
      | Inr _ \<Rightarrow> Inr
          \<lparr>mr_config = config, mr_catalog = builtin,
           mr_client = \<lparr>cl_socket = None, cl_welcome = blank_welcome\<rparr>, mr_attached = False,
           mr_tick = mg_initial_tick config, mr_epoch = 1, mr_clock_current = False,
           mr_probe_open = False, mr_listener_port = 0, mr_bound_probe_port = 0\<rparr>)"

text \<open>
  A status the code passes on as a status: one whose code is ok counts as success. A peer can send
  an error message that carries that code.
\<close>

definition as_check :: "Status \<Rightarrow> check" where
  "as_check s = (if st_code s = Error_Ok then success else Inl s)"

definition with_client :: "'a client_op \<Rightarrow> 'a member_op" where
  "with_client call rt =
     (case call (mr_client rt) of (r, cl) \<Rightarrow> (r, rt\<lparr>mr_client := cl\<rparr>))"

definition refresh_clock :: "(bytes \<Rightarrow> Digest) \<Rightarrow> unit member_op" where
  "refresh_clock H rt =
     (case with_client (client_query_digest H) rt of
        (Inl e, rt) \<Rightarrow> (as_check e, rt\<lparr>mr_clock_current := False\<rparr>)
      | (Inr d, rt) \<Rightarrow>
          (success, rt\<lparr>mr_tick := dg_logical_time d, mr_epoch := dg_epoch d,
                       mr_clock_current := True\<rparr>))"

text \<open>\<open>bind\<close> is what the operating system answers to a bind of the requested port.\<close>

definition start_probe_listener :: "(u16 \<Rightarrow> u16 result) \<Rightarrow> unit member_op" where
  "start_probe_listener bind rt =
     (if mr_probe_open rt then (success, rt)
      else
        let requested = (if mg_probe_port (mr_config rt) \<noteq> 0 then mg_probe_port (mr_config rt)
                         else mr_bound_probe_port rt) in
        case bind requested of
          Inl e \<Rightarrow> (Inl e, rt)
        | Inr port \<Rightarrow>
            (success, rt\<lparr>mr_listener_port := port, mr_bound_probe_port := port,
                         mr_probe_open := True\<rparr>))"

definition stop_probe_listener :: "unit member_op" where
  "stop_probe_listener rt =
     (if \<not> mr_probe_open rt then (success, rt) else (success, rt\<lparr>mr_probe_open := False\<rparr>))"

definition attach ::
  "(bytes \<Rightarrow> Digest) \<Rightarrow> Socket result \<Rightarrow> (u16 \<Rightarrow> u16 result) \<Rightarrow> unit member_op" where
  "attach H attempt bind rt =
     (if mr_attached rt then (success, rt)
      else
        let config = mr_config rt in
        case client_connect H (mg_coordinator config) (mg_federation config) (mg_node config)
            (mg_incarnation config) attempt of
          Inl e \<Rightarrow> (as_check e, rt)
        | Inr cl \<Rightarrow>
            (case refresh_clock H (rt\<lparr>mr_client := cl, mr_attached := True,
                 mr_tick := wr_logical_time (cl_welcome cl)\<rparr>) of
               (Inl e, rt) \<Rightarrow> (Inl e, rt)
             | (Inr _, rt) \<Rightarrow>
                 if mg_listen_for_probes (mr_config rt) \<and> \<not> mr_probe_open rt
                 then start_probe_listener bind rt else (success, rt)))"

definition detach :: "(bytes \<Rightarrow> Digest) \<Rightarrow> unit member_op" where
  "detach H rt =
     (if \<not> mr_attached rt then (success, rt)
      else (success, rt\<lparr>mr_attached := False, mr_client := fst (client_close H (mr_client rt))\<rparr>))"

section \<open>Artefacts\<close>

definition make_declaration :: "MemberConfig \<Rightarrow> Tick \<Rightarrow> MemberDeclaration" where
  "make_declaration config tick =
     \<lparr>md_constitution = mg_constitution config, md_incarnation = mg_incarnation config,
      md_node = mg_node config, md_declared_at = tick\<rparr>"

definition member_identity :: "(bytes \<Rightarrow> Digest) \<Rightarrow> MemberRuntime \<Rightarrow> MemberIdentity" where
  "member_identity H rt = declaration_identity H (make_declaration (mr_config rt) (mr_tick rt))"

definition make_envelope ::
  "(bytes \<Rightarrow> Digest) \<Rightarrow> MemberConfig \<Rightarrow> Tick \<Rightarrow> ArtifactKind \<Rightarrow> MemberId \<Rightarrow> ArtifactEnvelope" where
  "make_envelope H config tick kind subject =
     \<lparr>en_evidence = 0, en_kind = kind, en_federation = mg_federation config, en_subject = subject,
      en_issuer =
        \<lparr>pv_node = mg_node config, pv_member = mc_member (mg_constitution config),
         pv_generation = mc_generation (mg_constitution config),
         pv_incarnation = mg_incarnation config,
         pv_constitution = constitution_digest H (mg_constitution config), pv_epoch = 0,
         pv_issued_at = tick\<rparr>,
      en_body_digest = 0\<rparr>"

text \<open>The identifier of a piece of evidence depends on its body, not on the rest of its envelope.\<close>

definition member_evidence_id ::
  "(bytes \<Rightarrow> Digest) \<Rightarrow> FederationId \<Rightarrow> MemberId \<Rightarrow> ArtifactKind \<Rightarrow> Digest \<Rightarrow> EvidenceId" where
  "member_evidence_id H federation member kind digest =
     id_of_digest (digest_of H (w_seq
       [w_id16 federation, w_id16 member, w_u16 (kind_wire kind), w_digest digest]))"

text \<open>The end of every builder: envelope, epoch stamp, body digest and evidence identifier.\<close>

definition issue_artifact ::
  "(bytes \<Rightarrow> Digest) \<Rightarrow> ArtifactKind \<Rightarrow> MemberId \<Rightarrow> ArtifactBody \<Rightarrow> MemberRuntime \<Rightarrow> Artifact" where
  "issue_artifact H kind subject body rt =
     (let config = mr_config rt;
          envelope = make_envelope H config (mr_tick rt) kind subject;
          envelope = envelope\<lparr>en_issuer := (en_issuer envelope)\<lparr>pv_epoch := mr_epoch rt\<rparr>\<rparr>;
          artifact = make_artifact H envelope body
      in artifact\<lparr>ar_envelope := (ar_envelope artifact)
           \<lparr>en_evidence := member_evidence_id H (mg_federation config)
              (mc_member (mg_constitution config)) kind (body_digest H (ar_body artifact))\<rparr>\<rparr>)"

abbreviation own_member :: "MemberRuntime \<Rightarrow> MemberId" where
  "own_member rt \<equiv> mc_member (mg_constitution (mr_config rt))"

definition build_proposal ::
  "(bytes \<Rightarrow> Digest) \<Rightarrow> MemberDeclaration \<Rightarrow> Lineage \<Rightarrow> MemberRuntime \<Rightarrow> Artifact result" where
  "build_proposal H candidate lineage rt =
     Inr (issue_artifact H Kind_MembershipProposal (mc_member (md_constitution candidate))
       (empty_body
          \<lparr>ab_declaration := candidate, ab_declared_identity := declaration_identity H candidate,
           ab_lineage := lineage, ab_epoch := mr_epoch rt, ab_logical_time := 0\<rparr>) rt)"

definition build_acceptance ::
  "(bytes \<Rightarrow> Digest) \<Rightarrow> Lineage \<Rightarrow> MemberRuntime \<Rightarrow> Artifact result" where
  "build_acceptance H lineage rt =
     (let declaration = make_declaration (mr_config rt) (mr_tick rt) in
      Inr (issue_artifact H Kind_MembershipAcceptance (own_member rt)
        (empty_body
           \<lparr>ab_declaration := declaration,
            ab_declared_identity := declaration_identity H declaration,
            ab_lineage := lineage, ab_epoch := mr_epoch rt\<rparr>) rt))"

definition build_endorsement ::
  "(bytes \<Rightarrow> Digest) \<Rightarrow> MemberDeclaration \<Rightarrow> Lineage \<Rightarrow> MemberRuntime \<Rightarrow> Artifact result" where
  "build_endorsement H candidate lineage rt =
     Inr (issue_artifact H Kind_MembershipEndorsement (mc_member (md_constitution candidate))
       (empty_body
          \<lparr>ab_declaration := candidate, ab_declared_identity := declaration_identity H candidate,
           ab_lineage := lineage, ab_epoch := mr_epoch rt\<rparr>) rt)"

definition build_reattestation :: "(bytes \<Rightarrow> Digest) \<Rightarrow> MemberRuntime \<Rightarrow> Artifact result" where
  "build_reattestation H rt =
     (let declaration = make_declaration (mr_config rt) (mr_tick rt) in
      Inr (issue_artifact H Kind_MemberReattestation (own_member rt)
        (empty_body
           \<lparr>ab_declaration := declaration,
            ab_declared_identity := declaration_identity H declaration,
            ab_epoch := mr_epoch rt\<rparr>) rt))"

definition build_delegation_declaration ::
  "(bytes \<Rightarrow> Digest) \<Rightarrow> DelegationTerms list \<Rightarrow> MemberRuntime \<Rightarrow> Artifact result" where
  "build_delegation_declaration H terms rt =
     (let updated = (mg_constitution (mr_config rt))\<lparr>mc_delegated := terms\<rparr> in
      case validate_constitution updated builtin of
        Inl s \<Rightarrow> Fail Error_InvalidArgument
          (''the delegation declaration is not valid: '' @ status_to_string s)
      | Inr _ \<Rightarrow>
          let declaration =
                (make_declaration (mr_config rt) (mr_tick rt))\<lparr>md_constitution := updated\<rparr> in
          Inr (issue_artifact H Kind_DelegationDeclaration (own_member rt)
            (empty_body
               \<lparr>ab_declaration := declaration,
                ab_declared_identity := declaration_identity H declaration,
                ab_delegated_terms := terms, ab_epoch := mr_epoch rt\<rparr>) rt))"

definition build_withdrawal ::
  "(bytes \<Rightarrow> Digest) \<Rightarrow> ScopeGrant list \<Rightarrow> Lineage \<Rightarrow> MemberRuntime \<Rightarrow> Artifact result" where
  "build_withdrawal H grants lineage rt =
     (if grants = [] then
        Fail Error_InvalidArgument ''a withdrawal must name at least one grant''
      else
        Inr (issue_artifact H Kind_DelegationWithdrawal (own_member rt)
          (empty_body
             \<lparr>ab_declared_identity := member_identity H rt,
              ab_withdrawn_grants := canonicalize_grants grants, ab_lineage := lineage,
              ab_epoch := mr_epoch rt\<rparr>) rt))"

definition build_leave ::
  "(bytes \<Rightarrow> Digest) \<Rightarrow> Lineage \<Rightarrow> ReasonCode \<Rightarrow> string \<Rightarrow> MemberRuntime \<Rightarrow> Artifact result" where
  "build_leave H lineage reason detail rt =
     Inr (issue_artifact H Kind_MembershipLeave (own_member rt)
       (empty_body
          \<lparr>ab_declared_identity := member_identity H rt, ab_lineage := lineage,
           ab_epoch := mr_epoch rt, ab_reason_code := reason, ab_reason_text := detail,
           ab_outcome := Outcome_Refused\<rparr>) rt)"

definition build_self_fence ::
  "(bytes \<Rightarrow> Digest) \<Rightarrow> Lineage \<Rightarrow> ReasonCode \<Rightarrow> string \<Rightarrow> MemberRuntime \<Rightarrow> Artifact result" where
  "build_self_fence H lineage reason detail rt =
     Inr (issue_artifact H Kind_MembershipFence (own_member rt)
       (empty_body
          \<lparr>ab_declared_identity := member_identity H rt, ab_lineage := lineage,
           ab_epoch := mr_epoch rt, ab_fence_reason := reason, ab_reason_code := reason,
           ab_reason_text := detail, ab_outcome := Outcome_Fenced\<rparr>) rt)"

section \<open>Submission\<close>

definition not_attached :: "'a result" where
  "not_attached = Fail Error_NotInitialized ''the member is not attached to a coordinator''"

definition member_submit :: "(bytes \<Rightarrow> Digest) \<Rightarrow> Artifact \<Rightarrow> ArtifactResponse member_op" where
  "member_submit H a rt =
     (if \<not> mr_attached rt then (not_attached, rt)
      else if \<not> mr_clock_current rt then
        (Fail Error_Stale
           ''the member's cached epoch is not current; refresh before issuing evidence'', rt)
      else case with_client (client_submit H a) rt of
        (Inl e, rt) \<Rightarrow> (Inl e, rt)
      | (Inr r, rt) \<Rightarrow> (Inr r, snd (refresh_clock H rt)))"

text \<open>Refresh the clock when attached, build, and submit what was built.\<close>

definition build_and_submit ::
  "(bytes \<Rightarrow> Digest) \<Rightarrow> (MemberRuntime \<Rightarrow> Artifact result) \<Rightarrow> ArtifactResponse member_op" where
  "build_and_submit H build rt =
     (case (if mr_attached rt then refresh_clock H rt else (success, rt)) of
        (Inl e, rt) \<Rightarrow> (Inl e, rt)
      | (Inr _, rt) \<Rightarrow>
          (case build rt of Inl e \<Rightarrow> (Inl e, rt) | Inr a \<Rightarrow> member_submit H a rt))"

definition member_propose ::
  "(bytes \<Rightarrow> Digest) \<Rightarrow> MemberDeclaration \<Rightarrow> Lineage \<Rightarrow> ArtifactResponse member_op" where
  "member_propose H candidate lineage = build_and_submit H (build_proposal H candidate lineage)"

definition member_accept :: "(bytes \<Rightarrow> Digest) \<Rightarrow> Lineage \<Rightarrow> ArtifactResponse member_op" where
  "member_accept H lineage = build_and_submit H (build_acceptance H lineage)"

definition member_endorse ::
  "(bytes \<Rightarrow> Digest) \<Rightarrow> MemberDeclaration \<Rightarrow> Lineage \<Rightarrow> ArtifactResponse member_op" where
  "member_endorse H candidate lineage = build_and_submit H (build_endorsement H candidate lineage)"

definition member_reattest :: "(bytes \<Rightarrow> Digest) \<Rightarrow> ArtifactResponse member_op" where
  "member_reattest H = build_and_submit H (build_reattestation H)"

definition member_declare_delegation ::
  "(bytes \<Rightarrow> Digest) \<Rightarrow> DelegationTerms list \<Rightarrow> ArtifactResponse member_op" where
  "member_declare_delegation H terms = build_and_submit H (build_delegation_declaration H terms)"

definition member_withdraw ::
  "(bytes \<Rightarrow> Digest) \<Rightarrow> ScopeGrant list \<Rightarrow> Lineage \<Rightarrow> ArtifactResponse member_op" where
  "member_withdraw H grants lineage = build_and_submit H (build_withdrawal H grants lineage)"

definition member_leave :: "(bytes \<Rightarrow> Digest) \<Rightarrow> Lineage \<Rightarrow> ArtifactResponse member_op" where
  "member_leave H lineage = build_and_submit H (build_leave H lineage Reason_MembershipLeaving
     ''the member left the federation; its local authority is untouched'')"

definition member_self_fence ::
  "(bytes \<Rightarrow> Digest) \<Rightarrow> Lineage \<Rightarrow> ReasonCode \<Rightarrow> string \<Rightarrow> ArtifactResponse member_op" where
  "member_self_fence H lineage reason detail =
     build_and_submit H (build_self_fence H lineage reason detail)"

text \<open>A restart does not refresh the clock first.\<close>

definition restart_with_new_incarnation ::
  "(bytes \<Rightarrow> Digest) \<Rightarrow> Incarnation \<Rightarrow> ArtifactResponse member_op" where
  "restart_with_new_incarnation H new_incarnation rt =
     (if \<not> mg_incarnation (mr_config rt) < new_incarnation then
        (Fail Error_InvalidArgument ''a restart must use a strictly greater incarnation'', rt)
      else
        let rt = rt\<lparr>mr_config := (mr_config rt)\<lparr>mg_incarnation := new_incarnation\<rparr>\<rparr> in
        case build_reattestation H rt of
          Inl e \<Rightarrow> (Inl e, rt)
        | Inr a \<Rightarrow> member_submit H a rt)"

section \<open>Authority and leases\<close>

definition evaluate_local ::
  "(bytes \<Rightarrow> Digest) \<Rightarrow> ScopeGrant \<Rightarrow> MemberRuntime \<Rightarrow> AuthorityDecision" where
  "evaluate_local H g rt =
     evaluate_local_authority H (mg_constitution (mr_config rt)) g (mr_tick rt)"

text \<open>\<open>new_id\<close> is the random identifier of the request.\<close>

definition request_authority ::
  "(bytes \<Rightarrow> Digest) \<Rightarrow> RequestId \<Rightarrow> ScopeGrant \<Rightarrow> LeaseId \<Rightarrow> AuthorityDecision member_op" where
  "request_authority H new_id g lease rt =
     (if \<not> mr_attached rt then (not_attached, rt)
      else case with_client (client_query_digest H) rt of
        (Inl e, rt) \<Rightarrow> (Inl e, rt)
      | (Inr d, rt) \<Rightarrow>
          let rt = rt\<lparr>mr_tick := dg_logical_time d\<rparr>;
              q = \<lparr>rq_id = new_id, rq_federation = mg_federation (mr_config rt),
                   rq_epoch_seen = dg_epoch d, rq_actor = member_identity H rt,
                   rq_requested = g, rq_lease = lease, rq_issued_at = mr_tick rt,
                   rq_constraint = []\<rparr> in
          (case with_client (client_query_authority H q) rt of
             (Inl e, rt) \<Rightarrow> (Inl e, rt)
           | (Inr ad, rt) \<Rightarrow>
               (case with_client (client_query_digest H) rt of
                  (Inl _, rt) \<Rightarrow> (Inr ad, rt)
                | (Inr after, rt) \<Rightarrow> (Inr ad, rt\<lparr>mr_tick := dg_logical_time after\<rparr>))))"

definition coordinator_digest :: "(bytes \<Rightarrow> Digest) \<Rightarrow> DigestResponse member_op" where
  "coordinator_digest H rt =
     (if \<not> mr_attached rt then (not_attached, rt)
      else case with_client (client_query_digest H) rt of
        (Inl e, rt) \<Rightarrow> (Inl e, rt)
      | (Inr d, rt) \<Rightarrow> (Inr d, rt\<lparr>mr_tick := dg_logical_time d\<rparr>))"

definition member_request_lease ::
  "(bytes \<Rightarrow> Digest) \<Rightarrow> ScopeGrant list \<Rightarrow> Epoch \<Rightarrow> Tick \<Rightarrow> MemberRuntime \<Rightarrow>
   (u16 \<times> string + AuthorityLease) \<times> MemberRuntime" where
  "member_request_lease H scopes not_after_epoch lifetime_ticks rt =
     (if \<not> mr_attached rt then
        (Inl (wire_status (make_status Error_NotInitialized
           ''the member is not attached to a coordinator'')), rt)
      else case client_issue_lease H
             \<lparr>li_holder = own_member rt, li_scopes = scopes, li_not_after_epoch = not_after_epoch,
              li_lifetime_ticks = lifetime_ticks\<rparr> (mr_client rt) of
        (r, cl) \<Rightarrow> (r, rt\<lparr>mr_client := cl\<rparr>))"

record MemberStatus =
  mt_lifecycle :: MemberLifecycleState
  mt_identity :: MemberIdentity
  mt_epoch :: Epoch
  mt_logical_time :: Tick
  mt_state_digest :: Digest
  mt_local_authority :: "ScopeGrant list"
  mt_federation_authority :: "ScopeGrant list"
  mt_withheld :: "ScopeGrant list"
  mt_contributing_parties :: nat

definition blank_status :: MemberStatus where
  "blank_status =
     \<lparr>mt_lifecycle = Lifecycle_Absent, mt_identity = empty_identity, mt_epoch = 0,
      mt_logical_time = 0, mt_state_digest = 0, mt_local_authority = [],
      mt_federation_authority = [], mt_withheld = [], mt_contributing_parties = 0\<rparr>"

text \<open>\<^verbatim>\<open>std::string::find\<close>, as a test.\<close>

fun text_occurs :: "string \<Rightarrow> string \<Rightarrow> bool" where
  "text_occurs needle [] \<longleftrightarrow> needle = []"
| "text_occurs needle (c # cs) \<longleftrightarrow>
     take (length needle) (c # cs) = needle \<or> text_occurs needle cs"

definition member_status :: "(bytes \<Rightarrow> Digest) \<Rightarrow> MemberStatus member_op" where
  "member_status H rt =
     (if \<not> mr_attached rt then (not_attached, rt)
      else case with_client (client_query_state H) rt of
        (Inl e, rt) \<Rightarrow> (Inl e, rt)
      | (Inr sv, rt) \<Rightarrow>
          let st = blank_status\<lparr>mt_state_digest := sv_state_digest sv\<rparr>;
              st = (if \<not> text_occurs (member_to_string (own_member rt)) (sv_json sv)
                    then st\<lparr>mt_lifecycle := Lifecycle_Absent\<rparr> else st);
              st = st\<lparr>mt_identity := member_identity H rt,
                      mt_local_authority := mc_retained (mg_constitution (mr_config rt))\<rparr> in
          (case with_client (client_query_digest H) rt of
             (Inl _, rt) \<Rightarrow> (Inr st, rt)
           | (Inr d, rt) \<Rightarrow>
               (Inr (st\<lparr>mt_epoch := dg_epoch d, mt_logical_time := dg_logical_time d\<rparr>),
                rt\<lparr>mr_tick := dg_logical_time d\<rparr>)))"

section \<open>Probes\<close>

record PeerTarget =
  pt_member :: MemberId
  pt_endpoint :: Endpoint

definition probe_hello :: "MemberConfig \<Rightarrow> HelloRequest" where
  "probe_hello config =
     \<lparr>hr_federation = mg_federation config, hr_node = mg_node config,
      hr_incarnation = mg_incarnation config, hr_protocol_version = kWireProtocolVersion,
      hr_product = ''ffed-probe''\<rparr>"

text \<open>What came of one probe: the state, the incarnation that was reported, and the detail.\<close>

type_synonym sighting = "ReachabilityState \<times> Incarnation \<times> string"

definition ask_probe ::
  "(bytes \<Rightarrow> Digest) \<Rightarrow> MemberConfig \<Rightarrow> PeerTarget \<Rightarrow> Socket result \<Rightarrow> sighting" where
  "ask_probe H config target attempt =
     (case socket_connect (pt_endpoint target) attempt of
        Inl e \<Rightarrow> (Reach_Unreachable, 0, st_message e)
      | Inr s \<Rightarrow>
          (case (case encode_hello (probe_hello config) of
                   Inl e \<Rightarrow> (Inl e, s)
                 | Inr bs \<Rightarrow> write_message H Message_ProbeRequest bs s) of
             (Inl e, _) \<Rightarrow> (Reach_Unreachable, 0, st_message e)
           | (Inr _, s) \<Rightarrow>
               (case read_message H kMaxFramePayloadBytes s of
                  (Inl e, _) \<Rightarrow> (Reach_Unreachable, 0, st_message e)
                | (Inr m, _) \<Rightarrow>
                    (case r_whole decode_probe_response (ms_payload m) of
                       Inl _ \<Rightarrow> (Reach_Unknown, 0,
                         ''the peer answered something this runtime does not understand'')
                     | Inr p \<Rightarrow>
                         if ms_type m \<noteq> Message_ProbeResult then
                           (Reach_Unknown, 0,
                            ''the peer answered something this runtime does not understand'')
                         else if pb_member p \<noteq> pt_member target then
                           (Reach_Unknown, 0,
                            ''the peer at this endpoint reports a different member identity'')
                         else (Reach_Reachable, pb_incarnation p,
                               ''reached '' @ node_to_string (pb_node p))))))"

definition probe_entry :: "Tick \<Rightarrow> PeerTarget \<Rightarrow> sighting \<Rightarrow> PeerObservation" where
  "probe_entry at target seen =
     (case seen of (state, incarnation, detail) \<Rightarrow>
        \<lparr>po_peer = pt_member target, po_peer_incarnation = incarnation, po_state = state,
         po_observed_at = at, po_detail = detail\<rparr>)"

definition probe_clock :: "(bytes \<Rightarrow> Digest) \<Rightarrow> MemberRuntime \<Rightarrow> MemberRuntime" where
  "probe_clock H rt =
     (if mr_attached rt then
        (case refresh_clock H rt of
           (Inl _, rt) \<Rightarrow> rt\<lparr>mr_clock_current := False\<rparr> | (Inr _, rt) \<Rightarrow> rt)
      else rt)"

text \<open>The targets come with the outcome of the connection attempt to each.\<close>

definition probe_peers ::
  "(bytes \<Rightarrow> Digest) \<Rightarrow> (PeerTarget \<times> Socket result) list \<Rightarrow> MemberRuntime \<Rightarrow>
   MemberObservation \<times> MemberRuntime" where
  "probe_peers H targets rt =
     (let rt = probe_clock H rt
      in (\<lparr>ob_observer = own_member rt, ob_observer_incarnation = mg_incarnation (mr_config rt),
           ob_epoch = (if mr_attached rt then mr_epoch rt else 0), ob_recorded_at = mr_tick rt,
           ob_peers = map (\<lambda>(target, attempt).
             probe_entry (mr_tick rt) target (ask_probe H (mr_config rt) target attempt)) targets\<rparr>,
          rt))"

definition member_report_observation ::
  "(bytes \<Rightarrow> Digest) \<Rightarrow> MemberObservation \<Rightarrow> SimpleResponse member_op" where
  "member_report_observation H ob rt =
     (if \<not> mr_attached rt then (not_attached, rt)
      else with_client (client_report_observation H ob) rt)"

definition probe_response :: "(bytes \<Rightarrow> Digest) \<Rightarrow> MemberRuntime \<Rightarrow> ProbeResponse" where
  "probe_response H rt =
     \<lparr>pb_federation = mg_federation (mr_config rt), pb_member = own_member rt,
      pb_incarnation = mg_incarnation (mr_config rt), pb_node = mg_node (mr_config rt),
      pb_epoch = (if mr_attached rt then wr_epoch (cl_welcome (mr_client rt)) else 0),
      pb_logical_time = mr_tick rt,
      pb_constitution = constitution_digest H (mg_constitution (mr_config rt))\<rparr>"

text \<open>One accepted connection of the probe listener.\<close>

definition answer_probe :: "(bytes \<Rightarrow> Digest) \<Rightarrow> MemberRuntime \<Rightarrow> Socket \<Rightarrow> Socket" where
  "answer_probe H rt s =
     (case read_message H kMaxFramePayloadBytes s of
        (Inl _, s) \<Rightarrow> s
      | (Inr m, s) \<Rightarrow>
          if ms_type m \<noteq> Message_ProbeRequest then s
          else (case r_whole decode_hello (ms_payload m) of
              Inl _ \<Rightarrow> s
            | Inr hello \<Rightarrow>
                if hr_federation hello \<noteq> mg_federation (mr_config rt) then s
                else (case encode_probe_response (probe_response H rt) of
                    Inl _ \<Rightarrow> s
                  | Inr bs \<Rightarrow> snd (write_message H Message_ProbeResult bs s))))"

definition member_describe :: "MemberRuntime \<Rightarrow> string" where
  "member_describe rt =
     (let config = mr_config rt in
      ''member '' @ member_to_string (own_member rt) @ '' node='' @ node_to_string (mg_node config) @
      '' generation='' @ word_to_string (mc_generation (mg_constitution config)) @
      '' incarnation='' @ word_to_string (mg_incarnation config) @
      (if mr_attached rt then '' attached to '' else '' detached from '') @
      endpoint_to_string (mg_coordinator config) @
      (if mr_probe_open rt
       then '' probe-listener=127.0.0.1:'' @ word_to_string (mr_listener_port rt) else []))"

end
