(* ===== verification/Coordinator_Laws.thy ===== *)
theory Coordinator_Laws
  imports Restart
begin

text \<open>
  What a coordinator promises over its whole life on a disk that does not fail: a request is decided
  once, a revoked lease stays revoked, incarnations grow, and what becomes of a revocation that fails.
\<close>

section \<open>The derived ledger\<close>

lemma set_unique_ledger [simp]: "set (unique_ledger es) = set es"
  by (simp add: unique_ledger_def)

lemma length_unique_ledger: "length (unique_ledger es) \<le> length es"
  by (metis unique_ledger_def remdups_adj_length length_sort)

lemma bound_ledger_whole:
  "length es \<le> kMaxReplayEntries \<Longrightarrow> fs_replay_ledger (bound_ledger es st) = unique_ledger es"
  using length_unique_ledger [of es] by (simp add: bound_ledger_def Let_def)

lemma settled_ledger:
  "length (di_replay_ledger inputs) \<le> kMaxReplayEntries \<Longrightarrow>
   fs_replay_ledger (settle_members H inputs catalog policy accepted order active ds converged st) =
     unique_ledger (di_replay_ledger inputs)"
  by (simp add: settle_members_def Let_def bound_ledger_whole case_prod_unfold)

lemma derived_ledger:
  assumes "derive_locked H c = Inr st" "length (co_replay c) \<le> kMaxReplayEntries"
  shows "fs_replay_ledger st = unique_ledger (co_replay c)"
proof -
  from assms(1) obtain dr where "derive_state H (derivation_inputs c) = Inr dr" "st = dr_state dr"
    by (auto simp: derive_locked_def split: sum.splits)
  moreover have "di_replay_ledger (derivation_inputs c) = co_replay c" by (simp add: derivation_inputs_def)
  ultimately show ?thesis using assms(2)
    by (auto simp: derive_state_def Let_def settled_ledger case_prod_unfold split: option.splits if_splits)
qed

lemma decided_not_granted:
  assumes "coordinator_evaluate H rq c = (Inr ad, c')"
    and "rq_id rq \<in> re_request ` set (co_replay c)" "length (co_replay c) \<le> kMaxReplayEntries"
  shows "ad_outcome ad \<noteq> Outcome_Granted"
  using assms(1)
proof (cases rule: evaluate_cases)
  case unchanged
  then show ?thesis by simp
next
  case (repeated st)
  have "has_replay st (rq_id rq)"
    using derived_ledger [OF repeated(1) assms(3)] assms(2) by (auto simp: has_replay_def)
  with repeated(4) show ?thesis
    by (simp add: granted_authority_iff granted_steps)
next
  case (recorded st bs c1 entry)
  have "has_replay st (rq_id rq)"
    using derived_ledger [OF recorded(1) assms(3)] assms(2) by (auto simp: has_replay_def)
  with recorded(7) show ?thesis
    by (simp add: granted_authority_iff granted_steps)
qed simp

lemma journaled_remembers:
  assumes "sound H rs c" "x \<in> re_request ` set (co_replay c)" "sound H (rs @ ext) c'"
  shows "x \<in> re_request ` set (co_replay c')"
proof -
  have "set (map re_request (co_replay c)) \<subseteq> set (map re_request (co_replay c'))"
    using assms(1,3) unfolding sound_def recorded_def by simp
  with assms(2) show ?thesis by auto
qed

lemma decided_once:
  assumes "reachable H c" "distinct_lease_names H (cc_federation (co_config c))"
    and "coordinator_evaluate H rq c = (Inr ad, c1)" "ad_outcome ad \<noteq> Outcome_Invalid"
    and "co_steps H c1 c2"
    and "coordinator_evaluate H rq' c2 = (Inr ad', c3)" "rq_id rq' = rq_id rq"
  shows "ad_outcome ad' \<noteq> Outcome_Granted"
proof -
  obtain rs where rs: "sound H rs c" using reachable_sound [OF assms(1,2)] by blast
  obtain ext where kept: "sound H (rs @ ext) c1"
    using evaluate_keeps [OF assms(3)] rs unfolding keeps_def by blast
  have "distinct_lease_names H (cc_federation (co_config c1))"
    using assms(2) evaluate_config [OF assms(3)] by simp
  from co_steps_keep [OF assms(5) this] kept obtain ext2 where
    later: "sound H ((rs @ ext) @ ext2) c2" unfolding keeps_def by blast
  have "rq_id rq \<in> re_request ` set (co_replay c2)"
    using journaled_remembers [OF kept evaluate_remembers [OF assms(3,4)] later] .
  with decided_not_granted [OF assms(6)] assms(7) later show ?thesis
    by (simp add: sound_def recorded_def)
qed

section \<open>A revocation that fails\<close>

text \<open>
  The lease is marked before the revocation is encoded: when that fails, here for a text that is too
  long, the error is reported, but every further revocation of the lease reports success without
  writing anything, and the journal the next start will replay does not hold a revocation.
\<close>

lemma failed_revocation_is_not_retried:
  assumes "reachable H c" "distinct_lease_names H (cc_federation (co_config c))"
    and "smap_get (co_leases c) k = Some l" "\<not> is_revoked k c"
    and "encode_revocation k why detail = Inl e"
    and "revoke_lease H k why detail c = (r, c1)"
  shows "r = Inl e" "is_revoked k c1" "revoke_lease H k why' detail' c1 = (success, c1)"
    and "\<exists>rs. dk_files (co_disk c1) Journal_File = Some (journal_file H rs) \<and>
      k \<notin> set (journaled Journal_LeaseRevocation rs)"
proof -
  obtain rs where rs: "sound H rs c" using reachable_sound [OF assms(1,2)] by blast
  then have "dk_files (co_disk c) Journal_File = Some (journal_file H rs)"
    by (simp add: sound_def journaling_def)
  moreover have "k \<notin> set (journaled Journal_LeaseRevocation rs)"
    using sound_revoked [OF rs] assms(4) by blast
  moreover have run: "r = Inl e" "co_disk c1 = co_disk c"
    "\<exists>l'. smap_get (co_leases c1) k = Some l' \<and> al_revoked l'"
    using assms(3-6) by (auto simp: revoke_lease_def is_revoked_def Let_def guarded_def)
  ultimately show "\<exists>rs. dk_files (co_disk c1) Journal_File = Some (journal_file H rs) \<and>
      k \<notin> set (journaled Journal_LeaseRevocation rs)" by auto
  show "r = Inl e" "is_revoked k c1" "revoke_lease H k why' detail' c1 = (success, c1)"
    using run by (auto simp: is_revoked_def revoke_lease_def)
qed

section \<open>Properties\<close>

text \<open>
  C3: a request identifier is decided once. After a coordinator answered a request with anything but
  an invalid request, no request with the same identifier is granted by it again, whatever operations
  run and however often the process is restarted from its journal in between. As everywhere in this
  theory no system call of the journal fails, and distinct lease numbers have distinct names.
\<close>

theorem request_decided_once:
  assumes "reachable H c" "distinct_lease_names H (cc_federation (co_config c))"
    and "coordinator_evaluate H rq c = (Inr ad, c1)" "ad_outcome ad \<noteq> Outcome_Invalid"
    and "co_steps H c1 c2"
    and "coordinator_evaluate H rq' c2 = (Inr ad', c3)" "rq_id rq' = rq_id rq"
  shows "ad_outcome ad' \<noteq> Outcome_Granted"
  using assms by (rule decided_once)

text \<open>
  C6: a revocation is durable. When the revocation of a lease that was not revoked before reports
  success, the lease is revoked after every later sequence of operations and restarts. (The lease not
  being revoked before is essential: \<open>failed_revocation_is_not_retried\<close>.)
\<close>

theorem revoked_lease_stays_revoked:
  assumes "reachable H c" "distinct_lease_names H (cc_federation (co_config c))"
    and "revoke_lease H k why detail c = (success, c1)" "\<not> is_revoked k c"
    and "co_steps H c1 c2"
  shows "is_revoked k c2"
proof -
  obtain rs where rs: "sound H rs c" using reachable_sound [OF assms(1,2)] by blast
  from revoke_journaled [OF rs assms(3,4)] obtain ext where
    kept: "sound H (rs @ ext) c1" "k \<in> set (journaled Journal_LeaseRevocation (rs @ ext))" by blast
  have "distinct_lease_names H (cc_federation (co_config c1))"
    using assms(2) revoke_config [OF assms(3)] by simp
  from co_steps_keep [OF assms(5) this] kept(1) obtain ext2 where
    "sound H ((rs @ ext) @ ext2) c2" unfolding keeps_def by blast
  with kept(2) show ?thesis by (intro sound_revoked) auto
qed

text \<open>
  C25: every start has an incarnation of its own. A coordinator that starts on what another one left
  has a larger incarnation than that one.
\<close>

theorem incarnation_grows:
  assumes "reachable H c" "distinct_lease_names H (cc_federation (co_config c))"
    and "coordinator_create H config (restarted (co_disk c)) = (success, c')"
    and "cc_federation config = cc_federation (co_config c)" "cc_journal_path config \<noteq> []"
  shows "co_incarnation c < co_incarnation c'"
proof -
  obtain rs where rs: "sound H rs c" using reachable_sound [OF assms(1,2)] by blast
  from create_sound(3) [OF sound_left_behind [OF rs] _ assms(5,3)] sound_history [OF rs] assms(4)
  have "\<forall>r \<in> set rs. jr_type r = Journal_CoordinatorIncarnation \<longrightarrow> incarnation_of r < co_incarnation c'"
    by simp
  moreover from rs obtain r where "r \<in> set rs" "jr_type r = Journal_CoordinatorIncarnation"
    "incarnation_of r = co_incarnation c" unfolding sound_def recorded_def by blast
  ultimately show ?thesis by auto
qed

end
