(* ===== verification/Restart_Succeeds.thy ===== *)
theory Restart_Succeeds
  imports Coordinator_Laws
begin

text \<open>
  A start on the journal of an earlier coordinator succeeds: as long as the journal is within its
  bounds and its payloads decode, replaying it cannot fail, every revocation finds its lease, and the
  new incarnation is recorded.
\<close>

section \<open>An append that fits succeeds\<close>

lemma append_succeeds:
  assumes "quiet d" "journal_holds H rs j" "last_sequence rs + 1 < u64_max"
    and "length payload \<le> unat (jo_max_payload_bytes (jl_options j))"
    and "jl_size_bytes j + 52 + length payload \<le> unat (jo_max_bytes (jl_options j))"
  shows "\<exists>j' d'. journal_append H ty payload j d = (success, j', d')"
proof -
  from assms(2) have j: "jl_handle j = Some \<lparr>fh_file = Journal_File, fh_read_only = False\<rparr>"
      "jv_writable (jl_recovery j)" "jl_next_sequence j = last_sequence rs + 1"
    by (auto simp: journal_holds_def)
  from order.strict_implies_not_eq [OF assms(3)] j(3)
  have "checked_inc_u64 (jl_next_sequence j) = Some (jl_next_sequence j + 1)"
    by (simp add: checked_inc_u64_def)
  moreover have "unat (jo_max_bytes (jl_options j)) < 18446744073709551616"
    using unsigned_less [of "jo_max_bytes (jl_options j)"] by simp
  ultimately show ?thesis
    using assms(1,4,5) j(1,2)
    by (simp add: journal_append_def Let_def record_size_def kJournalRecordHeaderBytes_def
        size_add_def file_write_quiet file_flush_quiet)
qed

lemma persist_succeeds:
  assumes "journaling H rs c" "length payload \<le> kMaxJournalRecordBytes"
    and "length (journal_file H rs) + 52 + length payload \<le> unat kMaxJournalBytes"
  shows "\<exists>c'. persist H ty payload c = (success, c')"
proof -
  from assms(1) have parts: "co_durable c" "quiet (co_disk c)" "journal_holds H rs (co_journal c)"
      "jl_options (co_journal c) = default_journal_options"
    by (simp_all add: journaling_def)
  moreover have "jl_size_bytes (co_journal c) = length (journal_file H rs)"
    using parts(3) by (simp add: journal_holds_def)
  ultimately obtain j' d' where
    "journal_append H ty payload (co_journal c) (co_disk c) = (success, j', d')"
    using append_succeeds [OF parts(2,3) journaling_sequence(2) [OF assms(1)], of payload ty] assms(2,3)
    by (auto simp: default_bounds default_journal_options_def kMaxJournalRecordBytes_def)
  with parts(1) show ?thesis by (simp add: persist_def)
qed

section \<open>Replaying cannot fail\<close>

text \<open>A record whose payload decodes as its type demands.\<close>

definition readable :: "JournalRecord \<Rightarrow> bool" where
  "readable r \<longleftrightarrow> (case jr_type r of
     Journal_Artifact \<Rightarrow> is_ok (decode_artifact (jr_payload r))
   | Journal_FederationGenesis \<Rightarrow> is_ok (decode_artifact (jr_payload r))
   | Journal_Lease \<Rightarrow> is_ok (decode_lease (jr_payload r))
   | Journal_LeaseRevocation \<Rightarrow> is_ok (decode_revocation (jr_payload r))
   | Journal_RequestDecision \<Rightarrow> is_ok (decode_decision (jr_payload r))
   | Journal_CoordinatorIncarnation \<Rightarrow> is_ok (r_u64 (jr_payload r))
   | Journal_TickHighWater \<Rightarrow> is_ok (r_u64 (jr_payload r))
   | Journal_PartitionObservation \<Rightarrow> is_ok (decode_observation (jr_payload r))
   | Journal_Policy \<Rightarrow> is_ok (decode_policy (jr_payload r))
   | _ \<Rightarrow> True)"

lemma decoded_readable:
  "is_ok (dec bs) \<Longrightarrow> decoded dec what bs = Inr (fst (projr (dec bs)))"
  "is_ok (dec bs) \<Longrightarrow> plain dec bs = Inr (fst (projr (dec bs)))"
  by (auto simp: is_ok_iff decoded_def plain_def)

lemma recover_readable: "readable r \<Longrightarrow> \<exists>rv'. recover_record H rv r = Inr rv'"
  by (cases "jr_type r")
    (simp_all add: readable_def recover_record_def decoded_readable case_prod_unfold)

lemma recover_all_readable: "\<forall>r \<in> set rs. readable r \<Longrightarrow> \<exists>rv'. recover_records H rs rv = Inr rv'"
proof (induction rs arbitrary: rv)
  case (Cons r rs)
  then obtain rv1 where "recover_record H rv r = Inr rv1" using recover_readable by fastforce
  with Cons show ?case by simp
qed simp

lemma apply_revocations_known:
  "fst ` set es \<subseteq> keys_of leases \<Longrightarrow> \<exists>leases'. apply_revocations es at leases = Inr leases'"
proof (induction es arbitrary: leases)
  case (Cons e es)
  from Cons.prems have "smap_get leases (fst e) \<noteq> None"
    using smap_get_None [of leases "fst e"] by (auto simp: image_image)
  then obtain l where "smap_get leases (fst e) = Some l" by auto
  moreover have "fst ` set es \<subseteq> keys_of (smap_put k v leases)" for k v
    using Cons.prems unfolding keys_put by auto
  ultimately show ?case using Cons.IH by simp
qed simp

lemma replay_succeeds:
  assumes "history H federation rs" "\<forall>r \<in> set rs. readable r"
  obtains rv leases where "recover_records H rs (recovery_start policy tick) = Inr rv"
    and "apply_revocations (rv_revocations rv) (rv_highest_tick rv) (rv_leases rv) = Inr leases"
proof -
  from recover_all_readable [OF assms(2)] obtain rv where
    rv: "recover_records H rs (recovery_start policy tick) = Inr rv" by blast
  have "keys_of (rv_revocations rv) \<subseteq> keys_of (rv_leases rv)"
    using recover_records_replayed(2,3) [OF rv] assms(1) by (simp add: recovery_start_def history_def)
  with apply_revocations_known rv that show thesis by blast
qed

section \<open>A start succeeds\<close>

lemma persist_artifacts: "persist H ty payload c = (r, c') \<Longrightarrow> co_artifacts c' = co_artifacts c"
  by (auto simp: persist_def split: if_splits prod.splits)

lemma load_succeeds:
  assumes "left_behind H rs d" "history H federation rs" "cc_journal_path config \<noteq> []"
    and "length rs \<le> jo_max_records default_journal_options"
    and "length (journal_file H rs) + 60 \<le> unat kMaxJournalBytes"
    and "recover_records H rs (recovery_start (cc_policy config) (cc_initial_tick config)) = Inr rv"
    and "apply_revocations (rv_revocations rv) (rv_highest_tick rv) (rv_leases rv) = Inr leases"
  obtains c where "load_journal H (blank_coordinator config d) = (success, c)" "co_config c = config"
    and "co_artifacts c = rv_artifacts rv" "co_leases c = leases" "co_replay c = rv_replay rv"
proof -
  let ?c0 = "blank_coordinator config d"
  have good: "good_history default_journal_options rs"
    using assms(2,4) by (simp add: history_def good_history_ordered)
  from load_left_behind [OF assms(1) good] obtain j d' where
    opened: "journal_open H Open_OpenOrCreateReadWrite default_journal_options d = (Inr j, d')"
      "quiet d'" "dk_files d' Journal_File = Some (journal_file H rs)" "journal_at H rs j"
      "jl_options j = default_journal_options"
      "journal_load (kMaxArtifacts * 4) kMaxJournalRecordBytes j d' = (Inr rs, d')" .
  define c1 where "c1 = ?c0\<lparr>co_disk := d', co_journal := j, co_durable := True,
      co_recovery_detail := recovery_outcome_to_string (jv_outcome (jl_recovery j)) @
        '': '' @ jv_detail (jl_recovery j)\<rparr>"
  define c2 where "c2 = adopt_history rv leases (dk_files d Journal_File = None) c1"
  have c1: "co_config c1 = config" "co_policy c1 = cc_policy config"
    by (simp_all add: c1_def blank_coordinator_def)
  have journaling: "journaling H rs c2"
    using opened(2-5) assms(2,3) by (simp add: c2_def c1_def blank_coordinator_def adopt_history_def
        journaling_def history_def journal_at_holds journal_holds_def)
  have "length (store_u64_le (co_incarnation c2)) = 8" by simp
  then obtain c3 where c3: "persist H Journal_CoordinatorIncarnation (store_u64_le (co_incarnation c2)) c2 =
      (success, c3)"
    using persist_succeeds [OF journaling, of "store_u64_le (co_incarnation c2)"] assms(5)
    by (auto simp: kMaxJournalRecordBytes_def)
  have "jv_writable (jl_recovery j)" using opened(4) by (simp add: journal_at_def)
  then have "load_journal H ?c0 = (success, c3)"
    using assms(3,6,7) opened(1,6) c1 c3
    by (simp add: load_journal_def Let_def blank_coordinator_def guarded_def c2_def c1_def w_u64_def)
  moreover have "co_config c3 = config" "co_leases c3 = leases" "co_replay c3 = rv_replay rv"
    using persist_core [OF c3] c1(1) by (simp_all add: same_ledgers_def c2_def adopt_history_def)
  moreover have "co_artifacts c3 = rv_artifacts rv"
    using persist_artifacts [OF c3] by (simp add: c2_def adopt_history_def)
  ultimately show thesis using that by blast
qed

text \<open>The history holds the genesis record of the federation.\<close>

definition founding_recorded :: "JournalRecord list \<Rightarrow> bool" where
  "founding_recorded rs \<longleftrightarrow> (\<exists>r \<in> set rs. \<exists>a rest.
     jr_type r \<in> {Journal_Artifact, Journal_FederationGenesis} \<and>
     decode_artifact (jr_payload r) = Inr (a, rest) \<and> art_kind a = Kind_FederationGenesis)"

lemma recover_record_artifacts:
  assumes "recover_record H rv r = Inr rv'"
  shows "set (rv_artifacts rv) \<subseteq> set (rv_artifacts rv')"
    and "jr_type r \<in> {Journal_Artifact, Journal_FederationGenesis} \<Longrightarrow>
      decode_artifact (jr_payload r) = Inr (a, rest) \<Longrightarrow> a \<in> set (rv_artifacts rv')"
  using assms
  by (auto simp: recover_record_def and_then_def decoded_def plain_def
      split: JournalRecordType.splits sum.splits prod.splits if_splits)

lemma recover_records_artifacts:
  "recover_records H rs rv = Inr rv' \<Longrightarrow> set (rv_artifacts rv) \<subseteq> set (rv_artifacts rv')"
  by (induction rs arbitrary: rv)
    (auto simp: and_then_def split: sum.splits dest!: recover_record_artifacts(1))

lemma recovered_founding:
  assumes "recover_records H rs rv = Inr rv'" "founding_recorded rs"
  shows "\<exists>a \<in> set (rv_artifacts rv'). art_kind a = Kind_FederationGenesis"
  using assms
proof (induction rs arbitrary: rv)
  case (Cons r rs)
  then obtain rv1 where rv1: "recover_record H rv r = Inr rv1" "recover_records H rs rv1 = Inr rv'"
    by (auto simp: and_then_def split: sum.splits)
  from Cons.prems(2) consider "founding_recorded rs"
    | a rest where "jr_type r \<in> {Journal_Artifact, Journal_FederationGenesis}"
      "decode_artifact (jr_payload r) = Inr (a, rest)" "art_kind a = Kind_FederationGenesis"
    unfolding founding_recorded_def by auto
  then show ?case
  proof cases
    case 1
    with Cons.IH rv1(2) show ?thesis by blast
  next
    case 2
    with recover_record_artifacts(2) [OF rv1(1)] recover_records_artifacts [OF rv1(2)]
    show ?thesis by blast
  qed
qed (simp add: founding_recorded_def)

lemma create_succeeds:
  assumes "left_behind H rs d" "history H federation rs" "cc_journal_path config \<noteq> []"
    and "length rs \<le> jo_max_records default_journal_options"
    and "length (journal_file H rs) + 60 \<le> unat kMaxJournalBytes" "\<forall>r \<in> set rs. readable r"
    and "check_config config = success" "cc_bootstrap config \<longrightarrow> founding_recorded rs"
  shows "\<exists>c. coordinator_create H config d = (success, c)"
proof -
  from replay_succeeds [OF assms(2,6)] obtain rv leases where
    rv: "recover_records H rs (recovery_start (cc_policy config) (cc_initial_tick config)) = Inr rv"
    "apply_revocations (rv_revocations rv) (rv_highest_tick rv) (rv_leases rv) = Inr leases" .
  from load_succeeds [OF assms(1-5) this] obtain c where
    c: "load_journal H (blank_coordinator config d) = (success, c)" "co_config c = config"
      "co_artifacts c = rv_artifacts rv" .
  have "\<exists>c'. ensure_genesis H c = (success, c')"
    using c(2,3) assms(8) recovered_founding [OF rv(1)] by (auto simp: ensure_genesis_def)
  then obtain c' where "ensure_genesis H c = (success, c')" by blast
  with c(1) assms(7) show ?thesis by (simp add: coordinator_create_def Let_def followed_by_def)
qed


end
