(* ===== verification/Coordinator_Instances.thy ===== *)
theory Coordinator_Instances
  imports Restart_Succeeds State_Laws
begin

text \<open>
  A concrete coordinator, started on a journal that holds one lease, and the laws of
  \<open>Coordinator_Laws\<close> and \<open>Restart_Succeeds\<close> on it.
\<close>

section \<open>Coordinators without evidence\<close>

lemma absent_without_evidence:
  assumes "m \<notin> set (mx_bootstrap_members cx)"
  shows "dv_lifecycle (derive_membership H m [] cx) = Lifecycle_Absent"
  using assms unfolding derive_lifecycle_eq decide_lifecycle_def
  by (simp add: evidence_facts_frame collect_kind_def)

lemma no_decisions:
  assumes "co_artifacts c = []"
  shows "decide_member H c st m = None"
proof -
  have "dv_lifecycle (derive_membership H (mb_member m) [] (decision_context c st)) = Lifecycle_Absent"
    using assms by (intro absent_without_evidence) (simp add: decision_context_def genesis_founders_def)
  with assms show ?thesis by (simp add: decide_member_def Let_def evidence_of_def)
qed

lemma idle_decisions:
  assumes "co_artifacts c = []"
  shows "decide_locked H c = ([], c)"
proof -
  have "decide_loop (Suc n) H [] c = ([], c)" for n
    using assms by (cases "derive_locked H c") (simp_all add: no_decisions map_filter_def)
  moreover have "kMaxMembers + 2 = Suc (kMaxMembers + 1)" by simp
  ultimately show ?thesis unfolding decide_locked_def by metis
qed

lemma start_without_evidence:
  assumes "check_config config = success" "load_journal H (blank_coordinator config d) = (success, c)"
    and "co_artifacts c = []" "co_config c = config" "\<not> cc_bootstrap config"
  shows "coordinator_create H config d = (success, c)"
  using assms by (simp add: coordinator_create_def Let_def followed_by_def ensure_genesis_def idle_decisions)

lemma derive_without_evidence:
  assumes "co_artifacts c = []" "length (co_leases c) \<le> kMaxMembers"
  obtains st where "derive_locked H c = Inr st" "fs_epoch st = 1"
    "fs_federation st = cc_federation (co_config c)"
proof -
  let ?in = "derivation_inputs c"
  have ins: "di_policy ?in = Some (co_policy c)" "di_catalog ?in = Some (co_catalog c)"
      "di_artifacts ?in = []" "di_leases ?in = map snd (co_leases c)"
      "di_federation ?in = cc_federation (co_config c)"
    using assms(1) by (simp_all add: derivation_inputs_def)
  have none: "derived_artifacts H ?in (co_catalog c) = []"
    using ins(3) by (simp add: derived_artifacts_def prepare_artifacts_def Let_def map_filter_def empty_intake_def)
  have members: "derived_members H ?in (co_catalog c) =
      sort_unique (map (\<lambda>l. mi_member (al_holder l))
        (filter (\<lambda>l. \<not> is_nil (mi_member (al_holder l))) (map snd (co_leases c))))"
    by (simp add: derived_members_def none member_order_def ins(4) bootstrap_members_def
        genesis_of_def genesis_records_def)
  have short: "length (sort_unique xs) \<le> length xs" for xs :: "MemberId list"
    using remdups_adj_length [of "sort xs"] by (simp add: sort_unique_def)
  have "length (derived_members H ?in (co_catalog c)) \<le> length (co_leases c)"
    unfolding members by (rule order_trans [OF short])
      (use length_filter_le [of _ "map snd (co_leases c)"] in simp)
  with assms(2) have "is_ok (derive_state H ?in)" by (simp add: derive_state_ok [OF ins(1,2)])
  then obtain dr where dr: "derive_state H ?in = Inr dr" by (auto simp: is_ok_iff)
  let ?st0 = "derived_frame H ?in (co_policy c) (co_catalog c)"
  have frame: "fs_epoch ?st0 = 1" "fs_federation ?st0 = cc_federation (co_config c)"
    by (simp_all add: derived_frame_def none federation_frame_def Let_def case_prod_unfold
        recovery_needed_def apply_genesis_def genesis_records_def initial_state_def ins(5))
  from derive_state_decompose [OF dr ins(1,2) refl refl refl refl] obtain st active ds where
    st: "st = clear_reconciliation (derived_artifacts H ?in (co_catalog c)) ds active
        (assess_state_partition ?in (derived_policy H ?in (co_policy c) (co_catalog c)) ds active ?st0)"
    and result: "dr_state dr = settle_members H ?in (co_catalog c)
        (derived_policy H ?in (co_policy c) (co_catalog c)) (derived_artifacts H ?in (co_catalog c))
        (derived_members H ?in (co_catalog c)) active ds True st"
    and "fs_epoch st = fs_epoch ?st0" by metis
  then have "fs_epoch (dr_state dr) = 1" "fs_federation (dr_state dr) = cc_federation (co_config c)"
    using frame by (simp_all add: result settle_members_def Let_def bound_ledger_def
        clear_reconciliation_def assess_state_partition_def)
  with dr show thesis by (intro that [of "dr_state dr"]) (simp_all add: derive_locked_def)
qed

section \<open>Witnesses\<close>

text \<open>A digest that keeps what follows the first identifier, so that lease names differ.\<close>

definition echo_hash :: "bytes \<Rightarrow> Digest" where
  "echo_hash bs = from_be (1 # take 31 (drop 16 bs @ replicate 31 0))"

definition sample_config :: CoordinatorConfig where
  "sample_config =
     \<lparr>cc_federation = 1, cc_node = 8, cc_description = ''f'',
      cc_policy = \<lparr>fp_id = ''p'', fp_generation = 1, fp_rules = [], fp_description = []\<rparr>,
      cc_journal_path = ''j'', cc_listen_port = 0, cc_listen = False, cc_max_connections = 4,
      cc_worker_threads = 2, cc_max_pending_connections = 4, cc_initial_tick = 1,
      cc_bootstrap = False, cc_founder = empty_declaration, cc_founder_grants = []\<rparr>"

definition sample_lease_id :: LeaseId where
  "sample_lease_id = id_of_digest (lease_id_of echo_hash 1 1)"

definition lease_record :: JournalRecord where
  "lease_record = \<lparr>jr_type = Journal_Lease, jr_sequence = 1,
     jr_payload = projr (encode_lease (sample_lease\<lparr>al_id := sample_lease_id\<rparr>))\<rparr>"

definition decision_record :: JournalRecord where
  "decision_record = \<lparr>jr_type = Journal_RequestDecision, jr_sequence = 2,
     jr_payload = projr (encode_decision (empty_decision\<lparr>ad_request := 5\<rparr>))\<rparr>"

definition sample_history :: "JournalRecord list" where
  "sample_history = [lease_record, decision_record]"

definition history_disk :: disk where
  "history_disk = \<lparr>dk_files = (\<lambda>_. None)(Journal_File \<mapsto> journal_file echo_hash sample_history),
                   dk_events = []\<rparr>"

lemma sample_names: "distinct_lease_names echo_hash 1"
proof -
  have id: "id_of_digest (lease_id_of echo_hash 1 n) = from_be (1 # store_u64_le n @ replicate 7 0)" for n
  proof -
    let ?bs = "1 # store_u64_le n @ replicate 23 0"
    have "lease_id_of echo_hash 1 n = from_be ?bs"
      by (simp add: lease_id_of_def digest_of_def w_seq.simps w_id16_def w_u64_def echo_hash_def)
    moreover have "digest_bytes (from_be ?bs :: Digest) = ?bs"
      using be_bytes_from_be [where ?'a = 256, of ?bs] by simp
    ultimately show ?thesis by (simp add: id_of_digest_def)
  qed
  have "n = n'" if "id_of_digest (lease_id_of echo_hash 1 n) = id_of_digest (lease_id_of echo_hash 1 n')" for n n'
  proof -
    let ?bs = "\<lambda>n. 1 # store_u64_le n @ replicate 7 0"
    have "be_bytes 16 (from_be (?bs n) :: id128) = ?bs n" for n
      using be_bytes_from_be [where ?'a = 128, of "?bs n"] by simp
    with that have "?bs n = ?bs n'" unfolding id by metis
    then have "load_u64_le (store_u64_le n) = load_u64_le (store_u64_le n')" by simp
    then show ?thesis by simp
  qed
  then show ?thesis unfolding distinct_lease_names_def by (intro inj_onI) blast
qed

lemma lease_record_facts:
  "jr_type lease_record = Journal_Lease" "jr_sequence lease_record = 1"
  "length (jr_payload lease_record) \<le> 500000" "payload_id lease_record = sample_lease_id"
  "is_ok (decode_lease (jr_payload lease_record))"
  by (simp add: lease_record_def, simp add: lease_record_def, code_simp+)

lemma decision_record_facts:
  "jr_type decision_record = Journal_RequestDecision" "jr_sequence decision_record = 2"
  "length (jr_payload decision_record) \<le> 500000" "payload_id decision_record = 5"
  "is_ok (decode_decision (jr_payload decision_record))"
  by (simp add: decision_record_def, simp add: decision_record_def, code_simp+)

lemma sample_journaled:
  "journaled Journal_RequestDecision sample_history = [5]"
  "journaled Journal_LeaseRevocation sample_history = []"
  "journaled Journal_Lease sample_history = [sample_lease_id]"
  by (simp_all add: sample_history_def lease_record_facts decision_record_facts)

lemma sample_file: "length (journal_file echo_hash sample_history) \<le> 1100000"
  using lease_record_facts(3) decision_record_facts(3)
  by (simp add: sample_history_def length_journal_file record_size_def kJournalHeaderBytes_def
      kJournalRecordHeaderBytes_def)

lemma sample_history_ok:
  "history echo_hash 1 sample_history" "left_behind echo_hash sample_history history_disk"
  "\<forall>r \<in> set sample_history. readable r"
proof -
  have "ordered_history default_journal_options sample_history"
    using lease_record_facts(3) decision_record_facts(3)
    by (simp add: sample_history_def ordered_history_def good_record_def default_bounds
        lease_record_facts(1,2) decision_record_facts(1,2))
  moreover have "consecutive sample_history"
    by (auto simp: sample_history_def consecutive_def less_Suc_eq lease_record_facts(2)
        decision_record_facts(2))
  moreover have "\<exists>s. payload_id r = id_of_digest (lease_id_of echo_hash 1 s) \<and> s \<le> jr_sequence r"
    if "r \<in> set sample_history" "jr_type r = Journal_Lease" for r
    using that lease_record_facts decision_record_facts(1)
    by (intro exI [of _ 1]) (auto simp: sample_history_def sample_lease_id_def)
  moreover have "jr_type r \<noteq> Journal_CoordinatorIncarnation" if "r \<in> set sample_history" for r
    using that lease_record_facts(1) decision_record_facts(1) by (auto simp: sample_history_def)
  ultimately show "history echo_hash 1 sample_history"
    using sample_file unfolding history_def
    by (simp add: sample_journaled kMaxJournalBytes_def kMaxReplayEntries_def)
  show "left_behind echo_hash sample_history history_disk"
    by (simp add: left_behind_def history_disk_def quiet_def)
  show "\<forall>r \<in> set sample_history. readable r"
    using lease_record_facts(1,5) decision_record_facts(1,5)
    by (simp add: sample_history_def readable_def)
qed

lemma sample_config_ok:
  "check_config sample_config = success" "\<not> cc_bootstrap sample_config" "cc_journal_path sample_config \<noteq> []"
  "cc_federation sample_config = 1" "length sample_history \<le> jo_max_records default_journal_options"
  "length (journal_file echo_hash sample_history) + 60 \<le> unat kMaxJournalBytes"
proof -
  show "length (journal_file echo_hash sample_history) + 60 \<le> unat kMaxJournalBytes"
    using sample_file by (simp add: kMaxJournalBytes_def)
  show "check_config sample_config = success" by code_simp
qed (simp_all add: sample_config_def sample_history_def default_bounds)

lemma sample_recovery:
  "(case recover_records echo_hash sample_history (recovery_start (cc_policy sample_config)
        (cc_initial_tick sample_config)) of
      Inl _ \<Rightarrow> False
    | Inr rv \<Rightarrow> rv_artifacts rv = [] \<and> rv_revocations rv = [] \<and>
        map fst (rv_leases rv) = [sample_lease_id] \<and> map (\<lambda>e. al_revoked (snd e)) (rv_leases rv) = [False])"
  by code_simp

text \<open>The coordinator that starts on the sample journal.\<close>

lemma sample_start:
  obtains c l where "coordinator_create echo_hash sample_config history_disk = (success, c)"
    and "co_config c = sample_config" "co_artifacts c = []"
    and "co_leases c = [(sample_lease_id, l)]" "\<not> al_revoked l" "reachable echo_hash c"
    and "load_journal echo_hash (blank_coordinator sample_config history_disk) = (success, c)"
proof -
  from sample_recovery obtain rv where
    rv: "recover_records echo_hash sample_history (recovery_start (cc_policy sample_config)
        (cc_initial_tick sample_config)) = Inr rv"
      "rv_artifacts rv = []" "rv_revocations rv = []"
      "map fst (rv_leases rv) = [sample_lease_id]" "map (\<lambda>e. al_revoked (snd e)) (rv_leases rv) = [False]"
    by (auto split: sum.splits)
  then obtain l where l: "rv_leases rv = [(sample_lease_id, l)]" "\<not> al_revoked l" by auto
  have "apply_revocations (rv_revocations rv) (rv_highest_tick rv) (rv_leases rv) = Inr (rv_leases rv)"
    by (simp add: rv(3))
  from load_succeeds [OF sample_history_ok(2,1) sample_config_ok(3,5,6) rv(1) this] obtain c where
    c: "load_journal echo_hash (blank_coordinator sample_config history_disk) = (success, c)"
      "co_config c = sample_config" "co_artifacts c = rv_artifacts rv" "co_leases c = rv_leases rv" .
  have created: "coordinator_create echo_hash sample_config history_disk = (success, c)"
    using start_without_evidence [OF sample_config_ok(1) c(1) _ c(2) sample_config_ok(2)] c(3) rv(2) by simp
  have "started echo_hash c"
    unfolding started_def using sample_history_ok(1,2) sample_config_ok(3,4) created by metis
  then have "reachable echo_hash c" unfolding reachable_def by blast
  with created c rv(2) l that show thesis by simp
qed

lemma sample_names_config:
  "co_config c = sample_config \<Longrightarrow> distinct_lease_names echo_hash (cc_federation (co_config c))"
  using sample_names sample_config_ok(4) by simp

text \<open>Its journal: the sample records and its own incarnation.\<close>

lemma sample_sound:
  assumes "load_journal echo_hash (blank_coordinator sample_config history_disk) = (success, c)"
  obtains rec where "sound echo_hash (sample_history @ [rec]) c" "readable rec"
    and "length (jr_payload rec) = 8"
proof -
  have "history echo_hash (cc_federation sample_config) sample_history"
    using sample_history_ok(1) sample_config_ok(4) by simp
  from load_journal_sound [OF sample_history_ok(2) this sample_config_ok(3) assms] obtain rec where
    rec: "jr_type rec = Journal_CoordinatorIncarnation" "jr_payload rec = store_u64_le (co_incarnation c)"
      "sound echo_hash (sample_history @ [rec]) c" by blast
  have "is_ok (r_u64 (store_u64_le v))" for v
    by (simp add: r_u64_def rbind_def r_take_def)
  with rec that show thesis by (simp add: readable_def)
qed

section \<open>The laws on it\<close>

definition sample_replay_request :: AuthorityRequest where
  "sample_replay_request =
     \<lparr>rq_id = 5, rq_federation = 1, rq_epoch_seen = 1, rq_actor = empty_identity,
      rq_requested = \<lparr>sg_scope = ''domain.local.routes'', sg_verb = Verb_Observe\<rparr>,
      rq_lease = 0, rq_issued_at = 1, rq_constraint = []\<rparr>"

text \<open>A request the coordinator knows is answered without a record.\<close>

lemma replayed_answer:
  assumes "co_artifacts c = []" "length (co_leases c) \<le> kMaxMembers" "co_config c = sample_config"
    and "5 \<in> re_request ` set (co_replay c)" "length (co_replay c) \<le> kMaxReplayEntries"
  shows "\<exists>ad. coordinator_evaluate H sample_replay_request c = (Inr ad, next_tick c) \<and>
    ad_outcome ad = Outcome_Replayed"
proof -
  from derive_without_evidence [OF assms(1,2)] obtain st where
    st: "derive_locked H c = Inr st" "fs_epoch st = 1" "fs_federation st = cc_federation (co_config c)" .
  let ?ad = "evaluate_authority H sample_replay_request st (co_policy c) (co_catalog c)"
  have "has_replay st 5"
    using derived_ledger [OF st(1) assms(5)] assms(4) by (auto simp: has_replay_def)
  then have ad: "ad_outcome ?ad = Outcome_Replayed"
    using st(3) assms(3) sample_config_ok(4)
    by (simp add: evaluate_authority_def evaluate_steps_def check_federation_def check_replay_def
        sample_replay_request_def proceed_def finish_def)
  have "\<exists>e \<in> set (co_replay c). re_request e = rq_id sample_replay_request"
    using assms(4) by (auto simp: sample_replay_request_def)
  then have "coordinator_evaluate H sample_replay_request c = (Inr ?ad, next_tick c)"
    using st(1) ad
    by (simp add: coordinator_evaluate_def guarded_def Let_def is_nil_def sample_replay_request_def)
  with ad show ?thesis by blast
qed

lemma sample_replays:
  assumes "sound echo_hash (sample_history @ ext) c"
  shows "5 \<in> re_request ` set (co_replay c)" "length (co_replay c) \<le> kMaxReplayEntries"
proof -
  have "map re_request (co_replay c) = 5 # journaled Journal_RequestDecision ext"
    using assms by (simp add: sound_def recorded_def sample_journaled)
  then have "5 \<in> set (map re_request (co_replay c))" by simp
  then show "5 \<in> re_request ` set (co_replay c)" by simp
  show "length (co_replay c) \<le> kMaxReplayEntries"
    using assms by (simp add: sound_def recorded_def)
qed

lemma request_decided_once_witness:
  "\<exists>c ad c1 c2 ad'. reachable echo_hash c \<and>
     coordinator_evaluate echo_hash sample_replay_request c = (Inr ad, c1) \<and>
     co_steps echo_hash c1 c2 \<and> c1 \<noteq> c2 \<and>
     coordinator_evaluate echo_hash sample_replay_request c2 = (Inr ad', next_tick c2) \<and>
     ad_outcome ad' \<noteq> Outcome_Granted"
proof -
  obtain c l where c: "co_config c = sample_config" "co_artifacts c = []" "reachable echo_hash c"
    "load_journal echo_hash (blank_coordinator sample_config history_disk) = (success, c)"
    "co_leases c = [(sample_lease_id, l)]"
    using sample_start by metis
  obtain rec where "sound echo_hash (sample_history @ [rec]) c" using sample_sound [OF c(4)] .
  note known = sample_replays [OF this]
  have answer: "\<exists>ad. coordinator_evaluate echo_hash sample_replay_request x = (Inr ad, next_tick x) \<and>
      ad_outcome ad = Outcome_Replayed"
    if "x \<in> {c, next_tick c, next_tick (next_tick c)}" for x
    using that c(1,2,5) known by (intro replayed_answer) (auto simp: next_tick_def kMaxMembers_def)
  obtain ad where ad: "coordinator_evaluate echo_hash sample_replay_request c = (Inr ad, next_tick c)"
      "ad_outcome ad = Outcome_Replayed" using answer [of c] by auto
  obtain r where r: "coordinator_evaluate echo_hash sample_replay_request (next_tick c) =
      (r, next_tick (next_tick c))" using answer [of "next_tick c"] by auto
  obtain ad' where ad': "coordinator_evaluate echo_hash sample_replay_request (next_tick (next_tick c)) =
      (Inr ad', next_tick (next_tick (next_tick c)))" using answer [of "next_tick (next_tick c)"] by auto
  have steps: "co_steps echo_hash (next_tick c) (next_tick (next_tick c))"
    using co_step.evaluate [OF r] by blast
  have "next_tick c \<noteq> next_tick (next_tick c)"
    by (auto simp: next_tick_def dest: arg_cong [of _ _ co_tick])
  moreover have "ad_outcome ad' \<noteq> Outcome_Granted"
    using request_decided_once [OF c(3) sample_names_config [OF c(1)] ad(1) _ steps ad'] ad(2) by simp
  ultimately show ?thesis using c(3) ad(1) ad' steps by blast
qed

lemma revoked_lease_stays_revoked_witness:
  "\<exists>c c1 c2. reachable echo_hash c \<and> \<not> is_revoked sample_lease_id c \<and>
     revoke_lease echo_hash sample_lease_id Reason_EvidenceUnknown [] c = (success, c1) \<and>
     co_steps echo_hash c1 c2 \<and> is_revoked sample_lease_id c2"
proof -
  obtain c l where c: "co_config c = sample_config" "reachable echo_hash c"
    "load_journal echo_hash (blank_coordinator sample_config history_disk) = (success, c)"
    "co_leases c = [(sample_lease_id, l)]" "\<not> al_revoked l"
    using sample_start by metis
  obtain rec where sound: "sound echo_hash (sample_history @ [rec]) c" and rec: "length (jr_payload rec) = 8"
    using sample_sound [OF c(3)] by metis
  have get: "smap_get (co_leases c) sample_lease_id = Some l" using c(4) by (simp add: smap_get_def)
  then have fresh: "\<not> is_revoked sample_lease_id c" using c(5) by (simp add: is_revoked_def)
  define l' where "l' = l\<lparr>al_revoked := True, al_revoked_at := co_tick c,
      al_revoke_reason := Reason_EvidenceUnknown, al_revoke_detail := []\<rparr>"
  define marked where "marked = c\<lparr>co_leases := smap_put sample_lease_id l' (co_leases c)\<rparr>"
  have enc: "is_ok (encode_revocation sample_lease_id Reason_EvidenceUnknown [])"
    and len: "length (projr (encode_revocation sample_lease_id Reason_EvidenceUnknown [])) \<le> 1000"
    by code_simp+
  from enc obtain bs where bs: "encode_revocation sample_lease_id Reason_EvidenceUnknown [] = Inr bs"
    by (auto simp: is_ok_iff)
  have "journaling echo_hash (sample_history @ [rec]) marked"
    using sound journaling_same [of c marked] by (simp add: sound_def same_journal_def marked_def)
  moreover have "length (journal_file echo_hash (sample_history @ [rec])) \<le> 1200000"
    using sample_file rec by (simp add: length_journal_file record_size_def kJournalRecordHeaderBytes_def)
  ultimately obtain c1 where "persist echo_hash Journal_LeaseRevocation bs marked = (success, c1)"
    using persist_succeeds [of echo_hash "sample_history @ [rec]" marked bs Journal_LeaseRevocation] len bs
    by (auto simp: kMaxJournalRecordBytes_def kMaxJournalBytes_def)
  then have run: "revoke_lease echo_hash sample_lease_id Reason_EvidenceUnknown [] c = (success, next_tick c1)"
    using get c(5) bs
    by (simp add: revoke_lease_def Let_def guarded_def followed_by_def marked_def l'_def)
  obtain r c2 where "advance_time echo_hash 100 (next_tick c1) = (r, c2)" by fastforce
  then have steps: "co_steps echo_hash (next_tick c1) c2" using co_step.advance by blast
  from revoked_lease_stays_revoked [OF c(2) sample_names_config [OF c(1)] run fresh steps]
  show ?thesis using c(2) fresh run steps by blast
qed


lemma incarnation_grows_witness:
  "\<exists>c c'. reachable echo_hash c \<and>
     coordinator_create echo_hash sample_config (restarted (co_disk c)) = (success, c') \<and>
     co_incarnation c < co_incarnation c'"
proof -
  obtain c where c: "reachable echo_hash c" "co_config c = sample_config"
    "load_journal echo_hash (blank_coordinator sample_config history_disk) = (success, c)"
    using sample_start by metis
  obtain rec where rec: "sound echo_hash (sample_history @ [rec]) c" "readable rec"
    "length (jr_payload rec) = 8" using sample_sound [OF c(3)] .
  have federation: "cc_federation sample_config = cc_federation (co_config c)" using c(2) by simp
  have "history echo_hash (cc_federation sample_config) (sample_history @ [rec])"
    using sound_history [OF rec(1)] federation by simp
  moreover have "length (journal_file echo_hash (sample_history @ [rec])) + 60 \<le> unat kMaxJournalBytes"
    using sample_file rec(3) by (simp add: length_journal_file record_size_def
        kJournalRecordHeaderBytes_def kMaxJournalBytes_def)
  moreover have "length (sample_history @ [rec]) \<le> jo_max_records default_journal_options"
    by (simp add: sample_history_def default_bounds)
  moreover have "\<forall>r \<in> set (sample_history @ [rec]). readable r"
    using sample_history_ok(3) rec(2) by auto
  ultimately obtain c' where
    c': "coordinator_create echo_hash sample_config (restarted (co_disk c)) = (success, c')"
    using create_succeeds [OF sound_left_behind [OF rec(1)] _ sample_config_ok(3) _ _ _ sample_config_ok(1)]
      sample_config_ok(2)
    by blast
  from incarnation_grows [OF c(1) sample_names_config [OF c(2)] c' federation sample_config_ok(3)]
  show ?thesis using c(1) c' by blast
qed

end
