(* ===== verification/Server_Laws.thy ===== *)
theory Server_Laws
  imports Server Coordinator_Instances
begin

text \<open>
  What clients can rely on across connections: the law of the replay ledger in terms of the payloads
  a client decodes, on top of \<open>Coordinator_Laws\<close> and the codecs of \<open>Protocol\<close>, and the instances
  of the server's properties.
\<close>

section \<open>Answers to authority queries\<close>

lemma evaluate_names_request:
  "coordinator_evaluate H q c = (Inr ad, c') \<Longrightarrow> ad_request ad = rq_id q"
proof -
  assume run: "coordinator_evaluate H q c = (Inr ad, c')"
  have "ad_request (evaluate_authority H q st policy catalog) = rq_id q" for st policy catalog
  proof -
    have "answers q st (opening_decision H q st)" by (simp add: answers_def opening_decision_def)
    from settled_steps [OF this, of policy catalog] show ?thesis
      by (simp add: evaluate_authority_steps settled_def answers_def)
  qed
  with run show ?thesis
    by (auto simp: coordinator_evaluate_def guarded_def followed_by_def refuse_def Let_def
        split: if_splits sum.splits prod.splits)
qed

lemma answer_authority:
  assumes "answer_message H m srv = (Inr (Message_AuthorityResult, bs), c')"
  obtains q ad where "coordinator_evaluate H q (srv_coordinator srv) = (Inr ad, c')"
    and "encode_decision ad = Inr bs" "ad_request ad = rq_id q"
proof -
  have "ms_type m = Message_AuthorityQuery"
    using assms unfolding answer_message_def Let_def
    by (cases "ms_type m")
      (auto simp: decode_then_def answer_after_def answer_simple_def answer_with_Inr
        split: sum.splits prod.splits)
  with assms show thesis
    unfolding answer_message_def Let_def
    by (auto simp: decode_then_def answer_after_def answer_with_Inr encode_authority_response_def
        w_seq.simps split: sum.splits prod.splits intro: that evaluate_names_request)
qed

text \<open>The identifier and the outcome lead the encoding, so that they survive whatever follows.\<close>

lemma decoded_decision:
  assumes "encode_decision ad = Inr bs" "decode_decision bs = Inr (d, rest)"
  shows "ad_request d = ad_request ad \<and> ad_outcome d = ad_outcome ad"
proof -
  from assms(1) obtain tail where "bs = id_bytes (ad_request ad) @ outcome_wire (ad_outcome ad) # tail"
    by (auto simp: encode_decision_def w_seq.simps w_id16_def w_u8_def split: sum.splits)
  then have bs: "bs = projr (w_id16 (ad_request ad)) @ projr (w_u8 (outcome_wire (ad_outcome ad))) @ tail"
    by (simp add: w_id16_def w_u8_def)
  show ?thesis
    using assms(2) unfolding bs decode_decision_def rbind_def r_id16_w
    by (auto simp: r_u8_w outcome_from_wire_wire r_lift_def split: sum.splits prod.splits)
qed

section \<open>Properties\<close>

text \<open>
  C4: a request is granted at most once to anyone. When some client has decoded an answer to a
  request identifier that is not an invalid request, no client that decodes a later answer to that
  identifier, over this or any other connection and after any restarts of the coordinator, reads a
  grant. No system call of the journal fails in between, and distinct lease numbers have distinct names.
\<close>

theorem answers_grant_once:
  assumes "reachable H (srv_coordinator srv)"
    and "distinct_lease_names H (cc_federation (co_config (srv_coordinator srv)))"
    and "answer_message H m srv = (Inr (Message_AuthorityResult, bs), c1)"
    and "decode_payload Message_AuthorityResult bs = Inr (AuthorityResult \<lparr>av_decision = d\<rparr>)"
    and "ad_outcome d \<noteq> Outcome_Invalid"
    and "co_steps H c1 (srv_coordinator srv')"
    and "answer_message H m' srv' = (Inr (Message_AuthorityResult, bs'), c2)"
    and "decode_payload Message_AuthorityResult bs' = Inr (AuthorityResult \<lparr>av_decision = d'\<rparr>)"
    and "ad_request d' = ad_request d"
  shows "ad_outcome d' \<noteq> Outcome_Granted"
proof -
  have decode: "\<exists>rest. decode_decision x = Inr (y, rest)"
    if "decode_payload Message_AuthorityResult x = Inr (AuthorityResult \<lparr>av_decision = y\<rparr>)" for x y
    using that by (auto simp: decode_payload_def map_sum_def r_whole_def decode_authority_response_def
        rbind_def and_then_def split: sum.splits prod.splits)
  obtain q ad where first: "coordinator_evaluate H q (srv_coordinator srv) = (Inr ad, c1)"
    "encode_decision ad = Inr bs" "ad_request ad = rq_id q" by (rule answer_authority [OF assms(3)])
  obtain q' ad' where later: "coordinator_evaluate H q' (srv_coordinator srv') = (Inr ad', c2)"
    "encode_decision ad' = Inr bs'" "ad_request ad' = rq_id q'" by (rule answer_authority [OF assms(7)])
  from decode [OF assms(4)] decode [OF assms(8)] obtain r r' where
    "decode_decision bs = Inr (d, r)" "decode_decision bs' = Inr (d', r')" by blast
  with decoded_decision [OF first(2)] decoded_decision [OF later(2)]
  have same: "ad_request d = rq_id q" "ad_outcome d = ad_outcome ad"
    "ad_request d' = rq_id q'" "ad_outcome d' = ad_outcome ad'" using first(3) later(3) by auto
  with decided_once [OF assms(1,2) first(1) _ assms(6) later(1)] assms(5,9) show ?thesis by simp
qed

section \<open>Instances\<close>

text \<open>A peer that says hello and moves the clock to 100; the coordinator keeps its state in memory.\<close>

definition sample_server :: Server where
  "sample_server = \<lparr>srv_coordinator = blank_coordinator sample_config history_disk,
     srv_accepted = 1, srv_errors = 0\<rparr>"

definition sample_hello :: HelloRequest where
  "sample_hello = \<lparr>hr_federation = 1, hr_node = 4, hr_incarnation = 1, hr_protocol_version = 1,
     hr_product = ''cli''\<rparr>"

definition sample_connection :: "(bytes \<Rightarrow> Digest) \<Rightarrow> Socket" where
  "sample_connection H = sample_socket
     (frame_bytes H Message_Hello (projr (encode_hello sample_hello)) @
      frame_bytes H Message_AdvanceTime (store_u64_le 100)) None"

lemma sample_types: "accepted_type Message_Hello" "accepted_type Message_AdvanceTime"
  by (simp_all add: accepted_type_def proper_type_def message_type_wire_def message_types_def
      message_type_of_wire_def kMaxMessageType_def)

lemma sample_hello_encodes:
  "is_ok (encode_hello sample_hello) \<and> length (projr (encode_hello sample_hello)) \<le> 1000"
  by code_simp

lemma sample_welcome:
  assumes "co_policy c = cc_policy sample_config"
  shows "is_ok (encode_welcome (welcome_of H c)) \<and>
    length (projr (encode_welcome (welcome_of H c))) \<le> 1000"
proof -
  have "is_ok (w_identifier ''p'')" "length (projr (w_identifier ''p'')) \<le> 200" by code_simp+
  moreover have "is_ok (w_text ''durable'' kMaxTextLength)" "is_ok (w_text ''in-memory'' kMaxTextLength)"
    "length (projr (w_text ''durable'' kMaxTextLength)) \<le> 200"
    "length (projr (w_text ''in-memory'' kMaxTextLength)) \<le> 200" by code_simp+
  ultimately show ?thesis
    using assms by (simp add: encode_welcome_def is_ok_w_seq projr_w_seq welcome_of_def
        sample_config_def w_u16_def w_u64_def w_id16_def w_digest_def)
qed

lemma sample_served:
  obtains srv' s' where "serve H None sample_server (sample_connection H) = (srv', s')"
    and "co_tick (srv_coordinator srv') = 100"
proof -
  let ?c = "blank_coordinator sample_config history_disk"
  let ?hello = "projr (encode_hello sample_hello)" and ?bound = kMaxFramePayloadBytes
  let ?rest = "frame_bytes H Message_AdvanceTime (store_u64_le 100)"
  obtain bs where bs: "encode_welcome (welcome_of H ?c) = Inr bs" "length bs \<le> 1000"
    using sample_welcome [of ?c H] by (auto simp: is_ok_iff blank_coordinator_def)
  have one: "read_message H ?bound (sample_connection H) =
      (Inr \<lparr>ms_type = Message_Hello, ms_payload = ?hello\<rparr>, sample_socket ?rest None)"
    using read_written [OF sample_types(1) _ default_bound_sane, of ?hello "sample_connection H" H ?rest]
      sample_hello_encodes by (simp add: sample_connection_def sample_socket_def kMaxFramePayloadBytes_def)
  have hello: "check_hello (cc_federation (co_config ?c))
      \<lparr>ms_type = Message_Hello, ms_payload = ?hello\<rparr> = Inr sample_hello"
    using hello_codec.whole [of sample_hello] sample_hello_encodes
    by (simp add: check_hello_def blank_coordinator_def sample_config_def sample_hello_def
        kWireProtocolVersion_def)
  obtain s2 where two: "write_message H Message_Welcome bs (sample_socket ?rest None) = (success, s2)"
      "sk_in s2 = ?rest" "sk_end s2 = Peer_Closed"
    using bs(2) by (simp add: write_message_def send_all_def sample_socket_def kMaxFramePayloadBytes_def)
  define m where "m = \<lparr>ms_type = Message_AdvanceTime, ms_payload = store_u64_le 100\<rparr>"
  have three: "read_message H ?bound s2 = (Inr m, s2\<lparr>sk_in := []\<rparr>)"
    using read_written [OF sample_types(2) _ default_bound_sane, of "store_u64_le 100" s2 H "[]"] two(2)
    by (simp add: m_def kMaxFramePayloadBytes_def)
  have "snd (answer_message H m sample_server) = ?c\<lparr>co_tick := 100\<rparr>"
  proof -
    have "r_whole decode_time_advance (store_u64_le 100) = Inr \<lparr>ta_to = 100\<rparr>"
      using time_advance_codec.whole [of "\<lparr>ta_to = 100\<rparr>"]
      by (simp add: encode_time_advance_def w_seq.simps w_u64_def)
    moreover have "advance_time H 100 ?c = (success, ?c\<lparr>co_tick := 100\<rparr>)"
      by (simp add: advance_time_def guarded_def w_u64_def persist_def word_le_nat_alt blank_coordinator_def
          sample_config_def)
    ultimately show ?thesis
      by (simp add: answer_message_def Let_def m_def decode_then_def sample_server_def)
  qed
  then obtain r srv2 s3 where four: "handle_message H m sample_server (s2\<lparr>sk_in := []\<rparr>) = (r, srv2, s3)"
      "srv_coordinator srv2 = ?c\<lparr>co_tick := 100\<rparr>" "sk_in s3 = []"
    by (cases "handle_message H m sample_server (s2\<lparr>sk_in := []\<rparr>)")
      (auto simp: handle_message_def split: prod.splits sum.splits dest: write_message_in)
  have stop: "fst (serve_messages H None srv2 s3) = srv2"
    using four(3) by (subst serve_messages.simps)
      (simp add: read_message_def recv_exact_def Let_def split: StreamEnd.split)
  have "co_tick (srv_coordinator (fst (serve_messages H None sample_server s2))) = 100"
    using three four stop by (subst serve_messages.simps)
      (auto simp: m_def count_error_def split: sum.split)
  moreover have "serve H None sample_server (sample_connection H) = serve_messages H None sample_server s2"
    using one hello bs(1) two(1) by (simp add: serve_def sample_server_def)
  ultimately show thesis using that by (metis prod.collapse)
qed

lemma no_effect_without_hello_witness:
  "\<exists>srv' s' payload hello rest.
     serve toy_hash None sample_server (sample_connection toy_hash) = (srv', s') \<and>
     sk_in (sample_connection toy_hash) = frame_bytes toy_hash Message_Hello payload @ rest \<and>
     r_whole decode_hello payload = Inr hello \<and> hr_federation hello = 1"
proof -
  obtain srv' s' where s: "serve toy_hash None sample_server (sample_connection toy_hash) = (srv', s')"
    "co_tick (srv_coordinator srv') = 100" by (rule sample_served)
  then have "srv_coordinator srv' \<noteq> srv_coordinator sample_server"
    by (auto simp: sample_server_def blank_coordinator_def sample_config_def)
  from no_effect_without_hello [OF s(1) this] s(1) show ?thesis
    by (auto simp: sample_server_def blank_coordinator_def sample_config_def)
qed

lemma serving_is_operating_witness:
  "co_steps toy_hash (srv_coordinator sample_server)
     (srv_coordinator (fst (serve toy_hash None sample_server (sample_connection toy_hash))))"
  by (rule serving_is_operating [OF prod.collapse [symmetric]])

text \<open>The answer to a request that was decided before, and that it can be encoded and decoded.\<close>

definition replayed_explanation :: Explanation where
  "replayed_explanation = canonicalize_explanation
     ((ex_add Reason_RequestReplayed
         (''request '' @ request_to_string (rq_id sample_replay_request) @
          '' was already decided; a repeated identifier never grants fresh authority'')
         (empty_explanation
            \<lparr>ex_considered_grants := [rq_requested sample_replay_request],
             ex_contributions := [actor_contribution echo_hash sample_replay_request False]\<rparr>))
       \<lparr>ex_outcome := Outcome_Replayed, ex_evidence := Evidence_Known,
        ex_summary := ''the request identifier is already in the replay ledger''\<rparr>)"

lemma replayed_explanation_ok:
  "is_ok (encode_explanation replayed_explanation) \<and> explanation_wf replayed_explanation \<and>
   length (projr (encode_explanation replayed_explanation)) \<le> 2000"
  by code_simp

lemma sample_replay_request_ok:
  "is_ok (encode_request sample_replay_request) \<and> request_wf sample_replay_request"
  "is_ok (encode_grant (rq_requested sample_replay_request))"
  "grant_wf (rq_requested sample_replay_request)"
  "is_ok (encode_identity (rq_actor sample_replay_request))" "is_ok (encode_identity empty_identity)"
  "is_ok (encode_grants [] kMaxEffectiveGrantsPerDecision)"
  "length (projr (encode_grant (rq_requested sample_replay_request))) \<le> 200"
  "length (projr (encode_identity (rq_actor sample_replay_request))) \<le> 200"
  "length (projr (encode_identity empty_identity)) \<le> 200"
  "length (projr (encode_grants [] kMaxEffectiveGrantsPerDecision)) \<le> 200"
  by code_simp+

lemma replayed_answer_decodes:
  assumes "co_artifacts c = []" "length (co_leases c) \<le> kMaxMembers" "co_config c = sample_config"
    and "5 \<in> re_request ` set (co_replay c)" "length (co_replay c) \<le> kMaxReplayEntries"
  obtains ad bs where "coordinator_evaluate echo_hash sample_replay_request c = (Inr ad, next_tick c)"
    and "ad_outcome ad = Outcome_Replayed" "encode_decision ad = Inr bs"
    and "decode_payload Message_AuthorityResult bs = Inr (AuthorityResult \<lparr>av_decision = ad\<rparr>)"
    and "length bs \<le> 10000"
proof -
  obtain ad where run: "coordinator_evaluate echo_hash sample_replay_request c = (Inr ad, next_tick c)"
    "ad_outcome ad = Outcome_Replayed" using replayed_answer [OF assms] by blast
  from derive_without_evidence [OF assms(1,2)] obtain st where
    st: "derive_locked echo_hash c = Inr st" "fs_federation st = cc_federation (co_config c)" by metis
  from run(1) have ad: "ad = evaluate_authority echo_hash sample_replay_request st (co_policy c) (co_catalog c)"
    by (auto simp: coordinator_evaluate_def guarded_def followed_by_def refuse_def Let_def st(1)
        split: if_splits sum.splits prod.splits)
  have "has_replay st 5"
    using derived_ledger [OF st(1) assms(5)] assms(4) by (auto simp: has_replay_def)
  then have "rq_federation sample_replay_request = fs_federation st \<and>
      has_replay st (rq_id sample_replay_request)"
    using st(2) assms(3) sample_config_ok(4) by (simp add: sample_replay_request_def)
  then have "ad = (opening_decision echo_hash sample_replay_request st)
      \<lparr>ad_outcome := Outcome_Replayed, ad_explanation := replayed_explanation\<rparr>"
    unfolding ad by (simp add: evaluate_authority_def evaluate_steps_def check_federation_def
        check_replay_def proceed_def finish_def remark_def opening_decision_def
        replayed_explanation_def empty_decision_def)
  then have "is_ok (encode_decision ad)" "decision_wf ad" "length (projr (encode_decision ad)) \<le> 10000"
    using replayed_explanation_ok sample_replay_request_ok
    by (simp_all add: encode_decision_def is_ok_w_seq projr_w_seq opening_decision_def
        empty_decision_def decision_wf_def w_id16_def w_u8_def w_u64_def)
  then show thesis
    using that [OF run] authority_response_codec.whole [of "\<lparr>av_decision = ad\<rparr>"]
    by (auto simp: is_ok_iff decode_payload_def encode_authority_response_def w_seq.simps
        authority_response_wf_def)
qed

lemma answers_grant_once_witness:
  "\<exists>srv m bs c1 srv' bs' c2 d d'. reachable echo_hash (srv_coordinator srv) \<and>
     answer_message echo_hash m srv = (Inr (Message_AuthorityResult, bs), c1) \<and>
     co_steps echo_hash c1 (srv_coordinator srv') \<and>
     answer_message echo_hash m srv' = (Inr (Message_AuthorityResult, bs'), c2) \<and>
     decode_payload Message_AuthorityResult bs = Inr (AuthorityResult \<lparr>av_decision = d\<rparr>) \<and>
     decode_payload Message_AuthorityResult bs' = Inr (AuthorityResult \<lparr>av_decision = d'\<rparr>) \<and>
     ad_outcome d' \<noteq> Outcome_Granted"
proof -
  obtain c l where c: "co_config c = sample_config" "co_artifacts c = []" "reachable echo_hash c"
    "load_journal echo_hash (blank_coordinator sample_config history_disk) = (success, c)"
    "co_leases c = [(sample_lease_id, l)]"
    using sample_start by metis
  obtain rec where "sound echo_hash (sample_history @ [rec]) c" using sample_sound [OF c(4)] .
  note known = sample_replays [OF this]
  define m where "m = \<lparr>ms_type = Message_AuthorityQuery,
    ms_payload = projr (encode_request sample_replay_request)\<rparr>"
  have asked: "r_whole decode_request (ms_payload m) = Inr sample_replay_request"
    using request_codec.whole sample_replay_request_ok(1) by (simp add: m_def)
  have answered: "answer_message echo_hash m \<lparr>srv_coordinator = x, srv_accepted = 1, srv_errors = 0\<rparr> =
      (Inr (Message_AuthorityResult, bs), next_tick x)"
    if "coordinator_evaluate echo_hash sample_replay_request x = (Inr ad, next_tick x)"
      "encode_decision ad = Inr bs" for x ad bs
    using that asked by (simp add: answer_message_def Let_def decode_then_def answer_after_def
        answer_with_def encode_authority_response_def w_seq.simps m_def)
  obtain ad bs where first: "coordinator_evaluate echo_hash sample_replay_request c = (Inr ad, next_tick c)"
    "ad_outcome ad = Outcome_Replayed" "encode_decision ad = Inr bs"
    "decode_payload Message_AuthorityResult bs = Inr (AuthorityResult \<lparr>av_decision = ad\<rparr>)"
    using c known by (rule_tac replayed_answer_decodes [of c]) (auto simp: kMaxMembers_def)
  obtain ad' bs' where later:
    "coordinator_evaluate echo_hash sample_replay_request (next_tick c) = (Inr ad', next_tick (next_tick c))"
    "ad_outcome ad' = Outcome_Replayed" "encode_decision ad' = Inr bs'"
    "decode_payload Message_AuthorityResult bs' = Inr (AuthorityResult \<lparr>av_decision = ad'\<rparr>)"
    using c known by (rule_tac replayed_answer_decodes [of "next_tick c"])
      (auto simp: kMaxMembers_def next_tick_def)
  let ?srv = "\<lparr>srv_coordinator = c, srv_accepted = 1, srv_errors = 0\<rparr>"
    and ?srv' = "\<lparr>srv_coordinator = next_tick c, srv_accepted = 1, srv_errors = 0\<rparr>"
  have names: "ad_request ad' = ad_request ad"
    using evaluate_names_request [OF first(1)] evaluate_names_request [OF later(1)] by simp
  note one = answered [OF first(1,3)] and two = answered [OF later(1,3)]
  have steps: "co_steps echo_hash (next_tick c) (srv_coordinator ?srv')" by simp
  have "ad_outcome ad' \<noteq> Outcome_Granted"
    using answers_grant_once [of echo_hash ?srv, OF _ _ one first(4) _ steps two later(4) names]
      c(3) sample_names_config [OF c(1)] first(2) by simp
  then show ?thesis using c(3) one two steps first(4) later(4)
    by (intro exI [of _ ?srv] exI [of _ m] exI [of _ bs] exI [of _ "next_tick c"] exI [of _ ?srv']
        exI [of _ bs'] exI [of _ "next_tick (next_tick c)"] exI [of _ ad] exI [of _ ad']) simp
qed

end
