(* ===== verification/Member_Laws.thy ===== *)
theory Member_Laws
  imports Member Server_Laws
begin

text \<open>
  The laws of the member's runtime: what it issues is valid evidence, what a client is told is what
  the coordinator decided, what a probe that reports a peer reachable has seen, and what becomes of
  an endorsement that is issued twice.
\<close>

section \<open>Issued evidence\<close>

text \<open>The artefacts a member can issue.\<close>

datatype MemberAct =
    Act_Propose MemberDeclaration Lineage
  | Act_Accept Lineage
  | Act_Endorse MemberDeclaration Lineage
  | Act_Reattest
  | Act_Declare "DelegationTerms list"
  | Act_Withdraw "ScopeGrant list" Lineage
  | Act_Leave Lineage ReasonCode string
  | Act_Fence Lineage ReasonCode string

primrec build_act :: "(bytes \<Rightarrow> Digest) \<Rightarrow> MemberAct \<Rightarrow> MemberRuntime \<Rightarrow> Artifact result" where
  "build_act H (Act_Propose d l) = build_proposal H d l"
| "build_act H (Act_Accept l) = build_acceptance H l"
| "build_act H (Act_Endorse d l) = build_endorsement H d l"
| "build_act H Act_Reattest = build_reattestation H"
| "build_act H (Act_Declare ts) = build_delegation_declaration H ts"
| "build_act H (Act_Withdraw gs l) = build_withdrawal H gs l"
| "build_act H (Act_Leave l r detail) = build_leave H l r detail"
| "build_act H (Act_Fence l r detail) = build_self_fence H l r detail"

text \<open>The constitution of a candidate is not checked when it is proposed or endorsed.\<close>

primrec candidate_valid :: "MemberAct \<Rightarrow> bool" where
  "candidate_valid (Act_Propose d l) \<longleftrightarrow> validate_constitution (md_constitution d) builtin = success"
| "candidate_valid (Act_Accept l) \<longleftrightarrow> True"
| "candidate_valid (Act_Endorse d l) \<longleftrightarrow> validate_constitution (md_constitution d) builtin = success"
| "candidate_valid Act_Reattest \<longleftrightarrow> True"
| "candidate_valid (Act_Declare ts) \<longleftrightarrow> True"
| "candidate_valid (Act_Withdraw gs l) \<longleftrightarrow> True"
| "candidate_valid (Act_Leave l r detail) \<longleftrightarrow> True"
| "candidate_valid (Act_Fence l r detail) \<longleftrightarrow> True"

text \<open>What \<^verbatim>\<open>create\<close> checks, and every operation keeps.\<close>

definition member_ok :: "MemberRuntime \<Rightarrow> bool" where
  "member_ok rt \<longleftrightarrow> mg_federation (mr_config rt) \<noteq> 0 \<and> mg_node (mr_config rt) \<noteq> 0 \<and>
     own_member rt \<noteq> 0 \<and> validate_constitution (mg_constitution (mr_config rt)) builtin = success"

lemma created_ok: "member_create config = Inr rt \<Longrightarrow> member_ok rt"
  by (auto simp: member_create_def member_ok_def is_nil_def split: if_splits sum.splits)

text \<open>The configuration but for the incarnation.\<close>

definition same_member :: "MemberRuntime \<Rightarrow> MemberRuntime \<Rightarrow> bool" where
  "same_member rt rt' \<longleftrightarrow>
     mr_config rt' = (mr_config rt)\<lparr>mg_incarnation := mg_incarnation (mr_config rt')\<rparr>"

lemma same_member_refl [simp]: "same_member rt rt"
  by (simp add: same_member_def)

lemma member_ok_same: "same_member rt rt' \<Longrightarrow> member_ok rt \<Longrightarrow> member_ok rt'"
  unfolding same_member_def member_ok_def
  by (metis (no_types, lifting) MemberConfig.select_convs MemberConfig.surjective
      MemberConfig.update_convs(4))

lemma validate_canonical_constitution:
  assumes "validate_constitution c catalog = success"
  shows "validate_constitution (canonicalize_constitution c) catalog = success"
proof -
  have "check_retained catalog (map dt_grant (sort_unique ts)) g = success \<longleftrightarrow>
      check_retained catalog (map dt_grant ts) g = success" for ts g
    by (simp add: check_retained_def split: prod.split)
  with assms show ?thesis
    unfolding validate_constitution_ok_iff
    by (auto simp: constitution_canonical_defs intro: order_trans [OF length_sort_unique_le])
qed

lemma with_client_config: "with_client f rt = (r, rt') \<Longrightarrow> mr_config rt' = mr_config rt"
  by (auto simp: with_client_def split: prod.splits)

lemma refresh_clock_config [simp]: "mr_config (snd (refresh_clock H rt)) = mr_config rt"
  by (auto simp: refresh_clock_def dest: with_client_config split: prod.splits sum.splits)

lemma member_submit_config [simp]: "mr_config (snd (member_submit H a rt)) = mr_config rt"
  by (auto simp: member_submit_def dest: with_client_config split: prod.splits sum.splits)

lemma build_and_submit_config [simp]: "mr_config (snd (build_and_submit H build rt)) = mr_config rt"
  using refresh_clock_config [of H rt] member_submit_config [of H]
  by (cases "refresh_clock H rt"; cases "fst (refresh_clock H rt)")
    (auto simp: build_and_submit_def split: sum.splits if_splits)

lemma start_probe_listener_config [simp]: "mr_config (snd (start_probe_listener bind rt)) = mr_config rt"
  by (simp add: start_probe_listener_def Let_def split: sum.split)

lemma attach_config [simp]: "mr_config (snd (attach H attempt bind rt)) = mr_config rt"
proof (cases "mr_attached rt")
  case False
  let ?c = "mr_config rt"
  show ?thesis
  proof (cases "client_connect H (mg_coordinator ?c) (mg_federation ?c) (mg_node ?c)
      (mg_incarnation ?c) attempt")
    case (Inr cl)
    define rt1 where "rt1 = rt\<lparr>mr_client := cl, mr_attached := True,
        mr_tick := wr_logical_time (cl_welcome cl)\<rparr>"
    have "mr_config (snd (refresh_clock H rt1)) = ?c" by (simp add: rt1_def)
    with False Inr show ?thesis
      by (cases "refresh_clock H rt1"; cases "fst (refresh_clock H rt1)")
        (auto simp: attach_def Let_def simp flip: rt1_def)
  qed (simp add: attach_def Let_def)
qed (simp add: attach_def)

text \<open>A restart changes the incarnation only.\<close>

lemma restart_same_member: "same_member rt (snd (restart_with_new_incarnation H n rt))"
  by (simp add: restart_with_new_incarnation_def build_reattestation_def Let_def same_member_def)

section \<open>Validation of issued evidence\<close>

lemma constitution_digest_canonical [simp]:
  "constitution_digest H (canonicalize_constitution c) = constitution_digest H c"
  by (simp add: constitution_digest_def)

lemma issued_fields:
  "art_kind (issue_artifact H kind subject body rt) = kind"
  "en_federation (ar_envelope (issue_artifact H kind subject body rt)) = mg_federation (mr_config rt)"
  "en_subject (ar_envelope (issue_artifact H kind subject body rt)) = subject"
  "Provenance.pv_member (en_issuer (ar_envelope (issue_artifact H kind subject body rt))) = own_member rt"
  "pv_epoch (en_issuer (ar_envelope (issue_artifact H kind subject body rt))) = mr_epoch rt"
  "pv_issued_at (en_issuer (ar_envelope (issue_artifact H kind subject body rt))) = mr_tick rt"
  "ar_body (issue_artifact H kind subject body rt) = canonicalize_body body"
  "en_body_digest (ar_envelope (issue_artifact H kind subject body rt)) =
     body_digest H (canonicalize_body body)"
  by (simp_all add: issue_artifact_def make_envelope_def make_artifact_def Let_def)

lemma id_of_digest_zero [simp]: "id_of_digest 0 = 0"
  by code_simp

lemma canonical_constitution_fields [simp]:
  "mc_member (canonicalize_constitution c) = mc_member c"
  "mc_domain (canonicalize_constitution c) = mc_domain c"
  "mc_generation (canonicalize_constitution c) = mc_generation c"
  by (simp_all add: canonicalize_constitution_def)

text \<open>
  The checks of the digest and the envelope fail only when the digest or the identifier is zero, which
  no value is under a hash that never starts with sixteen zeros.
\<close>

lemma issued_checks:
  "verify_digest H (issue_artifact H kind subject body rt) = success \<longleftrightarrow>
     body_digest H (canonicalize_body body) \<noteq> 0"
  "mg_federation (mr_config rt) \<noteq> 0 \<Longrightarrow> own_member rt \<noteq> 0 \<Longrightarrow>
   validate_envelope (ar_envelope (issue_artifact H kind subject body rt)) = success \<longleftrightarrow>
     art_evidence (issue_artifact H kind subject body rt) \<noteq> 0"
  by (auto simp: verify_digest_ok_iff validate_envelope_ok_iff issued_fields)

lemma issued_evidence_nonzero:
  "(\<And>bs. id_of_digest (H bs) \<noteq> 0) \<Longrightarrow> art_evidence (issue_artifact H kind subject body rt) \<noteq> 0"
  by (simp add: issue_artifact_def Let_def member_evidence_id_def digest_of_def
      w_seq.simps w_id16_def w_u16_def w_digest_def)

lemma canonical_body_fields [simp]:
  "ab_declaration (canonicalize_body b) = canonicalize_declaration (ab_declaration b)"
  "ab_declared_identity (canonicalize_body b) = ab_declared_identity b"
  "ab_withdrawn_grants (canonicalize_body b) = canonicalize_grants (ab_withdrawn_grants b)"
  by (simp_all add: canonicalize_body_def)

lemma validate_declared_issued:
  assumes "validate_constitution (md_constitution (ab_declaration b)) builtin = success"
    and "mc_member (md_constitution (ab_declaration b)) = en_subject e"
    and "ab_declared_identity b = declaration_identity H (ab_declaration b)"
  shows "validate_declared H builtin e (canonicalize_body b) = success"
  using assms
  by (simp add: validate_declared_def Let_def canonicalize_declaration_def declaration_identity_def
      validate_canonical_constitution)

lemma canonicalize_grants_empty [simp]: "canonicalize_grants gs = [] \<longleftrightarrow> gs = []"
  by (metis canonicalize_grants_def set_empty set_sort_unique)

text \<open>The builders, one line each: the kind, the subject and the body they issue.\<close>

lemma built_kind_valid:
  assumes "member_ok rt" "build_act H act rt = Inr a" "candidate_valid act"
  shows "\<exists>kind subject body. a = issue_artifact H kind subject body rt \<and>
    validate_kind H builtin (ar_envelope a) (ar_body a) = success"
proof (cases act)
  case (Act_Propose d l)
  with assms show ?thesis
    by (auto simp: build_proposal_def validate_kind_def issued_fields canonicalize_declaration_def
        validate_canonical_constitution)
next
  case (Act_Accept l)
  with assms show ?thesis
    by (auto simp: build_acceptance_def validate_kind_def issued_fields Let_def member_ok_def
        make_declaration_def intro!: validate_declared_issued)
next
  case (Act_Endorse d l)
  with assms show ?thesis
    by (auto simp: build_endorsement_def validate_kind_def issued_fields intro!: validate_declared_issued)
next
  case Act_Reattest
  with assms show ?thesis
    by (auto simp: build_reattestation_def validate_kind_def issued_fields Let_def member_ok_def
        make_declaration_def intro!: validate_declared_issued)
next
  case (Act_Declare ts)
  with assms show ?thesis
    by (auto simp: build_delegation_declaration_def validate_kind_def issued_fields Let_def
        declaration_identity_def canonicalize_declaration_def make_declaration_def
        validate_canonical_constitution split: sum.splits)
next
  case (Act_Withdraw gs l)
  with assms show ?thesis
    by (auto simp: build_withdrawal_def validate_kind_def issued_fields split: if_splits)
qed (use assms in \<open>auto simp: build_leave_def build_self_fence_def validate_kind_def issued_fields
    member_ok_def is_nil_def\<close>)

section \<open>Evidence that is issued twice\<close>

lemma encode_artifact_envelope:
  assumes "encode_artifact a = Inr bs" "encode_artifact b = Inr bs"
  shows "ar_envelope a = ar_envelope b"
proof -
  have "\<exists>rest. decode_envelope bs = Inr (ar_envelope x, rest)" if x: "encode_artifact x = Inr bs" for x
  proof -
    from x obtain rest where "bs = projr (encode_envelope (ar_envelope x)) @ rest"
      by (auto simp: encode_artifact_def w_seq.simps split: sum.splits)
    then show ?thesis by (auto simp: decode_envelope_rt)
  qed
  from this [OF assms(1)] this [OF assms(2)] show ?thesis by auto
qed

text \<open>
  An endorsement or a proposal does not mention the tick in its body: built again at another tick it
  has the same evidence identifier and different bytes.
\<close>

lemma endorsement_again:
  assumes "build_endorsement H d l rt = Inr a" "build_endorsement H d l rt' = Inr b"
    and "mr_config rt' = mr_config rt" "mr_epoch rt' = mr_epoch rt" "mr_tick rt' \<noteq> mr_tick rt"
  shows "art_evidence b = art_evidence a \<and> ar_envelope b \<noteq> ar_envelope a"
proof -
  let ?body = "empty_body
      \<lparr>ab_declaration := d, ab_declared_identity := declaration_identity H d, ab_lineage := l,
       ab_epoch := mr_epoch rt\<rparr>"
  from assms have a: "a = issue_artifact H Kind_MembershipEndorsement (mc_member (md_constitution d)) ?body rt"
    and b: "b = issue_artifact H Kind_MembershipEndorsement (mc_member (md_constitution d)) ?body rt'"
    by (simp_all add: build_endorsement_def)
  have "pv_issued_at (en_issuer (ar_envelope b)) \<noteq> pv_issued_at (en_issuer (ar_envelope a))"
    unfolding a b issued_fields by (rule assms(5))
  moreover have "art_evidence b = art_evidence a"
    unfolding a b by (simp add: issue_artifact_def Let_def assms(3,4) make_artifact_def)
  ultimately show ?thesis by metis
qed

text \<open>The decisions a submission triggers only add artefacts.\<close>

lemma record_decision_artifacts:
  "record_decision H a c = (r, issued, c') \<Longrightarrow> set (co_artifacts c) \<subseteq> set (co_artifacts c')"
  by (auto simp: record_decision_def split: sum.splits prod.splits if_splits dest: persist_artifacts)

lemma record_batch_artifacts:
  "record_batch H as (p, issued, c) = (p', issued', c') \<Longrightarrow>
     set (co_artifacts c) \<subseteq> set (co_artifacts c')"
proof (induction as arbitrary: p issued c)
  case (Cons a as)
  obtain r more c1 where "record_decision H a c = (r, more, c1)" by (metis prod_cases3)
  with Cons.prems Cons.IH record_decision_artifacts show ?case by fastforce
qed simp

lemma decide_loop_artifacts:
  "decide_loop n H issued c = (issued', c') \<Longrightarrow> set (co_artifacts c) \<subseteq> set (co_artifacts c')"
proof (induction n arbitrary: issued c)
  case (Suc n)
  show ?case
  proof (cases "derive_locked H c")
    case (Inr st)
    let ?batch = "List.map_filter (decide_member H c st) (fs_members st)"
    obtain p more c1 where "record_batch H ?batch (False, issued, c) = (p, more, c1)" by (metis prod_cases3)
    with Suc.prems Suc.IH record_batch_artifacts Inr show ?thesis
      by (fastforce simp: Let_def split: if_splits)
  qed (use Suc.prems in simp)
qed simp

lemma submit_conflicting:
  assumes "submit_artifact H b c = (Inr so, c')" "b \<in> set (co_artifacts c')"
    and "b \<notin> set (co_artifacts c)" "a \<in> set (co_artifacts c)"
    and "art_evidence a = art_evidence b" "artifact_digest H a \<noteq> artifact_digest H b"
  shows "so_disposition so = Submission_Rejected \<and> a \<in> set (co_artifacts c')"
proof -
  let ?stored = "\<lambda>x. x\<lparr>co_artifacts := co_artifacts x @ [b],
      co_rejected_artifacts := co_rejected_artifacts x + 1\<rparr>"
  from assms have "\<exists>bs c1 issued. persist H Journal_Artifact bs c = (success, c1) \<and>
      decide_locked H (?stored c1) = (issued, c') \<and> so_disposition so = Submission_Rejected"
    by (auto simp: submit_artifact_def Let_def submission_def with_state_digest_def
        split: sum.splits prod.splits if_splits dest: persist_artifacts) blast+
  then obtain bs c1 issued where "persist H Journal_Artifact bs c = (success, c1)"
    "decide_locked H (?stored c1) = (issued, c')" "so_disposition so = Submission_Rejected" by blast
  note stored = persist_artifacts [OF this(1)] decide_loop_artifacts [OF this(2) [unfolded decide_locked_def]] this(3)
  from stored assms(4) show ?thesis by auto
qed

section \<open>Probes\<close>

lemma probe_types: "accepted_type Message_ProbeRequest" "accepted_type Message_ProbeResult"
  by (simp_all add: accepted_type_def proper_type_def message_type_wire_def message_types_def
      message_type_of_wire_def kMaxMessageType_def)

lemma probe_response_encodes:
  "is_ok (encode_probe_response p)" "length (projr (encode_probe_response p)) = 104"
  by (simp_all add: encode_probe_response_def is_ok_w_seq projr_w_seq w_id16_def w_u64_def w_digest_def)

text \<open>What the probe listener of a member of the same federation answers, and what the prober sees.\<close>

lemma answer_probe_reply:
  assumes "sk_in s = frame_bytes H Message_ProbeRequest bs" "sk_out s = []" "sk_room s = None"
    and "encode_hello (probe_hello config) = Inr bs"
    and "mg_federation (mr_config peer) = mg_federation config"
    and "length bs \<le> unat kMaxFramePayloadBytes"
  shows "sk_out (answer_probe H peer s) =
    frame_bytes H Message_ProbeResult (projr (encode_probe_response (probe_response H peer)))"
proof -
  have "read_message H kMaxFramePayloadBytes s =
      (Inr \<lparr>ms_type = Message_ProbeRequest, ms_payload = bs\<rparr>, s\<lparr>sk_in := []\<rparr>)"
    using read_written [OF probe_types(1) assms(6) default_bound_sane, of s H "[]"] assms(1) by simp
  moreover have "r_whole decode_hello bs = Inr (probe_hello config)"
    using hello_codec.whole [of "probe_hello config"] assms(4) by simp
  moreover obtain rs where "encode_probe_response (probe_response H peer) = Inr rs" "length rs = 104"
    using probe_response_encodes [of "probe_response H peer"] by (auto simp: is_ok_iff)
  ultimately show ?thesis
    using assms(2,3,5)
    by (simp add: answer_probe_def probe_hello_def write_message_def send_all_def kMaxFramePayloadBytes_def)
qed

lemma probed_member_is_reachable:
  assumes "ep_host (pt_endpoint target) = ''127.0.0.1''" "pt_member target = own_member peer"
    and "encode_hello (probe_hello config) = Inr bs"
    and "write_message H Message_ProbeRequest bs s = (success, s')"
    and "sk_in s = sk_out (answer_probe H peer ps) @ rest"
    and "sk_in ps = frame_bytes H Message_ProbeRequest bs" "sk_out ps = []" "sk_room ps = None"
    and "mg_federation (mr_config peer) = mg_federation config"
  shows "ask_probe H config target (Inr s) =
    (Reach_Reachable, mg_incarnation (mr_config peer),
     ''reached '' @ node_to_string (mg_node (mr_config peer)))"
proof -
  let ?p = "projr (encode_probe_response (probe_response H peer))"
  have size: "length bs \<le> unat kMaxFramePayloadBytes" using write_message_success [OF assms(4)] by simp
  have "sk_in s' = frame_bytes H Message_ProbeResult ?p @ rest"
    using answer_probe_reply [OF assms(6-8,3,9) size] assms(5) write_message_in [OF assms(4)] by simp
  then have read: "read_message H kMaxFramePayloadBytes s' =
      (Inr \<lparr>ms_type = Message_ProbeResult, ms_payload = ?p\<rparr>, s'\<lparr>sk_in := rest\<rparr>)"
    by (intro read_written [OF probe_types(2) _ default_bound_sane])
      (simp_all add: probe_response_encodes kMaxFramePayloadBytes_def)
  have "r_whole decode_probe_response ?p = Inr (probe_response H peer)"
    by (rule probe_response_codec.whole) (simp_all add: probe_response_encodes)
  then show ?thesis
    using assms(1-3) by (simp add: ask_probe_def socket_connect_def assms(4) read probe_response_def)
qed

text \<open>The lifecycle of the member's own status is never filled in.\<close>

lemma member_status_lifecycle:
  "member_status H rt = (Inr st, rt') \<Longrightarrow> mt_lifecycle st = Lifecycle_Absent \<and>
     mt_federation_authority st = [] \<and> mt_withheld st = [] \<and> mt_contributing_parties st = 0"
  by (auto simp: member_status_def not_attached_def blank_status_def Let_def
      split: if_splits prod.splits sum.splits)

section \<open>Properties\<close>

text \<open>
  C34: a member issues valid evidence. An artefact a member runtime builds names the member's federation
  and the member itself as issuer and is stamped with the epoch and tick the runtime has cached.
  Provided its body can be encoded and the constitution of the candidate of a proposal or endorsement is
  valid, it passes the validation of the coordinator, unless the digest of its body or the identifier
  cut from a digest is all zeros, the value that stands for none.
\<close>

theorem issued_evidence_is_valid:
  assumes "member_ok rt" "build_act H act rt = Inr a" "candidate_valid act"
    and "encode_body (ar_body a) = Inr bs"
  shows "(validate_artifact H builtin a = success \<longleftrightarrow> H bs \<noteq> 0 \<and> art_evidence a \<noteq> 0) \<and>
    en_federation (ar_envelope a) = mg_federation (mr_config rt) \<and>
    Provenance.pv_member (en_issuer (ar_envelope a)) = own_member rt \<and>
    pv_epoch (en_issuer (ar_envelope a)) = mr_epoch rt \<and>
    pv_issued_at (en_issuer (ar_envelope a)) = mr_tick rt"
proof -
  from built_kind_valid [OF assms(1-3)] obtain kind subject body where
    a: "a = issue_artifact H kind subject body rt"
    and kind: "validate_kind H builtin (ar_envelope a) (ar_body a) = success" by blast
  have "body_digest H (canonicalize_body body) = H bs"
    using assms(4) by (simp add: a issued_fields body_digest_def digest_of_def)
  with assms(1) kind show ?thesis
    by (simp add: a validate_artifact_ok_iff issued_checks issued_fields member_ok_def)
qed

text \<open>
  C14: what a client is told is what was decided. When a client asks for authority over a working
  connection and is given a decision, the coordinator evaluated exactly that request, and the decision
  the client holds names the request and has the outcome of the evaluation.
\<close>

theorem decisions_reach_the_client:
  assumes "request_wf q" "encode_request q = Inr bs"
    and "carries H Message_AuthorityQuery bs cl srv srv'"
    and "fst (client_query_authority H q cl) = Inr d"
  shows "\<exists>ad. coordinator_evaluate H q (srv_coordinator srv) = (Inr ad, srv_coordinator srv') \<and>
    ad_request d = rq_id q \<and> ad_outcome d = ad_outcome ad"
proof -
  obtain r where run: "mapped (\<lambda>ad. \<lparr>av_decision = ad\<rparr>) (coordinator_evaluate H q (srv_coordinator srv)) =
      (Inr r, srv_coordinator srv')" "is_ok (encode_authority_response r)"
    and reply: "fst (request_reply H Message_AuthorityQuery (encode_request q) decode_authority_response
      Message_AuthorityResult cl) = r_whole decode_authority_response (projr (encode_authority_response r))"
    using decision.answered [OF assms(2,1,3)] by metis
  from run(1) obtain ad where ad: "coordinator_evaluate H q (srv_coordinator srv) =
      (Inr ad, srv_coordinator srv')" "r = \<lparr>av_decision = ad\<rparr>"
    by (cases "coordinator_evaluate H q (srv_coordinator srv)")
      (auto simp: mapped_def map_sum_def split: sum.splits)
  from run(2) ad(2) obtain ws where ws: "encode_decision ad = Inr ws"
    "projr (encode_authority_response r) = ws"
    by (auto simp: is_ok_iff encode_authority_response_def w_seq.simps split: sum.splits)
  from assms(4) reply have "r_whole decode_authority_response ws = Inr \<lparr>av_decision = d\<rparr>"
    unfolding ws(2)
    by (auto simp: client_query_authority_def split: prod.splits sum.splits)
  then obtain rest where "decode_decision ws = Inr (d, rest)"
    by (auto simp: r_whole_def decode_authority_response_def rbind_def and_then_def
        split: sum.splits prod.splits)
  from decoded_decision [OF ws(1) this] evaluate_names_request [OF ad(1)] ad(1) show ?thesis by auto
qed

text \<open>
  C31: a peer that is reported reachable answered. For every peer a member's observation reports
  reachable, the bytes received from the endpoint of that peer start with a frame with a matching
  digest whose payload is exactly a probe response that names this peer and the incarnation reported.
\<close>

theorem reachable_peers_answered:
  assumes "p \<in> set (ob_peers (fst (probe_peers H targets rt)))" "po_state p = Reach_Reachable"
  shows "\<exists>target s payload response rest. (target, Inr s) \<in> set targets \<and>
    po_peer p = pt_member target \<and> sk_in s = frame_bytes H Message_ProbeResult payload @ rest \<and>
    r_whole decode_probe_response payload = Inr response \<and>
    pb_member response = po_peer p \<and> pb_incarnation response = po_peer_incarnation p"
proof -
  let ?rt = "probe_clock H rt"
  obtain target attempt where t: "(target, attempt) \<in> set targets"
    "p = probe_entry (mr_tick ?rt) target (ask_probe H (mr_config ?rt) target attempt)"
    using assms(1) by (auto simp: probe_peers_def Let_def)
  from assms(2) obtain n detail where "ask_probe H (mr_config ?rt) target attempt = (Reach_Reachable, n, detail)"
    and p: "po_peer p = pt_member target" "po_peer_incarnation p = n"
    by (auto simp: t(2) probe_entry_def split: prod.splits)
  then obtain s bs s1 m s2 response where s: "attempt = Inr s"
    "write_message H Message_ProbeRequest bs s = (success, s1)"
    "read_message H kMaxFramePayloadBytes s1 = (Inr m, s2)" "ms_type m = Message_ProbeResult"
    "r_whole decode_probe_response (ms_payload m) = Inr response"
    "pb_member response = pt_member target" "pb_incarnation response = n"
    by (auto simp: ask_probe_def socket_connect_def split: sum.splits prod.splits if_splits)
  from read_message_Inr [OF s(3)] write_message_in [OF s(2)] s(4)
  have "sk_in s = frame_bytes H Message_ProbeResult (ms_payload m) @ sk_in s2" by simp
  with t(1) s p show ?thesis by metis
qed

text \<open>
  C15: an endorsement that is issued twice is lost. When the runtime of a member builds an endorsement
  the coordinator holds again, in the same epoch at a later tick, and the coordinator stores the second
  one, then (unless the hash collides on the two) the submission is answered with a rejection, and in the
  state derived after it neither the new endorsement nor the one that was accepted before counts: no
  artefact with their evidence identifier is accepted by the derivation.
\<close>

theorem repeated_endorsement_is_lost:
  assumes "build_endorsement H d l rt = Inr a" "build_endorsement H d l rt' = Inr b"
    and "mr_config rt' = mr_config rt" "mr_epoch rt' = mr_epoch rt" "mr_tick rt' \<noteq> mr_tick rt"
    and "encode_artifact a = Inr x" "encode_artifact b = Inr y" "x \<noteq> y \<longrightarrow> H x \<noteq> H y"
    and "a \<in> set (co_artifacts c)" "b \<notin> set (co_artifacts c)"
    and "submit_artifact H b c = (Inr so, c')" "b \<in> set (co_artifacts c')"
  shows "so_disposition so = Submission_Rejected \<and>
    art_evidence a \<notin> art_evidence ` set (derived_artifacts H (derivation_inputs c') (co_catalog c')) \<and>
    art_evidence b \<notin> art_evidence ` set (derived_artifacts H (derivation_inputs c') (co_catalog c'))"
proof -
  from endorsement_again [OF assms(1-5)] have same: "art_evidence b = art_evidence a"
    "ar_envelope b \<noteq> ar_envelope a" by auto
  have "x \<noteq> y" using encode_artifact_envelope assms(6,7) same(2) by metis
  with assms(6-8) have differ: "artifact_digest H a \<noteq> artifact_digest H b"
    by (simp add: artifact_digest_def digest_of_def)
  from submit_conflicting [OF assms(11,12,10,9) same(1) [symmetric] differ]
  have kept: "so_disposition so = Submission_Rejected" "a \<in> set (co_artifacts c')" by auto
  have "art_evidence a \<in> set (ik_quarantined (foldl (intake_step H) empty_intake
      (di_artifacts (derivation_inputs c'))))"
    using kept(2) assms(12) same(1) differ
    by (intro intake_equivocation) (auto simp: derivation_inputs_def)
  then have "art_evidence a \<notin> art_evidence ` set (derived_artifacts H (derivation_inputs c') (co_catalog c'))"
    using derived_artifacts_mem by fastforce
  with kept(1) same(1) show ?thesis by simp
qed

section \<open>Instances\<close>

definition fixed_hash :: "bytes \<Rightarrow> Digest" where
  "fixed_hash bs = 340282366920938463463374607431768211456"

definition sample_member :: MemberConfig where
  "sample_member =
     \<lparr>mg_federation = 1, mg_constitution = sample_constitution 3, mg_node = 9, mg_incarnation = 1,
      mg_coordinator = \<lparr>ep_host = ''127.0.0.1'', ep_port = 7000\<rparr>, mg_probe_port = 0,
      mg_listen_for_probes = False, mg_initial_tick = 1\<rparr>"

definition sample_runtime :: MemberRuntime where
  "sample_runtime =
     \<lparr>mr_config = sample_member, mr_catalog = builtin,
      mr_client = \<lparr>cl_socket = None, cl_welcome = blank_welcome\<rparr>, mr_attached = False, mr_tick = 1,
      mr_epoch = 1, mr_clock_current = False, mr_probe_open = False, mr_listener_port = 0,
      mr_bound_probe_port = 0\<rparr>"

lemma sample_runtime_created: "member_create sample_member = Inr sample_runtime"
  using sample_constitution_valid
  by (simp add: member_create_def sample_member_def sample_runtime_def is_nil_def)
    (simp add: sample_constitution_def)

lemma sample_runtime_ok: "member_ok sample_runtime"
  by (rule created_ok [OF sample_runtime_created])

lemma empty_parts_encode:
  "is_ok (encode_genesis (empty_genesis
     \<lparr>ge_founder := canonicalize_declaration (ge_founder empty_genesis),
      ge_founder_grants := canonicalize_grants (ge_founder_grants empty_genesis)\<rparr>)) \<and>
   is_ok (encode_policy (canonicalize_policy empty_policy)) \<and>
   is_ok (w_list w_id16 kMaxMembers []) \<and> is_ok (w_list encode_peer kMaxMembersPerObservation []) \<and>
   is_ok (encode_terms (canonicalize_terms []) kMaxDelegationTermsPerMember) \<and>
   is_ok (encode_grants (canonicalize_grants []) kMaxScopesPerMember) \<and>
   is_ok (encode_grants (canonicalize_grants []) kMaxScopesPerLease) \<and> is_ok (w_text [] kMaxTextLength)"
  by code_simp

lemma declared_body_encodes:
  assumes "is_ok (encode_constitution (canonicalize_constitution (md_constitution d)))"
  shows "is_ok (encode_body (empty_body
    \<lparr>ab_declaration := d, ab_declared_identity := i, ab_lineage := l, ab_epoch := e\<rparr>))"
  using assms empty_parts_encode
  by (simp add: encode_body_def encode_body_fields_def canonicalize_body_def is_ok_w_seq empty_body_def
      encode_declaration_def canonicalize_declaration_def)

lemma sample_constitution_encodes:
  "is_ok (encode_constitution (canonicalize_constitution (sample_constitution m)))"
proof -
  have "is_ok (encode_constitution (canonicalize_constitution (sample_constitution 3)))" by code_simp
  then show ?thesis
    by (simp add: encode_constitution_def is_ok_w_seq canonicalize_constitution_def sample_constitution_def)
qed

lemma issued_evidence_is_valid_witness:
  "\<exists>a. build_act fixed_hash Act_Reattest sample_runtime = Inr a \<and>
     validate_artifact fixed_hash builtin a = success \<and> Provenance.pv_member (en_issuer (ar_envelope a)) = 3"
proof -
  obtain a where a: "build_act fixed_hash Act_Reattest sample_runtime = Inr a"
    by (simp add: build_reattestation_def Let_def)
  have ok: "is_ok (encode_body (ar_body a))"
    using a declared_body_encodes [where d = "make_declaration sample_member 1" and l = 0 and e = 1] sample_constitution_encodes
    by (auto simp: build_reattestation_def Let_def issued_fields make_declaration_def sample_runtime_def
        sample_member_def empty_body_def)
  then obtain bs where bs: "encode_body (ar_body a) = Inr bs" unfolding is_ok_iff ..
  have "id_of_digest 340282366920938463463374607431768211456 \<noteq> 0" by code_simp
  then have leads: "id_of_digest (fixed_hash bs) \<noteq> 0" for bs by (simp add: fixed_hash_def)
  have "art_evidence a \<noteq> 0"
    using a issued_evidence_nonzero [OF leads] by (auto simp: build_reattestation_def Let_def)
  moreover have "fixed_hash bs \<noteq> 0" using leads [of bs] by auto
  ultimately show ?thesis
    using issued_evidence_is_valid [OF sample_runtime_ok a _ bs] a
    by (simp add: sample_runtime_def sample_member_def sample_constitution_def)
qed

lemma is_ok_projr: "is_ok r \<Longrightarrow> r = Inr (projr r)"
  by (cases r) simp_all

text \<open>A client that is sent the answer of the coordinator to its next request.\<close>

definition answered_client :: "(bytes \<Rightarrow> Digest) \<Rightarrow> MessageType \<Rightarrow> bytes \<Rightarrow> CoordinatorClient" where
  "answered_client H t bs =
     \<lparr>cl_socket = Some (sample_socket (frame_bytes H t bs) None), cl_welcome = blank_welcome\<rparr>"

lemma answered_client_carries:
  assumes "answer_message H \<lparr>ms_type = t, ms_payload = payload\<rparr> srv = (Inr (t', bs), c)"
    and "accepted_type t" "length payload \<le> 100000" "length bs \<le> 100000"
  shows "carries H t payload (answered_client H t' bs) srv (srv\<lparr>srv_coordinator := c\<rparr>)"
proof -
  let ?s = "sample_socket (frame_bytes H t' bs) None" and ?in = "sample_socket (frame_bytes H t payload) None"
  have "cl_socket (answered_client H t' bs) = Some ?s" by (simp add: answered_client_def)
  moreover have "write_message H t payload (?s\<lparr>sk_out := []\<rparr>) =
      (success, ?s\<lparr>sk_out := frame_bytes H t payload\<rparr>)"
    using assms(3) by (simp add: write_message_def send_all_def sample_socket_def kMaxFramePayloadBytes_def)
  moreover have "sk_in ?in = sk_out (?s\<lparr>sk_out := frame_bytes H t payload\<rparr>)" "sk_out ?in = []"
    by (simp_all add: sample_socket_def)
  moreover have "read_message H kMaxFramePayloadBytes ?in =
      (Inr \<lparr>ms_type = t, ms_payload = payload\<rparr>, sample_socket [] None)"
    using read_written [OF assms(2) _ default_bound_sane, of payload ?in H "[]"] assms(3)
    by (simp add: sample_socket_def kMaxFramePayloadBytes_def)
  moreover have "handle_message H \<lparr>ms_type = t, ms_payload = payload\<rparr> srv (sample_socket [] None) =
      (success, srv\<lparr>srv_coordinator := c\<rparr>, (sample_socket [] None)\<lparr>sk_out := frame_bytes H t' bs\<rparr>)"
    using assms(1,4)
    by (simp add: handle_message_def write_message_def send_all_def sample_socket_def
        kMaxFramePayloadBytes_def)
  moreover have "sk_in ?s = sk_out ((sample_socket [] None)\<lparr>sk_out := frame_bytes H t' bs\<rparr>) @ []"
    by (simp add: sample_socket_def)
  ultimately show ?thesis unfolding carries_def by blast
qed

lemma simple_calls_are_operations_witness:
  "\<exists>bs cl srv'. carries toy_hash Message_AdvanceTime bs cl sample_server srv' \<and>
     co_tick (srv_coordinator srv') = 100 \<and>
     fst (client_advance_time toy_hash 100 cl) =
       Inr \<lparr>sp_code = 0, sp_detail = ''logical clock advanced'', sp_state_digest = 0\<rparr>"
proof -
  let ?c = "blank_coordinator sample_config history_disk" and ?q = "Call_AdvanceTime \<lparr>ta_to = 100\<rparr>"
  let ?r = "\<lparr>sp_code = 0, sp_detail = ''logical clock advanced'', sp_state_digest = 0\<rparr>"
  have run: "advance_time toy_hash 100 ?c = (success, ?c\<lparr>co_tick := 100\<rparr>)"
    by (simp add: advance_time_def guarded_def w_u64_def persist_def word_le_nat_alt blank_coordinator_def
        sample_config_def)
  have "is_ok (encode_simple_response ?r)" "length (projr (encode_simple_response ?r)) \<le> 100000"
    by code_simp+
  then obtain rs where reply: "encode_simple_response ?r = Inr rs" "length rs \<le> 100000"
    by (auto simp: is_ok_iff)
  have enc: "encode_call ?q = Inr (store_u64_le 100)"
    by (simp add: encode_time_advance_def w_seq.simps w_u64_def)
  have "answer_message toy_hash \<lparr>ms_type = Message_AdvanceTime, ms_payload = store_u64_le 100\<rparr> sample_server =
      (Inr (Message_SimpleResult, rs), ?c\<lparr>co_tick := 100\<rparr>)"
    using call_dispatched [of ?q toy_hash sample_server] enc
    by (simp add: run sample_server_def reported_def answer_after_def answer_with_def reply(1))
  from answered_client_carries [OF this] reply(2) have carried:
    "carries toy_hash (call_type ?q) (store_u64_le 100) (answered_client toy_hash Message_SimpleResult rs) sample_server
       (sample_server\<lparr>srv_coordinator := ?c\<lparr>co_tick := 100\<rparr>\<rparr>)" by simp
  from simple_calls_are_operations [OF enc _ carried] carried show ?thesis
    by (intro exI [of _ "store_u64_le 100"] exI [of _ "answered_client toy_hash Message_SimpleResult rs"] exI) (auto simp: run sample_server_def client_advance_time_def)
qed

lemma decisions_reach_the_client_witness:
  "\<exists>srv srv' cl bs d. carries echo_hash Message_AuthorityQuery bs cl srv srv' \<and>
     fst (client_query_authority echo_hash sample_replay_request cl) = Inr d \<and> ad_request d = 5 \<and>
     ad_outcome d = Outcome_Replayed"
proof -
  obtain c l where c: "co_config c = sample_config" "co_artifacts c = []"
    "load_journal echo_hash (blank_coordinator sample_config history_disk) = (success, c)"
    "co_leases c = [(sample_lease_id, l)]"
    using sample_start by metis
  obtain rec where "sound echo_hash (sample_history @ [rec]) c" using sample_sound [OF c(3)] .
  note known = sample_replays [OF this]
  obtain ad bs where ad: "coordinator_evaluate echo_hash sample_replay_request c = (Inr ad, next_tick c)"
    "ad_outcome ad = Outcome_Replayed" "encode_decision ad = Inr bs"
    "decode_payload Message_AuthorityResult bs = Inr (AuthorityResult \<lparr>av_decision = ad\<rparr>)"
    "length bs \<le> 10000"
    using c known by (rule_tac replayed_answer_decodes [of c]) (auto simp: kMaxMembers_def)
  let ?srv = "\<lparr>srv_coordinator = c, srv_accepted = 1, srv_errors = 0\<rparr>"
  let ?q = "projr (encode_request sample_replay_request)"
  have size: "is_ok (encode_request sample_replay_request)" "length ?q \<le> 100000" by code_simp+
  note q = is_ok_projr [OF size(1)] size(2)
  have "answer_message echo_hash \<lparr>ms_type = Message_AuthorityQuery, ms_payload = ?q\<rparr> ?srv =
      (Inr (Message_AuthorityResult, bs), next_tick c)"
    using decision.dispatched [of sample_replay_request echo_hash ?srv] sample_replay_request_ok(1) ad(1,3)
    by (simp add: mapped_def answer_after_def answer_with_def encode_authority_response_def w_seq.simps)
  from answered_client_carries [OF this] q(2) ad(5) have carried:
    "carries echo_hash Message_AuthorityQuery ?q (answered_client echo_hash Message_AuthorityResult bs) ?srv
       (?srv\<lparr>srv_coordinator := next_tick c\<rparr>)" by simp
  have wf: "request_wf sample_replay_request" using sample_replay_request_ok(1) by blast
  let ?cl = "answered_client echo_hash Message_AuthorityResult bs"
  obtain r where "mapped (\<lambda>ad. \<lparr>av_decision = ad\<rparr>)
      (coordinator_evaluate echo_hash sample_replay_request (srv_coordinator ?srv)) = (Inr r, next_tick c)"
    "fst (request_reply echo_hash Message_AuthorityQuery (encode_request sample_replay_request)
       decode_authority_response Message_AuthorityResult ?cl) =
     r_whole decode_authority_response (projr (encode_authority_response r))"
    using decision.answered [OF q(1) wf carried] by auto
  then have "fst (request_reply echo_hash Message_AuthorityQuery (encode_request sample_replay_request)
      decode_authority_response Message_AuthorityResult ?cl) = r_whole decode_authority_response bs"
    using ad(1,3) by (auto simp: mapped_def encode_authority_response_def w_seq.simps)
  then have told: "fst (client_query_authority echo_hash sample_replay_request ?cl) = Inr ad"
    using ad(4) by (auto simp: client_query_authority_def decode_payload_def map_sum_def
        split: prod.splits sum.splits)
  from decisions_reach_the_client [OF wf q(1) carried told] carried told ad(2) show ?thesis
    by (auto simp: sample_replay_request_def)
qed

text \<open>A digest that reads one byte: in the bytes of an artefact, the lowest byte of the tick.\<close>

definition tick_hash :: "bytes \<Rightarrow> Digest" where
  "tick_hash bs =
     (if 138 < length bs \<and> bs ! 138 = 2 then 680564733841876926926749214863536422912
      else 340282366920938463463374607431768211456)"

lemma tick_hash_leads: "id_of_digest (tick_hash bs) \<noteq> 0"
proof -
  have "id_of_digest 680564733841876926926749214863536422912 \<noteq> 0"
    "id_of_digest 340282366920938463463374607431768211456 \<noteq> 0" by code_simp+
  then show ?thesis by (simp add: tick_hash_def)
qed

lemma length_projr_envelope: "length (projr (encode_envelope e)) = 178"
  by (simp add: encode_envelope_def encode_provenance_def projr_w_seq is_ok_w_seq w_id16_def w_u16_def w_u64_def
      w_digest_def)

lemma envelope_tick_byte:
  "projr (encode_envelope e) ! 138 = store_u64_le (pv_issued_at (en_issuer e)) ! 0"
  by (simp add: encode_envelope_def encode_provenance_def projr_w_seq is_ok_w_seq w_id16_def w_u16_def w_u64_def
      w_digest_def nth_append)

definition sample_candidate :: MemberDeclaration where
  "sample_candidate =
     \<lparr>md_constitution = sample_constitution 4, md_incarnation = 1, md_node = 8, md_declared_at = 1\<rparr>"

lemma sample_constitution_valid_any: "m \<noteq> 0 \<Longrightarrow> validate_constitution (sample_constitution m) builtin = success"
  using sample_constitution_valid
  by (simp add: validate_constitution_ok_iff sample_constitution_def is_nil_def)

definition sample_endorsement :: "Tick \<Rightarrow> Artifact" where
  "sample_endorsement at =
     projr (build_endorsement tick_hash sample_candidate 0 (sample_runtime\<lparr>mr_tick := at\<rparr>))"

lemma sample_endorsement_built:
  "build_act tick_hash (Act_Endorse sample_candidate 0) (sample_runtime\<lparr>mr_tick := at\<rparr>) =
     Inr (sample_endorsement at)"
  by (simp add: sample_endorsement_def build_endorsement_def)

lemma sample_endorsement_facts:
  "is_ok (encode_body (ar_body (sample_endorsement at)))"
  "pv_issued_at (en_issuer (ar_envelope (sample_endorsement at))) = at"
  "en_federation (ar_envelope (sample_endorsement at)) = 1"
proof -
  show "is_ok (encode_body (ar_body (sample_endorsement at)))"
    using declared_body_encodes [of sample_candidate] sample_constitution_encodes
    by (simp add: sample_endorsement_def build_endorsement_def issued_fields sample_candidate_def)
qed (simp_all add: sample_endorsement_def build_endorsement_def issued_fields sample_runtime_def
    sample_member_def)

lemma sample_endorsement_valid: "validate_artifact tick_hash builtin (sample_endorsement at) = success"
proof -
  let ?rt = "sample_runtime\<lparr>mr_tick := at\<rparr>"
  have ok: "member_ok ?rt" using sample_runtime_ok by (simp add: member_ok_def)
  have candidate: "candidate_valid (Act_Endorse sample_candidate 0)"
    using sample_constitution_valid_any [of 4] by (simp add: sample_candidate_def)
  from built_kind_valid [OF ok sample_endorsement_built candidate] obtain kind subject body where
    a: "sample_endorsement at = issue_artifact tick_hash kind subject body ?rt"
      "validate_kind tick_hash builtin (ar_envelope (sample_endorsement at)) (ar_body (sample_endorsement at)) =
       success" by blast
  obtain bs where "encode_body (canonicalize_body body) = Inr bs"
    using sample_endorsement_facts(1) [of at] a(1) unfolding is_ok_iff by (auto simp: issued_fields)
  moreover have "tick_hash bs \<noteq> 0" using tick_hash_leads [of bs] by auto
  ultimately have "body_digest tick_hash (canonicalize_body body) \<noteq> 0"
    by (simp add: body_digest_def digest_of_def)
  with ok a issued_evidence_nonzero [OF tick_hash_leads] show ?thesis
    by (simp add: validate_artifact_ok_iff issued_checks member_ok_def)
qed

lemma sample_endorsement_digest:
  obtains bs where "encode_artifact (sample_endorsement at) = Inr bs"
    and "tick_hash bs = tick_hash (replicate 138 0 @ [store_u64_le at ! 0])"
proof -
  let ?e = "ar_envelope (sample_endorsement at)"
  have "is_ok (encode_envelope ?e)" by simp
  then obtain eb where eb: "encode_envelope ?e = Inr eb" unfolding is_ok_iff ..
  obtain bb where bb: "encode_body (ar_body (sample_endorsement at)) = Inr bb"
    using sample_endorsement_facts(1) [of at] unfolding is_ok_iff ..
  have "length eb = 178" "eb ! 138 = store_u64_le at ! 0"
    using length_projr_envelope [of ?e] envelope_tick_byte [of ?e] sample_endorsement_facts(2) [of at]
    by (simp_all add: eb)
  then have "tick_hash (eb @ bb) = tick_hash (replicate 138 0 @ [store_u64_le at ! 0])"
    by (simp add: tick_hash_def nth_append)
  with that show thesis by (simp add: encode_artifact_def w_seq.simps eb bb)
qed

lemma submit_stores:
  assumes "validate_artifact H (co_catalog c) b = success"
    and "en_federation (ar_envelope b) = cc_federation (co_config c)"
    and "length (co_artifacts c) < kMaxArtifacts" "\<not> co_durable c" "is_ok (encode_artifact b)"
    and "\<forall>x \<in> set (co_artifacts c). artifact_digest H x \<noteq> artifact_digest H b"
  shows "\<exists>so c'. submit_artifact H b c = (Inr so, c') \<and> b \<in> set (co_artifacts c')"
proof -
  define c1 where "c1 = (if \<exists>x \<in> set (co_artifacts c). art_evidence x = art_evidence b
    then c\<lparr>co_artifacts := co_artifacts c @ [b], co_rejected_artifacts := co_rejected_artifacts c + 1\<rparr>
    else c\<lparr>co_artifacts := co_artifacts c @ [b]\<rparr>)"
  obtain issued c2 where "decide_locked H c1 = (issued, c2)" by fastforce
  then have "\<exists>so. submit_artifact H b c = (Inr so, c2)"
    using assms
    by (auto simp: submit_artifact_def Let_def is_ok_iff persist_def c1_def split: if_splits)
  moreover have "b \<in> set (co_artifacts c1)" by (simp add: c1_def)
  ultimately show ?thesis
    using \<open>decide_locked H c1 = (issued, c2)\<close> decide_loop_artifacts unfolding decide_locked_def by blast
qed

lemma repeated_endorsement_is_lost_witness:
  "\<exists>c so c'. sample_endorsement 1 \<in> set (co_artifacts c) \<and>
     submit_artifact tick_hash (sample_endorsement 2) c = (Inr so, c') \<and>
     so_disposition so = Submission_Rejected \<and>
     art_evidence (sample_endorsement 1) \<notin>
       art_evidence ` set (derived_artifacts tick_hash (derivation_inputs c') (co_catalog c'))"
proof -
  define c where "c = (blank_coordinator sample_config history_disk)
      \<lparr>co_artifacts := [sample_endorsement 1]\<rparr>"
  obtain x y where x: "encode_artifact (sample_endorsement 1) = Inr x"
      "tick_hash x = tick_hash (replicate 138 0 @ [store_u64_le 1 ! 0])"
    and y: "encode_artifact (sample_endorsement 2) = Inr y"
      "tick_hash y = tick_hash (replicate 138 0 @ [store_u64_le 2 ! 0])"
    using sample_endorsement_digest by metis
  have "store_u64_le 1 ! 0 = 1" "store_u64_le 2 ! 0 = 2" by code_simp+
  then have differ: "tick_hash x \<noteq> tick_hash y"
    unfolding x(2) y(2) by (simp add: tick_hash_def nth_append)
  have built: "build_endorsement tick_hash sample_candidate 0 (sample_runtime\<lparr>mr_tick := t\<rparr>) =
      Inr (sample_endorsement t)" for t
    using sample_endorsement_built [of t] by simp
  have fresh: "sample_endorsement 2 \<notin> set (co_artifacts c)"
    using differ x(1) y(1) by (auto simp: c_def)
  have "\<exists>so c'. submit_artifact tick_hash (sample_endorsement 2) c = (Inr so, c') \<and>
      sample_endorsement 2 \<in> set (co_artifacts c')"
    using sample_endorsement_valid sample_endorsement_facts(3) differ x(1) y(1)
    by (intro submit_stores) (simp_all add: c_def blank_coordinator_def sample_config_def ff_bounds
        artifact_digest_def digest_of_def)
  then obtain so c' where so: "submit_artifact tick_hash (sample_endorsement 2) c = (Inr so, c')"
    "sample_endorsement 2 \<in> set (co_artifacts c')" by blast
  have "sample_endorsement 1 \<in> set (co_artifacts c)" by (simp add: c_def)
  with repeated_endorsement_is_lost [OF built built _ _ _ x(1) y(1) _ _ fresh so] differ so(1)
  show ?thesis by auto
qed

definition sample_target :: PeerTarget where
  "sample_target = \<lparr>pt_member = 3, pt_endpoint = \<lparr>ep_host = ''127.0.0.1'', ep_port = 7001\<rparr>\<rparr>"

lemma reachable_peers_answered_witness:
  "\<exists>s p payload response rest. sk_in s = frame_bytes toy_hash Message_ProbeResult payload @ rest \<and>
     ob_peers (fst (probe_peers toy_hash [(sample_target, Inr s)] sample_runtime)) = [p] \<and>
     po_state p = Reach_Reachable \<and> r_whole decode_probe_response payload = Inr response \<and>
     pb_member response = 3 \<and> pb_incarnation response = po_peer_incarnation p"
proof -
  obtain bs where "encode_hello (probe_hello sample_member) = Inr bs"
    "length bs \<le> unat kMaxFramePayloadBytes"
  proof -
    have "is_ok (encode_hello (probe_hello sample_member))"
      "length (projr (encode_hello (probe_hello sample_member))) \<le> 100000" by code_simp+
    then show thesis using that by (auto simp: is_ok_iff kMaxFramePayloadBytes_def)
  qed
  note hello = this
  let ?ps = "sample_socket (frame_bytes toy_hash Message_ProbeRequest bs) None"
  let ?s = "sample_socket (sk_out (answer_probe toy_hash sample_runtime ?ps)) None"
  have sent: "write_message toy_hash Message_ProbeRequest bs ?s =
      (success, ?s\<lparr>sk_out := frame_bytes toy_hash Message_ProbeRequest bs\<rparr>)"
    using hello(2) by (simp add: write_message_def send_all_def sample_socket_def)
  have "ask_probe toy_hash sample_member sample_target (Inr ?s) = (Reach_Reachable, 1,
      ''reached '' @ node_to_string 9)"
    using probed_member_is_reachable [of sample_target sample_runtime, OF _ _ hello(1) sent, of ?ps "[]"]
    by (simp add: sample_target_def sample_runtime_def sample_member_def sample_constitution_def
        sample_socket_def)
  then have seen: "ob_peers (fst (probe_peers toy_hash [(sample_target, Inr ?s)] sample_runtime)) =
      [\<lparr>po_peer = 3, po_peer_incarnation = 1, po_state = Reach_Reachable, po_observed_at = 1,
        po_detail = ''reached '' @ node_to_string 9\<rparr>]"
    by (simp add: probe_peers_def Let_def probe_clock_def probe_entry_def sample_runtime_def
        sample_target_def)
  from reachable_peers_answered [of "hd (ob_peers (fst (probe_peers toy_hash
        [(sample_target, Inr ?s)] sample_runtime)))" toy_hash "[(sample_target, Inr ?s)]" sample_runtime]
  obtain payload response rest where
    "sk_in ?s = frame_bytes toy_hash Message_ProbeResult payload @ rest"
    "r_whole decode_probe_response payload = Inr response" "pb_member response = 3"
    "pb_incarnation response = 1"
    using seen by (auto simp: sample_target_def)
  with seen show ?thesis
    by (intro exI [of _ ?s] exI [of _ "hd (ob_peers (fst (probe_peers toy_hash
        [(sample_target, Inr ?s)] sample_runtime)))"] exI [of _ payload] exI [of _ response]
        exI [of _ rest]) simp
qed

end
