(* ===== verification/Control.thy ===== *)
theory Control
  imports Client
begin

text \<open>
  The operator's control channel and the readiness helpers (\<^verbatim>\<open>control.cpp\<close>). What the operating system
  answers is an argument: the outcome of a connection attempt, what each receive returns, and what
  each look at the readiness file finds. The lemmas bound the reply and say what it consists of, and
  show that both waiting loops turn nothing but a positive answer into success.
\<close>

section \<open>Sending a command\<close>

text \<open>One receive: some bytes (none when the peer closed the connection), or a failure.\<close>

datatype Receive = Received string | Receive_Error string

definition kMaxControlReply :: nat where [ff_bounds]: "kMaxControlReply = 1048576"

fun control_reply :: "string \<Rightarrow> Receive list \<Rightarrow> string result" where
  "control_reply reply [] = Inr reply"
| "control_reply reply (Receive_Error e # rs) = Fail Error_NetworkError (''recv failed: '' @ e)"
| "control_reply reply (Received cs # rs) =
     (if cs = [] then Inr reply
      else if CHR 0x0A \<in> set (reply @ cs) then Inr (reply @ cs)
      else if length (reply @ cs) > kMaxControlReply then
        Fail Error_BoundsExceeded ''the control reply exceeded the bound''
      else control_reply (reply @ cs) rs)"

definition trim_reply :: "string \<Rightarrow> string result" where
  "trim_reply reply =
     (if reply = [] then Fail Error_Incomplete ''the control channel returned nothing''
      else if last reply = CHR 0x0A then Inr (butlast reply) else Inr reply)"

definition send_control_command ::
  "u16 \<Rightarrow> string \<Rightarrow> Socket result \<Rightarrow> Receive list \<Rightarrow> string result" where
  "send_control_command port command attempt receives =
     and_then (socket_connect \<lparr>ep_host = ''127.0.0.1'', ep_port = port\<rparr> attempt) (\<lambda>s.
     case send_all (map byte_of_char (command @ [CHR 0x0A])) s of
       (Inl e, _) \<Rightarrow> Inl e
     | (Inr _, _) \<Rightarrow> and_then (control_reply [] receives) trim_reply)"

section \<open>Waiting\<close>

text \<open>
  \<open>looks\<close> are the contents each look at the file finds, \<open>None\<close> when it is absent or cannot be
  opened; a look beyond the list finds nothing.
\<close>

primrec ready_file_loop :: "nat \<Rightarrow> string option list \<Rightarrow> string option" where
  "ready_file_loop 0 looks = None"
| "ready_file_loop (Suc n) looks =
     (case looks of
        [] \<Rightarrow> None
      | Some content # rest \<Rightarrow> if content \<noteq> [] then Some content else ready_file_loop n rest
      | None # rest \<Rightarrow> ready_file_loop n rest)"

definition wait_for_ready_file :: "string \<Rightarrow> nat \<Rightarrow> string option list \<Rightarrow> string result" where
  "wait_for_ready_file path max_attempts looks =
     (case ready_file_loop max_attempts looks of
        Some content \<Rightarrow> Inr content
      | None \<Rightarrow> Fail Error_NotFound
          (''the readiness file '' @ path @
           '' did not appear within the readiness bound; this is reported as a failure, not as success''))"

definition answers_ok :: "string \<Rightarrow> bool" where
  "answers_ok reply \<longleftrightarrow> take 2 reply = ''OK''"

text \<open>\<open>send n\<close> is the outcome of the command at attempt \<open>n\<close>; the last failure is kept.\<close>

primrec control_loop :: "(nat \<Rightarrow> string result) \<Rightarrow> nat \<Rightarrow> nat \<Rightarrow> Status \<Rightarrow> string result" where
  "control_loop send 0 attempt latest =
     Fail (st_code latest)
       (''the control channel did not answer within the readiness bound: '' @ st_message latest)"
| "control_loop send (Suc n) attempt latest =
     (case send attempt of
        Inr reply \<Rightarrow>
          if answers_ok reply then Inr reply
          else control_loop send n (Suc attempt) (make_status Error_Refused reply)
      | Inl e \<Rightarrow> control_loop send n (Suc attempt) e)"

definition wait_for_control :: "nat \<Rightarrow> (nat \<Rightarrow> string result) \<Rightarrow> string result" where
  "wait_for_control max_attempts send =
     control_loop send max_attempts 0 (make_status Error_NotFound ''no attempt was made'')"

section \<open>Laws\<close>

fun received :: "Receive list \<Rightarrow> string" where
  "received (Received cs # rs) = cs @ received rs"
| "received _ = []"

lemma control_reply_prefix:
  "control_reply reply rs = Inr r \<Longrightarrow> \<exists>rest. reply @ received rs = r @ rest"
  by (induction reply rs rule: control_reply.induct) (auto split: if_splits)

text \<open>The reply stays within the bound plus one buffer.\<close>

lemma control_reply_bound:
  assumes "control_reply reply rs = Inr r" "length reply \<le> kMaxControlReply"
    and "\<forall>cs. Received cs \<in> set rs \<longrightarrow> length cs \<le> 1024"
  shows "length r \<le> kMaxControlReply + 1024"
  using assms
proof (induction reply rs rule: control_reply.induct)
  case (3 reply cs rs)
  have "length cs \<le> 1024" using "3.prems"(3) by simp
  with "3.prems" show ?case
    by (cases "cs = [] \<or> CHR 0x0A \<in> set (reply @ cs)") (auto intro: "3.IH" split: if_splits)
qed simp_all

text \<open>
  What follows the line in the same receive is part of the reply; in a receive of its own it is not.
\<close>

lemma control_reply_depends_on_receives:
  "control_reply [] [Received [CHR ''a'', CHR 0x0A, CHR ''b'']] = Inr [CHR ''a'', CHR 0x0A, CHR ''b'']"
  "control_reply [] [Received [CHR ''a'', CHR 0x0A], Received ''b''] = Inr [CHR ''a'', CHR 0x0A]"
  by simp_all

lemma control_loop_Inr:
  "control_loop send n k latest = Inr r \<Longrightarrow> answers_ok r \<and> (\<exists>i. k \<le> i \<and> i < k + n \<and> send i = Inr r)"
proof (induction n arbitrary: k latest)
  case (Suc n)
  have "\<exists>i. k \<le> i \<and> i < k + Suc n \<and> send i = Inr r"
    if "\<exists>i. Suc k \<le> i \<and> i < Suc k + n \<and> send i = Inr r" using that by (auto dest: Suc_leD)
  with Suc show ?case by (force split: sum.splits if_splits)
qed simp

lemma wait_for_control_positive:
  "wait_for_control n send = Inr r \<Longrightarrow> answers_ok r \<and> (\<exists>i < n. send i = Inr r)"
  using control_loop_Inr [of send n 0] by (fastforce simp: wait_for_control_def)

lemma ready_file_loop_Some:
  "ready_file_loop n looks = Some content \<Longrightarrow> content \<noteq> [] \<and> Some content \<in> set (take n looks)"
proof (induction n arbitrary: looks)
  case (Suc n)
  then show ?case by (cases looks) (auto split: option.splits if_splits)
qed simp

lemma wait_for_ready_file_positive:
  "wait_for_ready_file path n looks = Inr content \<Longrightarrow>
     content \<noteq> [] \<and> Some content \<in> set (take n looks)"
  by (auto simp: wait_for_ready_file_def dest: ready_file_loop_Some split: option.splits)

end
