(* ===== verification/Spec2Isabelle.thy ===== *)
theory Spec2Isabelle
  imports Sha256 Founding Authority Journal_Capacity Member_Laws Control
begin

text \<open>
  Verification of Fabric-Federation: evidence-derived membership and authority of a federation of
  fabric domains.

  \<^bold>\<open>The program.\<close> Members and a coordinator exchange evidence artefacts. The derived state of the
  federation is a pure function of the accepted artefacts (\<^verbatim>\<open>derive_state\<close>), and a request for authority
  is decided by a pure function of that state (\<^verbatim>\<open>evaluate_authority\<close>). The coordinator keeps the
  artefacts, the leases, the observations and the ledger of decided requests, writes every change to
  a journal before it answers, and recovers them from the journal. The theories follow the source
  files under \<^verbatim>\<open>src/src\<close> and \<^verbatim>\<open>src/include/fabric_federation\<close>, one theory per component:

  \<^item> \<open>Prelude\<close>: bounds, status and error codes (\<^verbatim>\<open>bounds.hpp\<close>, \<^verbatim>\<open>errors.hpp\<close>), checked arithmetic, sorted
    unique lists, and the collections of rewrite rules the other theories add to.
  \<^item> \<open>Text\<close>, \<open>Names\<close>: text sanitising and validation, identifiers, qualified names and their covering
    order (\<^verbatim>\<open>text.cpp\<close>, \<^verbatim>\<open>ids.cpp\<close>, \<^verbatim>\<open>names.cpp\<close>).
  \<^item> \<open>Codec\<close>: the canonical byte writer and reader (\<^verbatim>\<open>codec.cpp\<close>) and the locale \<open>codec\<close>, the contract
    between an encoder and its decoder, interpreted for every wire type in its own theory.
  \<^item> \<open>Sha256\<close>: the streaming hash (\<^verbatim>\<open>sha256.cpp\<close>). The other theories take the hash as the parameter
    \<open>H\<close>. What a property needs of it beyond being a function is a hypothesis of the property or part
    of its conclusion: that the names of two leases differ (\<open>distinct_lease_names\<close>, in \<open>request_decided_once\<close>,
    \<open>answers_grant_once\<close>, \<open>revoked_lease_stays_revoked\<close> and \<open>incarnation_grows\<close>), that it does not collide
    on two named texts (\<open>repeated_endorsement_is_lost\<close>, \<open>digest_check_detects_tampering\<close>), and that one
    digest is not all zeros (\<open>made_artifact_roundtrip\<close>, \<open>issued_evidence_is_valid\<close>).
  \<^item> \<open>Scope\<close>, \<open>Capability\<close>, \<open>Policy\<close>, \<open>Identity\<close>, \<open>Explanation\<close>, \<open>Lease\<close>: the data of the federation, its
    validation, canonical forms and codecs (\<^verbatim>\<open>scope.cpp\<close>, \<^verbatim>\<open>capability.cpp\<close>, \<^verbatim>\<open>policy.cpp\<close>,
    \<^verbatim>\<open>identity.cpp\<close>, \<^verbatim>\<open>explanation.cpp\<close>, \<^verbatim>\<open>lease.cpp\<close>).
  \<^item> \<open>Disjoint_Set\<close>, \<open>Partition\<close>: union-find and the partition assessment (\<^verbatim>\<open>partition.cpp\<close>).
  \<^item> \<open>Evidence\<close>: artefact kinds, envelopes, bodies, digests and validation (\<^verbatim>\<open>evidence.cpp\<close>).
  \<^item> \<open>Membership\<close>: the derivation of one member from its artefacts and the multi-party rules
    (\<^verbatim>\<open>membership.cpp\<close>), one definition per block of \<^verbatim>\<open>derive_membership\<close>.
  \<^item> \<open>Ordered_Map\<close>, \<open>State\<close>: the ordered map of the code, and \<^verbatim>\<open>derive_state\<close> with the canonical
    encoding of the state (\<^verbatim>\<open>state.cpp\<close>), one definition per block.
  \<^item> \<open>Standing\<close>, \<open>State_Laws\<close>: the laws of the derived state. \<open>Standing\<close> states the locale
    \<open>increasing_iteration\<close> (a monotone step on a bounded set reaches its least fixpoint) and
    interprets it on a round of the derivation; the abstract specification is the inductive
    predicate \<open>grounded\<close>.
  \<^item> \<open>Authority\<close>: requests, decisions and the eleven steps of the evaluator (\<^verbatim>\<open>authority.cpp\<close>).
  \<^item> \<open>Founding\<close>: a founded federation, on which the laws of the derived state are instantiated.
  \<^item> \<open>Files\<close>, \<open>Journal\<close>: the file operations the journal uses, over a disk with a script of faults, and
    the journal itself (\<^verbatim>\<open>journal.cpp\<close>). \<open>Journal_Laws\<close>, \<open>Journal_Recovery\<close> and \<open>Journal_Capacity\<close>
    relate the bytes of the file to a history of records: appending, crashing, recovering, compacting
    and the bounds.
  \<^item> \<open>Coordinator\<close>: the operations of the coordinator (\<^verbatim>\<open>coordinator.cpp\<close>), each a function from its
    state, with the disk, to the result and the next state. \<open>Durability\<close> and \<open>Requests_Leases\<close> state
    the invariant \<open>sound\<close>, that the state is what the journaled history says, and show that every
    operation keeps it; \<open>Restart\<close> shows that a start establishes it from the journal alone, and closes
    the operations and restarts under the step relation \<open>co_step\<close>. \<open>Coordinator_Laws\<close> and
    \<open>Restart_Succeeds\<close> hold the properties over all runs, \<open>Coordinator_Instances\<close> their instances.
  \<^item> \<open>Frames\<close>, \<open>Protocol\<close>: sockets as streams of bytes that may break off, the frames of the wire protocol,
    and the payload of every message (\<^verbatim>\<open>protocol.cpp\<close>, three operations of \<^verbatim>\<open>net.cpp\<close>).
  \<^item> \<open>Json\<close>, \<open>Json_Reader\<close>, \<open>State_Render\<close>: the JSON writer (\<^verbatim>\<open>json.cpp\<close>), a reference printer and reader,
    and the text and JSON renderings of the state (the second half of \<^verbatim>\<open>state.cpp\<close>).
  \<^item> \<open>Server\<close>, \<open>Server_Laws\<close>: a connection to the coordinator from the hello to its end, and the dispatch
    of messages over the coordinator's operations (\<^verbatim>\<open>serve\<close> and \<^verbatim>\<open>handle_message\<close> of \<^verbatim>\<open>coordinator.cpp\<close>).
  \<^item> \<open>Client\<close>: the client of the coordinator (\<^verbatim>\<open>client.cpp\<close>), and the locale \<open>remote_operation\<close>, the
    contract between a method of the client and the branch of the dispatcher that answers it.
  \<^item> \<open>Member\<close>, \<open>Member_Laws\<close>: the runtime of a member (\<^verbatim>\<open>member_runtime.cpp\<close>): the artefacts it issues, its
    operations over the client, and the probes it makes and answers.
  \<^item> \<open>Control\<close>: the operator's control channel and the readiness helpers (\<^verbatim>\<open>control.cpp\<close>).

  This theory holds the properties that span the derivation and the evaluator.

  \<^bold>\<open>Conventions.\<close> A C++ integer is a word of its width; a counter or container size is a \<open>nat\<close>; an
  identifier is a 128-bit word and a digest a 256-bit word, compared as the code compares their bytes.
  A \<^verbatim>\<open>Result\<close> is a sum with the error status on the left. A \<^verbatim>\<open>std::set\<close> or sorted and deduplicated
  vector is \<open>sort_unique\<close>. A sort by a comparison that reads some fields only is a stable sort by the
  key of those fields.

  \<^bold>\<open>Lemma groups.\<close> Each data theory shows its codec contract and the meaning of its validation. The
  \<open>_frame\<close> and \<open>_simps\<close> lemmas of \<open>Membership\<close> and \<open>State_Laws\<close> say which facts a step keeps;
  \<open>established_iff\<close> characterises when a member is established, and \<open>established_mono\<close> that standing is
  monotone in the established members; \<open>active_member_is_current\<close> tells active, degraded and other
  members apart; \<open>derived_shape\<close> and \<open>derived_grant\<close> reduce a statement about
  the derived state to its members before authority was settled; the \<open>granted_\<close> lemmas of
  \<open>Authority\<close> peel one step of the evaluator each. The \<open>_keeps\<close> lemmas of \<open>Durability\<close> and
  \<open>Requests_Leases\<close> carry the invariant of the coordinator over an operation; \<open>read_written\<close> and
  \<open>read_message_Inr\<close> are the two directions of reading a frame; \<open>remote\<close> and \<open>answered\<close> of
  \<open>remote_operation\<close> reduce a method of the client to the coordinator's operation.

  \<^bold>\<open>Bounds.\<close> The standing fixpoint has the code's bound of \<^verbatim>\<open>kMaxMembers + 2\<close> rounds, which
  \<open>standing_fixpoint_converges\<close> shows to be enough for every input the code accepts. The lineage loop
  has the code's guard (one more than the number of artefacts). The scan of a journal recurs on the
  bytes that are left and the decision passes of the coordinator on the code's bound of passes. All
  other loops are structural.

  \<^bold>\<open>The disk.\<close> The journal runs over a model of its own file layer: a disk maps the journal file and
  the temporary file of a compaction to bytes, and a script says of each system call to come whether
  it completes, fails, or writes a part of its bytes only. A restart keeps the bytes and nothing
  else. Bytes that were written are taken to be on the disk, flushed or not. The properties of the
  journal hold for the scripts they name; the properties over all runs of a coordinator (\<open>reachable\<close>,
  \<open>sound\<close>) are about disks on which every call completes.

  \<^bold>\<open>The network.\<close> A socket holds the bytes its peer will send, how that stream ends, and how many more
  bytes it takes before a send fails; a property that holds for every socket holds for every peer.
  A connection of a client and the coordinator is working (\<open>carries\<close>) when each reads what the other
  wrote. What the operating system answers to a connection attempt, a bind or a receive of the
  control channel is an argument, and so is a random identifier.

  \<^bold>\<open>Not modelled.\<close> Entropy (\<^verbatim>\<open>random.cpp\<close>), child processes (\<^verbatim>\<open>process.cpp\<close>) and the system calls of
  \<^verbatim>\<open>net.cpp\<close> that open, accept and close sockets are operating-system effects. Of the threads, the
  worker and listener threads of \<^verbatim>\<open>coordinator.cpp\<close> with their queue and the list of active sockets are
  left out: every public operation of the coordinator holds one mutex from beginning to end, so that
  the interleavings of threads are sequences of operations, and the properties over runs quantify
  over those sequences. The overload of the JSON writer for floating-point numbers formats with the
  C library and has no caller in the library. The command line tools, the examples and the
  benchmarks around the library stay outside: they parse arguments, print results and call the
  operations modelled here.
\<close>

section \<open>Authority over a derived state\<close>

lemma find_member_mem: "find_member st i = Some m \<Longrightarrow> m \<in> set (fs_members st) \<and> mb_member m = i"
  by (auto simp: find_member_def find_Some_iff)

text \<open>A federation grant that is exercised over a derived state is one the member holds.\<close>

lemma derived_exercise:
  assumes "derive_state H inputs = Inr r" "di_policy inputs = Some fallback"
    and "di_catalog inputs = Some catalog"
    and "ad_outcome (evaluate_authority H q (dr_state r) policy catalog) = Outcome_Granted"
    and "fst (classify catalog (sg_scope (rq_requested q))) \<noteq> Class_Local"
  obtains m where "m \<in> set (fs_members (dr_state r))" "mb_member m = mi_member (rq_actor q)"
    "rq_requested q \<in> set (mb_federation_authority m)"
    "member_may_exercise q (dr_state r) policy (fst (classify catalog (sg_scope (rq_requested q)))) m"
proof -
  from assms(4,5) obtain m where m: "find_member (dr_state r) (mi_member (rq_actor q)) = Some m"
    "member_may_exercise q (dr_state r) policy (fst (classify catalog (sg_scope (rq_requested q)))) m"
    by (auto simp: granted_authority_iff granted_steps)
  then obtain g where g: "g \<in> set (mb_federation_authority m)" "sg_verb g = sg_verb (rq_requested q)"
    "covers (sg_scope g) (sg_scope (rq_requested q))"
    by (auto simp: member_may_exercise_def grants_cover_def)
  note mem = find_member_mem [OF m(1)]
  have "snd (classify catalog (sg_scope g))"
    by (rule derived_grant [OF assms(1-3) conjunct1 [OF mem] g(1)]) (auto dest: term_granted_known)
  then have "g = rq_requested q" using g by (simp add: known_scope_concrete)
  with that mem g(1) m(2) show ?thesis by blast
qed

section \<open>Properties\<close>

text \<open>
  C1: exercised federation authority is warranted. When the evaluator grants a request for a
  non-local scope over a derived state and under the policy in force there, the acting member is grounded in the evidence from the
  genesis record on, it delegated exactly the requested grant itself in a term that has not expired
  and that it has not withdrawn, the request is fresh and names the current epoch, and a
  global-mutation scope is granted only while global mutation is not suspended.
\<close>

theorem exercised_authority_is_warranted:
  assumes "derive_state H inputs = Inr r" "di_policy inputs = Some fallback"
    and "di_catalog inputs = Some catalog" "policy = derived_policy H inputs fallback catalog"
    and "ad_outcome (evaluate_authority H q (dr_state r) policy catalog) = Outcome_Granted"
    and "fst (classify catalog (sg_scope (rq_requested q))) \<noteq> Class_Local"
  shows "grounded H (derived_artifacts H inputs catalog)
      (round_context inputs catalog policy (derived_artifacts H inputs catalog) (dr_state r) [])
      (derived_members H inputs catalog) (mi_member (rq_actor q)) \<and>
    (\<exists>m \<in> set (fs_members (dr_state r)). mb_member m = mi_member (rq_actor q) \<and>
       (\<exists>t \<in> set (mb_delegated_terms m). dt_grant t = rq_requested q \<and>
          (dt_not_after t = 0 \<or> fs_logical_time (dr_state r) \<le> dt_not_after t)) \<and>
       \<not> grants_cover (mb_withdrawn_grants m) (rq_requested q)) \<and>
    \<not> has_replay (dr_state r) (rq_id q) \<and> rq_epoch_seen q = fs_epoch (dr_state r) \<and>
    \<not> (fst (classify catalog (sg_scope (rq_requested q))) = Class_GlobalMutation \<and>
       global_mutation_suspended policy (dr_state r))"
proof -
  obtain m where m: "m \<in> set (fs_members (dr_state r))" "mb_member m = mi_member (rq_actor q)"
    "rq_requested q \<in> set (mb_federation_authority m)"
    "member_may_exercise q (dr_state r) policy (fst (classify catalog (sg_scope (rq_requested q)))) m"
    by (rule derived_exercise [OF assms(1-3,5,6)])
  obtain t cl holds where t: "t \<in> set (mb_delegated_terms m)" "rq_requested q = dt_grant t"
    "term_granted catalog policy (dr_state r) cl m holds t"
    unfolding assms(4) by (rule derived_grant [OF assms(1-3) m(1,3)])
  have "established_lifecycle (mb_lifecycle m)"
    using m(4) by (auto simp: member_may_exercise_def established_lifecycle_def
        lifecycle_holds_federation_authority_def)
  then have "grounded H (derived_artifacts H inputs catalog)
      (round_context inputs catalog policy (derived_artifacts H inputs catalog) (dr_state r) [])
      (derived_members H inputs catalog) (mi_member (rq_actor q))"
    using derived_grounded [OF assms(1-3) m(1)] unfolding assms(4) m(2) by blast
  moreover have "dt_not_after t = 0 \<or> fs_logical_time (dr_state r) \<le> dt_not_after t"
    "\<not> grants_cover (mb_withdrawn_grants m) (rq_requested q)"
    using t(2,3) by (auto simp: term_granted_def Let_def case_prod_unfold)
  moreover have "\<not> has_replay (dr_state r) (rq_id q)" "rq_epoch_seen q = fs_epoch (dr_state r)"
    "\<not> (fst (classify catalog (sg_scope (rq_requested q))) = Class_GlobalMutation \<and>
       global_mutation_suspended policy (dr_state r))"
    using assms(5) m(4) by (auto simp: granted_authority_iff granted_steps member_may_exercise_def)
  ultimately show ?thesis using m(1,2) t(1,2) by fastforce
qed

text \<open>
  C2: exclusive authority is exercised by one member. When a request for a grant over a non-local scope
  that its actor delegated exclusively is granted over a derived state, no request of another member
  for the same grant is granted over that state. A local scope is out of the federation's hands: the
  evaluator grants it to everybody who asks, also where a term claims it exclusively.
\<close>

theorem exclusive_authority_is_exercised_by_one:
  assumes "derive_state H inputs = Inr r" "di_policy inputs = Some fallback"
    and "di_catalog inputs = Some catalog"
    and "ad_outcome (evaluate_authority H q (dr_state r) policy catalog) = Outcome_Granted"
    and "ad_outcome (evaluate_authority H q' (dr_state r) policy' catalog) = Outcome_Granted"
    and "rq_requested q' = rq_requested q"
    and "fst (classify catalog (sg_scope (rq_requested q))) \<noteq> Class_Local"
    and "\<forall>m \<in> set (fs_members (dr_state r)). mb_member m = mi_member (rq_actor q) \<longrightarrow>
           (\<exists>t \<in> set (mb_delegated_terms m). dt_grant t = rq_requested q \<and> dt_mode t = Mode_Exclusive)"
  shows "mi_member (rq_actor q') = mi_member (rq_actor q)"
proof (rule ccontr)
  assume ne: "mi_member (rq_actor q') \<noteq> mi_member (rq_actor q)"
  obtain m where m: "m \<in> set (fs_members (dr_state r))" "mb_member m = mi_member (rq_actor q)"
    "rq_requested q \<in> set (mb_federation_authority m)"
    by (rule derived_exercise [OF assms(1-4,7)])
  have "fst (classify catalog (sg_scope (rq_requested q'))) \<noteq> Class_Local" using assms(6,7) by simp
  then obtain m' where m': "m' \<in> set (fs_members (dr_state r))" "mb_member m' = mi_member (rq_actor q')"
    "rq_requested q' \<in> set (mb_federation_authority m')"
    by (rule derived_exercise [OF assms(1-3,5)])
  obtain t where "t \<in> set (mb_delegated_terms m)" "dt_grant t = rq_requested q" "dt_mode t = Mode_Exclusive"
    using assms(8) m(1,2) by blast
  with derived_exclusive [OF assms(1-3) m(1) m'(1) _ this(1,3)] m m' ne assms(6) show False by simp
qed

text \<open>
  C26: local authority survives every federation outcome. Whatever lifecycle a member has in the
  derived state, the grants recorded as its retained local authority are those of its declared
  constitution, and the local evaluation grants exactly what they cover.
\<close>

theorem local_authority_survives:
  assumes "derive_state H inputs = Inr r" "m \<in> set (fs_members (dr_state r))"
  shows "ad_outcome (evaluate_local_authority H (md_constitution (mb_declaration m)) g now) =
      (if grants_cover (mb_retained_local_authority m) g then Outcome_Granted else Outcome_Refused)"
proof -
  have "grants_cover (mb_retained_local_authority m) g \<longleftrightarrow>
      grants_cover (mc_retained (md_constitution (mb_declaration m))) g"
    unfolding derived_retained [OF assms] by (simp add: grants_cover_def canonicalize_grants_def)
  then show ?thesis by (auto simp: evaluate_local_authority_def Let_def)
qed

section \<open>Witnesses\<close>

text \<open>The founder asks to advance the epoch of the federation it founded.\<close>

definition founder_request :: AuthorityRequest where
  "founder_request =
     \<lparr>rq_id = 1, rq_federation = 1, rq_epoch_seen = 1,
      rq_actor = declaration_identity toy_hash founder_declaration,
      rq_requested = dt_grant (sample_term ''federation.epoch.advance''), rq_lease = 0,
      rq_issued_at = 5, rq_constraint = []\<rparr>"

lemma founder_request_granted:
  obtains r m where "derive_state toy_hash founding_inputs = Inr r"
    "fs_members (dr_state r) = [m]" "mb_member m = 3"
    "mb_delegated_terms m = [sample_term ''federation.epoch.advance'']"
    "ad_outcome (evaluate_authority toy_hash founder_request (dr_state r) founding_policy builtin) =
       Outcome_Granted"
proof -
  let ?t = "sample_term ''federation.epoch.advance''"
  obtain r m where r: "derive_state toy_hash founding_inputs = Inr r" "m \<in> set (fs_members (dr_state r))"
    and m: "mb_member m = 3" "mb_lifecycle m = Lifecycle_Active" "mb_delegated_terms m = [?t]"
      "dt_grant ?t \<in> set (mb_federation_authority m)"
      "mb_current_identity m = declaration_identity toy_hash founder_declaration" "mb_conflicts m = []"
    and s: "fs_members (dr_state r) = [m]" "fs_epoch (dr_state r) = 1"
      "fs_federation (dr_state r) = 1" "fs_replay_ledger (dr_state r) = []"
    by (rule founding_state)
  obtain t cl holds where t: "dt_grant t = dt_grant ?t"
    "term_granted builtin founding_policy (dr_state r) cl m holds t"
    using derived_grant [OF r(1) founding_inputs_fields(1,2) r(2) m(4)]
    unfolding founding_policy_in_force by metis
  have "\<not> global_mutation_suspended founding_policy (dr_state r)"
    using t(2) by (simp add: term_granted_def Let_def t(1) founding_scope)
  moreover have "\<not> lease_required founding_policy (rq_requested founder_request)" by code_simp
  moreover have "grants_cover (mb_federation_authority m) (rq_requested founder_request)"
    using m(4) by (auto simp: grants_cover_def founder_request_def)
  ultimately have "member_may_exercise founder_request (dr_state r) founding_policy
      Class_GlobalMutation m"
    using m by (simp add: member_may_exercise_def lease_satisfied_def compare_identities_def
        lifecycle_holds_federation_authority_def founder_request_def)
  moreover have "find_member (dr_state r) (mi_member (rq_actor founder_request)) = Some m"
    using s m by (simp add: find_member_def founder_request_def)
  ultimately have "ad_outcome (evaluate_authority toy_hash founder_request (dr_state r)
      founding_policy builtin) = Outcome_Granted"
    unfolding granted_authority_iff granted_steps
    using s by (simp add: founder_request_def founding_scope has_replay_def)
  with that r s(1) m(1,3) show ?thesis by blast
qed

lemma founder_request_global:
  "fst (classify builtin (sg_scope (rq_requested founder_request))) \<noteq> Class_Local"
  by (simp add: founder_request_def founding_scope)

theorem exercised_authority_is_warranted_witness:
  "\<exists>r. derive_state toy_hash founding_inputs = Inr r \<and>
     \<not> global_mutation_suspended founding_policy (dr_state r) \<and>
     rq_epoch_seen founder_request = fs_epoch (dr_state r)"
proof -
  obtain r m where r: "derive_state toy_hash founding_inputs = Inr r"
    "ad_outcome (evaluate_authority toy_hash founder_request (dr_state r) founding_policy builtin) =
       Outcome_Granted"
    by (rule founder_request_granted)
  from exercised_authority_is_warranted [OF r(1) founding_inputs_fields(1,2)
      founding_policy_in_force [symmetric] r(2) founder_request_global] r(1)
  show ?thesis by (simp add: founder_request_def founding_scope)
qed

theorem exclusive_authority_is_exercised_by_one_witness:
  "\<exists>r. derive_state toy_hash founding_inputs = Inr r \<and>
     (\<forall>actor. ad_outcome (evaluate_authority toy_hash (founder_request\<lparr>rq_actor := actor\<rparr>)
          (dr_state r) founding_policy builtin) = Outcome_Granted \<longrightarrow> mi_member actor = 3)"
proof -
  obtain r m where r: "derive_state toy_hash founding_inputs = Inr r"
    and m: "fs_members (dr_state r) = [m]" "mb_member m = 3"
      "mb_delegated_terms m = [sample_term ''federation.epoch.advance'']"
    and granted: "ad_outcome (evaluate_authority toy_hash founder_request (dr_state r)
      founding_policy builtin) = Outcome_Granted"
    by (rule founder_request_granted)
  have actor: "mi_member (rq_actor founder_request) = 3" by (simp add: founder_request_def)
  have "mi_member a = 3"
    if "ad_outcome (evaluate_authority toy_hash (founder_request\<lparr>rq_actor := a\<rparr>) (dr_state r)
      founding_policy builtin) = Outcome_Granted" for a
    using exclusive_authority_is_exercised_by_one [OF r founding_inputs_fields(1,2) granted that _
        founder_request_global] m
    by (simp add: actor) (simp add: founder_request_def sample_term_def)
  with r show ?thesis by blast
qed

theorem local_authority_survives_witness:
  "\<exists>r m. derive_state toy_hash founding_inputs = Inr r \<and> m \<in> set (fs_members (dr_state r)) \<and>
     ad_outcome (evaluate_local_authority toy_hash (md_constitution (mb_declaration m))
       \<lparr>sg_scope = ''domain.x'', sg_verb = Verb_Observe\<rparr> 5) =
     (if grants_cover (mb_retained_local_authority m) \<lparr>sg_scope = ''domain.x'', sg_verb = Verb_Observe\<rparr>
      then Outcome_Granted else Outcome_Refused)"
proof -
  obtain r m where "derive_state toy_hash founding_inputs = Inr r" "m \<in> set (fs_members (dr_state r))"
    by (rule founding_state)
  with local_authority_survives [OF this] show ?thesis by blast
qed

end
